(* ===== verification/Gratia_Prelude.thy ===== *)
theory Gratia_Prelude
  imports Main "HOL-Library.AList"
begin

text \<open>
  Shared vocabulary of the development: Rust's fixed-width unsigned integers as bounded
  naturals with each arithmetic flavour (\<^verbatim>\<open>checked_\<close>, \<^verbatim>\<open>saturating_\<close>, and the plain
  operators, which wrap in the release profile the workspace ships) written out, the
  \<^verbatim>\<open>std::collections::HashMap\<close> operations as operations on association lists with distinct
  keys, chrono's \<^verbatim>\<open>DateTime\<close>/\<^verbatim>\<open>TimeDelta\<close> as a number of nanoseconds, and the contract of
  a machine that keeps an invariant over every sequence of calls.
\<close>

named_theorems rust_arith \<open>definitions of the fixed-width integer operations\<close>
named_theorems inv_intro \<open>invariant preservation, one rule per operation\<close>

section \<open>Fixed-width unsigned integers\<close>

type_synonym u8 = nat
type_synonym u16 = nat
type_synonym u32 = nat
type_synonym u64 = nat
type_synonym u128 = nat
type_synonym usize = nat

definition U8_MAX :: nat where [rust_arith]: "U8_MAX = 255"
definition U32_MAX :: nat where [rust_arith]: "U32_MAX = 4294967295"
definition U64_MAX :: nat where [rust_arith]: "U64_MAX = 18446744073709551615"
definition U128_MAX :: nat where [rust_arith]: "U128_MAX = 340282366920938463463374607431768211455"

text \<open>\<^verbatim>\<open>a as u64\<close>: keep the low 64 bits.\<close>
definition as_u64 :: "nat \<Rightarrow> u64" where [rust_arith]: "as_u64 n = n mod (U64_MAX + 1)"
definition as_u32 :: "nat \<Rightarrow> u32" where [rust_arith]: "as_u32 n = n mod (U32_MAX + 1)"

definition checked_add_u64 :: "u64 \<Rightarrow> u64 \<Rightarrow> u64 option" where [rust_arith]:
  "checked_add_u64 a b = (if a + b \<le> U64_MAX then Some (a + b) else None)"
definition checked_mul_u128 :: "u128 \<Rightarrow> u128 \<Rightarrow> u128 option" where [rust_arith]:
  "checked_mul_u128 a b = (if a * b \<le> U128_MAX then Some (a * b) else None)"
definition checked_sub_u64 :: "u64 \<Rightarrow> u64 \<Rightarrow> u64 option" where [rust_arith]:
  "checked_sub_u64 a b = (if b \<le> a then Some (a - b) else None)"
definition saturating_add_u64 :: "u64 \<Rightarrow> u64 \<Rightarrow> u64" where [rust_arith]:
  "saturating_add_u64 a b = min (a + b) U64_MAX"
definition saturating_mul_u64 :: "u64 \<Rightarrow> u64 \<Rightarrow> u64" where [rust_arith]:
  "saturating_mul_u64 a b = min (a * b) U64_MAX"
definition saturating_sub :: "nat \<Rightarrow> nat \<Rightarrow> nat" where [rust_arith]:
  "saturating_sub a b = (if b \<le> a then a - b else 0)"
definition saturating_add_u8 :: "u8 \<Rightarrow> u8 \<Rightarrow> u8" where [rust_arith]:
  "saturating_add_u8 a b = min (a + b) U8_MAX"

text \<open>The plain operators of the release profile: reduction modulo the width.\<close>
definition add_u64 :: "u64 \<Rightarrow> u64 \<Rightarrow> u64" where [rust_arith]:
  "add_u64 a b = (a + b) mod (U64_MAX + 1)"
definition sub_u64 :: "u64 \<Rightarrow> u64 \<Rightarrow> u64" where [rust_arith]:
  "sub_u64 a b = (a + (U64_MAX + 1) - b) mod (U64_MAX + 1)"
definition mul_u64 :: "u64 \<Rightarrow> u64 \<Rightarrow> u64" where [rust_arith]:
  "mul_u64 a b = (a * b) mod (U64_MAX + 1)"
definition add_u32 :: "u32 \<Rightarrow> u32 \<Rightarrow> u32" where [rust_arith]:
  "add_u32 a b = (a + b) mod (U32_MAX + 1)"
definition mul_u128 :: "u128 \<Rightarrow> u128 \<Rightarrow> u128" where [rust_arith]:
  "mul_u128 a b = (a * b) mod (U128_MAX + 1)"

lemma as_u64_id [simp]: "n \<le> U64_MAX \<Longrightarrow> as_u64 n = n"
  by (simp add: as_u64_def)

lemma as_u64_bound [simp]: "as_u64 n \<le> U64_MAX"
  by (simp add: as_u64_def U64_MAX_def)

lemma add_u64_id [simp]: "a + b \<le> U64_MAX \<Longrightarrow> add_u64 a b = a + b"
  by (simp add: add_u64_def)

lemma add_u64_bound [simp]: "add_u64 a b \<le> U64_MAX"
  by (simp add: add_u64_def U64_MAX_def)

lemma sub_u64_id [simp]: "b \<le> a \<Longrightarrow> a \<le> U64_MAX \<Longrightarrow> sub_u64 a b = a - b"
proof -
  assume "b \<le> a" "a \<le> U64_MAX"
  then have "a + (U64_MAX + 1) - b = (a - b) + (U64_MAX + 1)" by simp
  then have "sub_u64 a b = ((a - b) + (U64_MAX + 1)) mod (U64_MAX + 1)"
    by (simp only: sub_u64_def)
  also have "\<dots> = (a - b) mod (U64_MAX + 1)" by (rule mod_add_self2)
  finally show ?thesis using \<open>a \<le> U64_MAX\<close> by simp
qed

lemma mul_u64_id [simp]: "a * b \<le> U64_MAX \<Longrightarrow> mul_u64 a b = a * b"
  by (simp add: mul_u64_def)

lemma add_u32_id [simp]: "a + b \<le> U32_MAX \<Longrightarrow> add_u32 a b = a + b"
  by (simp add: add_u32_def)

lemma saturating_sub_eq [simp]: "saturating_sub a b = a - b"
  by (simp add: saturating_sub_def)

lemma saturating_add_u64_bound [simp]: "saturating_add_u64 a b \<le> U64_MAX"
  by (simp add: saturating_add_u64_def)

lemma saturating_add_u64_id [simp]: "a + b \<le> U64_MAX \<Longrightarrow> saturating_add_u64 a b = a + b"
  by (simp add: saturating_add_u64_def)

lemma checked_add_u64_Some [simp]:
  "checked_add_u64 a b = Some c \<longleftrightarrow> a + b \<le> U64_MAX \<and> c = a + b"
  by (auto simp: checked_add_u64_def)

lemma checked_add_u64_None [simp]: "checked_add_u64 a b = None \<longleftrightarrow> U64_MAX < a + b"
  by (auto simp: checked_add_u64_def)

text \<open>
  A product of two 64-bit values fits in 128 bits, so the \<^verbatim>\<open>u128\<close> intermediates the code
  uses before dividing never overflow.
\<close>

lemma u64_mult_le_U128: "a \<le> U64_MAX \<Longrightarrow> b \<le> U64_MAX \<Longrightarrow> a * b \<le> U128_MAX"
proof -
  assume "a \<le> U64_MAX" "b \<le> U64_MAX"
  then have "a * b \<le> U64_MAX * U64_MAX" by (rule mult_le_mono)
  also have "\<dots> \<le> U128_MAX" by (simp add: U64_MAX_def U128_MAX_def)
  finally show ?thesis .
qed

lemma mul_u128_id [simp]: "a * b \<le> U128_MAX \<Longrightarrow> mul_u128 a b = a * b"
  by (simp add: mul_u128_def)

lemma u64_share_le:
  fixes a t y :: nat
  assumes "a \<le> t"
  shows "a * y div t \<le> y"
proof (cases "t = 0")
  case False
  have "a * y \<le> t * y" using assms by simp
  then have "a * y div t \<le> t * y div t" by (rule div_le_mono)
  with False show ?thesis by simp
qed simp

lemma bps_le:
  fixes a bps :: nat
  assumes "bps \<le> 10000"
  shows "a * bps div 10000 \<le> a"
  using u64_share_le [OF assms, of a] by (simp add: mult.commute)

section \<open>Results\<close>

text \<open>\<^verbatim>\<open>Result<T, E>\<close>: an error on the left. An operation that mutates its receiver also
  returns the receiver, on the error paths too, because Rust keeps what was written before
  the early return.\<close>

type_synonym ('e, 'a) result = "'e + 'a"

abbreviation Err :: "'e \<Rightarrow> ('e, 'a) result" where "Err \<equiv> Inl"
abbreviation Ok :: "'a \<Rightarrow> ('e, 'a) result" where "Ok \<equiv> Inr"

definition is_ok :: "('e, 'a) result \<Rightarrow> bool" where
  "is_ok r = (case r of Inl _ \<Rightarrow> False | Inr _ \<Rightarrow> True)"

lemma is_ok_simps [simp]: "is_ok (Ok a)" "\<not> is_ok (Err e)"
  by (simp_all add: is_ok_def)

lemma is_ok_iff: "is_ok r \<longleftrightarrow> (\<exists>a. r = Ok a)"
  by (cases r) auto

lemma inc_u64: "a < U64_MAX \<Longrightarrow> add_u64 a (Suc 0) = Suc a" "a < U64_MAX \<Longrightarrow> add_u64 a 1 = Suc a"
  by (simp_all add: add_u64_def U64_MAX_def)

section \<open>HashMap\<close>

text \<open>
  A \<^verbatim>\<open>HashMap<K, V>\<close> is an association list with distinct keys; the list order stands for
  the unspecified iteration order. \<^verbatim>\<open>get\<close> is \<^const>\<open>map_of\<close>, \<^verbatim>\<open>insert\<close> is
  \<^const>\<open>AList.update\<close>, \<^verbatim>\<open>remove\<close> is \<^const>\<open>AList.delete\<close>, \<^verbatim>\<open>len\<close> is
  \<^const>\<open>length\<close>.
\<close>

type_synonym ('k, 'v) hashmap = "('k \<times> 'v) list"

definition hm_ok :: "('k, 'v) hashmap \<Rightarrow> bool" where
  "hm_ok m = distinct (map fst m)"

definition contains_key :: "('k, 'v) hashmap \<Rightarrow> 'k \<Rightarrow> bool" where
  "contains_key m k = (map_of m k \<noteq> None)"

definition hm_sum :: "('v \<Rightarrow> nat) \<Rightarrow> ('k, 'v) hashmap \<Rightarrow> nat" where
  "hm_sum f m = sum_list (map (\<lambda>(_, v). f v) m)"

definition hm_map_values :: "('k \<Rightarrow> 'v \<Rightarrow> 'w) \<Rightarrow> ('k, 'v) hashmap \<Rightarrow> ('k, 'w) hashmap" where
  "hm_map_values f m = map (\<lambda>(k, v). (k, f k v)) m"

lemma hm_ok_Nil [simp]: "hm_ok []"
  by (simp add: hm_ok_def)

lemma hm_ok_update [simp]: "hm_ok m \<Longrightarrow> hm_ok (AList.update k v m)"
  by (simp add: hm_ok_def distinct_update)

lemma hm_ok_delete [simp]: "hm_ok m \<Longrightarrow> hm_ok (AList.delete k m)"
  by (simp add: hm_ok_def distinct_delete)

lemma map_of_update [simp]: "map_of (AList.update k v m) = (map_of m)(k \<mapsto> v)"
  by (simp add: update_conv')

lemma map_of_delete [simp]: "map_of (AList.delete k m) = (map_of m)(k := None)"
  by (simp add: delete_conv')

lemma hm_sum_Nil [simp]: "hm_sum f [] = 0"
  and hm_sum_Cons [simp]: "hm_sum f ((k, v) # m) = f v + hm_sum f m"
  by (simp_all add: hm_sum_def)

abbreviation hm_val :: "('v \<Rightarrow> nat) \<Rightarrow> ('k, 'v) hashmap \<Rightarrow> 'k \<Rightarrow> nat" where
  "hm_val f m k \<equiv> (case map_of m k of None \<Rightarrow> 0 | Some v \<Rightarrow> f v)"

lemma hm_sum_update: "hm_sum f (AList.update k v m) + hm_val f m k = hm_sum f m + f v"
  by (induction m) auto

lemma delete_notin: "k \<notin> fst ` set m \<Longrightarrow> AList.delete k m = m"
  by (induction m) auto

lemma hm_sum_delete: "hm_ok m \<Longrightarrow> hm_sum f (AList.delete k m) + hm_val f m k = hm_sum f m"
proof (induction m)
  case (Cons kv m)
  obtain k' v where kv: "kv = (k', v)" by (cases kv)
  show ?case
  proof (cases "k = k'")
    case True
    with Cons.prems kv have "k \<notin> fst ` set m" by (simp add: hm_ok_def)
    with True kv show ?thesis by (simp add: delete_notin)
  next
    case False
    with Cons kv show ?thesis by (auto simp: hm_ok_def split: option.splits)
  qed
qed simp

lemma hm_val_le_sum: "hm_val f m k \<le> hm_sum f m"
  by (induction m) (auto split: option.splits)

lemma map_of_map_values [simp]: "map_of (hm_map_values f m) k = map_option (f k) (map_of m k)"
  by (induction m) (auto simp: hm_map_values_def)

lemma hm_ok_map_values [simp]: "hm_ok (hm_map_values f m) = hm_ok m"
  by (simp add: hm_ok_def hm_map_values_def comp_def case_prod_beta)

section \<open>HashSet\<close>

text \<open>
  A \<^verbatim>\<open>HashSet<T>\<close> is a list without duplicates, again in an unspecified order:
  \<^verbatim>\<open>contains\<close> is membership, \<^verbatim>\<open>len\<close> is \<^const>\<open>length\<close>.
\<close>

type_synonym 'a hashset = "'a list"

definition hs_insert :: "'a \<Rightarrow> 'a hashset \<Rightarrow> 'a hashset" where
  "hs_insert x xs = (if x \<in> set xs then xs else xs @ [x])"

lemma hs_insert_set [simp]: "set (hs_insert x xs) = insert x (set xs)"
  by (auto simp: hs_insert_def)

lemma hs_insert_distinct [simp]: "distinct xs \<Longrightarrow> distinct (hs_insert x xs)"
  by (auto simp: hs_insert_def)

lemma hs_insert_new: "x \<notin> set xs \<Longrightarrow> hs_insert x xs = xs @ [x]"
  by (simp add: hs_insert_def)

text \<open>\<^verbatim>\<open>map.entry(k).or_default()\<close> for a map to collections: what is stored, or the empty one.\<close>
definition hm_entry :: "('k, 'a list) hashmap \<Rightarrow> 'k \<Rightarrow> 'a list" where
  "hm_entry m k = (case map_of m k of Some xs \<Rightarrow> xs | None \<Rightarrow> [])"

lemma hm_entry_Nil [simp]: "hm_entry [] k = []"
  by (simp add: hm_entry_def)

lemma hm_entry_update [simp]: "hm_entry (AList.update k xs m) = (hm_entry m)(k := xs)"
  by (auto simp: hm_entry_def fun_eq_iff)

section \<open>Bytes\<close>

text \<open>\<^verbatim>\<open>to_le_bytes\<close> of an unsigned integer of the given number of bytes.\<close>
primrec le_bytes :: "nat \<Rightarrow> nat \<Rightarrow> nat list" where
  "le_bytes 0 v = []"
| "le_bytes (Suc n) v = v mod 256 # le_bytes n (v div 256)"

lemma length_le_bytes [simp]: "length (le_bytes n v) = n"
  by (induction n arbitrary: v) simp_all

lemma le_bytes_inj: "v < 256 ^ n \<Longrightarrow> w < 256 ^ n \<Longrightarrow> le_bytes n v = le_bytes n w \<longleftrightarrow> v = w"
proof (induction n arbitrary: v w)
  case (Suc n)
  have "v div 256 < 256 ^ n" "w div 256 < 256 ^ n"
    using Suc.prems by (simp_all add: div_less_iff_less_mult mult.commute)
  with Suc.IH [of "v div 256" "w div 256"] show ?case
    by auto (metis mult_div_mod_eq)
qed simp

section \<open>Time\<close>

text \<open>
  A \<^verbatim>\<open>chrono::DateTime<Utc>\<close> is a number of nanoseconds since the epoch and a
  \<^verbatim>\<open>TimeDelta\<close> a difference of two of them. \<^verbatim>\<open>num_seconds\<close> truncates towards zero.
  The dates chrono cannot represent (beyond the year 262000) are left out.
\<close>

type_synonym datetime = int
type_synonym timedelta = int
type_synonym i64 = int

definition NANOS_PER_SEC :: int where "NANOS_PER_SEC = 1000000000"

definition trunc_div :: "int \<Rightarrow> int \<Rightarrow> int" where
  "trunc_div a b = (if 0 \<le> a then a div b else - ((- a) div b))"

definition num_seconds :: "timedelta \<Rightarrow> i64" where
  "num_seconds d = trunc_div d NANOS_PER_SEC"

definition num_hours :: "timedelta \<Rightarrow> i64" where
  "num_hours d = trunc_div (num_seconds d) 3600"

definition duration_seconds :: "i64 \<Rightarrow> timedelta" where
  "duration_seconds s = s * NANOS_PER_SEC"

text \<open>\<^verbatim>\<open>x as i64\<close> reinterprets the upper half of the range as negative numbers.\<close>
definition as_i64 :: "u64 \<Rightarrow> i64" where
  "as_i64 n = (if n < 9223372036854775808 then int n else int n - 18446744073709551616)"

text \<open>\<^verbatim>\<open>timestamp()\<close>: whole seconds since the epoch, rounded down; \<^verbatim>\<open>to_le_bytes\<close> of an
  \<^verbatim>\<open>i64\<close> writes its two's complement.\<close>
definition timestamp :: "datetime \<Rightarrow> i64" where
  "timestamp t = t div NANOS_PER_SEC"

definition i64_le_bytes :: "i64 \<Rightarrow> nat list" where
  "i64_le_bytes i = le_bytes 8 (nat (i mod 18446744073709551616))"

lemma length_i64_le_bytes [simp]: "length (i64_le_bytes i) = 8"
  by (simp add: i64_le_bytes_def)

lemma num_seconds_nonneg: "0 \<le> d \<Longrightarrow> 0 \<le> num_seconds d"
  by (simp add: num_seconds_def trunc_div_def NANOS_PER_SEC_def pos_imp_zdiv_nonneg_iff)

lemma num_seconds_mono:
  assumes "d \<le> d'"
  shows "num_seconds d \<le> num_seconds d'"
proof (cases "0 \<le> d'")
  case True
  have "d < 0 \<longrightarrow> 0 \<le> (- d) div NANOS_PER_SEC"
    by (simp add: NANOS_PER_SEC_def pos_imp_zdiv_nonneg_iff)
  moreover have "0 \<le> d' div NANOS_PER_SEC"
    using True by (simp add: NANOS_PER_SEC_def pos_imp_zdiv_nonneg_iff)
  moreover have "d div NANOS_PER_SEC \<le> d' div NANOS_PER_SEC"
    using assms by (simp add: NANOS_PER_SEC_def zdiv_mono1)
  ultimately show ?thesis
    using True by (auto simp: num_seconds_def trunc_div_def)
next
  case False
  then have "(- d') div NANOS_PER_SEC \<le> (- d) div NANOS_PER_SEC"
    using assms by (simp add: NANOS_PER_SEC_def zdiv_mono1)
  with False assms show ?thesis
    by (simp add: num_seconds_def trunc_div_def)
qed

section \<open>Printing numbers\<close>

text \<open>\<^verbatim>\<open>format!("{}", n)\<close> for an unsigned integer.\<close>
fun show_nat :: "nat \<Rightarrow> string" where
  "show_nat n = (if n < 10 then [char_of (48 + n)] else show_nat (n div 10) @ [char_of (48 + n mod 10)])"

declare show_nat.simps [simp del]

section \<open>Machines that keep an invariant\<close>

text \<open>
  The components are structs whose methods are called one after another, in any order and with
  any arguments the caller may form in the current state (\<open>guard\<close>). The contract: every such
  call keeps the invariant. The consequence, proved once: it holds after every sequence of
  calls, and at every point of it.
\<close>

primrec guarded :: "('s \<Rightarrow> 'e \<Rightarrow> bool) \<Rightarrow> ('s \<Rightarrow> 'e \<Rightarrow> 's) \<Rightarrow> 's \<Rightarrow> 'e list \<Rightarrow> bool" where
  "guarded g step s [] = True"
| "guarded g step s (e # es) = (g s e \<and> guarded g step (step s e) es)"

lemma guarded_True [simp]: "guarded (\<lambda>_ _. True) step s es"
  by (induction es arbitrary: s) simp_all

lemma guarded_append:
  "guarded g step s (es @ fs) \<longleftrightarrow> guarded g step s es \<and> guarded g step (foldl step s es) fs"
  by (induction es arbitrary: s) auto

locale keeps_invariant =
  fixes step :: "'s \<Rightarrow> 'e \<Rightarrow> 's"
    and guard :: "'s \<Rightarrow> 'e \<Rightarrow> bool"
    and inv :: "'s \<Rightarrow> bool"
  assumes step_inv: "inv s \<Longrightarrow> guard s e \<Longrightarrow> inv (step s e)"
begin

lemma run_inv: "inv s \<Longrightarrow> guarded guard step s es \<Longrightarrow> inv (foldl step s es)"
  by (induction es arbitrary: s) (simp_all add: step_inv)

lemma run_split_inv:
  "inv s \<Longrightarrow> guarded guard step s (es @ fs) \<Longrightarrow>
     inv (foldl step s es) \<and> guarded guard step (foldl step s es) fs"
  by (simp add: guarded_append run_inv)

end

text \<open>
  A quantity that no such call lowers is at every later point at least what it was: heights,
  one-way flags, sets that only grow.
\<close>

locale never_decreases = keeps_invariant step guard inv
  for step :: "'s \<Rightarrow> 'e \<Rightarrow> 's" and guard and inv +
  fixes measure_of :: "'s \<Rightarrow> 'q :: preorder"
  assumes step_mono: "inv s \<Longrightarrow> guard s e \<Longrightarrow> measure_of s \<le> measure_of (step s e)"
begin

lemma run_mono: "inv s \<Longrightarrow> guarded guard step s es \<Longrightarrow> measure_of s \<le> measure_of (foldl step s es)"
proof (induction es arbitrary: s)
  case (Cons e es)
  then have "measure_of s \<le> measure_of (step s e)" by (simp add: step_mono)
  also from Cons have "\<dots> \<le> measure_of (foldl step (step s e) es)" by (simp add: step_inv)
  finally show ?case by simp
qed simp

end

text \<open>
  A component that implements an abstract machine: every call it admits moves its abstraction as
  the abstract call does, so the abstraction of a run is the abstract run.
\<close>

locale refines_spec = keeps_invariant step guard inv
  for step :: "'s \<Rightarrow> 'e \<Rightarrow> 's" and guard and inv +
  fixes abs_of :: "'s \<Rightarrow> 'a" and spec_step :: "'a \<Rightarrow> 'e \<Rightarrow> 'a"
  assumes step_abs: "inv s \<Longrightarrow> guard s e \<Longrightarrow> abs_of (step s e) = spec_step (abs_of s) e"
begin

lemma run_abs:
  "inv s \<Longrightarrow> guarded guard step s es \<Longrightarrow> abs_of (foldl step s es) = foldl spec_step (abs_of s) es"
  by (induction es arbitrary: s) (simp_all add: step_inv step_abs)

end

section \<open>Ballot boxes\<close>

text \<open>
  The contract of a place where each voter may be counted once per item: an accepted ballot comes
  from a voter not yet listed and appends it to the list of its item only, a refused ballot leaves
  the lists alone. Two components provide it, the votes on proposals and the votes on polls.
\<close>

primrec accepted_of :: "('s \<Rightarrow> 'b \<Rightarrow> bool) \<Rightarrow> ('s \<Rightarrow> 'b \<Rightarrow> 's) \<Rightarrow> 's \<Rightarrow> 'b list \<Rightarrow> 'b list" where
  "accepted_of accepts cast s [] = []"
| "accepted_of accepts cast s (b # bs) =
     (if accepts s b then b # accepted_of accepts cast (cast s b) bs
      else accepted_of accepts cast (cast s b) bs)"

locale ballot_box =
  fixes accepts :: "'s \<Rightarrow> 'b \<Rightarrow> bool" and cast :: "'s \<Rightarrow> 'b \<Rightarrow> 's"
    and item_of :: "'b \<Rightarrow> 'i" and voter_of :: "'b \<Rightarrow> 'v"
    and voters :: "'s \<Rightarrow> 'i \<Rightarrow> 'v list" and box_ok :: "'s \<Rightarrow> bool"
  assumes accepted: "box_ok s \<Longrightarrow> accepts s b \<Longrightarrow> voter_of b \<notin> set (voters s (item_of b))
      \<and> voters (cast s b) = (voters s)(item_of b := voters s (item_of b) @ [voter_of b])"
    and refused: "box_ok s \<Longrightarrow> \<not> accepts s b \<Longrightarrow> voters (cast s b) = voters s"
    and cast_ok: "box_ok s \<Longrightarrow> box_ok (cast s b)"
begin

lemma run_ok: "box_ok s \<Longrightarrow> box_ok (foldl cast s bs)"
  by (induction bs arbitrary: s) (simp_all add: cast_ok)

lemma run_voters:
  "box_ok s \<Longrightarrow> voters (foldl cast s bs) i
     = voters s i @ map voter_of (filter (\<lambda>b. item_of b = i) (accepted_of accepts cast s bs))"
proof (induction bs arbitrary: s)
  case (Cons b bs)
  then show ?case
    using accepted [of s b] refused [of s b] cast_ok [of s b] by (cases "accepts s b") auto
qed simp

lemma run_distinct: "box_ok s \<Longrightarrow> distinct (voters s i) \<Longrightarrow> distinct (voters (foldl cast s bs) i)"
proof (induction bs arbitrary: s)
  case (Cons b bs)
  then have "distinct (voters (cast s b) i)"
    using accepted [of s b] refused [of s b] by (cases "accepts s b") auto
  with Cons show ?case by (simp add: cast_ok)
qed simp

lemma second_refused:
  assumes "box_ok s" "accepts s b" "item_of b' = item_of b" "voter_of b' = voter_of b"
  shows "\<not> accepts (foldl cast (cast s b) bs) b'"
proof -
  have "voter_of b \<in> set (voters (foldl cast (cast s b) bs) (item_of b))"
    using run_voters [of "cast s b" bs] accepted [OF assms(1,2)] cast_ok [OF assms(1)] by simp
  with accepted [of "foldl cast (cast s b) bs" b'] run_ok [of "cast s b" bs] cast_ok [OF assms(1)] assms(3,4)
  show ?thesis by auto
qed

end

end
