(* ===== verification/Core_Types.thy ===== *)
theory Core_Types
  imports Gratia_Prelude Complex_Main
begin

text \<open>
  The data model of \<^verbatim>\<open>gratia-core\<close>: identities, blocks, transactions, Proof of Life data,
  power, staking and governance records of \<^verbatim>\<open>types.rs\<close> and the configuration records of
  \<^verbatim>\<open>config.rs\<close>, with the methods those files define on them. A byte is a \<^typ>\<open>u8\<close>; the
  floating-point fields, on which nothing modelled here computes, are kept as exact rationals.
  SHA-256 is a parameter of the functions that call it.
\<close>

section \<open>Identities\<close>

type_synonym bytes = "u8 list"
type_synonym f32 = rat
type_synonym f64 = rat
type_synonym Lux = u64

definition LUX_PER_GRAT :: Lux where "LUX_PER_GRAT = 1000000"

datatype NodeId = NodeId (node_id_bytes: bytes)
datatype Address = Address (address_bytes: bytes)
datatype BlockHash = BlockHash (block_hash_bytes: bytes)
datatype TxHash = TxHash (tx_hash_bytes: bytes)
datatype ShardId = ShardId u16

definition byte_string :: "string \<Rightarrow> bytes" where
  "byte_string s = map of_char s"

definition NodeId_from_public_key :: "(bytes \<Rightarrow> bytes) \<Rightarrow> bytes \<Rightarrow> NodeId" where
  "NodeId_from_public_key sha256 key =
     NodeId (sha256 (byte_string ''gratia-node-id-v1:'' @ key))"

definition Address_from_public_key :: "(bytes \<Rightarrow> bytes) \<Rightarrow> bytes \<Rightarrow> Address" where
  "Address_from_public_key sha256 key =
     Address (sha256 (byte_string ''gratia-address-v1:'' @ key))"

definition Address_from_pubkey :: "(bytes \<Rightarrow> bytes) \<Rightarrow> bytes \<Rightarrow> Address" where
  "Address_from_pubkey sha256 pubkey_bytes =
     (if length pubkey_bytes \<noteq> 32 then Address (replicate 32 0)
      else Address (sha256 (byte_string ''gratia-address-v1:'' @ pubkey_bytes)))"

section \<open>Blocks and transactions\<close>

record BlockHeader =
  bh_height :: u64
  bh_timestamp :: datetime
  bh_parent_hash :: BlockHash
  bh_transactions_root :: bytes
  bh_state_root :: bytes
  bh_attestations_root :: bytes
  bh_producer :: NodeId
  bh_vrf_proof :: bytes
  bh_active_miners :: u64
  bh_geographic_diversity :: u16
  bh_producer_pubkey :: bytes

record ValidatorSignature =
  vs_validator :: NodeId
  vs_signature :: bytes

datatype Vote = VYes | VNo | VAbstain

record GeographicFilter =
  gf_lat :: f64
  gf_lon :: f64
  gf_radius_km :: f64

record GeoLocation =
  gl_lat :: f32
  gl_lon :: f32

datatype TransactionPayload =
    Transfer Address Lux
  | ShieldedTransfer bytes bytes bytes
  | Stake Lux
  | Unstake Lux
  | DeployContract bytes bytes
  | CallContract Address string bytes Lux
  | GovernanceProposal string string bytes
  | GovernanceVote bytes Vote
  | CreatePoll string "string list" u64 "GeographicFilter option"
  | PollVote bytes u32

record Transaction =
  tx_hash :: TxHash
  tx_payload :: TransactionPayload
  tx_sender_pubkey :: bytes
  tx_signature :: bytes
  tx_nonce :: u64
  tx_chain_id :: u32
  tx_fee :: Lux
  tx_timestamp :: datetime

section \<open>Proof of Life\<close>

record SensorFlags =
  sf_gps :: bool
  sf_accelerometer :: bool
  sf_wifi :: bool
  sf_bluetooth :: bool
  sf_gyroscope :: bool
  sf_ambient_light :: bool
  sf_cellular :: bool
  sf_barometer :: bool
  sf_magnetometer :: bool
  sf_nfc :: bool
  sf_secure_enclave :: bool
  sf_biometric :: bool
  sf_camera_hash :: bool
  sf_microphone_hash :: bool

record ProofOfLifeAttestation =
  pol_blinded_id :: bytes
  pol_nullifier :: bytes
  pol_zk_proof :: bytes
  pol_zk_commitments :: "bytes list option"
  pol_epoch_day :: u32
  pol_presence_score :: u8
  pol_sensor_flags :: SensorFlags
  pol_signature :: bytes

record Block =
  blk_header :: BlockHeader
  blk_transactions :: "Transaction list"
  blk_attestations :: "ProofOfLifeAttestation list"
  blk_validator_signatures :: "ValidatorSignature list"

definition bump :: "bool \<Rightarrow> u8 \<Rightarrow> u8 \<Rightarrow> u8" where
  "bump c k score = (if c then saturating_add_u8 score k else score)"

definition calculate_score :: "SensorFlags \<Rightarrow> u64 \<Rightarrow> u8" where
  "calculate_score f participation_days =
     (let score = 40;
          score = bump (sf_gyroscope f) 5 score;
          score = bump (sf_ambient_light f) 3 score;
          score = bump (sf_bluetooth f \<and> sf_wifi f) 5 score;
          score = bump (sf_cellular f) 8 score;
          score = bump (sf_barometer f) 5 score;
          score = bump (sf_magnetometer f) 4 score;
          score = bump (sf_nfc f) 5 score;
          score = bump (sf_secure_enclave f) 8 score;
          score = bump (sf_biometric f) 5 score;
          score = bump (sf_camera_hash f) 4 score;
          score = bump (sf_microphone_hash f) 4 score;
          score = bump (participation_days \<ge> 30) 2 score;
          score = bump (participation_days \<ge> 90) 2 score
      in min score 100)"

record ProofOfLifeConfig =
  min_daily_unlocks :: u32
  min_unlock_spread_hours :: u32
  min_interaction_sessions :: u32
  min_distinct_bt_environments :: u32
  onboarding_days :: u32
  grace_period_days :: u32
  consensus_threshold_score :: u8
  gps_sample_interval_secs :: u64

definition ProofOfLifeConfig_default :: ProofOfLifeConfig where
  "ProofOfLifeConfig_default =
     \<lparr> min_daily_unlocks = 10, min_unlock_spread_hours = 6, min_interaction_sessions = 3,
       min_distinct_bt_environments = 2, onboarding_days = 1, grace_period_days = 1,
       consensus_threshold_score = 40, gps_sample_interval_secs = 1800 \<rparr>"

record OptionalSensorData =
  os_gyroscope_active :: bool
  os_ambient_light_active :: bool
  os_cellular_connected :: bool
  os_cell_tower_count :: "u32 option"
  os_barometer_reading :: "f32 option"
  os_magnetometer_active :: bool
  os_nfc_available :: bool
  os_secure_enclave_attested :: bool
  os_biometric_confirmed :: bool
  os_camera_env_hash :: "bytes option"
  os_microphone_env_hash :: "bytes option"

record DailyProofOfLifeData =
  unlock_count :: u32
  first_unlock :: "datetime option"
  last_unlock :: "datetime option"
  interaction_sessions :: u32
  orientation_changed :: bool
  human_motion_detected :: bool
  gps_fix_obtained :: bool
  approximate_location :: "GeoLocation option"
  distinct_wifi_networks :: u32
  distinct_bt_environments :: u32
  bt_environment_change_count :: u32
  charge_cycle_event :: bool
  optional_sensors :: OptionalSensorData

definition is_valid :: "DailyProofOfLifeData \<Rightarrow> ProofOfLifeConfig \<Rightarrow> bool" where
  "is_valid d config =
     (let unlock_spread =
            (case (first_unlock d, last_unlock d) of
               (Some first_at, Some last_at) \<Rightarrow>
                 num_hours (last_at - first_at) \<ge> int (min_unlock_spread_hours config)
             | _ \<Rightarrow> False);
          interactions_ok = interaction_sessions d \<ge> min_interaction_sessions config;
          orientation_ok = orientation_changed d;
          motion_ok = human_motion_detected d;
          gps_ok = gps_fix_obtained d;
          network_ok = (distinct_wifi_networks d \<ge> 1 \<or> distinct_bt_environments d \<ge> 1);
          bt_variation_ok =
            (distinct_bt_environments d = 0
             \<or> (distinct_bt_environments d \<ge> min_distinct_bt_environments config
                \<and> bt_environment_change_count d \<ge> 1));
          charge_ok = charge_cycle_event d
      in unlock_count d \<ge> min_daily_unlocks config \<and> unlock_spread \<and> interactions_ok
         \<and> orientation_ok \<and> motion_ok \<and> gps_ok \<and> network_ok \<and> bt_variation_ok \<and> charge_ok)"

section \<open>Mining, staking, governance and poll records\<close>

datatype MiningState = MS_ProofOfLife | MS_PendingActivation | MS_Mining | MS_Throttled | MS_BatteryLow

record PowerState =
  is_plugged_in :: bool
  battery_percent :: u8
  cpu_temp_celsius :: f32
  is_throttled :: bool

definition can_mine :: "PowerState \<Rightarrow> bool" where
  "can_mine p = (is_plugged_in p \<and> battery_percent p \<ge> 80 \<and> \<not> is_throttled p)"

record StakeInfo =
  si_node_stake :: Lux
  si_overflow_amount :: Lux
  si_total_committed :: Lux
  si_staked_at :: datetime
  si_meets_minimum :: bool

datatype ProposalStatus =
  PS_Discussion | PS_Voting | PS_Approved | PS_Rejected | PS_Implemented | PS_Reverted

record Proposal =
  pr_id :: bytes
  pr_proposer :: NodeId
  pr_title :: string
  pr_description :: string
  pr_proposal_data :: bytes
  pr_submitted_at :: datetime
  pr_discussion_ends :: datetime
  pr_voting_ends :: datetime
  pr_implementation_date :: datetime
  pr_status :: ProposalStatus
  pr_votes_yes :: u64
  pr_votes_no :: u64
  pr_votes_abstain :: u64
  pr_eligible_voters :: u64

definition quorum_met :: "Proposal \<Rightarrow> bool" where
  "quorum_met p =
     (if pr_eligible_voters p = 0 then False
      else
        let total_votes = saturating_add_u64 (saturating_add_u64 (pr_votes_yes p) (pr_votes_no p))
                            (pr_votes_abstain p)
        in if total_votes > pr_eligible_voters p then False
           else let quorum_threshold = pr_eligible_voters p div 5
                in total_votes \<ge> quorum_threshold)"

definition passed :: "Proposal \<Rightarrow> bool" where
  "passed p =
     (if \<not> quorum_met p then False
      else
        let total_votes = saturating_add_u64 (pr_votes_yes p) (pr_votes_no p)
        in if pr_votes_yes p > pr_eligible_voters p \<or> pr_votes_no p > pr_eligible_voters p then False
           else saturating_mul_u64 (pr_votes_yes p) 2 > total_votes)"

record Poll =
  poll_id :: bytes
  poll_creator :: Address
  poll_question :: string
  poll_options :: "string list"
  poll_created_at :: datetime
  poll_expires_at :: datetime
  poll_votes :: "u64 list"
  poll_total_voters :: u64
  poll_geographic_filter :: "GeographicFilter option"
  poll_creation_fee_paid :: Lux

record PeerInfo =
  peer_node_id :: NodeId
  peer_shard :: ShardId
  peer_presence_score :: u8
  peer_mining_state :: MiningState
  peer_region :: "string option"

section \<open>Configuration\<close>

record MiningConfig =
  min_battery_percent :: u8
  max_cpu_temp_celsius :: f32
  power_check_interval_secs :: u64

definition MiningConfig_default :: MiningConfig where
  "MiningConfig_default =
     \<lparr> min_battery_percent = 80, max_cpu_temp_celsius = 40, power_check_interval_secs = 30 \<rparr>"

record StakingConfig =
  minimum_stake :: Lux
  activated_minimum_stake :: Lux
  staking_activation_threshold :: u64
  staking_activation_grace_secs :: u64
  per_node_cap :: Lux
  unstake_cooldown_secs :: u64
  slash_rate_bps :: u32

definition StakingConfig_default :: StakingConfig where
  "StakingConfig_default =
     \<lparr> minimum_stake = 0,
       activated_minimum_stake = 50 * LUX_PER_GRAT,
       staking_activation_threshold = 1000,
       staking_activation_grace_secs = 7 * 24 * 3600,
       per_node_cap = 1000 * LUX_PER_GRAT,
       unstake_cooldown_secs = 7 * 24 * 3600,
       slash_rate_bps = 1000 \<rparr>"

record GovernanceConfig =
  min_proposer_history_days :: u64
  discussion_period_secs :: u64
  voting_period_secs :: u64
  implementation_delay_secs :: u64
  passage_threshold_bps :: u32
  quorum_bps :: u32
  emergency_threshold_bps :: u32
  emergency_ratification_secs :: u64
  poll_creation_fee :: Lux

definition GovernanceConfig_default :: GovernanceConfig where
  "GovernanceConfig_default =
     \<lparr> min_proposer_history_days = 90,
       discussion_period_secs = 14 * 24 * 3600,
       voting_period_secs = 7 * 24 * 3600,
       implementation_delay_secs = 30 * 24 * 3600,
       passage_threshold_bps = 5100,
       quorum_bps = 2000,
       emergency_threshold_bps = 7500,
       emergency_ratification_secs = 90 * 24 * 3600,
       poll_creation_fee = 10 * LUX_PER_GRAT \<rparr>"

record NetworkConfig =
  chain_id :: u32
  target_block_time_secs :: u64
  max_block_size_bytes :: usize
  nc_committee_size :: usize
  nc_finality_threshold :: usize
  max_state_db_bytes :: u64

definition NetworkConfig_default :: NetworkConfig where
  "NetworkConfig_default =
     \<lparr> chain_id = 2, target_block_time_secs = 4, max_block_size_bytes = 262144,
       nc_committee_size = 21, nc_finality_threshold = 14,
       max_state_db_bytes = 5 * 1024 * 1024 * 1024 \<rparr>"

record RewardsConfig =
  block_reward :: Lux
  annual_reduction_bps :: u32
  geographic_bonus_max_bps :: u32
  zero_fee_nfc_threshold :: Lux

definition RewardsConfig_default :: RewardsConfig where
  "RewardsConfig_default =
     \<lparr> block_reward = 50 * LUX_PER_GRAT, annual_reduction_bps = 2500,
       geographic_bonus_max_bps = 15000, zero_fee_nfc_threshold = 10 * LUX_PER_GRAT \<rparr>"

record Config =
  cfg_mining :: MiningConfig
  cfg_proof_of_life :: ProofOfLifeConfig
  cfg_staking :: StakingConfig
  cfg_governance :: GovernanceConfig
  cfg_network :: NetworkConfig
  cfg_rewards :: RewardsConfig

definition Config_default :: Config where
  "Config_default =
     \<lparr> cfg_mining = MiningConfig_default,
       cfg_proof_of_life = ProofOfLifeConfig_default,
       cfg_staking = StakingConfig_default,
       cfg_governance = GovernanceConfig_default,
       cfg_network = NetworkConfig_default,
       cfg_rewards = RewardsConfig_default \<rparr>"

section \<open>Presence Score\<close>

text \<open>
  The eleven optional sensors and the two history bonuses add up to at most 60, so neither the
  saturating additions nor the final cap ever bite: the score is exactly the base plus the
  weights of what is present.
\<close>

definition sensor_weight :: "SensorFlags \<Rightarrow> u64 \<Rightarrow> nat" where
  "sensor_weight f days =
     5 * of_bool (sf_gyroscope f) + 3 * of_bool (sf_ambient_light f)
     + 5 * of_bool (sf_bluetooth f \<and> sf_wifi f) + 8 * of_bool (sf_cellular f)
     + 5 * of_bool (sf_barometer f) + 4 * of_bool (sf_magnetometer f) + 5 * of_bool (sf_nfc f)
     + 8 * of_bool (sf_secure_enclave f) + 5 * of_bool (sf_biometric f)
     + 4 * of_bool (sf_camera_hash f) + 4 * of_bool (sf_microphone_hash f)
     + 2 * of_bool (30 \<le> days) + 2 * of_bool (90 \<le> days)"

lemma bump_min: "bump c k (min 255 score) = min 255 (score + k * of_bool c)"
  by (cases c) (auto simp: bump_def saturating_add_u8_def U8_MAX_def min_def)

lemma of_bool_le_1: "(of_bool b :: nat) \<le> 1"
  by simp

lemma sensor_weight_le: "sensor_weight f days \<le> 60"
  unfolding sensor_weight_def
  using of_bool_le_1 [of "sf_gyroscope f"] of_bool_le_1 [of "sf_ambient_light f"]
    of_bool_le_1 [of "sf_bluetooth f \<and> sf_wifi f"] of_bool_le_1 [of "sf_cellular f"]
    of_bool_le_1 [of "sf_barometer f"] of_bool_le_1 [of "sf_magnetometer f"]
    of_bool_le_1 [of "sf_nfc f"] of_bool_le_1 [of "sf_secure_enclave f"]
    of_bool_le_1 [of "sf_biometric f"] of_bool_le_1 [of "sf_camera_hash f"]
    of_bool_le_1 [of "sf_microphone_hash f"] of_bool_le_1 [of "30 \<le> days"]
    of_bool_le_1 [of "90 \<le> days"]
  by linarith

lemma calculate_score_sum: "calculate_score f days = 40 + sensor_weight f days"
proof -
  have base: "bump c k 40 = min 255 (40 + k * of_bool c)" for c k
    using bump_min [of c k 40] by simp
  have "calculate_score f days = min (min 255 (40 + sensor_weight f days)) 100"
    by (simp only: calculate_score_def Let_def sensor_weight_def base bump_min add.assoc)
  then show ?thesis using sensor_weight_le [of f days] by simp
qed

section \<open>Passing a proposal\<close>

text \<open>Without corrupted counters the saturating arithmetic is exact: a proposal passes when turnout
  is between a fifth of the eligible voters (rounded down) and all of them, and yes beats no.\<close>
lemma passed_exact:
  assumes "pr_votes_yes p + pr_votes_no p + pr_votes_abstain p < U64_MAX"
  shows "passed p \<longleftrightarrow> 0 < pr_eligible_voters p
    \<and> pr_votes_yes p + pr_votes_no p + pr_votes_abstain p \<le> pr_eligible_voters p
    \<and> pr_eligible_voters p div 5 \<le> pr_votes_yes p + pr_votes_no p + pr_votes_abstain p
    \<and> pr_votes_no p < pr_votes_yes p"
  using assms by (auto simp: passed_def quorum_met_def Let_def saturating_add_u64_def
      saturating_mul_u64_def min_def)

text \<open>The thresholds a proposal must reach are lower than the documented ones, 51% of yes and no
  and 20% of the eligible voters: any bare majority passes, and the quorum is rounded down.\<close>

theorem passage_below_documented_thresholds:
  "(\<exists>p. passed p \<and> pr_votes_yes p * 10000
      < passage_threshold_bps GovernanceConfig_default * (pr_votes_yes p + pr_votes_no p))
   \<and> (\<exists>p. passed p \<and> (pr_votes_yes p + pr_votes_no p + pr_votes_abstain p) * 10000
      < quorum_bps GovernanceConfig_default * pr_eligible_voters p)"
proof
  define p where "p yes no elig = \<lparr> pr_id = [], pr_proposer = NodeId [], pr_title = [], pr_description = [],
    pr_proposal_data = [], pr_submitted_at = 0, pr_discussion_ends = 0, pr_voting_ends = 0,
    pr_implementation_date = 0, pr_status = PS_Voting, pr_votes_yes = yes, pr_votes_no = no,
    pr_votes_abstain = 0, pr_eligible_voters = elig \<rparr>" for yes no elig
  have fields [simp]: "pr_votes_yes (p yes no elig) = yes" "pr_votes_no (p yes no elig) = no"
    "pr_votes_abstain (p yes no elig) = 0" "pr_eligible_voters (p yes no elig) = elig" for yes no elig
    by (simp_all add: p_def)
  have "passed (p 101 100 1000)" "passed (p 1 0 9)"
    by (simp_all add: passed_exact U64_MAX_def)
  then show "\<exists>p. passed p \<and> pr_votes_yes p * 10000
      < passage_threshold_bps GovernanceConfig_default * (pr_votes_yes p + pr_votes_no p)"
    "\<exists>p. passed p \<and> (pr_votes_yes p + pr_votes_no p + pr_votes_abstain p) * 10000
      < quorum_bps GovernanceConfig_default * pr_eligible_voters p"
    by (intro exI [of _ "p 101 100 1000"] exI [of _ "p 1 0 9"]; simp add: GovernanceConfig_default_def)+
qed

end
