(* ===== verification/Emission.thy ===== *)
theory Emission
  imports Core_Types
begin

text \<open>
  The stateless emission schedule of \<^verbatim>\<open>gratia-core/src/emission.rs\<close>: every function of the
  file, with the 64-bit products and sums as the release profile computes them. The lemmas show
  that none of those operations wraps and that the schedule honours the supply: the yearly
  emissions sum to less than the mining supply however many years are added, and so does the
  reward of every block of the chain.
\<close>

definition TOTAL_MINING_SUPPLY_GRAT :: u64 where "TOTAL_MINING_SUPPLY_GRAT = 8500000000"
definition YEAR_1_EMISSION_GRAT :: u64 where "YEAR_1_EMISSION_GRAT = 2125000000"
definition ANNUAL_RETENTION_BPS :: u64 where "ANNUAL_RETENTION_BPS = 7500"
definition BLOCK_TIME_SECS :: u64 where "BLOCK_TIME_SECS = 4"
definition BLOCKS_PER_DAY :: u64 where "BLOCKS_PER_DAY = 86400 div BLOCK_TIME_SECS"
definition BLOCKS_PER_YEAR :: u64 where "BLOCKS_PER_YEAR = BLOCKS_PER_DAY * 365"

text \<open>The loop \<^verbatim>\<open>for _ in 1..year\<close> of \<^verbatim>\<open>annual_emission_grat\<close>.\<close>
primrec retention_loop :: "nat \<Rightarrow> u64 \<Rightarrow> u64" where
  "retention_loop 0 emission = emission"
| "retention_loop (Suc n) emission =
     retention_loop n (mul_u64 emission ANNUAL_RETENTION_BPS div 10000)"

definition annual_emission_grat :: "u32 \<Rightarrow> u64" where
  "annual_emission_grat year =
     (if year = 0 then 0 else retention_loop (year - 1) YEAR_1_EMISSION_GRAT)"

definition daily_budget_grat :: "u32 \<Rightarrow> u64" where
  "daily_budget_grat year = annual_emission_grat year div 365"

definition year_for_height :: "u64 \<Rightarrow> u32" where
  "year_for_height block_height =
     (let year_u64 = add_u64 (block_height div BLOCKS_PER_YEAR) 1
      in as_u32 (min year_u64 U32_MAX))"

definition block_reward_lux :: "u64 \<Rightarrow> Lux" where
  "block_reward_lux block_height =
     (let year = year_for_height block_height;
          daily_grat = daily_budget_grat year
      in mul_u64 daily_grat LUX_PER_GRAT div BLOCKS_PER_DAY)"

definition per_miner_block_reward_lux :: "u64 \<Rightarrow> u64 \<Rightarrow> Lux" where
  "per_miner_block_reward_lux block_height active_miners =
     (let total = block_reward_lux block_height
      in if active_miners = 0 then total else total div active_miners)"

definition cumulative_emission_grat :: "u32 \<Rightarrow> u64" where
  "cumulative_emission_grat up_to_year =
     foldl (\<lambda>total y. add_u64 total (annual_emission_grat y)) 0 [1..<Suc up_to_year]"

lemmas emission_consts =
  TOTAL_MINING_SUPPLY_GRAT_def YEAR_1_EMISSION_GRAT_def ANNUAL_RETENTION_BPS_def
  BLOCK_TIME_SECS_def BLOCKS_PER_DAY_def BLOCKS_PER_YEAR_def LUX_PER_GRAT_def

section \<open>The yearly emission\<close>

definition retain :: "nat \<Rightarrow> nat" where "retain e = e * 3 div 4"

lemma retention_step:
  assumes "e \<le> YEAR_1_EMISSION_GRAT"
  shows "mul_u64 e ANNUAL_RETENTION_BPS div 10000 = retain e"
proof -
  from assms have "e * ANNUAL_RETENTION_BPS \<le> U64_MAX"
    by (simp add: emission_consts U64_MAX_def)
  then have "mul_u64 e ANNUAL_RETENTION_BPS div 10000 = (e * 3) * 2500 div (4 * 2500)"
    by (simp add: ANNUAL_RETENTION_BPS_def)
  also have "\<dots> = retain e" unfolding retain_def by (rule div_mult_mult2) simp
  finally show ?thesis .
qed

lemma retain_le: "retain e \<le> e"
  by (simp add: retain_def)

lemma retention_loop_Suc:
  "e \<le> YEAR_1_EMISSION_GRAT \<Longrightarrow> retention_loop (Suc n) e = retain (retention_loop n e)
     \<and> retention_loop n e \<le> YEAR_1_EMISSION_GRAT"
proof (induction n arbitrary: e)
  case 0
  then show ?case by (simp add: retention_step)
next
  case (Suc n)
  then have "retain e \<le> YEAR_1_EMISSION_GRAT" using retain_le [of e] by simp
  with Suc.IH [of "retain e"] Suc.prems show ?case by (simp add: retention_step)
qed

lemma annual_first [simp]: "annual_emission_grat (Suc 0) = YEAR_1_EMISSION_GRAT"
  by (simp add: annual_emission_grat_def)

lemma annual_next: "1 \<le> y \<Longrightarrow> annual_emission_grat (Suc y) = retain (annual_emission_grat y)"
proof -
  assume "1 \<le> y"
  then obtain n where "y = Suc n" by (cases y) auto
  then show ?thesis
    using retention_loop_Suc [of YEAR_1_EMISSION_GRAT n] by (simp add: annual_emission_grat_def)
qed

lemma annual_le: "annual_emission_grat y \<le> YEAR_1_EMISSION_GRAT"
proof (cases y)
  case (Suc n)
  then show ?thesis
    using retention_loop_Suc [of YEAR_1_EMISSION_GRAT n] by (simp add: annual_emission_grat_def)
qed (simp add: annual_emission_grat_def)

lemma annual_antimono:
  assumes "1 \<le> y" "y \<le> z"
  shows "annual_emission_grat z \<le> annual_emission_grat y"
  using assms(2)
proof (induction z rule: dec_induct)
  case (step z)
  then show ?case
    using assms(1) annual_next [of z] retain_le [of "annual_emission_grat z"] by simp
qed simp

text \<open>The truncated division loses at least one GRAT a year, so the emission ends.\<close>

lemma annual_decays: "1 \<le> y \<Longrightarrow> annual_emission_grat y \<le> YEAR_1_EMISSION_GRAT - (y - 1)"
proof (induction y rule: dec_induct)
  case base
  then show ?case by simp
next
  case (step y)
  have "retain (annual_emission_grat y) \<le> annual_emission_grat y - 1"
    by (simp add: retain_def)
  with step show ?case by (simp add: annual_next)
qed

lemma annual_eventually_zero: "YEAR_1_EMISSION_GRAT < y \<Longrightarrow> annual_emission_grat y = 0"
  using annual_decays [of y] by simp

section \<open>The supply cap over years\<close>

lemma retain_budget: "retain e + 3 * retain e \<le> 3 * e"
  by (simp add: retain_def)

text \<open>What is emitted plus three times the current year never exceeds four times the first.\<close>

definition emission_bound :: "nat \<Rightarrow> nat" where
  "emission_bound n = (\<Sum>y = 1..n. annual_emission_grat y) + 3 * annual_emission_grat n"

lemma emission_bound_Suc:
  "1 \<le> n \<Longrightarrow> emission_bound (Suc n)
     = (\<Sum>y = 1..n. annual_emission_grat y)
       + (retain (annual_emission_grat n) + 3 * retain (annual_emission_grat n))"
  by (simp add: emission_bound_def annual_next)

lemma emission_bound_step: "1 \<le> n \<Longrightarrow> emission_bound (Suc n) \<le> emission_bound n"
  using retain_budget [of "annual_emission_grat n"]
  by (simp add: emission_bound_Suc) (simp add: emission_bound_def)

lemma emission_bound_antimono:
  assumes "1 \<le> m" "m \<le> n"
  shows "emission_bound n \<le> emission_bound m"
  using assms(2)
proof (induction n rule: dec_induct)
  case (step n)
  then show ?case using assms(1) emission_bound_step [of n] by simp
qed simp

lemma emission_bound_1: "emission_bound 1 = TOTAL_MINING_SUPPLY_GRAT"
  by (simp add: emission_bound_def emission_consts)

text \<open>Year five is the first whose exact emission is not whole, so the bound is strict.\<close>

lemma annual_by_pred: "2 \<le> y \<Longrightarrow> annual_emission_grat y = retain (annual_emission_grat (y - 1))"
  using annual_next [of "y - 1"] by simp

lemma annual_2: "annual_emission_grat 2 = 1593750000"
  and annual_3: "annual_emission_grat 3 = 1195312500"
  and annual_4: "annual_emission_grat 4 = 896484375"
proof -
  show 2: "annual_emission_grat 2 = 1593750000"
    by (simp add: annual_by_pred [of 2] retain_def emission_consts)
  show 3: "annual_emission_grat 3 = 1195312500"
    by (simp add: annual_by_pred [of 3] 2 retain_def)
  show "annual_emission_grat 4 = 896484375"
    by (simp add: annual_by_pred [of 4] 3 retain_def)
qed

lemma emission_bound_5: "emission_bound (Suc 4) < TOTAL_MINING_SUPPLY_GRAT"
proof -
  have "emission_bound (Suc 4) < emission_bound 4"
    by (simp only: emission_bound_Suc) (simp add: emission_bound_def annual_4 retain_def)
  then show ?thesis
    using emission_bound_antimono [of 1 4] emission_bound_1 by simp
qed

lemma yearly_sum_bound: "(\<Sum>y = 1..n. annual_emission_grat y) < TOTAL_MINING_SUPPLY_GRAT"
proof -
  have "emission_bound (max n 5) < TOTAL_MINING_SUPPLY_GRAT"
    using emission_bound_antimono [of 5 "max n 5"] emission_bound_5 by simp
  moreover have "(\<Sum>y = 1..n. annual_emission_grat y) \<le> (\<Sum>y = 1..max n 5. annual_emission_grat y)"
    by (rule sum_mono2) auto
  ultimately show ?thesis by (simp add: emission_bound_def)
qed

lemma cumulative_exact: "cumulative_emission_grat n = (\<Sum>y = 1..n. annual_emission_grat y)"
proof (induction n)
  case (Suc n)
  have "(\<Sum>y = 1..Suc n. annual_emission_grat y) \<le> U64_MAX"
    using yearly_sum_bound [of "Suc n"] by (simp add: emission_consts U64_MAX_def)
  with Suc show ?case by (simp add: cumulative_emission_grat_def)
qed (simp add: cumulative_emission_grat_def)

section \<open>The supply cap over blocks\<close>

lemma year_for_height_eq:
  assumes "h \<le> U64_MAX"
  shows "year_for_height h = min (Suc (h div BLOCKS_PER_YEAR)) U32_MAX"
proof -
  have "h div BLOCKS_PER_YEAR + 1 \<le> U64_MAX"
    using assms by (simp add: emission_consts U64_MAX_def)
  then show ?thesis
    by (simp add: year_for_height_def as_u32_def min_less_iff_disj)
qed

text \<open>The clamp of the year to 32 bits is harmless: the emission has ended long before.\<close>

lemma annual_clamp: "annual_emission_grat (min y U32_MAX) = annual_emission_grat y"
proof (cases "y \<le> U32_MAX")
  case False
  then have "YEAR_1_EMISSION_GRAT < y" by (simp add: U32_MAX_def emission_consts)
  moreover have "YEAR_1_EMISSION_GRAT < U32_MAX" by (simp add: U32_MAX_def emission_consts)
  ultimately show ?thesis using False by (simp add: annual_eventually_zero min_def)
qed (simp add: min_absorb1)

lemma block_reward_eq:
  assumes "h \<le> U64_MAX"
  shows "block_reward_lux h
    = annual_emission_grat (Suc (h div BLOCKS_PER_YEAR)) div 365 * LUX_PER_GRAT div BLOCKS_PER_DAY"
proof -
  have "annual_emission_grat (Suc (h div BLOCKS_PER_YEAR)) div 365 * LUX_PER_GRAT \<le> U64_MAX"
    using annual_le [of "Suc (h div BLOCKS_PER_YEAR)"]
    by (simp add: emission_consts U64_MAX_def)
  then show ?thesis
    by (simp add: block_reward_lux_def daily_budget_grat_def year_for_height_eq [OF assms]
        annual_clamp)
qed

lemma year_of_blocks_le:
  "BLOCKS_PER_YEAR * (e div 365 * LUX_PER_GRAT div BLOCKS_PER_DAY) \<le> e * LUX_PER_GRAT"
proof -
  have "BLOCKS_PER_DAY * (e div 365 * LUX_PER_GRAT div BLOCKS_PER_DAY) \<le> e div 365 * LUX_PER_GRAT"
    by (rule times_div_less_eq_dividend)
  then have "365 * (BLOCKS_PER_DAY * (e div 365 * LUX_PER_GRAT div BLOCKS_PER_DAY))
      \<le> 365 * (e div 365 * LUX_PER_GRAT)" by (rule mult_le_mono2)
  also have "\<dots> \<le> e * LUX_PER_GRAT"
    using times_div_less_eq_dividend [of 365 e] by (simp add: LUX_PER_GRAT_def)
  finally show ?thesis by (simp add: BLOCKS_PER_YEAR_def mult.assoc mult.left_commute)
qed

text \<open>The block reward as a function of the year, total on the naturals.\<close>

definition reward_of_year :: "nat \<Rightarrow> nat" where
  "reward_of_year y = annual_emission_grat y div 365 * LUX_PER_GRAT div BLOCKS_PER_DAY"

lemma BLOCKS_PER_YEAR_pos [simp]: "0 < BLOCKS_PER_YEAR"
  by (simp add: emission_consts)

lemma sum_lessThan_add:
  fixes f :: "nat \<Rightarrow> nat"
  shows "(\<Sum>h < a + b. f h) = (\<Sum>h < a. f h) + (\<Sum>i < b. f (a + i))"
  by (induction b) simp_all

lemma sum_over_years:
  "(\<Sum>h < k * BLOCKS_PER_YEAR. reward_of_year (Suc (h div BLOCKS_PER_YEAR)))
     \<le> (\<Sum>y = 1..k. annual_emission_grat y) * LUX_PER_GRAT"
proof (induction k)
  case (Suc k)
  let ?r = "\<lambda>h. reward_of_year (Suc (h div BLOCKS_PER_YEAR))"
  have "(\<Sum>h < Suc k * BLOCKS_PER_YEAR. ?r h)
      = (\<Sum>h < k * BLOCKS_PER_YEAR. ?r h) + (\<Sum>i < BLOCKS_PER_YEAR. ?r (k * BLOCKS_PER_YEAR + i))"
    using sum_lessThan_add [of ?r "k * BLOCKS_PER_YEAR" BLOCKS_PER_YEAR] by (simp add: add.commute)
  also have "(\<Sum>i < BLOCKS_PER_YEAR. ?r (k * BLOCKS_PER_YEAR + i))
      = BLOCKS_PER_YEAR * reward_of_year (Suc k)"
    by simp
  also have "\<dots> \<le> annual_emission_grat (Suc k) * LUX_PER_GRAT"
    unfolding reward_of_year_def by (rule year_of_blocks_le)
  finally show ?case using Suc by (simp add: add_mult_distrib)
qed simp

lemma sum_of_rewards_bound:
  "(\<Sum>h < n. reward_of_year (Suc (h div BLOCKS_PER_YEAR)))
     < TOTAL_MINING_SUPPLY_GRAT * LUX_PER_GRAT"
proof -
  let ?k = "Suc (n div BLOCKS_PER_YEAR)"
  have "n \<le> ?k * BLOCKS_PER_YEAR"
    using dividend_less_div_times [OF BLOCKS_PER_YEAR_pos, of n] by (simp add: mult.commute)
  then have "(\<Sum>h < n. reward_of_year (Suc (h div BLOCKS_PER_YEAR)))
      \<le> (\<Sum>h < ?k * BLOCKS_PER_YEAR. reward_of_year (Suc (h div BLOCKS_PER_YEAR)))"
    by (intro sum_mono2) auto
  also have "\<dots> \<le> (\<Sum>y = 1..?k. annual_emission_grat y) * LUX_PER_GRAT"
    by (rule sum_over_years)
  also have "\<dots> < TOTAL_MINING_SUPPLY_GRAT * LUX_PER_GRAT"
    using yearly_sum_bound [of ?k] by (simp only: LUX_PER_GRAT_def mult_less_mono1)
  finally show ?thesis .
qed

section \<open>Properties\<close>

text \<open>C1: However many years are accumulated, \<^verbatim>\<open>cumulative_emission_grat\<close> stays strictly below
  \<^verbatim>\<open>TOTAL_MINING_SUPPLY_GRAT\<close>, and its 64-bit accumulator holds the exact sum.\<close>

theorem cumulative_emission_below_supply:
  "cumulative_emission_grat n < TOTAL_MINING_SUPPLY_GRAT
   \<and> cumulative_emission_grat n = (\<Sum>y = 1..n. annual_emission_grat y)"
  using yearly_sum_bound [of n] by (simp add: cumulative_exact)

text \<open>The block rewards paid over any prefix of the chain, up to the last height a 64-bit
  counter can hold, sum to less than the mining supply.\<close>

theorem block_rewards_below_supply:
  assumes "n \<le> U64_MAX + 1"
  shows "(\<Sum>h < n. block_reward_lux h) < TOTAL_MINING_SUPPLY_GRAT * LUX_PER_GRAT"
proof -
  have "(\<Sum>h < n. block_reward_lux h) = (\<Sum>h < n. reward_of_year (Suc (h div BLOCKS_PER_YEAR)))"
    using assms by (intro sum.cong) (auto simp: block_reward_eq reward_of_year_def)
  then show ?thesis using sum_of_rewards_bound by simp
qed

theorem block_rewards_below_supply_witness:
  "(\<Sum>h < 2. block_reward_lux h) < TOTAL_MINING_SUPPLY_GRAT * LUX_PER_GRAT"
  by (rule block_rewards_below_supply) (simp add: U64_MAX_def)

text \<open>A later block never earns more than an earlier one, and splitting a block reward among
  its active miners never pays out more than the block reward.\<close>

theorem block_reward_nonincreasing:
  assumes "h \<le> h'" "h' \<le> U64_MAX"
  shows "block_reward_lux h' \<le> block_reward_lux h
    \<and> active_miners * per_miner_block_reward_lux h active_miners \<le> block_reward_lux h"
proof -
  have "annual_emission_grat (Suc (h' div BLOCKS_PER_YEAR))
      \<le> annual_emission_grat (Suc (h div BLOCKS_PER_YEAR))"
    using assms(1) by (intro annual_antimono) (simp_all add: div_le_mono)
  then have "block_reward_lux h' \<le> block_reward_lux h"
    using assms by (simp add: block_reward_eq div_le_mono)
  then show ?thesis by (simp add: per_miner_block_reward_lux_def Let_def)
qed

theorem block_reward_nonincreasing_witness:
  "block_reward_lux 7884000 \<le> block_reward_lux 0
   \<and> 10 * per_miner_block_reward_lux 0 10 \<le> block_reward_lux 0"
  by (rule block_reward_nonincreasing) (simp_all add: U64_MAX_def)

end
