(* ===== verification/Rewards.thy ===== *)
theory Rewards
  imports Core_Types
begin

text \<open>
  Flat-rate mining rewards, \<^verbatim>\<open>gratia-staking/src/rewards.rs\<close>: the schedule, the yearly
  reduction loop and the distribution of one block's reward. A division by
  \<^verbatim>\<open>blocks_per_year\<close> panics when the block time exceeds a year; the value \<^const>\<open>None\<close> is that
  panic.
\<close>

section \<open>Model\<close>

record EmissionSchedule =
  genesis_block_reward :: Lux
  es_annual_reduction_bps :: u32
  blocks_per_year :: u64
  total_emitted :: Lux
  current_height :: u64

datatype GeographicTier = Standard | Underserved

record MinerReward =
  mr_node_id :: NodeId
  mr_base_reward :: Lux
  mr_geographic_bonus :: Lux
  mr_total :: Lux

record BlockRewardDistribution =
  brd_height :: u64
  brd_total_reward :: Lux
  brd_miner_rewards :: "MinerReward list"
  brd_pool_allocation :: Lux

definition EmissionSchedule_new :: "RewardsConfig \<Rightarrow> u64 \<Rightarrow> EmissionSchedule" where
  "EmissionSchedule_new config target_block_time =
     (let seconds_per_year = 365 * 24 * 3600
      in \<lparr> genesis_block_reward = block_reward config,
           es_annual_reduction_bps = annual_reduction_bps config,
           blocks_per_year = seconds_per_year div max target_block_time 1,
           total_emitted = 0, current_height = 0 \<rparr>)"

definition current_year :: "EmissionSchedule \<Rightarrow> u64 option" where
  "current_year es =
     (if blocks_per_year es = 0 then None else Some (current_height es div blocks_per_year es))"

text \<open>The loop \<^verbatim>\<open>for _ in 0..year\<close>, with its early exit at the floor of one Lux.\<close>
primrec reduction_loop :: "nat \<Rightarrow> u32 \<Rightarrow> Lux \<Rightarrow> Lux" where
  "reduction_loop 0 reduction_bps reward = reward"
| "reduction_loop (Suc n) reduction_bps reward =
     (let reduction_factor = sub_u64 10000 reduction_bps;
          reward = as_u64 (mul_u128 reward reduction_factor div 10000)
      in if reward = 0 then 1 else reduction_loop n reduction_bps reward)"

definition calculate_block_reward :: "EmissionSchedule \<Rightarrow> u64 \<Rightarrow> Lux option" where
  "calculate_block_reward es height =
     (if blocks_per_year es = 0 then None
      else let year = height div blocks_per_year es
           in Some (reduction_loop year (es_annual_reduction_bps es) (genesis_block_reward es)))"

definition geographic_bonus :: "Lux \<Rightarrow> u32 \<Rightarrow> GeographicTier \<Rightarrow> Lux" where
  "geographic_bonus per_miner_base bonus_max_bps tier =
     (case tier of
        Standard \<Rightarrow> 0
      | Underserved \<Rightarrow>
          let bonus_bps = saturating_sub bonus_max_bps 10000
          in as_u64 (mul_u128 per_miner_base bonus_bps div 10000))"

primrec miner_loop ::
  "Lux \<Rightarrow> u32 \<Rightarrow> (NodeId \<times> GeographicTier) list \<Rightarrow> MinerReward list \<Rightarrow> Lux \<Rightarrow> MinerReward list \<times> Lux"
where
  "miner_loop per_miner_base bonus_max_bps [] miner_rewards total_distributed =
     (miner_rewards, total_distributed)"
| "miner_loop per_miner_base bonus_max_bps (m # ms) miner_rewards total_distributed =
     (let bonus = geographic_bonus per_miner_base bonus_max_bps (snd m);
          total = saturating_add_u64 per_miner_base bonus;
          total_distributed = saturating_add_u64 total_distributed total
      in miner_loop per_miner_base bonus_max_bps ms
           (miner_rewards @ [\<lparr> mr_node_id = fst m, mr_base_reward = per_miner_base,
                               mr_geographic_bonus = bonus, mr_total = total \<rparr>])
           total_distributed)"

definition distribute_rewards ::
  "EmissionSchedule \<Rightarrow> u64 \<Rightarrow> (NodeId \<times> GeographicTier) list \<Rightarrow> u32
     \<Rightarrow> (BlockRewardDistribution \<times> EmissionSchedule) option" where
  "distribute_rewards es height active_miners bonus_max_bps =
     (case calculate_block_reward es height of
        None \<Rightarrow> None
      | Some total_reward \<Rightarrow>
          if active_miners = []
          then Some (\<lparr> brd_height = height, brd_total_reward = total_reward,
                       brd_miner_rewards = [], brd_pool_allocation = total_reward \<rparr>, es)
          else
            let pool_share_bps = 1000;
                pool_allocation = as_u64 (mul_u128 total_reward pool_share_bps div 10000);
                miner_total = sub_u64 total_reward pool_allocation;
                per_miner_base = miner_total div as_u64 (length active_miners);
                (miner_rewards, total_distributed) =
                  miner_loop per_miner_base bonus_max_bps active_miners [] pool_allocation
            in Some (\<lparr> brd_height = height, brd_total_reward = total_reward,
                       brd_miner_rewards = miner_rewards, brd_pool_allocation = pool_allocation \<rparr>,
                     es\<lparr>current_height := height,
                        total_emitted := saturating_add_u64 (total_emitted es) total_distributed\<rparr>))"

section \<open>The yearly reduction\<close>

definition reduce_year :: "nat \<Rightarrow> nat \<Rightarrow> nat" where
  "reduce_year bps r = r * (10000 - bps) div 10000"

lemma reduction_factor: "bps \<le> 10000 \<Longrightarrow> sub_u64 10000 bps = 10000 - bps"
  by (rule sub_u64_id) (simp_all add: U64_MAX_def)

lemma reduction_step:
  assumes "bps \<le> 10000" "r \<le> U64_MAX"
  shows "as_u64 (mul_u128 r (sub_u64 10000 bps) div 10000) = reduce_year bps r"
proof -
  have le: "reduce_year bps r \<le> r" unfolding reduce_year_def by (rule bps_le) simp
  have "r * (10000 - bps) \<le> U128_MAX"
    using assms(2) by (intro u64_mult_le_U128) (simp_all add: U64_MAX_def)
  with le assms show ?thesis by (simp add: reduction_factor reduce_year_def)
qed

lemma reduction_loop_Suc:
  "bps \<le> 10000 \<Longrightarrow> r \<le> U64_MAX \<Longrightarrow> reduction_loop (Suc n) bps r =
     (if reduce_year bps r = 0 then 1 else reduction_loop n bps (reduce_year bps r))"
  by (simp add: reduction_step)

lemma reduce_year_le: "reduce_year bps r \<le> r"
  unfolding reduce_year_def by (rule bps_le) simp

lemma reduction_loop_bounds:
  "bps \<le> 10000 \<Longrightarrow> 1 \<le> r \<Longrightarrow> r \<le> U64_MAX \<Longrightarrow>
     1 \<le> reduction_loop n bps r \<and> reduction_loop n bps r \<le> r"
proof (induction n arbitrary: r)
  case (Suc n)
  have "reduce_year bps r \<le> r" by (rule reduce_year_le)
  moreover have "reduce_year bps r \<noteq> 0 \<Longrightarrow>
      1 \<le> reduction_loop n bps (reduce_year bps r)
      \<and> reduction_loop n bps (reduce_year bps r) \<le> reduce_year bps r"
    using Suc.IH [of "reduce_year bps r"] Suc.prems reduce_year_le [of bps r] by simp
  ultimately show ?case using Suc.prems by (auto simp: reduction_loop_Suc simp del: reduction_loop.simps)
qed simp

lemma reduction_loop_antimono:
  assumes "bps \<le> 10000" "1 \<le> r" "r \<le> U64_MAX"
  shows "reduction_loop (Suc n) bps r \<le> reduction_loop n bps r"
  using assms(2,3)
proof (induction n arbitrary: r)
  case 0
  then show ?case
    using reduce_year_le [of bps r] reduction_loop_bounds [OF assms(1), of r 1] by simp
next
  case (Suc n)
  let ?r = "reduce_year bps r"
  have r: "?r \<le> U64_MAX" using Suc.prems reduce_year_le [of bps r] by simp
  have unfold: "reduction_loop (Suc m) bps r = (if ?r = 0 then 1 else reduction_loop m bps ?r)" for m
    using assms(1) Suc.prems(2) by (rule reduction_loop_Suc)
  show ?case
    using Suc.IH [of ?r] r unfold [of n] unfold [of "Suc n"] by (cases "?r = 0") simp_all
qed

lemma reduction_loop_mono_years:
  assumes "bps \<le> 10000" "1 \<le> r" "r \<le> U64_MAX" "m \<le> n"
  shows "reduction_loop n bps r \<le> reduction_loop m bps r"
  using assms(4)
proof (induction n rule: dec_induct)
  case (step n)
  then show ?case using reduction_loop_antimono [OF assms(1-3), of n] by simp
qed simp

section \<open>The split of one block's reward\<close>

definition reward_of :: "Lux \<Rightarrow> u32 \<Rightarrow> NodeId \<times> GeographicTier \<Rightarrow> MinerReward" where
  "reward_of base b m = \<lparr> mr_node_id = fst m, mr_base_reward = base,
     mr_geographic_bonus = (if snd m = Standard then 0 else base * (b - 10000) div 10000),
     mr_total = base + (if snd m = Standard then 0 else base * (b - 10000) div 10000) \<rparr>"

lemma geographic_bonus_eq:
  assumes "base \<le> U64_MAX" "b \<le> 20000"
  shows "geographic_bonus base b tier = (if tier = Standard then 0 else base * (b - 10000) div 10000)"
proof -
  have b: "b - 10000 \<le> 10000" using assms(2) by simp
  have "base * (b - 10000) \<le> U128_MAX"
    using assms(1) b by (intro u64_mult_le_U128) (simp_all add: U64_MAX_def)
  moreover have "base * (b - 10000) div 10000 \<le> base" using b by (rule bps_le)
  ultimately show ?thesis
    using assms(1) by (cases tier) (simp_all add: geographic_bonus_def Let_def)
qed

lemma reward_total_le: "b \<le> 20000 \<Longrightarrow> mr_total (reward_of base b m) \<le> 2 * base"
  using bps_le [of "b - 10000" base] by (simp add: reward_of_def)

lemma miner_loop_exact:
  assumes "b \<le> 20000"
  shows "d + length ms * (2 * base) \<le> U64_MAX \<Longrightarrow>
    miner_loop base b ms rs d =
      (rs @ map (reward_of base b) ms, d + (\<Sum>m \<leftarrow> ms. mr_total (reward_of base b m)))"
proof (induction ms arbitrary: rs d)
  case (Cons m ms)
  have base: "base \<le> U64_MAX" using Cons.prems by simp
  have le: "mr_total (reward_of base b m) \<le> 2 * base" using assms by (rule reward_total_le)
  then have "d + mr_total (reward_of base b m) + length ms * (2 * base) \<le> U64_MAX"
    using Cons.prems by simp
  moreover have "saturating_add_u64 base (geographic_bonus base b (snd m)) = mr_total (reward_of base b m)"
    using le Cons.prems by (simp add: geographic_bonus_eq [OF base assms] reward_of_def)
  moreover have "saturating_add_u64 d (mr_total (reward_of base b m)) = d + mr_total (reward_of base b m)"
    using le Cons.prems by simp
  ultimately show ?case
    using Cons.IH [of "d + mr_total (reward_of base b m)"]
    by (simp add: geographic_bonus_eq [OF base assms] Let_def) (simp add: reward_of_def)
qed simp

section \<open>Properties\<close>

text \<open>For every height the reward exists, is at least one Lux, never exceeds the genesis reward
  and never grows with the height, as long as the reduction is at most 100%.\<close>

theorem block_reward_schedule:
  assumes "blocks_per_year es \<noteq> 0" "es_annual_reduction_bps es \<le> 10000"
    and "1 \<le> genesis_block_reward es" "genesis_block_reward es \<le> U64_MAX" "h \<le> h'"
  shows "\<exists>r r'. calculate_block_reward es h = Some r \<and> calculate_block_reward es h' = Some r'
    \<and> 1 \<le> r' \<and> r' \<le> r \<and> r \<le> genesis_block_reward es"
  using assms reduction_loop_bounds [OF assms(2-4)]
    reduction_loop_mono_years [OF assms(2-4) div_le_mono [OF assms(5)]]
  by (simp add: calculate_block_reward_def)

theorem block_reward_schedule_witness:
  "\<exists>r r'. calculate_block_reward (EmissionSchedule_new RewardsConfig_default 4) 0 = Some r
     \<and> calculate_block_reward (EmissionSchedule_new RewardsConfig_default 4) 7884000 = Some r'
     \<and> 1 \<le> r' \<and> r' \<le> r \<and> r \<le> genesis_block_reward (EmissionSchedule_new RewardsConfig_default 4)"
  by (rule block_reward_schedule)
    (simp_all add: EmissionSchedule_new_def RewardsConfig_default_def LUX_PER_GRAT_def U64_MAX_def)

text \<open>C10: A block's reward is split flat: a tenth to the pool, the rest in equal bases over the
  active miners in their order, with a bonus only for underserved regions. The flat part never pays
  more than the block's reward, and the schedule records exactly what was distributed.\<close>

theorem distribute_rewards_flat:
  assumes cfg: "es_annual_reduction_bps es \<le> 10000" "1 \<le> genesis_block_reward es"
      "2 * genesis_block_reward es \<le> U64_MAX" "b \<le> 20000"
    and miners: "ms \<noteq> []" "length ms \<le> U64_MAX"
    and run: "distribute_rewards es height ms b = Some (d, es')"
  shows "brd_pool_allocation d = brd_total_reward d * 1000 div 10000
    \<and> brd_miner_rewards d
        = map (reward_of ((brd_total_reward d - brd_pool_allocation d) div length ms) b) ms
    \<and> brd_pool_allocation d + sum_list (map mr_base_reward (brd_miner_rewards d)) \<le> brd_total_reward d
    \<and> es' = es\<lparr>current_height := height, total_emitted := saturating_add_u64 (total_emitted es)
         (brd_pool_allocation d + sum_list (map mr_total (brd_miner_rewards d)))\<rparr>"
proof -
  obtain t where t: "calculate_block_reward es height = Some t"
    using run by (cases "calculate_block_reward es height") (simp_all add: distribute_rewards_def)
  have "t \<le> genesis_block_reward es"
    using t reduction_loop_bounds [OF cfg(1,2), of "height div blocks_per_year es"] cfg(3)
    by (auto simp: calculate_block_reward_def split: if_splits)
  then have t2: "2 * t \<le> U64_MAX" using cfg(3) by simp
  let ?pool = "t div 10"
  let ?base = "(t - ?pool) div length ms"
  have pool_le: "?pool \<le> t" by simp
  have pool: "as_u64 (mul_u128 t 1000 div 10000) = ?pool"
    using t2 pool_le u64_mult_le_U128 [of t 1000] by (simp add: U64_MAX_def)
  have share: "length ms * ?base \<le> t - ?pool" by (rule times_div_less_eq_dividend)
  then have whole: "?pool + length ms * ?base \<le> t" using pool_le by linarith
  moreover have "length ms * (2 * ?base) = 2 * (length ms * ?base)" by simp
  ultimately have fits: "?pool + length ms * (2 * ?base) \<le> U64_MAX" using t2 pool_le by linarith
  have sub: "sub_u64 t ?pool = t - ?pool" using t2 pool_le by simp
  have "d = \<lparr> brd_height = height, brd_total_reward = t,
       brd_miner_rewards = map (reward_of ?base b) ms, brd_pool_allocation = ?pool \<rparr>
    \<and> es' = es\<lparr>current_height := height, total_emitted := saturating_add_u64 (total_emitted es)
         (?pool + (\<Sum>m \<leftarrow> ms. mr_total (reward_of ?base b m)))\<rparr>"
    using run miners by (simp add: distribute_rewards_def t pool sub Let_def
        miner_loop_exact [OF cfg(4) fits, of "[]"])
  moreover have "sum_list (map mr_base_reward (map (reward_of ?base b) ms)) = length ms * ?base"
    by (simp add: reward_of_def comp_def sum_list_triv)
  ultimately show ?thesis using whole by (simp add: comp_def)
qed

theorem distribute_rewards_flat_witness:
  "\<exists>d es'. distribute_rewards (EmissionSchedule_new RewardsConfig_default 4) 0
       [(NodeId [1], Standard), (NodeId [2], Underserved)] 15000 = Some (d, es')
     \<and> brd_pool_allocation d + sum_list (map mr_base_reward (brd_miner_rewards d)) \<le> brd_total_reward d"
proof -
  let ?es = "EmissionSchedule_new RewardsConfig_default 4"
  let ?ms = "[(NodeId [1], Standard), (NodeId [2], Underserved)]"
  have es: "es_annual_reduction_bps ?es \<le> 10000" "1 \<le> genesis_block_reward ?es"
    "2 * genesis_block_reward ?es \<le> U64_MAX"
    by (simp_all add: EmissionSchedule_new_def RewardsConfig_default_def LUX_PER_GRAT_def U64_MAX_def)
  obtain d es' where d: "distribute_rewards ?es 0 ?ms 15000 = Some (d, es')"
    by (simp add: distribute_rewards_def calculate_block_reward_def EmissionSchedule_new_def
        RewardsConfig_default_def Let_def split_beta)
  have h: "(15000::nat) \<le> 20000" "?ms \<noteq> []" "length ?ms \<le> U64_MAX" by (simp_all add: U64_MAX_def)
  have "brd_pool_allocation d + sum_list (map mr_base_reward (brd_miner_rewards d)) \<le> brd_total_reward d"
    using distribute_rewards_flat [OF es h d] by blast
  with d show ?thesis by blast
qed

text \<open>A block with no active miner allocates its whole reward to the pool but leaves the
  schedule as it was: neither the height nor the amount emitted records it.\<close>

theorem empty_block_not_recorded:
  assumes "calculate_block_reward es height = Some r"
  shows "\<exists>d. distribute_rewards es height [] b = Some (d, es)
    \<and> brd_pool_allocation d = r \<and> brd_total_reward d = r"
  using assms by (simp add: distribute_rewards_def)

theorem empty_block_not_recorded_witness:
  "\<exists>d. distribute_rewards (EmissionSchedule_new RewardsConfig_default 4) 7 [] 15000
      = Some (d, EmissionSchedule_new RewardsConfig_default 4)
    \<and> brd_pool_allocation d = 50000000 \<and> brd_total_reward d = 50000000"
  by (rule empty_block_not_recorded)
    (simp add: calculate_block_reward_def EmissionSchedule_new_def RewardsConfig_default_def
      LUX_PER_GRAT_def)

end
