(* ===== verification/Security_Pool.thy ===== *)
theory Security_Pool
  imports Core_Types
begin

text \<open>
  The Network Security Pool of \<^verbatim>\<open>gratia-staking/src/pool.rs\<close>: the overflow ledger a whale's
  excess stake goes to and the distribution of its yield. The invariant ties the running total
  to the sum of the entries; the contract the staking manager relies on is the locale
  \<open>overflow_pool\<close>, interpreted on the pool at the end.
\<close>

section \<open>Model\<close>

datatype StakingError =
    InsufficientStake u64 u64
  | InsufficientOverflow u64 u64
  | InvalidAmount string
  | NodeNotFound NodeId
  | CooldownActive u64
  | NodeBanned NodeId
  | AlreadyStaked NodeId
  | BelowMinimumStake u64 u64

record OverflowContribution =
  oc_amount :: Lux
  oc_contributed_at :: datetime
  oc_last_updated :: datetime

record NetworkSecurityPool =
  total_overflow :: Lux
  contributions :: "(NodeId, OverflowContribution) hashmap"
  accumulated_yield :: Lux
  last_distribution :: "datetime option"

record YieldShare =
  ys_node_id :: NodeId
  ys_overflow_yield :: Lux
  ys_miner_yield :: Lux
  ys_total_yield :: Lux

definition NetworkSecurityPool_new :: NetworkSecurityPool where
  "NetworkSecurityPool_new =
     \<lparr> total_overflow = 0, contributions = [], accumulated_yield = 0, last_distribution = None \<rparr>"

definition contributor_count :: "NetworkSecurityPool \<Rightarrow> usize" where
  "contributor_count p = length (contributions p)"

definition get_contribution :: "NetworkSecurityPool \<Rightarrow> NodeId \<Rightarrow> OverflowContribution option" where
  "get_contribution p node_id = map_of (contributions p) node_id"

definition add_overflow ::
  "NetworkSecurityPool \<Rightarrow> NodeId \<Rightarrow> Lux \<Rightarrow> datetime \<Rightarrow> (StakingError, unit) result \<times> NetworkSecurityPool"
where
  "add_overflow p node_id amount now =
     (if amount = 0 then (Err (InvalidAmount ''overflow amount must be greater than zero''), p)
      else case checked_add_u64 (total_overflow p) amount of
        None \<Rightarrow> (Err (InvalidAmount ''pool overflow would exceed u64 max''), p)
      | Some t \<Rightarrow>
          let p = p\<lparr>total_overflow := t\<rparr>;
              entry = (case map_of (contributions p) node_id of
                         Some c \<Rightarrow> c
                       | None \<Rightarrow> \<lparr> oc_amount = 0, oc_contributed_at = now, oc_last_updated = now \<rparr>)
          in case checked_add_u64 (oc_amount entry) amount of
               None \<Rightarrow> (Err (InvalidAmount ''node overflow contribution would exceed u64 max''),
                        p\<lparr>contributions := AList.update node_id entry (contributions p)\<rparr>)
             | Some a \<Rightarrow>
                 (Ok (), p\<lparr>contributions := AList.update node_id
                            (entry\<lparr>oc_amount := a, oc_last_updated := now\<rparr>) (contributions p)\<rparr>))"

definition remove_overflow ::
  "NetworkSecurityPool \<Rightarrow> NodeId \<Rightarrow> Lux \<Rightarrow> datetime \<Rightarrow> (StakingError, unit) result \<times> NetworkSecurityPool"
where
  "remove_overflow p node_id amount now =
     (if amount = 0 then (Err (InvalidAmount ''removal amount must be greater than zero''), p)
      else case map_of (contributions p) node_id of
        None \<Rightarrow> (Err (NodeNotFound node_id), p)
      | Some entry \<Rightarrow>
          if amount > oc_amount entry
          then (Err (InsufficientOverflow (oc_amount entry) amount), p)
          else
            let entry = entry\<lparr>oc_amount := sub_u64 (oc_amount entry) amount, oc_last_updated := now\<rparr>;
                p = p\<lparr>contributions := AList.update node_id entry (contributions p),
                      total_overflow := sub_u64 (total_overflow p) amount\<rparr>
            in if oc_amount entry = 0
               then (Ok (), p\<lparr>contributions := AList.delete node_id (contributions p)\<rparr>)
               else (Ok (), p))"

text \<open>The callers' idiom: \<^verbatim>\<open>if amount > 0 { pool.add_overflow(..)?; }\<close>, and the same for removals.\<close>
definition add_overflow_if ::
  "NetworkSecurityPool \<Rightarrow> NodeId \<Rightarrow> Lux \<Rightarrow> datetime \<Rightarrow> (StakingError, unit) result \<times> NetworkSecurityPool"
where
  "add_overflow_if p node_id amount now =
     (if amount > 0 then add_overflow p node_id amount now else (Ok (), p))"

definition remove_overflow_if ::
  "NetworkSecurityPool \<Rightarrow> NodeId \<Rightarrow> Lux \<Rightarrow> datetime \<Rightarrow> (StakingError, unit) result \<times> NetworkSecurityPool"
where
  "remove_overflow_if p node_id amount now =
     (if amount > 0 then remove_overflow p node_id amount now else (Ok (), p))"

definition add_yield :: "NetworkSecurityPool \<Rightarrow> Lux \<Rightarrow> NetworkSecurityPool" where
  "add_yield p amount = p\<lparr>accumulated_yield := saturating_add_u64 (accumulated_yield p) amount\<rparr>"

definition calculate_yield_share :: "NetworkSecurityPool \<Rightarrow> NodeId \<Rightarrow> Lux option" where
  "calculate_yield_share p node_id =
     (case map_of (contributions p) node_id of
        None \<Rightarrow> None
      | Some contribution \<Rightarrow>
          if total_overflow p = 0 \<or> accumulated_yield p = 0 then Some 0
          else if oc_amount contribution = 0 then Some 0
          else Some (case checked_mul_u128 (oc_amount contribution) (accumulated_yield p) of
                       Some product \<Rightarrow> as_u64 (product div total_overflow p)
                     | None \<Rightarrow> 0))"

definition overflow_yield_of :: "NetworkSecurityPool \<Rightarrow> Lux \<Rightarrow> NodeId \<Rightarrow> Lux" where
  "overflow_yield_of p contributor_portion miner =
     (if total_overflow p > 0
      then (case map_of (contributions p) miner of
              Some c \<Rightarrow> as_u64 (mul_u128 (oc_amount c) contributor_portion div total_overflow p)
            | None \<Rightarrow> 0)
      else 0)"

text \<open>The loop over the active miners: the shares so far and the total distributed.\<close>
primrec distribute_loop ::
  "NetworkSecurityPool \<Rightarrow> Lux \<Rightarrow> Lux \<Rightarrow> NodeId list \<Rightarrow> YieldShare list \<Rightarrow> Lux \<Rightarrow> YieldShare list \<times> Lux"
where
  "distribute_loop p contributor_portion per_miner_yield [] shares total_distributed =
     (shares, total_distributed)"
| "distribute_loop p contributor_portion per_miner_yield (miner # miners) shares total_distributed =
     (let overflow_yield = overflow_yield_of p contributor_portion miner;
          total = saturating_add_u64 overflow_yield per_miner_yield;
          total_distributed = saturating_add_u64 total_distributed total
      in distribute_loop p contributor_portion per_miner_yield miners
           (shares @ [\<lparr> ys_node_id = miner, ys_overflow_yield = overflow_yield,
                        ys_miner_yield = per_miner_yield, ys_total_yield = total \<rparr>])
           total_distributed)"

definition distribute_pool_yield ::
  "NetworkSecurityPool \<Rightarrow> NodeId list \<Rightarrow> datetime \<Rightarrow> YieldShare list \<times> NetworkSecurityPool" where
  "distribute_pool_yield p active_miners now =
     (if accumulated_yield p = 0 \<or> active_miners = [] then ([], p)
      else
        let yield_to_distribute = accumulated_yield p;
            contributor_portion = yield_to_distribute div 2;
            miner_portion = sub_u64 yield_to_distribute contributor_portion;
            per_miner_yield =
              (if active_miners = [] then 0 else miner_portion div as_u64 (length active_miners));
            (shares, total_distributed) =
              distribute_loop p contributor_portion per_miner_yield active_miners [] 0
        in (shares,
            p\<lparr>accumulated_yield := saturating_sub yield_to_distribute total_distributed,
              last_distribution := Some now\<rparr>))"

section \<open>Invariant\<close>

definition pool_inv :: "NetworkSecurityPool \<Rightarrow> bool" where
  "pool_inv p \<longleftrightarrow>
     hm_ok (contributions p)
     \<and> hm_sum oc_amount (contributions p) = total_overflow p
     \<and> total_overflow p \<le> U64_MAX
     \<and> accumulated_yield p \<le> U64_MAX
     \<and> (\<forall>n c. map_of (contributions p) n = Some c \<longrightarrow> 0 < oc_amount c)"

definition pool_held :: "NetworkSecurityPool \<Rightarrow> NodeId \<Rightarrow> nat" where
  "pool_held p n = hm_val oc_amount (contributions p) n"

lemma pool_inv_new [simp]: "pool_inv NetworkSecurityPool_new"
  by (simp add: pool_inv_def NetworkSecurityPool_new_def U64_MAX_def)

lemma pool_held_new [simp]: "pool_held NetworkSecurityPool_new n = 0"
  by (simp add: pool_held_def NetworkSecurityPool_new_def)

lemma pool_held_le: "pool_inv p \<Longrightarrow> pool_held p n \<le> total_overflow p"
  using hm_val_le_sum [of oc_amount "contributions p" n] by (simp add: pool_inv_def pool_held_def)

lemma pool_held_pos: "pool_inv p \<Longrightarrow> contains_key (contributions p) n \<longleftrightarrow> 0 < pool_held p n"
  by (auto simp: pool_inv_def pool_held_def contains_key_def split: option.splits)

text \<open>What the two operations do, on every branch, for a pool that satisfies the invariant.\<close>

lemma add_overflow_err:
  assumes "pool_inv p" "amount = 0 \<or> U64_MAX < total_overflow p + amount"
  shows "\<exists>e. add_overflow p n amount now = (Err e, p)"
  using assms by (auto simp: add_overflow_def split: option.splits)

lemma add_overflow_ok:
  assumes inv: "pool_inv p" and "0 < amount" "total_overflow p + amount \<le> U64_MAX"
  shows "\<exists>p'. add_overflow p n amount now = (Ok (), p') \<and> pool_inv p'
    \<and> total_overflow p' = total_overflow p + amount
    \<and> pool_held p' = (pool_held p)(n := pool_held p n + amount)
    \<and> accumulated_yield p' = accumulated_yield p"
proof -
  let ?e = "case map_of (contributions p) n of Some c \<Rightarrow> c
     | None \<Rightarrow> \<lparr> oc_amount = 0, oc_contributed_at = now, oc_last_updated = now \<rparr>"
  have held: "oc_amount ?e = pool_held p n"
    by (simp add: pool_held_def split: option.splits)
  let ?c = "?e\<lparr>oc_amount := pool_held p n + amount, oc_last_updated := now\<rparr>"
  let ?p' = "p\<lparr>total_overflow := total_overflow p + amount,
     contributions := AList.update n ?c (contributions p)\<rparr>"
  have bound: "pool_held p n + amount \<le> U64_MAX"
    using pool_held_le [OF inv, of n] assms(3) by simp
  have eq: "add_overflow p n amount now = (Ok (), ?p')"
    using assms held bound
    by (simp add: add_overflow_def checked_add_u64_def Let_def del: checked_add_u64_Some)
  have "hm_sum oc_amount (AList.update n ?c (contributions p)) = total_overflow p + amount"
    using hm_sum_update [of oc_amount n ?c "contributions p"] inv
    by (simp add: pool_inv_def pool_held_def)
  then have "pool_inv ?p'" using inv assms(2,3) by (auto simp: pool_inv_def)
  moreover have "pool_held ?p' = (pool_held p)(n := pool_held p n + amount)"
    by (auto simp: pool_held_def fun_eq_iff)
  ultimately show ?thesis using eq by simp
qed

lemma remove_overflow_err:
  assumes "pool_inv p" "amount = 0 \<or> pool_held p n < amount"
  shows "\<exists>e. remove_overflow p n amount now = (Err e, p)"
  using assms by (auto simp: remove_overflow_def pool_held_def split: option.splits)

lemma remove_overflow_ok:
  assumes inv: "pool_inv p" and pos: "0 < amount" and le: "amount \<le> pool_held p n"
  shows "\<exists>p'. remove_overflow p n amount now = (Ok (), p') \<and> pool_inv p'
    \<and> total_overflow p' = total_overflow p - amount
    \<and> pool_held p' = (pool_held p)(n := pool_held p n - amount)
    \<and> accumulated_yield p' = accumulated_yield p"
proof -
  from pos le obtain c where c: "map_of (contributions p) n = Some c"
    by (cases "map_of (contributions p) n") (auto simp: pool_held_def)
  then have held: "oc_amount c = pool_held p n" by (simp add: pool_held_def)
  have tot: "pool_held p n \<le> total_overflow p" "total_overflow p \<le> U64_MAX"
    using inv pool_held_le [OF inv] by (auto simp: pool_inv_def)
  let ?c = "c\<lparr>oc_amount := pool_held p n - amount, oc_last_updated := now\<rparr>"
  let ?m = "if pool_held p n = amount then AList.delete n (AList.update n ?c (contributions p))
            else AList.update n ?c (contributions p)"
  let ?p' = "p\<lparr>contributions := ?m, total_overflow := total_overflow p - amount\<rparr>"
  have eq: "remove_overflow p n amount now = (Ok (), ?p')"
    using pos le c held tot by (simp add: remove_overflow_def Let_def)
  have sum_upd: "hm_sum oc_amount (AList.update n ?c (contributions p)) = total_overflow p - amount"
    using hm_sum_update [of oc_amount n ?c "contributions p"] inv le tot
    by (simp add: pool_inv_def pool_held_def)
  have "hm_sum oc_amount ?m = total_overflow p - amount"
    using sum_upd inv
      hm_sum_delete [of "AList.update n ?c (contributions p)" oc_amount n]
    by (cases "pool_held p n = amount") (simp_all add: pool_inv_def)
  then have "pool_inv ?p'" using inv le tot by (auto simp: pool_inv_def)
  moreover have "pool_held ?p' = (pool_held p)(n := pool_held p n - amount)"
    by (auto simp: pool_held_def fun_eq_iff)
  ultimately show ?thesis using eq by simp
qed

section \<open>The contract of the pool\<close>

text \<open>
  What the staking manager needs of the ledger, whatever its representation: an operation either
  fails and leaves it as it was, or moves exactly the amount asked for on exactly one account;
  a withdrawal succeeds exactly when the account covers it.
\<close>

locale overflow_pool =
  fixes add :: "'p \<Rightarrow> 'n \<Rightarrow> nat \<Rightarrow> datetime \<Rightarrow> ('e, unit) result \<times> 'p"
    and remove :: "'p \<Rightarrow> 'n \<Rightarrow> nat \<Rightarrow> datetime \<Rightarrow> ('e, unit) result \<times> 'p"
    and held :: "'p \<Rightarrow> 'n \<Rightarrow> nat"
    and total :: "'p \<Rightarrow> nat"
    and inv :: "'p \<Rightarrow> bool"
  assumes add_fails: "inv p \<Longrightarrow> a = 0 \<or> U64_MAX < total p + a \<Longrightarrow> \<exists>e. add p n a t = (Err e, p)"
    and add_works: "inv p \<Longrightarrow> 0 < a \<Longrightarrow> total p + a \<le> U64_MAX \<Longrightarrow>
      \<exists>p'. add p n a t = (Ok (), p') \<and> inv p' \<and> total p' = total p + a
        \<and> held p' = (held p)(n := held p n + a)"
    and remove_fails: "inv p \<Longrightarrow> a = 0 \<or> held p n < a \<Longrightarrow> \<exists>e. remove p n a t = (Err e, p)"
    and remove_works: "inv p \<Longrightarrow> 0 < a \<Longrightarrow> a \<le> held p n \<Longrightarrow>
      \<exists>p'. remove p n a t = (Ok (), p') \<and> inv p' \<and> total p' = total p - a
        \<and> held p' = (held p)(n := held p n - a)"
    and held_le_total: "inv p \<Longrightarrow> held p n \<le> total p"
begin

lemma add_keeps: "inv p \<Longrightarrow> inv (snd (add p n a t))"
  using add_fails [of p a n t] add_works [of p a n t]
  by (cases "a = 0 \<or> U64_MAX < total p + a") auto

lemma remove_keeps: "inv p \<Longrightarrow> inv (snd (remove p n a t))"
  using remove_fails [of p a n t] remove_works [of p a n t]
  by (cases "a = 0 \<or> held p n < a") auto

lemma add_ok_iff: "inv p \<Longrightarrow> is_ok (fst (add p n a t)) \<longleftrightarrow> 0 < a \<and> total p + a \<le> U64_MAX"
  using add_fails [of p a n t] add_works [of p a n t]
  by (cases "a = 0 \<or> U64_MAX < total p + a") auto

lemma remove_ok_iff: "inv p \<Longrightarrow> is_ok (fst (remove p n a t)) \<longleftrightarrow> 0 < a \<and> a \<le> held p n"
  using remove_fails [of p a n t] remove_works [of p a n t]
  by (cases "a = 0 \<or> held p n < a") auto

lemma add_held:
  "inv p \<Longrightarrow> held (snd (add p n a t)) =
     (if is_ok (fst (add p n a t)) then (held p)(n := held p n + a) else held p)"
  using add_fails [of p a n t] add_works [of p a n t]
  by (cases "a = 0 \<or> U64_MAX < total p + a") auto

lemma remove_held:
  "inv p \<Longrightarrow> held (snd (remove p n a t)) =
     (if is_ok (fst (remove p n a t)) then (held p)(n := held p n - a) else held p)"
  using remove_fails [of p a n t] remove_works [of p a n t]
  by (cases "a = 0 \<or> held p n < a") auto

lemma add_then_remove:
  assumes "inv p" and ok: "is_ok (fst (add p n a t))"
  shows "is_ok (fst (remove (snd (add p n a t)) n a t'))
    \<and> held (snd (remove (snd (add p n a t)) n a t')) = held p"
proof -
  let ?p' = "snd (add p n a t)"
  have inv': "inv ?p'" using assms(1) by (rule add_keeps)
  have held': "held ?p' = (held p)(n := held p n + a)" using assms by (simp add: add_held)
  have "is_ok (fst (remove ?p' n a t'))"
    using inv' held' ok assms(1) by (simp add: remove_ok_iff add_ok_iff)
  then show ?thesis using inv' held' by (simp add: remove_held)
qed

text \<open>The clients move nothing when the amount is zero, and otherwise know that the call works.\<close>

lemma add_if_positive:
  "inv p \<Longrightarrow> total p + a \<le> U64_MAX \<Longrightarrow>
     \<exists>p'. (if 0 < a then add p n a t else (Ok (), p)) = (Ok (), p') \<and> inv p'
       \<and> total p' = total p + a \<and> held p' = (held p)(n := held p n + a)"
  using add_works [of p a n t] by auto

lemma remove_if_positive:
  "inv p \<Longrightarrow> a \<le> held p n \<Longrightarrow>
     \<exists>p'. (if 0 < a then remove p n a t else (Ok (), p)) = (Ok (), p') \<and> inv p'
       \<and> total p' = total p - a \<and> held p' = (held p)(n := held p n - a)"
  using remove_works [of p a n t] by auto

end

interpretation nsp: overflow_pool add_overflow remove_overflow pool_held total_overflow pool_inv
proof unfold_locales
  fix p n a t
  show "pool_inv p \<Longrightarrow> a = 0 \<or> U64_MAX < total_overflow p + a \<Longrightarrow> \<exists>e. add_overflow p n a t = (Err e, p)"
    by (rule add_overflow_err)
  show "pool_inv p \<Longrightarrow> a = 0 \<or> pool_held p n < a \<Longrightarrow> \<exists>e. remove_overflow p n a t = (Err e, p)"
    by (rule remove_overflow_err)
  show "pool_inv p \<Longrightarrow> pool_held p n \<le> total_overflow p" by (rule pool_held_le)
qed (use add_overflow_ok remove_overflow_ok in blast)+

lemmas add_overflow_if_works = nsp.add_if_positive [folded add_overflow_if_def]
lemmas remove_overflow_if_works = nsp.remove_if_positive [folded remove_overflow_if_def]

lemmas pool_inv_ops [inv_intro] = nsp.add_keeps nsp.remove_keeps

section \<open>Yield distribution\<close>

lemma sum_held_le:
  "distinct ns \<Longrightarrow> hm_ok m \<Longrightarrow> (\<Sum>n \<leftarrow> ns. hm_val f m n) \<le> hm_sum f m"
proof (induction ns arbitrary: m)
  case (Cons n ns)
  let ?m = "AList.delete n m"
  have "(\<Sum>n \<leftarrow> ns. hm_val f m n) = (\<Sum>n \<leftarrow> ns. hm_val f ?m n)"
    using Cons.prems(1) by (intro arg_cong [where f = sum_list] map_cong) auto
  also have "\<dots> \<le> hm_sum f ?m" using Cons.IH [of ?m] Cons.prems by (simp del: map_of_delete)
  finally show ?case using hm_sum_delete [OF Cons.prems(2), of f n] by simp
qed simp

lemma div_add_le: "(a::nat) div t + b div t \<le> (a + b) div t"
  by (simp add: div_add1_eq [of a b t])

lemma sum_floor_le: "(\<Sum>x \<leftarrow> xs. g x * y div t) \<le> (\<Sum>x \<leftarrow> xs. g x) * y div (t::nat)"
proof (induction xs)
  case (Cons x xs)
  have "g x * y div t + (\<Sum>x \<leftarrow> xs. g x) * y div t \<le> (g x * y + (\<Sum>x \<leftarrow> xs. g x) * y) div t"
    by (rule div_add_le)
  with Cons show ?case by (simp add: add_mult_distrib)
qed simp

lemma overflow_yield_eq:
  assumes inv: "pool_inv p" and y: "y \<le> U64_MAX"
  shows "overflow_yield_of p y n = pool_held p n * y div total_overflow p"
proof -
  have le: "pool_held p n \<le> total_overflow p" using inv by (rule pool_held_le)
  have "pool_held p n \<le> U64_MAX" using le inv by (simp add: pool_inv_def)
  then have "pool_held p n * y \<le> U128_MAX" using y by (rule u64_mult_le_U128)
  moreover have "pool_held p n * y div total_overflow p \<le> U64_MAX"
    using u64_share_le [OF le, of y] y by simp
  ultimately show ?thesis
    by (auto simp: overflow_yield_of_def pool_held_def split: option.splits)
qed

lemma sum_overflow_yield_le:
  assumes inv: "pool_inv p" and y: "y \<le> U64_MAX" and "distinct ns"
  shows "(\<Sum>n \<leftarrow> ns. overflow_yield_of p y n) \<le> y"
proof -
  have "(\<Sum>n \<leftarrow> ns. pool_held p n) \<le> total_overflow p"
    using sum_held_le [OF assms(3), of "contributions p" oc_amount] inv
    by (simp add: pool_inv_def pool_held_def)
  then have "(\<Sum>n \<leftarrow> ns. pool_held p n) * y div total_overflow p \<le> y"
    by (rule u64_share_le)
  then show ?thesis
    using sum_floor_le [of "pool_held p" y "total_overflow p" ns]
    by (simp add: overflow_yield_eq [OF inv y])
qed

definition share_of :: "NetworkSecurityPool \<Rightarrow> Lux \<Rightarrow> Lux \<Rightarrow> NodeId \<Rightarrow> YieldShare" where
  "share_of p y k n = \<lparr> ys_node_id = n, ys_overflow_yield = overflow_yield_of p y n,
     ys_miner_yield = k, ys_total_yield = overflow_yield_of p y n + k \<rparr>"

lemma distribute_loop_exact:
  "d + (\<Sum>n \<leftarrow> ns. overflow_yield_of p y n + k) \<le> U64_MAX \<Longrightarrow>
     distribute_loop p y k ns shares d
       = (shares @ map (share_of p y k) ns, d + (\<Sum>n \<leftarrow> ns. overflow_yield_of p y n + k))"
  by (induction ns arbitrary: shares d) (simp_all add: share_of_def Let_def)

lemma distribute_pool_yield_exact:
  assumes inv: "pool_inv p" and "distinct ns" "length ns \<le> U64_MAX"
    and work: "accumulated_yield p \<noteq> 0" "ns \<noteq> []"
  shows "\<exists>y k. y + length ns * k \<le> accumulated_yield p
    \<and> (\<Sum>n \<leftarrow> ns. overflow_yield_of p y n + k) \<le> accumulated_yield p
    \<and> k = (accumulated_yield p - accumulated_yield p div 2) div length ns
    \<and> y = accumulated_yield p div 2
    \<and> distribute_pool_yield p ns now
      = (map (share_of p y k) ns,
         p\<lparr>accumulated_yield := accumulated_yield p - (\<Sum>n \<leftarrow> ns. overflow_yield_of p y n + k),
           last_distribution := Some now\<rparr>)"
proof -
  let ?a = "accumulated_yield p" and ?y = "accumulated_yield p div 2"
  let ?k = "(accumulated_yield p - accumulated_yield p div 2) div length ns"
  have a: "?a \<le> U64_MAX" using inv by (simp add: pool_inv_def)
  have y: "?y \<le> U64_MAX" using a by simp
  have "length ns * ?k \<le> ?a - ?y" by (rule times_div_less_eq_dividend)
  then have le: "?y + length ns * ?k \<le> ?a" by linarith
  have "(\<Sum>n \<leftarrow> ns. overflow_yield_of p ?y n + ?k)
      = (\<Sum>n \<leftarrow> ns. overflow_yield_of p ?y n) + length ns * ?k"
    by (simp add: sum_list_addf sum_list_triv)
  then have sum: "(\<Sum>n \<leftarrow> ns. overflow_yield_of p ?y n + ?k) \<le> ?a"
    using sum_overflow_yield_le [OF inv y assms(2)] le by simp
  have "distribute_loop p ?y ?k ns [] 0
      = (map (share_of p ?y ?k) ns, \<Sum>n \<leftarrow> ns. overflow_yield_of p ?y n + ?k)"
    using distribute_loop_exact [of 0 p ?y ?k ns "[]"] sum a by simp
  then have "distribute_pool_yield p ns now
      = (map (share_of p ?y ?k) ns,
         p\<lparr>accumulated_yield := ?a - (\<Sum>n \<leftarrow> ns. overflow_yield_of p ?y n + ?k),
           last_distribution := Some now\<rparr>)"
    using work a assms(3) by (simp add: distribute_pool_yield_def Let_def)
  then show ?thesis using le sum by blast
qed

text \<open>C8: Distributing the pool's yield creates and destroys nothing: the shares paid to distinct
  active miners plus the dust kept for the next round are exactly the yield accumulated before,
  every active miner gets one share, all get the same miner portion, and the pool's ledger and
  invariant are untouched.\<close>

theorem distribute_pool_yield_conserves:
  assumes "pool_inv p" "distinct active_miners" "length active_miners \<le> U64_MAX"
    and "distribute_pool_yield p active_miners now = (shares, p')"
  shows "sum_list (map ys_total_yield shares) + accumulated_yield p' = accumulated_yield p
    \<and> (accumulated_yield p \<noteq> 0 \<longrightarrow> map ys_node_id shares = active_miners)
    \<and> (\<forall>s \<in> set shares. ys_total_yield s = ys_overflow_yield s + ys_miner_yield s
         \<and> ys_miner_yield s = (accumulated_yield p - accumulated_yield p div 2) div length active_miners)
    \<and> pool_inv p' \<and> contributions p' = contributions p"
proof (cases "accumulated_yield p = 0 \<or> active_miners = []")
  case True
  then show ?thesis using assms by (auto simp: distribute_pool_yield_def)
next
  case False
  then obtain y k where k: "(\<Sum>n \<leftarrow> active_miners. overflow_yield_of p y n + k) \<le> accumulated_yield p"
    "k = (accumulated_yield p - accumulated_yield p div 2) div length active_miners"
    and d: "distribute_pool_yield p active_miners now
      = (map (share_of p y k) active_miners,
         p\<lparr>accumulated_yield := accumulated_yield p
             - (\<Sum>n \<leftarrow> active_miners. overflow_yield_of p y n + k), last_distribution := Some now\<rparr>)"
    using distribute_pool_yield_exact [OF assms(1-3), of now] by blast
  have shares: "shares = map (share_of p y k) active_miners"
    and p': "p' = p\<lparr>accumulated_yield := accumulated_yield p
             - (\<Sum>n \<leftarrow> active_miners. overflow_yield_of p y n + k), last_distribution := Some now\<rparr>"
    using d assms(4) by auto
  have "pool_inv p'" using assms(1) p' by (auto simp: pool_inv_def)
  then show ?thesis
    using k by (auto simp: shares p' share_of_def comp_def)
qed

text \<open>The pool of the repository's own test: one whale with a million Lux of overflow, a million
  Lux of yield, and a second miner without overflow.\<close>

definition sample_pool :: NetworkSecurityPool where
  "sample_pool =
     add_yield (snd (add_overflow NetworkSecurityPool_new (NodeId [1]) 1000000 0)) 1000000"

lemma sample_pool_inv: "pool_inv sample_pool"
  by (simp add: sample_pool_def add_overflow_def add_yield_def NetworkSecurityPool_new_def
      pool_inv_def checked_add_u64_def saturating_add_u64_def U64_MAX_def hm_ok_def hm_sum_def
      Let_def)

theorem distribute_pool_yield_conserves_witness:
  "sum_list (map ys_total_yield
      (fst (distribute_pool_yield sample_pool [NodeId [1], NodeId [2]] 5)))
     + accumulated_yield (snd (distribute_pool_yield sample_pool [NodeId [1], NodeId [2]] 5))
     = accumulated_yield sample_pool
   \<and> accumulated_yield sample_pool = 1000000"
proof -
  have "accumulated_yield sample_pool = 1000000"
    by (simp add: sample_pool_def add_overflow_def add_yield_def NetworkSecurityPool_new_def
        checked_add_u64_def saturating_add_u64_def U64_MAX_def Let_def)
  then show ?thesis
    using distribute_pool_yield_conserves [OF sample_pool_inv, of "[NodeId [1], NodeId [2]]" 5]
    by (simp add: U64_MAX_def)
qed

end
