(* ===== verification/Slashing.thy ===== *)
theory Slashing
  imports Core_Types
begin

text \<open>
  Three-pillar slashing, \<^verbatim>\<open>gratia-staking/src/slashing.rs\<close>: the penalty schedule, the
  windowed offence counts and escalation, the split of a slash between stake and overflow and
  between burning and reporters, and the event builder. \<^verbatim>\<open>Utc::now()\<close>, which the builder
  reads through \<^verbatim>\<open>effective_severity\<close>, is the argument \<open>utc_now\<close>.
\<close>

section \<open>Model\<close>

datatype SlashingPillar = ProofOfLife | StakeManipulation | EnergyFraud

datatype SlashingSeverity = SWarning | SMinor | SMajor | SCritical

fun severity_rank :: "SlashingSeverity \<Rightarrow> nat" where
  "severity_rank SWarning = 0"
| "severity_rank SMinor = 1"
| "severity_rank SMajor = 2"
| "severity_rank SCritical = 3"

text \<open>\<^verbatim>\<open>derive(PartialOrd, Ord)\<close>: the order of the declaration.\<close>

instantiation SlashingSeverity :: linorder
begin

definition less_eq_SlashingSeverity :: "SlashingSeverity \<Rightarrow> SlashingSeverity \<Rightarrow> bool" where
  "less_eq_SlashingSeverity a b = (severity_rank a \<le> severity_rank b)"

definition less_SlashingSeverity :: "SlashingSeverity \<Rightarrow> SlashingSeverity \<Rightarrow> bool" where
  "less_SlashingSeverity a b = (severity_rank a < severity_rank b)"

instance
proof
  fix x y :: SlashingSeverity
  show "x \<le> y \<Longrightarrow> y \<le> x \<Longrightarrow> x = y"
    by (cases x; cases y) (simp_all add: less_eq_SlashingSeverity_def)
qed (auto simp: less_eq_SlashingSeverity_def less_SlashingSeverity_def)

end

record SlashingEvent =
  se_node_id :: NodeId
  se_pillar :: SlashingPillar
  se_severity :: SlashingSeverity
  se_amount_slashed :: Lux
  se_reason :: string
  se_timestamp :: datetime
  se_mining_paused :: bool
  se_mining_pause_duration_secs :: u64
  se_permanently_banned :: bool
  se_block_height :: u64

record SlashResult =
  sr_event :: SlashingEvent
  sr_remaining_stake :: Lux
  sr_overflow_slashed :: Lux
  sr_burn_amount :: Lux
  sr_reporter_share :: Lux

record SlashingConfig =
  minor_slash_bps :: u32
  major_slash_bps :: u32
  critical_slash_bps :: u32
  warning_pause_duration_secs :: u64
  major_pause_duration_secs :: u64
  offense_window_secs :: u64
  fraud_burn_bps :: u32
  fraud_reporter_share_bps :: u32
  minor_escalation_threshold :: u32
  major_escalation_threshold :: u32

definition SlashingConfig_default :: SlashingConfig where
  "SlashingConfig_default =
     \<lparr> minor_slash_bps = 1000,
       major_slash_bps = 5000,
       critical_slash_bps = 10000,
       warning_pause_duration_secs = 48 * 3600,
       major_pause_duration_secs = 30 * 24 * 3600,
       offense_window_secs = 90 * 24 * 3600,
       fraud_burn_bps = 7000,
       fraud_reporter_share_bps = 3000,
       minor_escalation_threshold = 3,
       major_escalation_threshold = 2 \<rparr>"

record SlashingHistory =
  sh_warnings :: u32
  sh_minor_slashes :: u32
  sh_major_slashes :: u32
  sh_is_banned :: bool
  sh_events :: "SlashingEvent list"

definition SlashingHistory_default :: SlashingHistory where
  "SlashingHistory_default =
     \<lparr> sh_warnings = 0, sh_minor_slashes = 0, sh_major_slashes = 0, sh_is_banned = False,
       sh_events = [] \<rparr>"

text \<open>The loop over the events: the pair of counters.\<close>
primrec count_loop :: "datetime \<Rightarrow> SlashingEvent list \<Rightarrow> u32 \<Rightarrow> u32 \<Rightarrow> u32 \<times> u32" where
  "count_loop window_start [] minor_count major_count = (minor_count, major_count)"
| "count_loop window_start (event # events) minor_count major_count =
     (if se_timestamp event \<ge> window_start
      then (case se_severity event of
              SMinor \<Rightarrow> count_loop window_start events (add_u32 minor_count 1) major_count
            | SMajor \<Rightarrow> count_loop window_start events minor_count (add_u32 major_count 1)
            | _ \<Rightarrow> count_loop window_start events minor_count major_count)
      else count_loop window_start events minor_count major_count)"

definition windowed_counts :: "SlashingHistory \<Rightarrow> SlashingConfig \<Rightarrow> datetime \<Rightarrow> u32 \<times> u32" where
  "windowed_counts h config now =
     (let window_start = now - duration_seconds (as_i64 (offense_window_secs config))
      in count_loop window_start (sh_events h) 0 0)"

definition effective_severity_at ::
  "SlashingHistory \<Rightarrow> SlashingSeverity \<Rightarrow> SlashingConfig \<Rightarrow> datetime \<Rightarrow> SlashingSeverity" where
  "effective_severity_at h base_severity config now =
     (if sh_is_banned h then SCritical
      else
        let (windowed_minor, windowed_major) = windowed_counts h config now
        in case base_severity of
             SWarning \<Rightarrow> SWarning
           | SMinor \<Rightarrow> if windowed_minor \<ge> minor_escalation_threshold config then SMajor else SMinor
           | SMajor \<Rightarrow> if windowed_major \<ge> major_escalation_threshold config then SCritical else SMajor
           | SCritical \<Rightarrow> SCritical)"

definition effective_severity ::
  "datetime \<Rightarrow> SlashingHistory \<Rightarrow> SlashingSeverity \<Rightarrow> SlashingConfig \<Rightarrow> SlashingSeverity" where
  "effective_severity utc_now h base_severity config =
     effective_severity_at h base_severity config utc_now"

definition calculate_slash_amount ::
  "SlashingSeverity \<Rightarrow> Lux \<Rightarrow> Lux \<Rightarrow> SlashingConfig \<Rightarrow> Lux \<times> Lux" where
  "calculate_slash_amount severity node_stake overflow_amount config =
     (let apply_bps = (\<lambda>slash_bps.
        let total_stake = saturating_add_u64 node_stake overflow_amount;
            total_slash = as_u64 (mul_u128 total_stake slash_bps div 10000);
            from_stake = min total_slash node_stake;
            from_overflow = min (saturating_sub total_slash from_stake) overflow_amount
        in (from_stake, from_overflow))
      in case severity of
           SWarning \<Rightarrow> (0, 0)
         | SMinor \<Rightarrow> apply_bps (minor_slash_bps config)
         | SMajor \<Rightarrow> apply_bps (major_slash_bps config)
         | SCritical \<Rightarrow> apply_bps (critical_slash_bps config))"

definition calculate_slash_distribution :: "Lux \<Rightarrow> bool \<Rightarrow> SlashingConfig \<Rightarrow> Lux \<times> Lux" where
  "calculate_slash_distribution total_slashed is_proven_fraud config =
     (if \<not> is_proven_fraud \<or> total_slashed = 0 then (total_slashed, 0)
      else
        let burn = as_u64 (mul_u128 total_slashed (fraud_burn_bps config) div 10000);
            reporter_share = saturating_sub total_slashed burn
        in (burn, reporter_share))"

definition build_slashing_event ::
  "datetime \<Rightarrow> NodeId \<Rightarrow> SlashingPillar \<Rightarrow> SlashingSeverity \<Rightarrow> string \<Rightarrow> Lux \<Rightarrow> Lux
     \<Rightarrow> SlashingHistory \<Rightarrow> SlashingConfig \<Rightarrow> datetime \<Rightarrow> u64 \<Rightarrow> SlashResult" where
  "build_slashing_event utc_now node_id pillar base_severity reason node_stake overflow_amount
       history config now block_height =
     (let severity = effective_severity utc_now history base_severity config;
          (stake_slash, overflow_slash) =
            calculate_slash_amount severity node_stake overflow_amount config;
          total_slashed = saturating_add_u64 stake_slash overflow_slash;
          remaining_stake = saturating_sub node_stake stake_slash;
          mining_paused = (severity = SWarning \<or> severity = SMajor \<or> severity = SCritical);
          mining_pause_duration_secs =
            (case severity of
               SWarning \<Rightarrow> warning_pause_duration_secs config
             | SMinor \<Rightarrow> 0
             | SMajor \<Rightarrow> major_pause_duration_secs config
             | SCritical \<Rightarrow> U64_MAX div 2);
          permanently_banned = (severity = SCritical);
          is_proven_fraud = (severity = SCritical);
          (burn_amount, reporter_share) =
            calculate_slash_distribution total_slashed is_proven_fraud config;
          event = \<lparr> se_node_id = node_id, se_pillar = pillar, se_severity = severity,
                    se_amount_slashed = total_slashed, se_reason = reason, se_timestamp = now,
                    se_mining_paused = mining_paused,
                    se_mining_pause_duration_secs = mining_pause_duration_secs,
                    se_permanently_banned = permanently_banned, se_block_height = block_height \<rparr>
      in \<lparr> sr_event = event, sr_remaining_stake = remaining_stake,
           sr_overflow_slashed = overflow_slash, sr_burn_amount = burn_amount,
           sr_reporter_share = reporter_share \<rparr>)"

section \<open>Escalation\<close>

definition in_window :: "SlashingConfig \<Rightarrow> datetime \<Rightarrow> SlashingSeverity \<Rightarrow> SlashingEvent \<Rightarrow> bool" where
  "in_window config now sev e \<longleftrightarrow> se_severity e = sev
     \<and> now - duration_seconds (as_i64 (offense_window_secs config)) \<le> se_timestamp e"

lemma count_loop_eq:
  "i + length es \<le> U32_MAX \<Longrightarrow> j + length es \<le> U32_MAX \<Longrightarrow>
     count_loop w es i j =
       (i + length (filter (\<lambda>e. se_severity e = SMinor \<and> w \<le> se_timestamp e) es),
        j + length (filter (\<lambda>e. se_severity e = SMajor \<and> w \<le> se_timestamp e) es))"
  by (induction es arbitrary: i j) (auto split: SlashingSeverity.splits)

lemma windowed_counts_eq:
  "length (sh_events h) \<le> U32_MAX \<Longrightarrow>
     windowed_counts h config now =
       (length (filter (in_window config now SMinor) (sh_events h)),
        length (filter (in_window config now SMajor) (sh_events h)))"
  by (simp add: windowed_counts_def Let_def count_loop_eq in_window_def [abs_def])

lemma effective_severity_ge: "base \<le> effective_severity_at h base config now"
  by (cases base)
    (auto simp: effective_severity_at_def less_eq_SlashingSeverity_def split: prod.splits)

section \<open>Amounts\<close>

fun severity_bps :: "SlashingConfig \<Rightarrow> SlashingSeverity \<Rightarrow> nat" where
  "severity_bps config SWarning = 0"
| "severity_bps config SMinor = minor_slash_bps config"
| "severity_bps config SMajor = major_slash_bps config"
| "severity_bps config SCritical = critical_slash_bps config"

definition wf_slashing_config :: "SlashingConfig \<Rightarrow> bool" where
  "wf_slashing_config config \<longleftrightarrow>
     minor_slash_bps config \<le> 10000 \<and> major_slash_bps config \<le> 10000
     \<and> critical_slash_bps config \<le> 10000 \<and> fraud_burn_bps config \<le> 10000"

lemma wf_slashing_config_default [simp]: "wf_slashing_config SlashingConfig_default"
  by (simp add: wf_slashing_config_def SlashingConfig_default_def)

lemma severity_bps_le: "wf_slashing_config config \<Longrightarrow> severity_bps config sev \<le> 10000"
  by (cases sev) (simp_all add: wf_slashing_config_def)

lemma bps_product_fits: "a \<le> U64_MAX \<Longrightarrow> bps \<le> 10000 \<Longrightarrow> mul_u128 a bps = a * bps"
  by (intro mul_u128_id u64_mult_le_U128) (simp_all add: U64_MAX_def)

lemma slash_amount_eq:
  assumes "wf_slashing_config config" "s + ov \<le> U64_MAX"
  shows "calculate_slash_amount sev s ov config =
    (let t = (s + ov) * severity_bps config sev div 10000 in (min t s, t - min t s))"
proof -
  have le: "(s + ov) * severity_bps config sev div 10000 \<le> s + ov" for sev
    using assms(1) by (intro bps_le severity_bps_le)
  then have rest: "(s + ov) * severity_bps config sev div 10000 - s \<le> ov" for sev
    using le_diff_conv by (simp add: add.commute)
  have fit: "mul_u128 (s + ov) (severity_bps config sev) = (s + ov) * severity_bps config sev" for sev
    using assms by (intro bps_product_fits severity_bps_le)
  show ?thesis
    using le [of sev] rest [of sev] fit [of sev] assms(2)
    by (cases sev) (simp_all add: calculate_slash_amount_def Let_def min_def)
qed

lemma slash_distribution_sum:
  assumes "wf_slashing_config config" "t \<le> U64_MAX"
    and "calculate_slash_distribution t fraud config = (burn, reporter)"
  shows "burn + reporter = t \<and> (fraud \<longrightarrow> burn = t * fraud_burn_bps config div 10000)
    \<and> (\<not> fraud \<longrightarrow> burn = t)"
proof -
  have b: "fraud_burn_bps config \<le> 10000" using assms(1) by (simp add: wf_slashing_config_def)
  have "t * fraud_burn_bps config div 10000 \<le> t" using b by (rule bps_le)
  then show ?thesis
    using assms(2,3) bps_product_fits [OF assms(2) b]
    by (auto simp: calculate_slash_distribution_def Let_def split: if_splits)
qed

lemma critical_top [simp]: "SCritical \<le> sev \<longleftrightarrow> sev = SCritical"
  by (cases sev) (simp_all add: less_eq_SlashingSeverity_def)

lemma built_severity [simp]:
  "se_severity (sr_event (build_slashing_event utc_now n pillar base reason s ov h config now height))
     = effective_severity utc_now h base config"
  by (simp add: build_slashing_event_def Let_def split_beta)

lemma built_slash_fields:
  assumes wf: "wf_slashing_config config" and fits: "s + ov \<le> U64_MAX"
    and r: "r = build_slashing_event utc_now n pillar base reason s ov h config now height"
    and t: "t = (s + ov) * severity_bps config (effective_severity utc_now h base config) div 10000"
  shows "t \<le> s + ov" "se_node_id (sr_event r) = n" "se_amount_slashed (sr_event r) = t"
    "sr_overflow_slashed r = t - s" "sr_remaining_stake r = s - t"
    "(sr_burn_amount r, sr_reporter_share r) = calculate_slash_distribution t
       (effective_severity utc_now h base config = SCritical) config"
    "se_permanently_banned (sr_event r) = (effective_severity utc_now h base config = SCritical)"
proof -
  let ?sev = "effective_severity utc_now h base config"
  show t_le: "t \<le> s + ov" unfolding t using wf by (intro bps_le severity_bps_le)
  have amounts: "calculate_slash_amount ?sev s ov config = (min t s, t - min t s)"
    using slash_amount_eq [OF wf fits, of ?sev] by (simp add: t Let_def)
  have total: "saturating_add_u64 (min t s) (t - min t s) = t" using t_le fits by simp
  show "se_node_id (sr_event r) = n" "se_amount_slashed (sr_event r) = t"
    "sr_overflow_slashed r = t - s" "sr_remaining_stake r = s - t"
    "(sr_burn_amount r, sr_reporter_share r) = calculate_slash_distribution t (?sev = SCritical) config"
    "se_permanently_banned (sr_event r) = (?sev = SCritical)"
    using total by (auto simp: r build_slashing_event_def amounts Let_def split_beta min_def)
qed

section \<open>Properties\<close>

text \<open>C9: The slash a built event orders is exactly the severity's share of the whole position, effective
  stake and overflow together. It is taken from the effective stake first, reaches the overflow only
  when the effective stake is gone, never takes more than either holds, and is split without loss
  between burning and the reporters: all of it is burned, except for a critical offence, the only one
  that bans, of which the configured share is burned and the reporters get the rest. The documentation
  of the penalties speaks of the effective stake only, and of a full burn for proven fraud.\<close>

theorem built_slash_is_exact:
  assumes wf: "wf_slashing_config config" and fits: "s + ov \<le> U64_MAX"
    and r: "r = build_slashing_event utc_now n pillar base reason s ov h config now height"
  shows "se_amount_slashed (sr_event r)
           = (s + ov) * severity_bps config (se_severity (sr_event r)) div 10000
    \<and> sr_overflow_slashed r \<le> ov
    \<and> se_amount_slashed (sr_event r) + sr_remaining_stake r = s + sr_overflow_slashed r
    \<and> (0 < sr_overflow_slashed r \<longrightarrow> sr_remaining_stake r = 0)
    \<and> sr_burn_amount r + sr_reporter_share r = se_amount_slashed (sr_event r)
    \<and> (se_severity (sr_event r) \<noteq> SCritical \<longrightarrow> sr_reporter_share r = 0)
    \<and> (se_severity (sr_event r) = SCritical \<longrightarrow> sr_burn_amount r = se_amount_slashed (sr_event r) * fraud_burn_bps config div 10000)
    \<and> (se_permanently_banned (sr_event r) \<longleftrightarrow> se_severity (sr_event r) = SCritical)
    \<and> base \<le> se_severity (sr_event r)"
proof -
  let ?sev = "effective_severity utc_now h base config"
  define t where "t = (s + ov) * severity_bps config ?sev div 10000"
  note fields = built_slash_fields [OF wf fits r t_def]
  have "sr_burn_amount r + sr_reporter_share r = t" "?sev \<noteq> SCritical \<Longrightarrow> sr_reporter_share r = 0"
    "?sev = SCritical \<Longrightarrow> sr_burn_amount r = t * fraud_burn_bps config div 10000"
    using slash_distribution_sum [OF wf _ fields(6) [symmetric]] fields(1) fits by auto
  moreover have "base \<le> ?sev" by (simp add: effective_severity_def effective_severity_ge)
  moreover have "se_severity (sr_event r) = ?sev" by (simp add: r)
  ultimately show ?thesis
    using fields(1) by (auto simp: fields(3-5,7) t_def [symmetric])
qed

theorem built_slash_is_exact_witness:
  "\<exists>r. r = build_slashing_event 0 (NodeId [1]) EnergyFraud SCritical ''emulator detected'' 1000000
             500000 SlashingHistory_default SlashingConfig_default 0 200
     \<and> se_severity (sr_event r) = SCritical \<and> se_amount_slashed (sr_event r) = 1500000
     \<and> sr_burn_amount r = 1050000 \<and> sr_reporter_share r = 450000"
proof (intro exI conjI)
  let ?r = "build_slashing_event 0 (NodeId [1]) EnergyFraud SCritical ''emulator detected'' 1000000
     500000 SlashingHistory_default SlashingConfig_default 0 200"
  have bps: "critical_slash_bps SlashingConfig_default = 10000" "fraud_burn_bps SlashingConfig_default = 7000"
    by (simp_all add: SlashingConfig_default_def)
  have fits: "1000000 + 500000 \<le> U64_MAX" by (simp add: U64_MAX_def)
  note slash = built_slash_is_exact [OF wf_slashing_config_default fits refl, of 0 "NodeId [1]" EnergyFraud
      SCritical "''emulator detected''" SlashingHistory_default 0 200]
  from slash show sev: "se_severity (sr_event ?r) = SCritical" by (simp del: built_severity)
  from slash show amount: "se_amount_slashed (sr_event ?r) = 1500000" using sev bps by (simp del: built_severity)
  from slash show burn: "sr_burn_amount ?r = 1050000" using sev amount bps by (simp del: built_severity)
  from slash have "sr_burn_amount ?r + sr_reporter_share ?r = se_amount_slashed (sr_event ?r)" by blast
  then show "sr_reporter_share ?r = 450000" using amount burn by linarith
qed (rule refl)

definition three_minor_offences :: SlashingHistory where
  "three_minor_offences = SlashingHistory_default\<lparr>sh_events :=
     replicate 3 \<lparr> se_node_id = NodeId [1], se_pillar = ProofOfLife, se_severity = SMinor,
       se_amount_slashed = 0, se_reason = ''test'', se_timestamp = 0, se_mining_paused = False,
       se_mining_pause_duration_secs = 0, se_permanently_banned = False, se_block_height = 0 \<rparr>\<rparr>"

text \<open>The severity of a built event depends on the wall clock of the node that builds it, not on
  the event's own timestamp: two nodes that build the event of the same offence, from the same
  history and with the same \<^verbatim>\<open>now\<close>, reach different penalties when one of them runs after the
  old offences have left the window.\<close>

theorem built_severity_depends_on_wall_clock:
  "\<exists>early late. se_severity (sr_event (build_slashing_event early (NodeId [1]) ProofOfLife SMinor
        ''again'' 1000000 0 three_minor_offences SlashingConfig_default 0 7)) = SMajor
    \<and> se_severity (sr_event (build_slashing_event late (NodeId [1]) ProofOfLife SMinor
        ''again'' 1000000 0 three_minor_offences SlashingConfig_default 0 7)) = SMinor"
proof (intro exI conjI)
  let ?late = "duration_seconds 8640000"
  have "windowed_counts three_minor_offences SlashingConfig_default 0 = (3, 0)"
    "windowed_counts three_minor_offences SlashingConfig_default ?late = (0, 0)"
    by (simp_all add: windowed_counts_eq three_minor_offences_def SlashingHistory_default_def
        U32_MAX_def in_window_def SlashingConfig_default_def duration_seconds_def as_i64_def
        NANOS_PER_SEC_def)
  then show "se_severity (sr_event (build_slashing_event 0 (NodeId [1]) ProofOfLife SMinor
        ''again'' 1000000 0 three_minor_offences SlashingConfig_default 0 7)) = SMajor"
    "se_severity (sr_event (build_slashing_event ?late (NodeId [1]) ProofOfLife SMinor
        ''again'' 1000000 0 three_minor_offences SlashingConfig_default 0 7)) = SMinor"
    by (simp_all add: effective_severity_def effective_severity_at_def)
      (simp_all add: three_minor_offences_def SlashingHistory_default_def SlashingConfig_default_def)
qed

end
