(* ===== verification/Staking.thy ===== *)
theory Staking
  imports Security_Pool Slashing
begin

text \<open>
  The staking manager, \<^verbatim>\<open>gratia-staking/src/lib.rs\<close>: every method of \<^verbatim>\<open>StakingManager\<close>. A
  method that takes \<^verbatim>\<open>&mut self\<close> returns the manager next to its result, also when it fails,
  because the early returns of the source keep what was already written. The pool and the
  slashing records are those of \<open>Security_Pool\<close> and \<open>Slashing\<close>; the proofs use the pool only
  through the facts of its contract.
\<close>

section \<open>Model\<close>

record NodeStake =
  ns_effective_stake :: Lux
  ns_overflow_amount :: Lux
  ns_total_committed :: Lux
  ns_staked_at :: datetime
  ns_unstake_requested_at :: "datetime option"
  ns_unstake_pending :: Lux

record StakingManager =
  sm_config :: StakingConfig
  sm_stakes :: "(NodeId, NodeStake) hashmap"
  sm_pool :: NetworkSecurityPool
  sm_slashing_histories :: "(NodeId, SlashingHistory) hashmap"
  sm_banned_nodes :: "(NodeId, datetime) hashmap"
  sm_staking_activated_at :: "datetime option"

definition StakingManager_new :: "StakingConfig \<Rightarrow> StakingManager" where
  "StakingManager_new config =
     \<lparr> sm_config = config, sm_stakes = [], sm_pool = NetworkSecurityPool_new,
       sm_slashing_histories = [], sm_banned_nodes = [], sm_staking_activated_at = None \<rparr>"

definition build_stake_info :: "StakingConfig \<Rightarrow> NodeStake \<Rightarrow> StakeInfo" where
  "build_stake_info config s =
     \<lparr> si_node_stake = ns_effective_stake s,
       si_overflow_amount = ns_overflow_amount s,
       si_total_committed = ns_total_committed s,
       si_staked_at = ns_staked_at s,
       si_meets_minimum = (ns_effective_stake s \<ge> minimum_stake config) \<rparr>"

definition update_config ::
  "StakingManager \<Rightarrow> StakingConfig \<Rightarrow> (StakingError, unit) result \<times> StakingManager" where
  "update_config m config =
     (if per_node_cap config = 0
      then (Err (InvalidAmount ''per_node_cap cannot be zero''), m)
      else if per_node_cap config < minimum_stake config
      then (Err (InvalidAmount (''per_node_cap ('' @ show_nat (per_node_cap config)
              @ '') must be >= minimum_stake ('' @ show_nat (minimum_stake config) @ '')'')), m)
      else (Ok (), m\<lparr>sm_config := config\<rparr>))"

definition stake ::
  "StakingManager \<Rightarrow> NodeId \<Rightarrow> Lux \<Rightarrow> datetime \<Rightarrow> (StakingError, StakeInfo) result \<times> StakingManager"
where
  "stake m node_id amount now =
     (if amount = 0
      then (Err (InvalidAmount ''stake amount must be greater than zero''), m)
      else if contains_key (sm_banned_nodes m) node_id then (Err (NodeBanned node_id), m)
      else
        let entry =
              (case map_of (sm_stakes m) node_id of
                 Some s \<Rightarrow> s
               | None \<Rightarrow> \<lparr> ns_effective_stake = 0, ns_overflow_amount = 0, ns_total_committed = 0,
                           ns_staked_at = now, ns_unstake_requested_at = None,
                           ns_unstake_pending = 0 \<rparr>)
        in case checked_add_u64 (ns_total_committed entry) amount of
             None \<Rightarrow> (Err (InvalidAmount ''total committed stake would overflow u64''),
                      m\<lparr>sm_stakes := AList.update node_id entry (sm_stakes m)\<rparr>)
           | Some new_total \<Rightarrow>
               let entry = entry\<lparr>ns_total_committed := new_total\<rparr>;
                   m = m\<lparr>sm_stakes := AList.update node_id entry (sm_stakes m)\<rparr>;
                   cap = per_node_cap (sm_config m);
                   new_effective = min new_total cap;
                   new_overflow = saturating_sub new_total cap;
                   overflow_delta = saturating_sub new_overflow (ns_overflow_amount entry);
                   (r, pool) = add_overflow_if (sm_pool m) node_id overflow_delta now;
                   m = m\<lparr>sm_pool := pool\<rparr>
               in case r of
                    Err e \<Rightarrow> (Err e, m)
                  | Ok _ \<Rightarrow>
                      let entry = entry\<lparr>ns_effective_stake := new_effective,
                                        ns_overflow_amount := new_overflow\<rparr>;
                          m = m\<lparr>sm_stakes := AList.update node_id entry (sm_stakes m)\<rparr>
                      in (Ok (build_stake_info (sm_config m) entry), m))"

text \<open>Whole seconds since a request, \<^verbatim>\<open>(now - requested_at).num_seconds().max(0) as u64\<close>.\<close>
definition elapsed_secs :: "datetime \<Rightarrow> datetime \<Rightarrow> u64" where
  "elapsed_secs now requested_at = nat (max (num_seconds (now - requested_at)) 0)"

definition request_unstake ::
  "StakingManager \<Rightarrow> NodeId \<Rightarrow> Lux \<Rightarrow> datetime \<Rightarrow> (StakingError, StakeInfo) result \<times> StakingManager"
where
  "request_unstake m node_id amount now =
     (if amount = 0
      then (Err (InvalidAmount ''unstake amount must be greater than zero''), m)
      else case map_of (sm_stakes m) node_id of
        None \<Rightarrow> (Err (NodeNotFound node_id), m)
      | Some entry \<Rightarrow>
          let cooldown = unstake_cooldown_secs (sm_config m);
              active = (case ns_unstake_requested_at entry of
                          Some requested_at \<Rightarrow>
                            (let elapsed = elapsed_secs now requested_at
                             in if elapsed < cooldown then Some (sub_u64 cooldown elapsed) else None)
                        | None \<Rightarrow> None)
          in case active of
               Some remaining_secs \<Rightarrow> (Err (CooldownActive remaining_secs), m)
             | None \<Rightarrow>
                 if amount > ns_total_committed entry
                 then (Err (InsufficientStake (ns_total_committed entry) amount), m)
                 else
                   let from_overflow = min amount (ns_overflow_amount entry);
                       from_effective = sub_u64 amount from_overflow;
                       (r, pool) = remove_overflow_if (sm_pool m) node_id from_overflow now;
                       m = m\<lparr>sm_pool := pool\<rparr>
                   in case r of
                        Err e \<Rightarrow> (Err e, m)
                      | Ok _ \<Rightarrow>
                          let entry = entry\<lparr>
                                ns_overflow_amount := sub_u64 (ns_overflow_amount entry) from_overflow,
                                ns_effective_stake := sub_u64 (ns_effective_stake entry) from_effective,
                                ns_total_committed := sub_u64 (ns_total_committed entry) amount,
                                ns_unstake_requested_at := Some now,
                                ns_unstake_pending := amount\<rparr>;
                              info = build_stake_info (sm_config m) entry;
                              stakes = AList.update node_id entry (sm_stakes m)
                          in if ns_total_committed entry = 0
                             then (Ok info, m\<lparr>sm_stakes := AList.delete node_id stakes\<rparr>)
                             else (Ok info, m\<lparr>sm_stakes := stakes\<rparr>))"

definition complete_unstake ::
  "StakingManager \<Rightarrow> NodeId \<Rightarrow> datetime \<Rightarrow> (StakingError, Lux) result \<times> StakingManager" where
  "complete_unstake m node_id now =
     (case map_of (sm_stakes m) node_id of
        None \<Rightarrow> (Err (NodeNotFound node_id), m)
      | Some entry \<Rightarrow>
          (case ns_unstake_requested_at entry of
             None \<Rightarrow> (Err (InvalidAmount ''no pending unstake request''), m)
           | Some requested_at \<Rightarrow>
               let cooldown = unstake_cooldown_secs (sm_config m);
                   elapsed = elapsed_secs now requested_at
               in if elapsed < cooldown
                  then (Err (CooldownActive (sub_u64 cooldown elapsed)), m)
                  else
                    let released = ns_unstake_pending entry;
                        entry = entry\<lparr>ns_unstake_pending := 0, ns_unstake_requested_at := None\<rparr>
                    in (Ok released, m\<lparr>sm_stakes := AList.update node_id entry (sm_stakes m)\<rparr>)))"

definition check_activation :: "StakingManager \<Rightarrow> u64 \<Rightarrow> datetime \<Rightarrow> bool \<times> StakingManager" where
  "check_activation m active_miners now =
     (if sm_staking_activated_at m \<noteq> None then (False, m)
      else if active_miners \<ge> staking_activation_threshold (sm_config m)
      then (True, m\<lparr>sm_staking_activated_at := Some now\<rparr>)
      else (False, m))"

definition effective_minimum_stake :: "StakingManager \<Rightarrow> datetime \<Rightarrow> Lux" where
  "effective_minimum_stake m now =
     (case sm_staking_activated_at m of
        None \<Rightarrow> 0
      | Some activated_at \<Rightarrow>
          let elapsed = now - activated_at;
              grace = duration_seconds (as_i64 (staking_activation_grace_secs (sm_config m)))
          in if elapsed < grace then 0 else activated_minimum_stake (sm_config m))"

definition is_staking_activated :: "StakingManager \<Rightarrow> bool" where
  "is_staking_activated m = (sm_staking_activated_at m \<noteq> None)"

definition meets_minimum_stake :: "StakingManager \<Rightarrow> NodeId \<Rightarrow> bool" where
  "meets_minimum_stake m node_id =
     (case map_of (sm_stakes m) node_id of
        Some s \<Rightarrow> ns_effective_stake s \<ge> minimum_stake (sm_config m)
      | None \<Rightarrow> False)"

definition meets_minimum_stake_at :: "StakingManager \<Rightarrow> NodeId \<Rightarrow> datetime \<Rightarrow> bool" where
  "meets_minimum_stake_at m node_id now =
     (let minimum = effective_minimum_stake m now
      in if minimum = 0 then True
         else case map_of (sm_stakes m) node_id of
                Some s \<Rightarrow> ns_effective_stake s \<ge> minimum
              | None \<Rightarrow> False)"

definition effective_stake :: "StakingManager \<Rightarrow> NodeId \<Rightarrow> Lux" where
  "effective_stake m node_id =
     (case map_of (sm_stakes m) node_id of Some s \<Rightarrow> ns_effective_stake s | None \<Rightarrow> 0)"

definition total_stake :: "StakingManager \<Rightarrow> NodeId \<Rightarrow> Lux" where
  "total_stake m node_id =
     (case map_of (sm_stakes m) node_id of Some s \<Rightarrow> ns_total_committed s | None \<Rightarrow> 0)"

definition get_stake_info :: "StakingManager \<Rightarrow> NodeId \<Rightarrow> StakeInfo option" where
  "get_stake_info m node_id =
     map_option (build_stake_info (sm_config m)) (map_of (sm_stakes m) node_id)"

definition get_pending_unstake :: "StakingManager \<Rightarrow> NodeId \<Rightarrow> (Lux \<times> datetime) option" where
  "get_pending_unstake m node_id =
     (case map_of (sm_stakes m) node_id of
        None \<Rightarrow> None
      | Some s \<Rightarrow> map_option (\<lambda>requested_at. (ns_unstake_pending s, requested_at))
                    (ns_unstake_requested_at s))"

definition get_slashing_history :: "StakingManager \<Rightarrow> NodeId \<Rightarrow> SlashingHistory option" where
  "get_slashing_history m node_id = map_of (sm_slashing_histories m) node_id"

text \<open>The history update of \<^verbatim>\<open>apply_slash\<close>: one counter or the ban flag, then the event.\<close>
definition record_offence :: "SlashingHistory \<Rightarrow> SlashingEvent \<Rightarrow> SlashingHistory" where
  "record_offence history event =
     (let history =
        (case se_severity event of
           SWarning \<Rightarrow> history\<lparr>sh_warnings := add_u32 (sh_warnings history) 1\<rparr>
         | SMinor \<Rightarrow> history\<lparr>sh_minor_slashes := add_u32 (sh_minor_slashes history) 1\<rparr>
         | SMajor \<Rightarrow> history\<lparr>sh_major_slashes := add_u32 (sh_major_slashes history) 1\<rparr>
         | SCritical \<Rightarrow> history\<lparr>sh_is_banned := True\<rparr>)
      in history\<lparr>sh_events := sh_events history @ [event]\<rparr>)"

definition apply_slash ::
  "StakingManager \<Rightarrow> SlashResult \<Rightarrow> datetime \<Rightarrow> (StakingError, unit) result \<times> StakingManager" where
  "apply_slash m result now =
     (let event = sr_event result;
          node_id = se_node_id event
      in case map_of (sm_stakes m) node_id of
           None \<Rightarrow> (Err (NodeNotFound node_id), m)
         | Some entry \<Rightarrow>
             let stake_slash = saturating_sub (se_amount_slashed event) (sr_overflow_slashed result);
                 entry = entry\<lparr>
                   ns_effective_stake := saturating_sub (ns_effective_stake entry) stake_slash,
                   ns_total_committed :=
                     saturating_sub (ns_total_committed entry) (se_amount_slashed event)\<rparr>;
                 m = m\<lparr>sm_stakes := AList.update node_id entry (sm_stakes m)\<rparr>;
                 (r, pool) =
                   remove_overflow_if (sm_pool m) node_id (sr_overflow_slashed result) now;
                 m = m\<lparr>sm_pool := pool\<rparr>
             in case r of
                  Err e \<Rightarrow> (Err e, m)
                | Ok _ \<Rightarrow>
                    let entry = (if sr_overflow_slashed result > 0
                                 then entry\<lparr>ns_overflow_amount :=
                                        saturating_sub (ns_overflow_amount entry)
                                          (sr_overflow_slashed result)\<rparr>
                                 else entry);
                        history = (case map_of (sm_slashing_histories m) node_id of
                                     Some h \<Rightarrow> h | None \<Rightarrow> SlashingHistory_default);
                        m = m\<lparr>sm_stakes := AList.update node_id entry (sm_stakes m),
                              sm_slashing_histories :=
                                AList.update node_id (record_offence history event)
                                  (sm_slashing_histories m),
                              sm_banned_nodes :=
                                (if se_severity event = SCritical
                                 then AList.update node_id now (sm_banned_nodes m)
                                 else sm_banned_nodes m)\<rparr>
                    in if ns_total_committed entry = 0
                       then (Ok (), m\<lparr>sm_stakes := AList.delete node_id (sm_stakes m)\<rparr>)
                       else (Ok (), m))"

definition is_banned :: "StakingManager \<Rightarrow> NodeId \<Rightarrow> bool" where
  "is_banned m node_id = contains_key (sm_banned_nodes m) node_id"

definition staker_count :: "StakingManager \<Rightarrow> usize" where
  "staker_count m = length (sm_stakes m)"

definition eligible_miners :: "StakingManager \<Rightarrow> NodeId list" where
  "eligible_miners m =
     map fst (filter (\<lambda>(_, s). ns_effective_stake s \<ge> minimum_stake (sm_config m)) (sm_stakes m))"

section \<open>Invariant\<close>

text \<open>
  Every entry splits its commitment into an effective and an overflow part, is not empty, and the
  pool holds at least the overflow the entry claims. (At least, not exactly: see the property on
  topping up after a slash.)
\<close>

definition entry_ok :: "NetworkSecurityPool \<Rightarrow> NodeId \<Rightarrow> NodeStake \<Rightarrow> bool" where
  "entry_ok p n s \<longleftrightarrow>
     ns_effective_stake s + ns_overflow_amount s = ns_total_committed s
     \<and> 0 < ns_total_committed s \<and> ns_total_committed s \<le> U64_MAX
     \<and> ns_overflow_amount s \<le> pool_held p n"

definition stakes_inv :: "(NodeId, NodeStake) hashmap \<Rightarrow> NetworkSecurityPool \<Rightarrow> bool" where
  "stakes_inv stakes p \<longleftrightarrow>
     hm_ok stakes \<and> pool_inv p \<and> (\<forall>n s. map_of stakes n = Some s \<longrightarrow> entry_ok p n s)"

definition sm_inv :: "StakingManager \<Rightarrow> bool" where
  "sm_inv m \<longleftrightarrow> stakes_inv (sm_stakes m) (sm_pool m)"

definition overflow_stake :: "StakingManager \<Rightarrow> NodeId \<Rightarrow> Lux" where
  "overflow_stake m n =
     (case map_of (sm_stakes m) n of Some s \<Rightarrow> ns_overflow_amount s | None \<Rightarrow> 0)"

lemma sm_inv_new [simp]: "sm_inv (StakingManager_new config)"
  by (simp add: sm_inv_def stakes_inv_def StakingManager_new_def)

lemma stakes_inv_update:
  assumes "stakes_inv st p" "pool_inv p'" "entry_ok p' n s"
    and "\<And>k. k \<noteq> n \<Longrightarrow> pool_held p' k = pool_held p k"
  shows "stakes_inv (AList.update n s st) p'"
  using assms by (auto simp: stakes_inv_def entry_ok_def)

lemma stakes_inv_delete:
  assumes "stakes_inv st p" "pool_inv p'"
    and "\<And>k. k \<noteq> n \<Longrightarrow> pool_held p' k = pool_held p k"
  shows "stakes_inv (AList.delete n st) p'"
  using assms by (auto simp: stakes_inv_def entry_ok_def)

lemma stakes_inv_entry: "stakes_inv st p \<Longrightarrow> map_of st n = Some s \<Longrightarrow> entry_ok p n s"
  by (simp add: stakes_inv_def)

lemma stakes_inv_pool: "stakes_inv st p \<Longrightarrow> pool_inv p"
  by (simp add: stakes_inv_def)

lemma delete_update: "AList.delete n (AList.update n s st) = AList.delete n st"
  by (induction st) auto

lemma update_update: "AList.update n s' (AList.update n s st) = AList.update n s' st"
  by (induction st) auto

lemma position_sum: "sm_inv m \<Longrightarrow> effective_stake m n + overflow_stake m n = total_stake m n"
  by (auto simp: sm_inv_def stakes_inv_def entry_ok_def effective_stake_def overflow_stake_def
      total_stake_def split: option.splits)

lemma total_stake_bound: "sm_inv m \<Longrightarrow> total_stake m n \<le> U64_MAX"
  by (auto simp: sm_inv_def stakes_inv_def entry_ok_def total_stake_def split: option.splits)

section \<open>Staking\<close>

text \<open>The Lux at stake fit in 64 bits: adding the amount overflows neither the node's commitment
  nor the pool's total.\<close>
definition stake_fits :: "StakingManager \<Rightarrow> NodeId \<Rightarrow> Lux \<Rightarrow> bool" where
  "stake_fits m n amount \<longleftrightarrow> total_overflow (sm_pool m) + (total_stake m n + amount) \<le> U64_MAX"

definition staked_entry :: "StakingManager \<Rightarrow> NodeId \<Rightarrow> Lux \<Rightarrow> datetime \<Rightarrow> NodeStake" where
  "staked_entry m n amount now =
     (case map_of (sm_stakes m) n of
        Some s \<Rightarrow> s
      | None \<Rightarrow> \<lparr> ns_effective_stake = 0, ns_overflow_amount = 0, ns_total_committed = 0,
                  ns_staked_at = now, ns_unstake_requested_at = None, ns_unstake_pending = 0 \<rparr>)
     \<lparr>ns_total_committed := total_stake m n + amount,
      ns_effective_stake := min (total_stake m n + amount) (per_node_cap (sm_config m)),
      ns_overflow_amount := total_stake m n + amount - per_node_cap (sm_config m)\<rparr>"

lemma stake_works:
  assumes inv: "sm_inv m" and "0 < amount" "\<not> is_banned m n" and fits: "stake_fits m n amount"
  shows "\<exists>p'. stake m n amount now
      = (Ok (build_stake_info (sm_config m) (staked_entry m n amount now)),
         m\<lparr>sm_stakes := AList.update n (staked_entry m n amount now) (sm_stakes m), sm_pool := p'\<rparr>)
    \<and> pool_inv p'
    \<and> pool_held p' = (pool_held (sm_pool m))(n := pool_held (sm_pool m) n
         + (total_stake m n + amount - per_node_cap (sm_config m) - overflow_stake m n))"
proof -
  let ?t = "total_stake m n + amount" and ?cap = "per_node_cap (sm_config m)"
  let ?d = "?t - ?cap - overflow_stake m n"
  have pinv: "pool_inv (sm_pool m)" using inv by (simp add: sm_inv_def stakes_inv_pool)
  have "total_overflow (sm_pool m) + ?d \<le> U64_MAX" "?t \<le> U64_MAX"
    using fits by (auto simp: stake_fits_def)
  then obtain p' where p': "add_overflow_if (sm_pool m) n ?d now = (Ok (), p')" "pool_inv p'"
      "pool_held p' = (pool_held (sm_pool m))(n := pool_held (sm_pool m) n + ?d)"
    using add_overflow_if_works [OF pinv, of ?d n now] by blast
  let ?e = "case map_of (sm_stakes m) n of Some s \<Rightarrow> s
      | None \<Rightarrow> \<lparr> ns_effective_stake = 0, ns_overflow_amount = 0, ns_total_committed = 0,
                  ns_staked_at = now, ns_unstake_requested_at = None, ns_unstake_pending = 0 \<rparr>"
  have e: "ns_total_committed ?e = total_stake m n" "ns_overflow_amount ?e = overflow_stake m n"
    by (auto simp: total_stake_def overflow_stake_def split: option.splits)
  have "stake m n amount now
      = (Ok (build_stake_info (sm_config m) (staked_entry m n amount now)),
         m\<lparr>sm_stakes := AList.update n (staked_entry m n amount now) (sm_stakes m), sm_pool := p'\<rparr>)"
    using assms(2,3) \<open>?t \<le> U64_MAX\<close> p'(1)
    by (simp add: stake_def e is_banned_def checked_add_u64_def Let_def staked_entry_def update_update
        del: checked_add_u64_Some)
  then show ?thesis using p'(2,3) by blast
qed

lemma stake_refused:
  "amount = 0 \<or> is_banned m n \<Longrightarrow> \<exists>e. stake m n amount now = (Err e, m)"
  by (auto simp: stake_def is_banned_def)

lemma staked_entry_ok:
  assumes "sm_inv m" "0 < amount" "stake_fits m n amount"
    and "pool_held p' n = pool_held (sm_pool m) n
      + (total_stake m n + amount - per_node_cap (sm_config m) - overflow_stake m n)"
  shows "entry_ok p' n (staked_entry m n amount now)"
proof -
  have "overflow_stake m n \<le> pool_held (sm_pool m) n"
    using assms(1) by (auto simp: sm_inv_def stakes_inv_def entry_ok_def overflow_stake_def
        split: option.splits)
  then show ?thesis
    using assms(2-4) by (auto simp: entry_ok_def staked_entry_def stake_fits_def min_def)
qed

lemma stake_sm_inv [inv_intro]:
  assumes inv: "sm_inv m" and fits: "stake_fits m n amount"
  shows "sm_inv (snd (stake m n amount now))"
proof (cases "amount = 0 \<or> is_banned m n")
  case True
  then show ?thesis using stake_refused [of amount m n now] inv by auto
next
  case False
  then obtain p' where p': "snd (stake m n amount now) =
      m\<lparr>sm_stakes := AList.update n (staked_entry m n amount now) (sm_stakes m), sm_pool := p'\<rparr>"
      "pool_inv p'"
      "pool_held p' = (pool_held (sm_pool m))(n := pool_held (sm_pool m) n
         + (total_stake m n + amount - per_node_cap (sm_config m) - overflow_stake m n))"
    using stake_works [OF inv _ _ fits, of now] by auto
  have "entry_ok p' n (staked_entry m n amount now)"
    using False p'(3) by (intro staked_entry_ok [OF inv _ fits]) simp_all
  with p' inv show ?thesis
    by (auto simp: sm_inv_def intro!: stakes_inv_update)
qed

section \<open>Unstaking\<close>

definition cooled_down :: "StakingManager \<Rightarrow> NodeStake \<Rightarrow> datetime \<Rightarrow> bool" where
  "cooled_down m s now = (case ns_unstake_requested_at s of
     None \<Rightarrow> True | Some r \<Rightarrow> unstake_cooldown_secs (sm_config m) \<le> elapsed_secs now r)"

definition unstaked_entry :: "NodeStake \<Rightarrow> Lux \<Rightarrow> datetime \<Rightarrow> NodeStake" where
  "unstaked_entry s amount now = s\<lparr>
     ns_overflow_amount := ns_overflow_amount s - min amount (ns_overflow_amount s),
     ns_effective_stake := ns_effective_stake s - (amount - min amount (ns_overflow_amount s)),
     ns_total_committed := ns_total_committed s - amount,
     ns_unstake_requested_at := Some now, ns_unstake_pending := amount\<rparr>"

lemma request_unstake_works:
  assumes inv: "sm_inv m" and s: "map_of (sm_stakes m) n = Some s" and cool: "cooled_down m s now"
    and "0 < amount" "amount \<le> ns_total_committed s"
  shows "\<exists>p'. request_unstake m n amount now
      = (Ok (build_stake_info (sm_config m) (unstaked_entry s amount now)),
         m\<lparr>sm_pool := p',
           sm_stakes := (if amount = ns_total_committed s then AList.delete n (sm_stakes m)
             else AList.update n (unstaked_entry s amount now) (sm_stakes m))\<rparr>)
    \<and> pool_inv p'
    \<and> pool_held p' = (pool_held (sm_pool m))
         (n := pool_held (sm_pool m) n - min amount (ns_overflow_amount s))"
proof -
  have pinv: "pool_inv (sm_pool m)" using inv by (simp add: sm_inv_def stakes_inv_pool)
  have ok: "entry_ok (sm_pool m) n s" using inv s by (simp add: sm_inv_def stakes_inv_entry)
  let ?d = "min amount (ns_overflow_amount s)"
  have "?d \<le> pool_held (sm_pool m) n" using ok by (auto simp: entry_ok_def)
  then obtain p' where p': "remove_overflow_if (sm_pool m) n ?d now = (Ok (), p')" "pool_inv p'"
      "pool_held p' = (pool_held (sm_pool m))(n := pool_held (sm_pool m) n - ?d)"
    using remove_overflow_if_works [OF pinv, of ?d n now] by blast
  have subs: "sub_u64 (ns_overflow_amount s) ?d = ns_overflow_amount s - ?d"
    "sub_u64 amount ?d = amount - ?d"
    "sub_u64 (ns_effective_stake s) (amount - ?d) = ns_effective_stake s - (amount - ?d)"
    "sub_u64 (ns_total_committed s) amount = ns_total_committed s - amount"
    using ok assms(5) by (auto simp: entry_ok_def intro!: sub_u64_id)
  have "request_unstake m n amount now
      = (Ok (build_stake_info (sm_config m) (unstaked_entry s amount now)),
         m\<lparr>sm_pool := p',
           sm_stakes := (if amount = ns_total_committed s then AList.delete n (sm_stakes m)
             else AList.update n (unstaked_entry s amount now) (sm_stakes m))\<rparr>)"
    using assms(4,5) cool p'(1)
    by (auto simp: request_unstake_def s Let_def subs unstaked_entry_def cooled_down_def delete_update
        split: option.splits)
  then show ?thesis using p'(2,3) by blast
qed

lemma request_unstake_refused:
  assumes "sm_inv m"
    and "\<not> (\<exists>s. map_of (sm_stakes m) n = Some s \<and> cooled_down m s now
           \<and> 0 < amount \<and> amount \<le> ns_total_committed s)"
  shows "\<exists>e. request_unstake m n amount now = (Err e, m)"
proof (cases "map_of (sm_stakes m) n")
  case None
  then show ?thesis by (auto simp: request_unstake_def)
next
  case (Some s)
  with assms(2) have "amount = 0 \<or> ns_total_committed s < amount \<or> \<not> cooled_down m s now"
    by (meson not_gr_zero not_less)
  with Some show ?thesis
    by (auto simp: request_unstake_def cooled_down_def Let_def split: option.splits)
qed

lemma unstaked_entry_ok:
  assumes "entry_ok p n s" "0 < amount" "amount < ns_total_committed s"
    and "pool_held p' n = pool_held p n - min amount (ns_overflow_amount s)"
  shows "entry_ok p' n (unstaked_entry s amount now)"
  using assms by (auto simp: entry_ok_def unstaked_entry_def min_def)

lemma request_unstake_sm_inv [inv_intro]:
  assumes inv: "sm_inv m"
  shows "sm_inv (snd (request_unstake m n amount now))"
proof (cases "\<exists>s. map_of (sm_stakes m) n = Some s \<and> cooled_down m s now
           \<and> 0 < amount \<and> amount \<le> ns_total_committed s")
  case False
  then show ?thesis using request_unstake_refused [OF inv False] inv by auto
next
  case True
  then obtain s where s: "map_of (sm_stakes m) n = Some s" "cooled_down m s now"
    "0 < amount" "amount \<le> ns_total_committed s" by blast
  then obtain p' where p': "snd (request_unstake m n amount now) = m\<lparr>sm_pool := p',
           sm_stakes := (if amount = ns_total_committed s then AList.delete n (sm_stakes m)
             else AList.update n (unstaked_entry s amount now) (sm_stakes m))\<rparr>"
      "pool_inv p'" "pool_held p' = (pool_held (sm_pool m))
         (n := pool_held (sm_pool m) n - min amount (ns_overflow_amount s))"
    using request_unstake_works [OF inv] by (metis snd_conv)
  have "amount < ns_total_committed s \<Longrightarrow> entry_ok p' n (unstaked_entry s amount now)"
    using inv s p'(3) by (intro unstaked_entry_ok [of "sm_pool m"])
      (simp_all add: sm_inv_def stakes_inv_entry)
  with p' s inv show ?thesis
    by (auto simp: sm_inv_def intro!: stakes_inv_update stakes_inv_delete)
qed

lemma complete_unstake_sm_inv [inv_intro]:
  "sm_inv m \<Longrightarrow> sm_inv (snd (complete_unstake m n now))"
  by (auto simp: complete_unstake_def sm_inv_def stakes_inv_def entry_ok_def Let_def split: option.splits)

section \<open>Slashing\<close>

text \<open>A slash order that fits the node's present position: what it takes from the overflow and from
  the effective stake is there.\<close>
definition slash_matches :: "StakingManager \<Rightarrow> SlashResult \<Rightarrow> bool" where
  "slash_matches m r \<longleftrightarrow> (let n = se_node_id (sr_event r) in
     sr_overflow_slashed r \<le> se_amount_slashed (sr_event r)
     \<and> sr_overflow_slashed r \<le> overflow_stake m n
     \<and> se_amount_slashed (sr_event r) - sr_overflow_slashed r \<le> effective_stake m n)"

definition slashed_entry :: "NodeStake \<Rightarrow> SlashResult \<Rightarrow> NodeStake" where
  "slashed_entry s r = s\<lparr>
     ns_effective_stake := ns_effective_stake s - (se_amount_slashed (sr_event r) - sr_overflow_slashed r),
     ns_total_committed := ns_total_committed s - se_amount_slashed (sr_event r),
     ns_overflow_amount := ns_overflow_amount s - sr_overflow_slashed r\<rparr>"

definition slashed_records :: "StakingManager \<Rightarrow> SlashingEvent \<Rightarrow> datetime \<Rightarrow> StakingManager" where
  "slashed_records m event now = m\<lparr>
     sm_slashing_histories := AList.update (se_node_id event)
       (record_offence (case map_of (sm_slashing_histories m) (se_node_id event) of
          Some h \<Rightarrow> h | None \<Rightarrow> SlashingHistory_default) event) (sm_slashing_histories m),
     sm_banned_nodes := (if se_severity event = SCritical
       then AList.update (se_node_id event) now (sm_banned_nodes m) else sm_banned_nodes m)\<rparr>"

lemma apply_slash_works:
  assumes inv: "sm_inv m" and n: "n = se_node_id (sr_event r)"
    and s: "map_of (sm_stakes m) n = Some s" and fits: "slash_matches m r"
  shows "\<exists>p'. apply_slash m r now
      = (Ok (), (slashed_records m (sr_event r) now)\<lparr>sm_pool := p',
           sm_stakes := (if se_amount_slashed (sr_event r) = ns_total_committed s
             then AList.delete n (sm_stakes m)
             else AList.update n (slashed_entry s r) (sm_stakes m))\<rparr>)
    \<and> pool_inv p'
    \<and> pool_held p' = (pool_held (sm_pool m))(n := pool_held (sm_pool m) n - sr_overflow_slashed r)"
proof -
  let ?d = "sr_overflow_slashed r" and ?a = "se_amount_slashed (sr_event r)"
  have ok: "entry_ok (sm_pool m) n s" using inv s by (simp add: sm_inv_def stakes_inv_entry)
  have pos: "?d \<le> ?a" "?d \<le> ns_overflow_amount s" "?a - ?d \<le> ns_effective_stake s"
    using fits s by (simp_all add: slash_matches_def Let_def n overflow_stake_def effective_stake_def)
  have pinv: "pool_inv (sm_pool m)" using inv by (simp add: sm_inv_def stakes_inv_pool)
  have "?d \<le> pool_held (sm_pool m) n" using ok pos by (auto simp: entry_ok_def)
  then obtain p' where p': "remove_overflow_if (sm_pool m) n ?d now = (Ok (), p')" "pool_inv p'"
      "pool_held p' = (pool_held (sm_pool m))(n := pool_held (sm_pool m) n - ?d)"
    using remove_overflow_if_works [OF pinv, of ?d n now] by blast
  have le: "?a \<le> ns_total_committed s" using ok pos by (auto simp: entry_ok_def)
  have "apply_slash m r now
      = (Ok (), (slashed_records m (sr_event r) now)\<lparr>sm_pool := p',
           sm_stakes := (if ?a = ns_total_committed s then AList.delete n (sm_stakes m)
             else AList.update n (slashed_entry s r) (sm_stakes m))\<rparr>)"
    using s p'(1) le
    by (auto simp: apply_slash_def n [symmetric] Let_def slashed_records_def slashed_entry_def
        delete_update update_update)
  then show ?thesis using p'(2,3) by blast
qed

lemma apply_slash_unknown:
  "map_of (sm_stakes m) (se_node_id (sr_event r)) = None \<Longrightarrow>
     apply_slash m r now = (Err (NodeNotFound (se_node_id (sr_event r))), m)"
  by (simp add: apply_slash_def Let_def)

lemma slashed_entry_ok:
  assumes "entry_ok p n s" "se_amount_slashed (sr_event r) < ns_total_committed s"
    and "sr_overflow_slashed r \<le> se_amount_slashed (sr_event r)"
    and "sr_overflow_slashed r \<le> ns_overflow_amount s"
    and "se_amount_slashed (sr_event r) - sr_overflow_slashed r \<le> ns_effective_stake s"
    and "pool_held p' n = pool_held p n - sr_overflow_slashed r"
  shows "entry_ok p' n (slashed_entry s r)"
  using assms by (auto simp: entry_ok_def slashed_entry_def)

lemma slashed_records_keeps [simp]:
  "sm_config (slashed_records m ev now) = sm_config m"
  "sm_stakes (slashed_records m ev now) = sm_stakes m"
  "sm_pool (slashed_records m ev now) = sm_pool m"
  "sm_staking_activated_at (slashed_records m ev now) = sm_staking_activated_at m"
  by (simp_all add: slashed_records_def)

lemma apply_slash_sm_inv [inv_intro]:
  assumes inv: "sm_inv m" and fits: "slash_matches m r"
  shows "sm_inv (snd (apply_slash m r now))"
proof (cases "map_of (sm_stakes m) (se_node_id (sr_event r))")
  case None
  then show ?thesis using inv by (simp add: apply_slash_unknown)
next
  case (Some s)
  let ?n = "se_node_id (sr_event r)" and ?a = "se_amount_slashed (sr_event r)"
  have ok: "entry_ok (sm_pool m) ?n s" using inv Some by (simp add: sm_inv_def stakes_inv_entry)
  have pos: "sr_overflow_slashed r \<le> ?a" "sr_overflow_slashed r \<le> ns_overflow_amount s"
    "?a - sr_overflow_slashed r \<le> ns_effective_stake s"
    using fits Some by (simp_all add: slash_matches_def Let_def overflow_stake_def effective_stake_def)
  obtain p' where p': "snd (apply_slash m r now) = (slashed_records m (sr_event r) now)\<lparr>sm_pool := p',
           sm_stakes := (if ?a = ns_total_committed s then AList.delete ?n (sm_stakes m)
             else AList.update ?n (slashed_entry s r) (sm_stakes m))\<rparr>"
      "pool_inv p'"
      "pool_held p' = (pool_held (sm_pool m))(?n := pool_held (sm_pool m) ?n - sr_overflow_slashed r)"
    using apply_slash_works [OF inv refl Some fits, of now] by (metis snd_conv)
  have "?a \<noteq> ns_total_committed s \<Longrightarrow> entry_ok p' ?n (slashed_entry s r)"
    using ok pos p'(3) by (intro slashed_entry_ok [of "sm_pool m"]) (auto simp: entry_ok_def)
  with p' inv show ?thesis
    by (auto simp: sm_inv_def intro!: stakes_inv_update stakes_inv_delete)
qed

lemma built_slash_matches:
  assumes inv: "sm_inv m" and wf: "wf_slashing_config config"
  shows "slash_matches m (build_slashing_event utc_now n pillar base reason (effective_stake m n)
           (overflow_stake m n) h config now height)"
proof -
  have fits: "effective_stake m n + overflow_stake m n \<le> U64_MAX"
    using position_sum [OF inv] total_stake_bound [OF inv] by simp
  note f = built_slash_fields [OF wf fits refl refl]
  show ?thesis using f(1) [of utc_now h base] by (auto simp: slash_matches_def Let_def f(2-4))
qed

section \<open>Runs of the manager\<close>

text \<open>The calls that change a manager, the two pool operations through \<^verbatim>\<open>pool_mut\<close> included.\<close>
datatype staking_op =
  OpStake NodeId Lux datetime
| OpRequestUnstake NodeId Lux datetime
| OpCompleteUnstake NodeId datetime
| OpSlash SlashResult datetime
| OpUpdateConfig StakingConfig
| OpCheckActivation u64 datetime
| OpAddYield Lux
| OpDistributeYield "NodeId list" datetime

fun staking_step :: "StakingManager \<Rightarrow> staking_op \<Rightarrow> StakingManager" where
  "staking_step m (OpStake n amount now) = snd (stake m n amount now)"
| "staking_step m (OpRequestUnstake n amount now) = snd (request_unstake m n amount now)"
| "staking_step m (OpCompleteUnstake n now) = snd (complete_unstake m n now)"
| "staking_step m (OpSlash r now) = snd (apply_slash m r now)"
| "staking_step m (OpUpdateConfig config) = snd (update_config m config)"
| "staking_step m (OpCheckActivation miners now) = snd (check_activation m miners now)"
| "staking_step m (OpAddYield amount) = m\<lparr>sm_pool := add_yield (sm_pool m) amount\<rparr>"
| "staking_step m (OpDistributeYield miners now) =
     m\<lparr>sm_pool := snd (distribute_pool_yield (sm_pool m) miners now)\<rparr>"

fun staking_guard :: "StakingManager \<Rightarrow> staking_op \<Rightarrow> bool" where
  "staking_guard m (OpStake n amount now) = stake_fits m n amount"
| "staking_guard m (OpSlash r now) = slash_matches m r"
| "staking_guard m _ = True"

lemma pool_yield_keeps [simp]:
  "pool_held (add_yield p amount) = pool_held p"
  "pool_held (snd (distribute_pool_yield p miners now)) = pool_held p"
  by (simp_all add: fun_eq_iff pool_held_def add_yield_def distribute_pool_yield_def Let_def split_beta)

lemma add_yield_inv [inv_intro]: "pool_inv p \<Longrightarrow> pool_inv (add_yield p amount)"
  by (simp add: pool_inv_def add_yield_def saturating_add_u64_def)

lemma distribute_pool_yield_inv [inv_intro]:
  "pool_inv p \<Longrightarrow> pool_inv (snd (distribute_pool_yield p miners now))"
  by (auto simp: pool_inv_def distribute_pool_yield_def Let_def split_beta)

lemma sm_inv_pool_update:
  "sm_inv m \<Longrightarrow> pool_inv p' \<Longrightarrow> pool_held p' = pool_held (sm_pool m) \<Longrightarrow> sm_inv (m\<lparr>sm_pool := p'\<rparr>)"
  by (simp add: sm_inv_def stakes_inv_def entry_ok_def)

lemma sm_inv_pool: "sm_inv m \<Longrightarrow> pool_inv (sm_pool m)"
  by (simp add: sm_inv_def stakes_inv_pool)

lemma staking_step_sm_inv:
  assumes "sm_inv m" "staking_guard m op"
  shows "sm_inv (staking_step m op)"
proof (cases op)
  case (OpUpdateConfig config)
  then show ?thesis using assms by (simp add: update_config_def sm_inv_def)
next
  case (OpCheckActivation miners now)
  then show ?thesis using assms by (simp add: check_activation_def sm_inv_def)
next
  case (OpAddYield amount)
  then show ?thesis using assms by (auto intro!: sm_inv_pool_update inv_intro sm_inv_pool)
next
  case (OpDistributeYield miners now)
  then show ?thesis using assms by (auto intro!: sm_inv_pool_update inv_intro sm_inv_pool)
qed (use assms in \<open>auto intro: inv_intro\<close>)

interpretation stk: keeps_invariant staking_step staking_guard sm_inv
  by unfold_locales (rule staking_step_sm_inv)

text \<open>Bans are for ever: no call, whatever its arguments, takes a node off the ban list.\<close>

definition banned_set :: "StakingManager \<Rightarrow> NodeId set" where
  "banned_set m = {n. is_banned m n}"

lemma banned_set_eqI:
  "sm_banned_nodes m' = sm_banned_nodes m \<Longrightarrow> banned_set m \<subseteq> banned_set m'"
  by (simp add: banned_set_def is_banned_def)

lemma apply_slash_bans: "banned_set m \<subseteq> banned_set (snd (apply_slash m r now))"
  by (auto simp: apply_slash_def Let_def banned_set_def is_banned_def contains_key_def
      split: option.splits sum.splits prod.splits if_splits)

lemma staking_step_bans: "banned_set m \<subseteq> banned_set (staking_step m op)"
proof (cases op)
  case (OpSlash r now)
  then show ?thesis by (simp add: apply_slash_bans)
qed (auto simp: stake_def request_unstake_def complete_unstake_def update_config_def
    check_activation_def Let_def intro!: banned_set_eqI
    split: option.splits sum.splits prod.splits if_splits)

interpretation bans: never_decreases staking_step "\<lambda>_ _. True" "\<lambda>_. True" banned_set
  by unfold_locales (simp_all add: staking_step_bans)

end
