(* ===== verification/Staking_Runs.thy ===== *)
theory Staking_Runs
  imports Staking
begin

text \<open>
  What runs of the staking manager guarantee. The first part is an abstract ledger, one committed
  amount and one pending request per node, that the manager implements as long as nobody is slashed
  and the configuration stays; the second part holds the properties of arbitrary runs, and what
  goes wrong after a full exit, a repeated request and a slash.
\<close>

section \<open>The abstract ledger\<close>

record stake_spec =
  committed :: "NodeId \<Rightarrow> nat"
  requested :: "NodeId \<Rightarrow> (Lux \<times> datetime) option"

definition spec_ready :: "u64 \<Rightarrow> stake_spec \<Rightarrow> NodeId \<Rightarrow> datetime \<Rightarrow> bool" where
  "spec_ready cooldown sp n now =
     (case requested sp n of None \<Rightarrow> True | Some (_, r) \<Rightarrow> cooldown \<le> elapsed_secs now r)"

fun spec_step :: "u64 \<Rightarrow> stake_spec \<Rightarrow> staking_op \<Rightarrow> stake_spec" where
  "spec_step cooldown sp (OpStake n amount now) =
     sp\<lparr>committed := (committed sp)(n := committed sp n + amount)\<rparr>"
| "spec_step cooldown sp (OpRequestUnstake n amount now) =
     (if 0 < amount \<and> amount \<le> committed sp n \<and> spec_ready cooldown sp n now
      then sp\<lparr>committed := (committed sp)(n := committed sp n - amount),
              requested := (requested sp)
                (n := if amount = committed sp n then None else Some (amount, now))\<rparr>
      else sp)"
| "spec_step cooldown sp (OpCompleteUnstake n now) =
     (if spec_ready cooldown sp n now then sp\<lparr>requested := (requested sp)(n := None)\<rparr> else sp)"
| "spec_step cooldown sp _ = sp"

definition abs_stake :: "StakingManager \<Rightarrow> stake_spec" where
  "abs_stake m = \<lparr> committed = total_stake m, requested = get_pending_unstake m \<rparr>"

definition exact_inv :: "StakingConfig \<Rightarrow> StakingManager \<Rightarrow> bool" where
  "exact_inv config m \<longleftrightarrow> sm_inv m \<and> sm_config m = config \<and> sm_banned_nodes m = []
     \<and> (\<forall>n. overflow_stake m n = total_stake m n - per_node_cap config
          \<and> pool_held (sm_pool m) n = total_stake m n - per_node_cap config)"

fun plain_guard :: "StakingManager \<Rightarrow> staking_op \<Rightarrow> bool" where
  "plain_guard m (OpStake n amount now) = stake_fits m n amount"
| "plain_guard m (OpSlash r now) = False"
| "plain_guard m (OpUpdateConfig config) = False"
| "plain_guard m _ = True"

lemma plain_guard_staking: "plain_guard m op \<Longrightarrow> staking_guard m op"
  by (cases op) simp_all

lemma exact_inv_new: "exact_inv config (StakingManager_new config)"
  by (simp add: exact_inv_def StakingManager_new_def overflow_stake_def total_stake_def
      sm_inv_new [unfolded StakingManager_new_def])

lemmas position_defs = total_stake_def overflow_stake_def effective_stake_def get_pending_unstake_def

lemma exact_stake:
  assumes ex: "exact_inv config m" and fits: "stake_fits m n amount"
  shows "exact_inv config (staking_step m (OpStake n amount now))
    \<and> abs_stake (staking_step m (OpStake n amount now))
        = spec_step c (abs_stake m) (OpStake n amount now)"
proof (cases "amount = 0")
  case True
  then show ?thesis using ex by (auto simp: stake_def abs_stake_def)
next
  case False
  have inv: "sm_inv m" "\<not> is_banned m n"
    using ex by (simp_all add: exact_inv_def is_banned_def contains_key_def)
  obtain p' where m': "snd (stake m n amount now) =
      m\<lparr>sm_stakes := AList.update n (staked_entry m n amount now) (sm_stakes m), sm_pool := p'\<rparr>"
    and held: "pool_held p' = (pool_held (sm_pool m))(n := pool_held (sm_pool m) n
      + (total_stake m n + amount - per_node_cap (sm_config m) - overflow_stake m n))"
    using stake_works [OF inv(1) _ inv(2) fits, of now] False by auto
  let ?m = "snd (stake m n amount now)"
  have "sm_inv ?m" using inv fits by (intro inv_intro)
  moreover have "total_stake ?m = (total_stake m)(n := total_stake m n + amount)"
    "overflow_stake ?m = (overflow_stake m)(n := total_stake m n + amount - per_node_cap (sm_config m))"
    "get_pending_unstake ?m = get_pending_unstake m"
    by (auto simp: m' position_defs staked_entry_def fun_eq_iff split: option.splits)
  ultimately show ?thesis
    using ex held by (auto simp: exact_inv_def m' abs_stake_def)
qed

lemma exact_request:
  assumes ex: "exact_inv config m"
  shows "exact_inv config (staking_step m (OpRequestUnstake n amount now))
    \<and> abs_stake (staking_step m (OpRequestUnstake n amount now))
        = spec_step (unstake_cooldown_secs config) (abs_stake m) (OpRequestUnstake n amount now)"
proof (cases "\<exists>s. map_of (sm_stakes m) n = Some s \<and> cooled_down m s now
           \<and> 0 < amount \<and> amount \<le> ns_total_committed s")
  case False
  have "\<exists>e. request_unstake m n amount now = (Err e, m)"
    using ex False by (intro request_unstake_refused) (simp_all add: exact_inv_def)
  moreover have "\<not> (0 < amount \<and> amount \<le> total_stake m n
      \<and> spec_ready (unstake_cooldown_secs config) (abs_stake m) n now)"
    using False ex by (auto simp: spec_ready_def abs_stake_def position_defs cooled_down_def
        exact_inv_def split: option.splits)
  ultimately show ?thesis using ex by (auto simp: abs_stake_def)
next
  case True
  then obtain s where s: "map_of (sm_stakes m) n = Some s" "cooled_down m s now"
    "0 < amount" "amount \<le> ns_total_committed s" by blast
  have inv: "sm_inv m" using ex by (simp add: exact_inv_def)
  obtain p' where m': "snd (request_unstake m n amount now) = m\<lparr>sm_pool := p',
           sm_stakes := (if amount = ns_total_committed s then AList.delete n (sm_stakes m)
             else AList.update n (unstaked_entry s amount now) (sm_stakes m))\<rparr>"
    and held: "pool_held p' = (pool_held (sm_pool m))
         (n := pool_held (sm_pool m) n - min amount (ns_overflow_amount s))"
    using request_unstake_works [OF inv s] by (metis snd_conv)
  let ?m = "snd (request_unstake m n amount now)"
  have t: "total_stake m n = ns_total_committed s" "overflow_stake m n = ns_overflow_amount s"
    using s by (simp_all add: position_defs)
  have "ns_overflow_amount s \<le> ns_total_committed s"
    using position_sum [OF inv, of n] t by simp
  then have "total_stake ?m = (total_stake m)(n := total_stake m n - amount)"
    "overflow_stake ?m = (overflow_stake m)(n := overflow_stake m n - min amount (overflow_stake m n))"
    "get_pending_unstake ?m = (get_pending_unstake m)
       (n := if amount = total_stake m n then None else Some (amount, now))"
    unfolding m' by (auto simp: position_defs unstaked_entry_def fun_eq_iff s(1))
  moreover have "sm_inv ?m" using inv by (intro inv_intro)
  moreover have "spec_ready (unstake_cooldown_secs config) (abs_stake m) n now"
    using s ex by (auto simp: spec_ready_def abs_stake_def position_defs cooled_down_def exact_inv_def
        split: option.splits)
  ultimately show ?thesis
    using ex held s t by (auto simp: exact_inv_def m' abs_stake_def min_def)
qed

lemma exact_complete:
  assumes ex: "exact_inv config m"
  shows "exact_inv config (staking_step m (OpCompleteUnstake n now))
    \<and> abs_stake (staking_step m (OpCompleteUnstake n now))
        = spec_step (unstake_cooldown_secs config) (abs_stake m) (OpCompleteUnstake n now)"
proof -
  let ?m = "snd (complete_unstake m n now)"
  have inv: "sm_inv m" and c: "sm_config m = config" using ex by (simp_all add: exact_inv_def)
  have keep: "total_stake ?m = total_stake m" "overflow_stake ?m = overflow_stake m"
    "sm_pool ?m = sm_pool m" "sm_config ?m = config" "sm_banned_nodes ?m = sm_banned_nodes m"
    using c by (auto simp: complete_unstake_def position_defs Let_def fun_eq_iff split: option.splits)
  have "get_pending_unstake ?m = (if spec_ready (unstake_cooldown_secs config) (abs_stake m) n now
      then (get_pending_unstake m)(n := None) else get_pending_unstake m)"
    using c by (auto simp: complete_unstake_def position_defs Let_def fun_eq_iff spec_ready_def
        abs_stake_def split: option.splits)
  moreover have "sm_inv ?m" using inv by (intro inv_intro)
  ultimately show ?thesis using ex keep by (simp add: exact_inv_def abs_stake_def)
qed

lemma exact_step:
  assumes "exact_inv config m" "plain_guard m op"
  shows "exact_inv config (staking_step m op)
    \<and> abs_stake (staking_step m op) = spec_step (unstake_cooldown_secs config) (abs_stake m) op"
proof (cases op)
  case (OpStake n amount now)
  then show ?thesis using assms exact_stake by simp
next
  case (OpRequestUnstake n amount now)
  then show ?thesis using assms exact_request by simp
next
  case (OpCompleteUnstake n now)
  then show ?thesis using assms exact_complete by simp
next
  case (OpCheckActivation miners now)
  then show ?thesis using assms
    by (auto simp: exact_inv_def check_activation_def sm_inv_def abs_stake_def position_defs fun_eq_iff)
qed (use assms in \<open>auto simp: exact_inv_def abs_stake_def position_defs fun_eq_iff
       intro!: sm_inv_pool_update inv_intro sm_inv_pool\<close>)

interpretation ledger: refines_spec staking_step plain_guard "exact_inv config" abs_stake
    "spec_step (unstake_cooldown_secs config)" for config
  by unfold_locales (simp_all add: exact_step)

lemma spec_abs_new: "abs_stake (StakingManager_new config) = \<lparr> committed = \<lambda>_. 0, requested = \<lambda>_. None \<rparr>"
  by (simp add: abs_stake_def StakingManager_new_def position_defs fun_eq_iff)

text \<open>Activation is one-way: no call resets the time at which staking became mandatory.\<close>

lemma staking_step_activated:
  "sm_staking_activated_at m = Some t \<Longrightarrow> sm_staking_activated_at (staking_step m op) = Some t"
  by (cases op) (auto simp: stake_def request_unstake_def complete_unstake_def update_config_def
    check_activation_def apply_slash_def Let_def split: option.splits sum.splits prod.splits if_splits)

interpretation activation: keeps_invariant staking_step "\<lambda>_ _. True"
    "\<lambda>m. sm_staking_activated_at m = Some t" for t
  by unfold_locales (rule staking_step_activated)

lemma run_banned: "is_banned m n \<Longrightarrow> is_banned (foldl staking_step m ops) n"
  using bans.run_mono [of m ops] by (auto simp: banned_set_def)

section \<open>Properties\<close>

definition run_staking :: "StakingConfig \<Rightarrow> staking_op list \<Rightarrow> StakingManager" where
  "run_staking config ops = foldl staking_step (StakingManager_new config) ops"

definition honest_run :: "StakingConfig \<Rightarrow> staking_op list \<Rightarrow> bool" where
  "honest_run config ops = guarded staking_guard staking_step (StakingManager_new config) ops"

lemma honest_run_inv: "honest_run config ops \<Longrightarrow> sm_inv (run_staking config ops)"
  unfolding honest_run_def run_staking_def by (rule stk.run_inv) simp_all

text \<open>C2: Without slashes and configuration changes, and as long as commitments fit 64 bits, the manager
  is an exact ledger: after any sequence of stakes, unstake requests, completions and yield rounds, a node's commitment and
  pending request are those of the abstract ledger, its consensus weight is the commitment capped
  at \<^verbatim>\<open>per_node_cap\<close>, and the security pool holds exactly the rest.\<close>

theorem staking_refines_ledger:
  assumes "guarded plain_guard staking_step (StakingManager_new config) ops"
    and "m = run_staking config ops"
    and "sp = foldl (spec_step (unstake_cooldown_secs config))
                \<lparr> committed = \<lambda>_. 0, requested = \<lambda>_. None \<rparr> ops"
  shows "total_stake m n = committed sp n \<and> get_pending_unstake m n = requested sp n
    \<and> effective_stake m n = min (committed sp n) (per_node_cap config)
    \<and> pool_held (sm_pool m) n = committed sp n - per_node_cap config"
proof -
  note [simp] = run_staking_def spec_abs_new
  have ex: "exact_inv config m"
    using ledger.run_inv [OF exact_inv_new assms(1)] assms(2) by simp
  have sp: "abs_stake m = sp"
    using ledger.run_abs [OF exact_inv_new assms(1)] assms(2,3) by simp
  have "overflow_stake m n = total_stake m n - per_node_cap config"
    "effective_stake m n + overflow_stake m n = total_stake m n"
    using ex position_sum [of m n] by (simp_all add: exact_inv_def)
  then show ?thesis using ex unfolding sp [symmetric]
    by (auto simp: abs_stake_def exact_inv_def min_def)
qed

definition small_config :: StakingConfig where
  "small_config = StakingConfig_default\<lparr>per_node_cap := 1000, minimum_stake := 100,
     unstake_cooldown_secs := 60\<rparr>"

definition whale :: NodeId where "whale = NodeId [7]"

lemma plain_example_guarded:
  "guarded plain_guard staking_step (StakingManager_new small_config)
     [OpStake whale 1500 0, OpRequestUnstake whale 200 5]"
  by (simp add: stake_fits_def StakingManager_new_def total_stake_def NetworkSecurityPool_new_def
      U64_MAX_def)

theorem staking_refines_ledger_witness:
  "let m = run_staking small_config [OpStake whale 1500 0, OpRequestUnstake whale 200 5]
   in total_stake m whale = 1300 \<and> effective_stake m whale = 1000
      \<and> pool_held (sm_pool m) whale = 300 \<and> get_pending_unstake m whale = Some (200, 5)"
  using staking_refines_ledger [OF plain_example_guarded refl refl, of whale]
  by (simp add: Let_def spec_ready_def small_config_def)

text \<open>C7: An unstake request from end to end. After any run in which every stake fits the 64-bit range and
  every slash fits the position it hits, configuration changes included, a request for any part of
  the commitment outside a cooldown succeeds, takes the overflow first, lowers the position and the
  holding in the pool by exactly the amount and touches no other node. A request for less than the
  whole commitment is then paid out: refused during the cooldown, and released in exactly the
  requested amount once it has passed. A request for the whole commitment is never paid out: the
  record of the node is gone, and every completion is refused with \<^verbatim>\<open>NodeNotFound\<close>.\<close>

theorem unstake_life_cycle:
  assumes run: "honest_run config ops" and m: "m = run_staking config ops"
    and s: "map_of (sm_stakes m) n = Some s" and cool: "cooled_down m s now"
    and a: "0 < amount" "amount \<le> total_stake m n"
  shows "\<exists>info m'. request_unstake m n amount now = (Ok info, m') \<and> sm_inv m'
    \<and> total_stake m' n + amount = total_stake m n
    \<and> overflow_stake m' n + min amount (overflow_stake m n) = overflow_stake m n
    \<and> pool_held (sm_pool m') n + min amount (overflow_stake m n) = pool_held (sm_pool m) n
    \<and> (\<forall>k. k \<noteq> n \<longrightarrow> map_of (sm_stakes m') k = map_of (sm_stakes m) k
            \<and> pool_held (sm_pool m') k = pool_held (sm_pool m) k)
    \<and> (\<forall>later. fst (complete_unstake m' n later) =
         (if amount = total_stake m n then Err (NodeNotFound n)
          else if elapsed_secs later now < unstake_cooldown_secs (sm_config m)
          then Err (CooldownActive (sub_u64 (unstake_cooldown_secs (sm_config m)) (elapsed_secs later now)))
          else Ok amount))"
proof -
  have inv: "sm_inv m" unfolding m using run by (rule honest_run_inv)
  have t: "total_stake m n = ns_total_committed s" "overflow_stake m n = ns_overflow_amount s"
    using s by (simp_all add: position_defs)
  have ok: "entry_ok (sm_pool m) n s" using inv s by (simp add: sm_inv_def stakes_inv_entry)
  obtain p' info m' where r: "request_unstake m n amount now = (Ok info, m')"
    and m': "m' = m\<lparr>sm_pool := p',
           sm_stakes := (if amount = ns_total_committed s then AList.delete n (sm_stakes m)
             else AList.update n (unstaked_entry s amount now) (sm_stakes m))\<rparr>"
    and held: "pool_held p' = (pool_held (sm_pool m))
         (n := pool_held (sm_pool m) n - min amount (ns_overflow_amount s))"
    using request_unstake_works [OF inv s cool a(1)] a(2) t by auto
  have "sm_inv m'" using request_unstake_sm_inv [OF inv, of n amount now] r by simp
  moreover have "total_stake m' n + amount = total_stake m n"
    using a(2) t by (auto simp: m' position_defs unstaked_entry_def)
  moreover have "overflow_stake m' n + min amount (overflow_stake m n) = overflow_stake m n"
    using t ok by (auto simp: m' position_defs unstaked_entry_def entry_ok_def)
  moreover have "pool_held (sm_pool m') n + min amount (overflow_stake m n) = pool_held (sm_pool m) n"
    using t ok held by (auto simp: m' entry_ok_def)
  moreover have "fst (complete_unstake m' n later) =
       (if amount = total_stake m n then Err (NodeNotFound n)
        else if elapsed_secs later now < unstake_cooldown_secs (sm_config m)
        then Err (CooldownActive (sub_u64 (unstake_cooldown_secs (sm_config m)) (elapsed_secs later now)))
        else Ok amount)" for later
    by (simp add: m' t complete_unstake_def unstaked_entry_def Let_def)
  ultimately show ?thesis using r held by (auto simp: m')
qed

lemma honest_example: "honest_run small_config [OpStake whale 1500 0]"
  by (simp add: honest_run_def stake_fits_def StakingManager_new_def total_stake_def
      NetworkSecurityPool_new_def U64_MAX_def)

definition one_whale :: StakingManager where
  "one_whale = \<lparr> sm_config = small_config,
     sm_stakes = [(whale, \<lparr> ns_effective_stake = 1000, ns_overflow_amount = 500,
        ns_total_committed = 1500, ns_staked_at = 0, ns_unstake_requested_at = None,
        ns_unstake_pending = 0 \<rparr>)],
     sm_pool = \<lparr> total_overflow = 500,
        contributions = [(whale, \<lparr> oc_amount = 500, oc_contributed_at = 0, oc_last_updated = 0 \<rparr>)],
        accumulated_yield = 0, last_distribution = None \<rparr>,
     sm_slashing_histories = [], sm_banned_nodes = [], sm_staking_activated_at = None \<rparr>"

lemma small_config_simps [simp]:
  "per_node_cap small_config = 1000" "unstake_cooldown_secs small_config = 60"
  by (simp_all add: small_config_def)

lemma one_whale_run: "run_staking small_config [OpStake whale 1500 0] = one_whale"
  by (simp add: run_staking_def one_whale_def stake_def StakingManager_new_def contains_key_def
      NetworkSecurityPool_new_def add_overflow_if_def add_overflow_def Let_def U64_MAX_def
      checked_add_u64_def del: checked_add_u64_Some)

lemma one_whale_inv: "sm_inv one_whale"
  using honest_run_inv [OF honest_example] by (simp add: one_whale_run)

lemma one_whale_entry [simp]:
  "map_of (sm_stakes one_whale) whale
     = Some \<lparr> ns_effective_stake = 1000, ns_overflow_amount = 500, ns_total_committed = 1500,
         ns_staked_at = 0, ns_unstake_requested_at = None, ns_unstake_pending = 0 \<rparr>"
  "sm_config one_whale = small_config"
  by (simp_all add: one_whale_def)

theorem unstake_life_cycle_witness:
  "\<exists>info m'. request_unstake one_whale whale 700 9 = (Ok info, m')
     \<and> total_stake m' whale = 800 \<and> fst (complete_unstake m' whale 60000000009) = Ok 700"
proof -
  let ?m = one_whale
  have t: "total_stake ?m whale = 1500" by (simp add: total_stake_def one_whale_entry(1))
  have "elapsed_secs 60000000009 9 = 60"
    by (simp add: elapsed_secs_def num_seconds_def trunc_div_def NANOS_PER_SEC_def)
  then have "\<exists>info m'. request_unstake ?m whale 700 9 = (Ok info, m')
      \<and> total_stake m' whale + 700 = total_stake ?m whale \<and> fst (complete_unstake m' whale 60000000009) = Ok 700"
    using unstake_life_cycle
      [OF honest_example one_whale_run [symmetric] one_whale_entry(1), where amount = 700 and now = 9] t
    by (auto simp: cooled_down_def)
  then show ?thesis unfolding t by auto
qed

text \<open>A critical slash is final: once it is applied, the node is banned and every later attempt
  to stake any amount is refused with \<^verbatim>\<open>NodeBanned\<close> and changes nothing, whatever calls came in
  between.\<close>

theorem critical_slash_bans_for_ever:
  assumes "apply_slash m r now = (Ok (), m')" "se_severity (sr_event r) = SCritical"
    and "n = se_node_id (sr_event r)" "0 < amount" "m'' = foldl staking_step m' ops"
  shows "stake m'' n amount later = (Err (NodeBanned n), m'')"
proof -
  have "is_banned m' n"
    using assms(1-3) by (auto simp: apply_slash_def Let_def is_banned_def contains_key_def
        split: option.splits sum.splits prod.splits if_splits)
  then have "is_banned m'' n" unfolding assms(5) by (rule run_banned)
  then show ?thesis using assms(4) by (simp add: stake_def is_banned_def)
qed

definition fraud_slash :: SlashResult where
  "fraud_slash = build_slashing_event 0 whale EnergyFraud SCritical ''emulator'' 1000 500
     SlashingHistory_default SlashingConfig_default 3 1"

theorem critical_slash_bans_for_ever_witness:
  "\<exists>m'. apply_slash one_whale fraud_slash 3 = (Ok (), m')
     \<and> stake (staking_step m' (OpUpdateConfig StakingConfig_default)) whale 10 99
         = (Err (NodeBanned whale), staking_step m' (OpUpdateConfig StakingConfig_default))"
proof -
  let ?m = one_whale
  note inv = one_whale_inv
  have pos: "effective_stake ?m whale = 1000" "overflow_stake ?m whale = 500"
    by (simp_all add: effective_stake_def overflow_stake_def one_whale_entry(1))
  have n: "se_node_id (sr_event fraud_slash) = whale" "se_severity (sr_event fraud_slash) = SCritical"
    by (simp_all add: fraud_slash_def build_slashing_event_def Let_def split_beta effective_severity_def
        effective_severity_at_def SlashingHistory_default_def)
  have "slash_matches ?m fraud_slash"
    using built_slash_matches [OF inv wf_slashing_config_default, of 0 whale EnergyFraud SCritical
      "''emulator''" SlashingHistory_default 3 1] by (simp add: fraud_slash_def pos)
  then obtain m' where "apply_slash ?m fraud_slash 3 = (Ok (), m')"
    using apply_slash_works [OF inv n(1) [symmetric] one_whale_entry(1), of 3] by blast
  then show ?thesis
    using critical_slash_bans_for_ever [OF _ n(2) n(1) [symmetric] _ refl,
      where ops = "[OpUpdateConfig StakingConfig_default]" and amount = 10 and later = 99] by auto
qed

text \<open>Once staking is active it stays active, from the same moment, in every later run; the
  minimum is zero for the grace period that follows and the activated minimum of the configuration
  in force afterwards, and eligibility is judged against exactly that.\<close>

theorem activation_is_final:
  assumes "sm_staking_activated_at m = Some t" and "m' = foldl staking_step m ops"
  shows "is_staking_activated m'
    \<and> effective_minimum_stake m' now =
        (if now - t < duration_seconds (as_i64 (staking_activation_grace_secs (sm_config m')))
         then 0 else activated_minimum_stake (sm_config m'))
    \<and> (meets_minimum_stake_at m' n now \<longleftrightarrow> effective_minimum_stake m' now \<le> effective_stake m' n)"
proof -
  have t: "sm_staking_activated_at m' = Some t"
    unfolding assms(2) using assms(1) by (intro activation.run_inv) simp_all
  then show ?thesis
    by (auto simp: is_staking_activated_def effective_minimum_stake_def meets_minimum_stake_at_def
        effective_stake_def Let_def split: option.splits)
qed

theorem activation_is_final_witness:
  "let m = snd (check_activation (StakingManager_new StakingConfig_default) 1000 0);
       m' = foldl staking_step m [OpCheckActivation 5 77]
   in effective_minimum_stake m' (duration_seconds 604799) = 0
      \<and> effective_minimum_stake m' (duration_seconds 604800) = 50 * LUX_PER_GRAT"
  using activation_is_final [OF _ refl, of "snd (check_activation (StakingManager_new
      StakingConfig_default) 1000 0)" 0 "[OpCheckActivation 5 77]"]
  by (simp add: Let_def check_activation_def StakingManager_new_def StakingConfig_default_def
      duration_seconds_def as_i64_def NANOS_PER_SEC_def)

text \<open>A node that withdraws its whole commitment can never collect it: the accepted request
  removes the entry together with the pending amount it has just recorded, so no pending request
  is visible and completing it fails with \<^verbatim>\<open>NodeNotFound\<close> at every later time.\<close>

theorem full_exit_strands_the_funds:
  assumes inv: "sm_inv m" and s: "map_of (sm_stakes m) n = Some s" and cool: "cooled_down m s now"
  shows "\<exists>info m'. request_unstake m n (total_stake m n) now = (Ok info, m')
    \<and> 0 < total_stake m n \<and> si_total_committed info = 0
    \<and> get_pending_unstake m' n = None
    \<and> (\<forall>later. complete_unstake m' n later = (Err (NodeNotFound n), m'))"
proof -
  have t: "total_stake m n = ns_total_committed s" using s by (simp add: total_stake_def)
  have pos: "0 < ns_total_committed s"
    using inv s by (auto simp: sm_inv_def stakes_inv_def entry_ok_def)
  show ?thesis
    using request_unstake_works [OF inv s cool pos order_refl] pos
    by (auto simp: t build_stake_info_def unstaked_entry_def get_pending_unstake_def
        complete_unstake_def)
qed

theorem full_exit_strands_the_funds_witness:
  "\<exists>info m'. request_unstake one_whale whale 1500 9 = (Ok info, m')
     \<and> complete_unstake m' whale (duration_seconds 1000) = (Err (NodeNotFound whale), m')"
  using full_exit_strands_the_funds [OF one_whale_inv one_whale_entry(1), of 9]
  by (auto simp: cooled_down_def total_stake_def one_whale_entry(1))

text \<open>Asking for a second withdrawal after the cooldown of the first, without completing the
  first, forgets the first amount: the commitment has gone down by both, while only the second is
  pending and only the second is ever released.\<close>

theorem repeated_request_loses_the_first:
  assumes inv: "sm_inv m" and s: "map_of (sm_stakes m) n = Some s" and cool: "cooled_down m s t1"
    and a: "0 < a1" "0 < a2" "a1 + a2 < total_stake m n"
    and late: "unstake_cooldown_secs (sm_config m) \<le> elapsed_secs t2 t1"
    and elapsed: "unstake_cooldown_secs (sm_config m) \<le> elapsed_secs t3 t2"
  shows "\<exists>i1 m1 i2 m2. request_unstake m n a1 t1 = (Ok i1, m1)
    \<and> request_unstake m1 n a2 t2 = (Ok i2, m2)
    \<and> total_stake m2 n + a1 + a2 = total_stake m n
    \<and> get_pending_unstake m2 n = Some (a2, t2)
    \<and> fst (complete_unstake m2 n t3) = Ok a2"
proof -
  have t: "total_stake m n = ns_total_committed s" using s by (simp add: total_stake_def)
  note a = a [unfolded t]
  obtain i1 m1 where r1: "request_unstake m n a1 t1 = (Ok i1, m1)"
    and s1: "map_of (sm_stakes m1) n = Some (unstaked_entry s a1 t1)" "sm_config m1 = sm_config m"
    using request_unstake_works [OF inv s cool a(1)] a(3) by auto
  have inv1: "sm_inv m1" using request_unstake_sm_inv [OF inv, of n a1 t1] r1 by simp
  have cool1: "cooled_down m1 (unstaked_entry s a1 t1) t2"
    using late s1(2) by (simp add: cooled_down_def unstaked_entry_def)
  have le: "a2 < ns_total_committed (unstaked_entry s a1 t1)"
    using a(3) by (simp add: unstaked_entry_def)
  then obtain i2 m2 where r2: "request_unstake m1 n a2 t2 = (Ok i2, m2)"
    and s2: "map_of (sm_stakes m2) n = Some (unstaked_entry (unstaked_entry s a1 t1) a2 t2)"
      "sm_config m2 = sm_config m"
    using request_unstake_works [OF inv1 s1(1) cool1 a(2)] s1(2) by auto
  then show ?thesis using r1 r2 a(3) elapsed
    unfolding t by (auto simp: position_defs unstaked_entry_def complete_unstake_def Let_def)
qed

theorem repeated_request_loses_the_first_witness:
  "\<exists>i1 m1 i2 m2. request_unstake one_whale whale 300 0 = (Ok i1, m1)
     \<and> request_unstake m1 whale 200 (duration_seconds 60) = (Ok i2, m2)
     \<and> total_stake m2 whale = 1000 \<and> fst (complete_unstake m2 whale (duration_seconds 120)) = Ok 200"
proof -
  let ?m = one_whale
  have t: "total_stake ?m whale = 1500" by (simp add: total_stake_def one_whale_entry(1))
  have "elapsed_secs (duration_seconds 60) 0 = 60"
    "elapsed_secs (duration_seconds 120) (duration_seconds 60) = 60"
    by (simp_all add: elapsed_secs_def num_seconds_def trunc_div_def duration_seconds_def
        NANOS_PER_SEC_def)
  then show ?thesis
    using repeated_request_loses_the_first [OF one_whale_inv one_whale_entry(1),
      where ?a1.0 = 300 and ?a2.0 = 200 and ?t1.0 = 0 and ?t2.0 = "duration_seconds 60"
        and ?t3.0 = "duration_seconds 120"] t
    by (auto simp: cooled_down_def)
qed

definition major_slash :: SlashResult where
  "major_slash = build_slashing_event 0 whale ProofOfLife SMajor ''downtime'' 1000 500
     SlashingHistory_default SlashingConfig_default 3 1"

lemma major_slash_severity: "effective_severity 0 SlashingHistory_default SMajor SlashingConfig_default = SMajor"
  by (simp add: effective_severity_def effective_severity_at_def windowed_counts_def Let_def
      SlashingHistory_default_def SlashingConfig_default_def)

lemma major_slash_fields [simp]:
  "se_node_id (sr_event major_slash) = whale" "se_amount_slashed (sr_event major_slash) = 750"
  "sr_overflow_slashed major_slash = 0" "se_severity (sr_event major_slash) = SMajor"
  using built_slash_fields(2-4) [OF wf_slashing_config_default _ major_slash_def refl]
  by (simp_all add: major_slash_severity U64_MAX_def SlashingConfig_default_def
      [THEN arg_cong, of major_slash_bps] major_slash_def [THEN arg_cong, of "\<lambda>r. se_severity (sr_event r)"])

definition slashed_whale :: StakingManager where
  "slashed_whale = snd (apply_slash one_whale major_slash 3)"

lemma slashed_whale_simps [simp]:
  "sm_config slashed_whale = small_config" "sm_banned_nodes slashed_whale = []"
  "sm_pool slashed_whale = sm_pool one_whale"
  "sm_stakes slashed_whale = [(whale, \<lparr> ns_effective_stake = 250, ns_overflow_amount = 500,
     ns_total_committed = 750, ns_staked_at = 0, ns_unstake_requested_at = None,
     ns_unstake_pending = 0 \<rparr>)]"
  by (simp_all add: slashed_whale_def apply_slash_def one_whale_def remove_overflow_if_def Let_def)

definition topped_up :: StakingManager where
  "topped_up = snd (stake slashed_whale whale 1 4)"

lemma topped_up_simps [simp]:
  "sm_config topped_up = small_config" "sm_pool topped_up = sm_pool one_whale"
  "sm_stakes topped_up = [(whale, \<lparr> ns_effective_stake = 751, ns_overflow_amount = 0,
     ns_total_committed = 751, ns_staked_at = 0, ns_unstake_requested_at = None,
     ns_unstake_pending = 0 \<rparr>)]"
  by (simp_all add: topped_up_def stake_def contains_key_def add_overflow_if_def Let_def U64_MAX_def
      checked_add_u64_def del: checked_add_u64_Some)

definition top_up_ops :: "staking_op list" where
  "top_up_ops = [OpStake whale 1500 0, OpSlash major_slash 3, OpStake whale 1 4]"

lemma top_up_run: "run_staking small_config top_up_ops = topped_up"
  using one_whale_run by (simp add: run_staking_def top_up_ops_def slashed_whale_def topped_up_def)

lemma top_up_honest: "honest_run small_config top_up_ops"
proof -
  have "snd (stake (StakingManager_new small_config) whale 1500 0) = one_whale"
    using one_whale_run by (simp add: run_staking_def)
  moreover have "slash_matches one_whale major_slash"
    by (simp add: slash_matches_def Let_def overflow_stake_def effective_stake_def)
  moreover have "stake_fits slashed_whale whale 1"
    by (simp add: stake_fits_def total_stake_def one_whale_def U64_MAX_def)
  ultimately show ?thesis
    using honest_example by (simp add: honest_run_def top_up_ops_def flip: slashed_whale_def)
qed

text \<open>Topping up after a slash moves overflow back into consensus weight without telling the
  pool. There is a run of accepted calls after which the pool credits a node with more than the
  node's overflow, and after the node has then withdrawn everything and is no longer a staker the
  pool still holds a contribution in its name.\<close>

theorem top_up_after_slash_desynchronises_pool:
  "\<exists>config ops n. honest_run config ops
     \<and> (let m = run_staking config ops; m' = snd (request_unstake m n (total_stake m n) 5)
         in overflow_stake m n < pool_held (sm_pool m) n
            \<and> total_stake m' n = 0 \<and> staker_count m' = 0 \<and> 0 < pool_held (sm_pool m') n)"
proof (intro exI conjI)
  show "honest_run small_config top_up_ops" by (rule top_up_honest)
  have inv: "sm_inv topped_up" using honest_run_inv [OF top_up_honest] by (simp add: top_up_run)
  have s: "map_of (sm_stakes topped_up) whale = Some (snd (hd (sm_stakes topped_up)))" by simp
  have held: "pool_held (sm_pool topped_up) whale = 500" by (simp add: pool_held_def one_whale_def)
  obtain p' info where "request_unstake topped_up whale 751 5
      = (Ok info, topped_up\<lparr>sm_pool := p', sm_stakes := []\<rparr>)" "pool_held p' whale = 500"
    using request_unstake_works [OF inv s, of 5 751] held by (auto simp: cooled_down_def)
  then show "let m = run_staking small_config top_up_ops;
         m' = snd (request_unstake m whale (total_stake m whale) 5)
     in overflow_stake m whale < pool_held (sm_pool m) whale
        \<and> total_stake m' whale = 0 \<and> staker_count m' = 0 \<and> 0 < pool_held (sm_pool m') whale"
    using held by (simp add: top_up_run Let_def total_stake_def overflow_stake_def staker_count_def)
qed

end
