(* ===== verification/Proposals.thy ===== *)
theory Proposals
  imports Core_Types
begin

text \<open>
  Proposals of \<^verbatim>\<open>gratia-governance/src/proposals.rs\<close>: the store, the life cycle of a standard
  proposal and the fast track of an emergency proposal, with the errors of \<^verbatim>\<open>error.rs\<close>. SHA-256
  is a parameter. An error that carries the hexadecimal rendering of an identifier carries the
  identifier; log output is left out.
\<close>

section \<open>Model\<close>

datatype GovernanceError =
    InsufficientHistory u64 u64
  | ProposalNotFound bytes
  | WrongPhase string string
  | AlreadyVoted NodeId
  | NoValidProofOfLife
  | NotProposer
  | CannotCancel
  | PollNotFound bytes
  | PollExpired
  | AlreadyVotedPoll NodeId
  | InvalidOptionIndex u32 usize
  | InsufficientBalance u64 u64
  | NotOnCommittee
  | EmergencyProposalNotFound bytes
  | EmergencyAlreadyResolved
  | OutsideGeographicFilter
  | TooFewOptions
  | EmptyQuestion

datatype ProposalPhase =
  Ph_Draft | Ph_Discussion | Ph_Voting | Ph_Approved | Ph_Rejected | Ph_Executed | Ph_Cancelled

fun to_core_status :: "ProposalPhase \<Rightarrow> ProposalStatus" where
  "to_core_status Ph_Draft = PS_Discussion"
| "to_core_status Ph_Discussion = PS_Discussion"
| "to_core_status Ph_Voting = PS_Voting"
| "to_core_status Ph_Approved = PS_Approved"
| "to_core_status Ph_Rejected = PS_Rejected"
| "to_core_status Ph_Executed = PS_Implemented"
| "to_core_status Ph_Cancelled = PS_Rejected"

record EmergencyProposal =
  ep_id :: bytes
  ep_proposer :: NodeId
  ep_title :: string
  ep_description :: string
  ep_proposal_data :: bytes
  ep_submitted_at :: datetime
  ep_ratification_deadline :: datetime
  ep_approvals :: "NodeId hashset"
  ep_committee_size :: usize
  ep_activated :: bool
  ep_ratified :: bool
  ep_reverted :: bool

definition has_supermajority :: "EmergencyProposal \<Rightarrow> u32 \<Rightarrow> bool" where
  "has_supermajority ep threshold_bps =
     (if ep_committee_size ep = 0 then False
      else
        let required = saturating_add_u64
              (saturating_mul_u64 (ep_committee_size ep) threshold_bps) 9999 div 10000
        in length (ep_approvals ep) \<ge> required)"

record ProposalStore =
  pst_proposals :: "(bytes, Proposal) hashmap"
  pst_phases :: "(bytes, ProposalPhase) hashmap"
  pst_emergency_proposals :: "(bytes, EmergencyProposal) hashmap"
  pst_next_proposal_nonce :: u64

definition ProposalStore_new :: ProposalStore where
  "ProposalStore_new = \<lparr> pst_proposals = [], pst_phases = [], pst_emergency_proposals = [],
     pst_next_proposal_nonce = 0 \<rparr>"

text \<open>What is hashed into an identifier: a tag, the author, the second and a counter.\<close>
definition id_preimage :: "string \<Rightarrow> bytes \<Rightarrow> datetime \<Rightarrow> u64 \<Rightarrow> bytes" where
  "id_preimage tag author now nonce =
     byte_string tag @ author @ i64_le_bytes (timestamp now) @ le_bytes 8 nonce"

definition generate_id ::
  "(bytes \<Rightarrow> bytes) \<Rightarrow> ProposalStore \<Rightarrow> NodeId \<Rightarrow> datetime \<Rightarrow> bytes \<times> ProposalStore" where
  "generate_id sha256 st proposer now =
     (sha256 (id_preimage ''gratia-proposal-v1:'' (node_id_bytes proposer) now
        (pst_next_proposal_nonce st)),
      st\<lparr>pst_next_proposal_nonce := add_u64 (pst_next_proposal_nonce st) 1\<rparr>)"

definition submit_proposal ::
  "(bytes \<Rightarrow> bytes) \<Rightarrow> ProposalStore \<Rightarrow> NodeId \<Rightarrow> u64 \<Rightarrow> string \<Rightarrow> string \<Rightarrow> bytes \<Rightarrow> u64
     \<Rightarrow> GovernanceConfig \<Rightarrow> datetime \<Rightarrow> (GovernanceError, bytes) result \<times> ProposalStore" where
  "submit_proposal sha256 st proposer proposer_pol_days title description proposal_data
       eligible_voters config now =
     (if proposer_pol_days < min_proposer_history_days config
      then (Err (InsufficientHistory proposer_pol_days (min_proposer_history_days config)), st)
      else
        let (pid, st) = generate_id sha256 st proposer now;
            discussion_ends = now + duration_seconds (as_i64 (discussion_period_secs config));
            voting_ends = discussion_ends + duration_seconds (as_i64 (voting_period_secs config));
            implementation_date =
              voting_ends + duration_seconds (as_i64 (implementation_delay_secs config));
            proposal = \<lparr> pr_id = pid, pr_proposer = proposer, pr_title = title,
              pr_description = description, pr_proposal_data = proposal_data,
              pr_submitted_at = now, pr_discussion_ends = discussion_ends,
              pr_voting_ends = voting_ends, pr_implementation_date = implementation_date,
              pr_status = PS_Discussion, pr_votes_yes = 0, pr_votes_no = 0, pr_votes_abstain = 0,
              pr_eligible_voters = eligible_voters \<rparr>
        in (Ok pid, st\<lparr>pst_proposals := AList.update pid proposal (pst_proposals st),
                       pst_phases := AList.update pid Ph_Discussion (pst_phases st)\<rparr>))"

definition cancel_proposal ::
  "ProposalStore \<Rightarrow> bytes \<Rightarrow> NodeId \<Rightarrow> (GovernanceError, unit) result \<times> ProposalStore" where
  "cancel_proposal st proposal_id requester =
     (case map_of (pst_proposals st) proposal_id of
        None \<Rightarrow> (Err (ProposalNotFound proposal_id), st)
      | Some proposal \<Rightarrow>
          if pr_proposer proposal \<noteq> requester then (Err NotProposer, st)
          else
            let phase = (case map_of (pst_phases st) proposal_id of
                           Some ph \<Rightarrow> ph | None \<Rightarrow> Ph_Discussion)
            in if phase \<noteq> Ph_Discussion then (Err CannotCancel, st)
               else (Ok (), st\<lparr>
                       pst_phases := AList.update proposal_id Ph_Cancelled (pst_phases st),
                       pst_proposals := AList.update proposal_id
                         (proposal\<lparr>pr_status := PS_Rejected\<rparr>) (pst_proposals st)\<rparr>))"

text \<open>Writing a phase and the status that goes with it, as every arm of the life cycle does.\<close>
definition set_phase ::
  "ProposalStore \<Rightarrow> bytes \<Rightarrow> ProposalPhase \<Rightarrow> Proposal \<Rightarrow> ProposalStatus \<Rightarrow> ProposalStore" where
  "set_phase st proposal_id phase proposal status =
     st\<lparr>pst_phases := AList.update proposal_id phase (pst_phases st),
        pst_proposals := AList.update proposal_id (proposal\<lparr>pr_status := status\<rparr>)
          (pst_proposals st)\<rparr>"

definition advance_proposal ::
  "ProposalStore \<Rightarrow> bytes \<Rightarrow> GovernanceConfig \<Rightarrow> datetime \<Rightarrow> ProposalStore" where
  "advance_proposal st proposal_id config now =
     (case map_of (pst_phases st) proposal_id of
        None \<Rightarrow> st
      | Some phase \<Rightarrow>
          (case map_of (pst_proposals st) proposal_id of
             None \<Rightarrow> st
           | Some proposal \<Rightarrow>
               (case phase of
                  Ph_Discussion \<Rightarrow>
                    if now \<ge> pr_discussion_ends proposal
                    then set_phase st proposal_id Ph_Voting proposal PS_Voting else st
                | Ph_Voting \<Rightarrow>
                    if now \<ge> pr_voting_ends proposal
                    then if passed proposal
                         then set_phase st proposal_id Ph_Approved proposal PS_Approved
                         else set_phase st proposal_id Ph_Rejected proposal PS_Rejected
                    else st
                | Ph_Approved \<Rightarrow>
                    if now \<ge> pr_implementation_date proposal
                    then set_phase st proposal_id Ph_Executed proposal PS_Implemented else st
                | _ \<Rightarrow> st)))"

text \<open>The deadline check of one emergency proposal.\<close>
definition revert_overdue :: "datetime \<Rightarrow> EmergencyProposal \<Rightarrow> EmergencyProposal" where
  "revert_overdue now ep =
     (if ep_activated ep \<and> \<not> ep_ratified ep \<and> \<not> ep_reverted ep
         \<and> now \<ge> ep_ratification_deadline ep
      then ep\<lparr>ep_reverted := True\<rparr> else ep)"

definition advance_all :: "ProposalStore \<Rightarrow> GovernanceConfig \<Rightarrow> datetime \<Rightarrow> ProposalStore" where
  "advance_all st config now =
     (let ids = map fst (pst_proposals st);
          st = foldl (\<lambda>st pid. advance_proposal st pid config now) st ids
      in st\<lparr>pst_emergency_proposals :=
              hm_map_values (\<lambda>_. revert_overdue now) (pst_emergency_proposals st)\<rparr>)"

definition submit_emergency ::
  "(bytes \<Rightarrow> bytes) \<Rightarrow> ProposalStore \<Rightarrow> NodeId \<Rightarrow> string \<Rightarrow> string \<Rightarrow> bytes \<Rightarrow> usize
     \<Rightarrow> GovernanceConfig \<Rightarrow> datetime \<Rightarrow> bytes \<times> ProposalStore" where
  "submit_emergency sha256 st proposer title description proposal_data committee_size config now =
     (let (eid, st) = generate_id sha256 st proposer now;
          ratification_deadline =
            now + duration_seconds (as_i64 (emergency_ratification_secs config));
          ep = \<lparr> ep_id = eid, ep_proposer = proposer, ep_title = title,
            ep_description = description, ep_proposal_data = proposal_data,
            ep_submitted_at = now, ep_ratification_deadline = ratification_deadline,
            ep_approvals = [], ep_committee_size = committee_size,
            ep_activated = False, ep_ratified = False, ep_reverted = False \<rparr>
      in (eid, st\<lparr>pst_emergency_proposals := AList.update eid ep (pst_emergency_proposals st)\<rparr>))"

definition approve_emergency ::
  "ProposalStore \<Rightarrow> bytes \<Rightarrow> NodeId \<Rightarrow> NodeId list \<Rightarrow> GovernanceConfig
     \<Rightarrow> (GovernanceError, bool) result \<times> ProposalStore" where
  "approve_emergency st emergency_id approver committee config =
     (if approver \<notin> set committee then (Err NotOnCommittee, st)
      else case map_of (pst_emergency_proposals st) emergency_id of
        None \<Rightarrow> (Err (EmergencyProposalNotFound emergency_id), st)
      | Some ep \<Rightarrow>
          if ep_activated ep \<or> ep_reverted ep then (Err EmergencyAlreadyResolved, st)
          else if approver \<in> set (ep_approvals ep) then (Ok False, st)
          else
            let ep = ep\<lparr>ep_approvals := hs_insert approver (ep_approvals ep)\<rparr>
            in if \<not> ep_activated ep \<and> has_supermajority ep (emergency_threshold_bps config)
               then (Ok True, st\<lparr>pst_emergency_proposals := AList.update emergency_id
                       (ep\<lparr>ep_activated := True\<rparr>) (pst_emergency_proposals st)\<rparr>)
               else (Ok False, st\<lparr>pst_emergency_proposals := AList.update emergency_id ep
                       (pst_emergency_proposals st)\<rparr>))"

definition ratify_emergency ::
  "ProposalStore \<Rightarrow> bytes \<Rightarrow> (GovernanceError, unit) result \<times> ProposalStore" where
  "ratify_emergency st emergency_id =
     (case map_of (pst_emergency_proposals st) emergency_id of
        None \<Rightarrow> (Err (EmergencyProposalNotFound emergency_id), st)
      | Some ep \<Rightarrow>
          if \<not> ep_activated ep \<or> ep_reverted ep then (Err EmergencyAlreadyResolved, st)
          else (Ok (), st\<lparr>pst_emergency_proposals := AList.update emergency_id
                  (ep\<lparr>ep_ratified := True\<rparr>) (pst_emergency_proposals st)\<rparr>))"

definition get_proposal :: "ProposalStore \<Rightarrow> bytes \<Rightarrow> Proposal option" where
  "get_proposal st pid = map_of (pst_proposals st) pid"

definition get_phase :: "ProposalStore \<Rightarrow> bytes \<Rightarrow> ProposalPhase option" where
  "get_phase st pid = map_of (pst_phases st) pid"

definition get_emergency :: "ProposalStore \<Rightarrow> bytes \<Rightarrow> EmergencyProposal option" where
  "get_emergency st eid = map_of (pst_emergency_proposals st) eid"

definition active_proposals :: "ProposalStore \<Rightarrow> Proposal list" where
  "active_proposals st =
     filter (\<lambda>p. pr_status p = PS_Discussion \<or> pr_status p = PS_Voting)
       (map snd (pst_proposals st))"

definition all_proposals :: "ProposalStore \<Rightarrow> Proposal list" where
  "all_proposals st = map snd (pst_proposals st)"

section \<open>The life cycle\<close>

text \<open>The moves of the life cycle: each names the condition of time and vote it needs.\<close>
inductive phase_step :: "datetime \<Rightarrow> Proposal \<Rightarrow> ProposalPhase \<Rightarrow> ProposalPhase \<Rightarrow> bool" for now p where
  discussion_over: "pr_discussion_ends p \<le> now \<Longrightarrow> phase_step now p Ph_Discussion Ph_Voting"
| vote_passed: "pr_voting_ends p \<le> now \<Longrightarrow> passed p \<Longrightarrow> phase_step now p Ph_Voting Ph_Approved"
| vote_failed: "pr_voting_ends p \<le> now \<Longrightarrow> \<not> passed p \<Longrightarrow> phase_step now p Ph_Voting Ph_Rejected"
| delay_over: "pr_implementation_date p \<le> now \<Longrightarrow> phase_step now p Ph_Approved Ph_Executed"

inductive_cases phase_step_toE:
  "phase_step now p ph Ph_Voting" "phase_step now p ph Ph_Approved" "phase_step now p ph Ph_Executed"
inductive_simps phase_step_from [simp]:
  "phase_step now p Ph_Draft ph" "phase_step now p Ph_Discussion ph" "phase_step now p Ph_Voting ph"
  "phase_step now p Ph_Approved ph" "phase_step now p Ph_Rejected ph" "phase_step now p Ph_Executed ph"
  "phase_step now p Ph_Cancelled ph"

text \<open>A proposal together with its phase, and what one call of the life cycle makes of the pair.\<close>
definition entry_of :: "ProposalStore \<Rightarrow> bytes \<Rightarrow> (ProposalPhase \<times> Proposal) option" where
  "entry_of st pid = (case map_of (pst_phases st) pid of
     None \<Rightarrow> None | Some ph \<Rightarrow> map_option (Pair ph) (map_of (pst_proposals st) pid))"

lemma entry_of_keeps [simp]:
  "entry_of (st\<lparr>pst_emergency_proposals := x\<rparr>) = entry_of st"
  "entry_of (st\<lparr>pst_next_proposal_nonce := y\<rparr>) = entry_of st"
  by (simp_all add: fun_eq_iff entry_of_def split: option.splits)

lemma entry_of_set_phase [simp]:
  "entry_of (set_phase st pid ph p status) = (entry_of st)(pid := Some (ph, p\<lparr>pr_status := status\<rparr>))"
  by (auto simp: fun_eq_iff entry_of_def set_phase_def split: option.splits)

lemma set_phase_keeps [simp]:
  "pst_next_proposal_nonce (set_phase st pid ph p status) = pst_next_proposal_nonce st"
  "pst_emergency_proposals (set_phase st pid ph p status) = pst_emergency_proposals st"
  by (simp_all add: set_phase_def)

fun next_phase :: "datetime \<Rightarrow> Proposal \<Rightarrow> ProposalPhase \<Rightarrow> ProposalPhase" where
  "next_phase now p Ph_Discussion = (if pr_discussion_ends p \<le> now then Ph_Voting else Ph_Discussion)"
| "next_phase now p Ph_Voting = (if pr_voting_ends p \<le> now
     then if passed p then Ph_Approved else Ph_Rejected else Ph_Voting)"
| "next_phase now p Ph_Approved = (if pr_implementation_date p \<le> now then Ph_Executed else Ph_Approved)"
| "next_phase now p ph = ph"

lemma next_phase_step: "next_phase now p ph = ph \<or> phase_step now p ph (next_phase now p ph)"
  by (cases ph) simp_all

definition moved :: "datetime \<Rightarrow> ProposalPhase \<times> Proposal \<Rightarrow> ProposalPhase \<times> Proposal" where
  "moved now e = (let ph = next_phase now (snd e) (fst e)
     in if ph = fst e then e else (ph, (snd e)\<lparr>pr_status := to_core_status ph\<rparr>))"

lemma advance_proposal_entry:
  "entry_of (advance_proposal st pid config now)
     = (entry_of st)(pid := map_option (moved now) (entry_of st pid))"
proof (cases "entry_of st pid")
  case None
  then show ?thesis
    by (auto simp: entry_of_def advance_proposal_def fun_eq_iff split: option.splits)
next
  case (Some e)
  obtain ph p where e: "map_of (pst_phases st) pid = Some ph" "map_of (pst_proposals st) pid = Some p"
    "e = (ph, p)" using Some by (auto simp: entry_of_def split: option.splits)
  then show ?thesis
    by (cases ph) (auto simp: Some advance_proposal_def moved_def Let_def fun_upd_idem)
qed

lemma advance_proposal_keeps [simp]:
  "pst_emergency_proposals (advance_proposal st pid config now) = pst_emergency_proposals st"
  "pst_next_proposal_nonce (advance_proposal st pid config now) = pst_next_proposal_nonce st"
  by (auto simp: advance_proposal_def set_phase_def split: option.splits ProposalPhase.splits)

lemma advance_list_entry:
  "distinct ids \<Longrightarrow> entry_of (foldl (\<lambda>st pid. advance_proposal st pid config now) st ids) k
     = (if k \<in> set ids then map_option (moved now) (entry_of st k) else entry_of st k)"
  by (induction ids arbitrary: st) (auto simp: advance_proposal_entry)

lemma advance_list_keeps [simp]:
  "pst_emergency_proposals (foldl (\<lambda>st pid. advance_proposal st pid config now) st ids)
     = pst_emergency_proposals st"
  "pst_next_proposal_nonce (foldl (\<lambda>st pid. advance_proposal st pid config now) st ids)
     = pst_next_proposal_nonce st"
  by (induction ids arbitrary: st) simp_all

lemma entry_of_key: "entry_of st k = Some e \<Longrightarrow> k \<in> fst ` set (pst_proposals st)"
  by (auto simp: entry_of_def map_of_eq_None_iff split: option.splits intro!: rev_image_eqI
      dest!: map_of_SomeD)

lemma advance_all_entry:
  "hm_ok (pst_proposals st) \<Longrightarrow>
     entry_of (advance_all st config now) k = map_option (moved now) (entry_of st k)"
  using entry_of_key [of st k]
  by (cases "entry_of st k") (auto simp: advance_all_def Let_def advance_list_entry hm_ok_def)

section \<open>Invariant\<close>

fun proposal_ok :: "ProposalPhase \<times> Proposal \<Rightarrow> bool" where
  "proposal_ok (ph, p) \<longleftrightarrow> ph \<noteq> Ph_Draft \<and> pr_status p = to_core_status ph
     \<and> (ph = Ph_Approved \<or> ph = Ph_Executed \<longrightarrow> passed p)"

definition emergency_ok :: "EmergencyProposal \<Rightarrow> bool" where
  "emergency_ok ep \<longleftrightarrow> distinct (ep_approvals ep) \<and> (ep_ratified ep \<longrightarrow> ep_activated ep)
     \<and> (ep_reverted ep \<longrightarrow> ep_activated ep) \<and> \<not> (ep_ratified ep \<and> ep_reverted ep)"

definition store_inv :: "ProposalStore \<Rightarrow> bool" where
  "store_inv st \<longleftrightarrow> hm_ok (pst_proposals st) \<and> hm_ok (pst_phases st)
     \<and> hm_ok (pst_emergency_proposals st)
     \<and> (\<forall>pid. map_of (pst_proposals st) pid = None \<longleftrightarrow> map_of (pst_phases st) pid = None)
     \<and> (\<forall>pid e. entry_of st pid = Some e \<longrightarrow> proposal_ok e)
     \<and> (\<forall>eid ep. map_of (pst_emergency_proposals st) eid = Some ep \<longrightarrow> emergency_ok ep)"

lemma store_inv_new [simp]: "store_inv ProposalStore_new"
  by (simp add: store_inv_def ProposalStore_new_def entry_of_def)

lemma passed_status [simp]: "passed (p\<lparr>pr_status := x\<rparr>) = passed p"
  by (simp add: passed_def quorum_met_def)

lemma moved_ok: "proposal_ok e \<Longrightarrow> proposal_ok (moved now e)"
  by (cases e; cases "fst e") (auto simp: moved_def Let_def)

lemma entry_of_get: "store_inv st \<Longrightarrow> entry_of st pid = Some (ph, p) \<longleftrightarrow>
    map_of (pst_phases st) pid = Some ph \<and> map_of (pst_proposals st) pid = Some p"
  by (auto simp: entry_of_def split: option.splits)

lemma store_inv_entry: "store_inv st \<Longrightarrow> entry_of st pid = Some e \<Longrightarrow> proposal_ok e"
  unfolding store_inv_def by blast

lemma get_proposal_entry:
  assumes "store_inv st" "map_of (pst_proposals st) pid = Some p"
  obtains ph where "entry_of st pid = Some (ph, p)" "proposal_ok (ph, p)"
    "map_of (pst_phases st) pid = Some ph"
proof -
  from assms obtain ph where ph: "map_of (pst_phases st) pid = Some ph"
    by (metis not_None_eq store_inv_def)
  then have "entry_of st pid = Some (ph, p)" using assms(2) by (simp add: entry_of_def)
  with that ph assms(1) show ?thesis by (auto simp: store_inv_def)
qed

lemma store_inv_set_phase:
  assumes "store_inv st" "proposal_ok (ph, p\<lparr>pr_status := status\<rparr>)"
  shows "store_inv (set_phase st pid ph p status)"
proof -
  have "\<forall>k e. entry_of (set_phase st pid ph p status) k = Some e \<longrightarrow> proposal_ok e"
    using assms unfolding store_inv_def entry_of_set_phase by (simp del: proposal_ok.simps)
  then show ?thesis
    using assms(1) by (simp add: store_inv_def set_phase_def del: proposal_ok.simps)
qed

lemma advance_proposal_inv: "store_inv st \<Longrightarrow> store_inv (advance_proposal st pid config now)"
proof (cases "entry_of st pid")
  case None
  then have "advance_proposal st pid config now = st"
    by (auto simp: entry_of_def advance_proposal_def split: option.splits)
  then show "store_inv st \<Longrightarrow> ?thesis" by simp
next
  case (Some e)
  obtain ph p where e: "map_of (pst_phases st) pid = Some ph" "map_of (pst_proposals st) pid = Some p"
    using Some by (auto simp: entry_of_def split: option.splits)
  assume inv: "store_inv st"
  then have "proposal_ok (ph, p)"
    by (rule store_inv_entry [of _ pid]) (simp add: e entry_of_def)
  with e inv show ?thesis
    by (cases ph) (auto simp: advance_proposal_def intro!: store_inv_set_phase)
qed

lemma revert_overdue_ok: "emergency_ok ep \<Longrightarrow> emergency_ok (revert_overdue now ep)"
  by (auto simp: emergency_ok_def revert_overdue_def)

lemma store_inv_emergency:
  assumes "store_inv st" "hm_ok em" "\<And>eid ep. map_of em eid = Some ep \<Longrightarrow> emergency_ok ep"
  shows "store_inv (st\<lparr>pst_emergency_proposals := em\<rparr>)"
  using assms by (simp add: store_inv_def del: proposal_ok.simps)

lemma advance_all_inv [inv_intro]:
  assumes "store_inv st"
  shows "store_inv (advance_all st config now)"
proof -
  let ?st = "foldl (\<lambda>st pid. advance_proposal st pid config now) st (map fst (pst_proposals st))"
  have "store_inv (foldl (\<lambda>st pid. advance_proposal st pid config now) st ids)" for ids
    using assms by (induction ids arbitrary: st) (simp_all add: advance_proposal_inv)
  then have "store_inv ?st" .
  then show ?thesis
    unfolding advance_all_def Let_def
    using assms by (intro store_inv_emergency)
      (auto simp: store_inv_def revert_overdue_ok)
qed

definition new_proposal ::
  "bytes \<Rightarrow> NodeId \<Rightarrow> string \<Rightarrow> string \<Rightarrow> bytes \<Rightarrow> u64 \<Rightarrow> GovernanceConfig \<Rightarrow> datetime \<Rightarrow> Proposal" where
  "new_proposal pid proposer title desc data voters config now =
     (let d = now + duration_seconds (as_i64 (discussion_period_secs config));
          v = d + duration_seconds (as_i64 (voting_period_secs config))
      in \<lparr> pr_id = pid, pr_proposer = proposer, pr_title = title, pr_description = desc,
           pr_proposal_data = data, pr_submitted_at = now, pr_discussion_ends = d,
           pr_voting_ends = v,
           pr_implementation_date = v + duration_seconds (as_i64 (implementation_delay_secs config)),
           pr_status = PS_Discussion, pr_votes_yes = 0, pr_votes_no = 0, pr_votes_abstain = 0,
           pr_eligible_voters = voters \<rparr>)"

lemma new_proposal_simps [simp]:
  "pr_votes_yes (new_proposal pid proposer title desc data voters config now) = 0"
  "pr_votes_no (new_proposal pid proposer title desc data voters config now) = 0"
  "pr_votes_abstain (new_proposal pid proposer title desc data voters config now) = 0"
  "pr_eligible_voters (new_proposal pid proposer title desc data voters config now) = voters"
  "pr_status (new_proposal pid proposer title desc data voters config now) = PS_Discussion"
  by (simp_all add: new_proposal_def Let_def)

lemma submit_proposal_shape:
  "submit_proposal sha256 st proposer days title desc data voters config now =
    (if days < min_proposer_history_days config
     then (Err (InsufficientHistory days (min_proposer_history_days config)), st)
     else let pid = fst (generate_id sha256 st proposer now) in
       (Ok pid, set_phase (snd (generate_id sha256 st proposer now)) pid Ph_Discussion
          (new_proposal pid proposer title desc data voters config now) PS_Discussion))"
  by (simp add: submit_proposal_def generate_id_def Let_def set_phase_def new_proposal_def)

lemma store_inv_nonce [simp]: "store_inv (st\<lparr>pst_next_proposal_nonce := k\<rparr>) = store_inv st"
  by (simp add: store_inv_def del: proposal_ok.simps)

lemma generate_id_store: "snd (generate_id sha256 st proposer now)
    = st\<lparr>pst_next_proposal_nonce := add_u64 (pst_next_proposal_nonce st) 1\<rparr>"
  by (simp add: generate_id_def)

lemma submit_proposal_inv [inv_intro]:
  assumes "store_inv st"
  shows "store_inv (snd (submit_proposal sha256 st proposer days title desc data voters config now))"
  using assms by (auto simp: submit_proposal_shape generate_id_store Let_def
      intro!: store_inv_set_phase)

lemma cancel_proposal_shape:
  assumes "store_inv st" "cancel_proposal st pid requester = (r, st')"
  shows "(\<exists>e. r = Err e \<and> st' = st) \<or> (\<exists>p. r = Ok () \<and> entry_of st pid = Some (Ph_Discussion, p)
    \<and> pr_proposer p = requester \<and> st' = set_phase st pid Ph_Cancelled p PS_Rejected)"
proof (cases "map_of (pst_proposals st) pid")
  case None
  then show ?thesis using assms(2) by (auto simp: cancel_proposal_def)
next
  case (Some p)
  then obtain ph where ph: "entry_of st pid = Some (ph, p)" "map_of (pst_phases st) pid = Some ph"
    using get_proposal_entry [OF assms(1)] by metis
  then show ?thesis
    using assms(2) Some
    by (auto simp: cancel_proposal_def Let_def set_phase_def split: if_splits)
qed

lemma cancel_proposal_inv [inv_intro]:
  assumes "store_inv st"
  shows "store_inv (snd (cancel_proposal st pid requester))"
  using cancel_proposal_shape [OF assms, of pid requester] assms
  by (cases "cancel_proposal st pid requester") (auto intro!: store_inv_set_phase)

lemma submit_emergency_inv [inv_intro]:
  assumes "store_inv st"
  shows "store_inv (snd (submit_emergency sha256 st proposer title desc data csize config now))"
  using assms
  by (auto simp: submit_emergency_def generate_id_def Let_def store_inv_def emergency_ok_def
      simp del: proposal_ok.simps split: if_splits)

lemma approve_emergency_inv [inv_intro]:
  assumes "store_inv st"
  shows "store_inv (snd (approve_emergency st eid approver committee config))"
  using assms
  by (auto simp: approve_emergency_def Let_def emergency_ok_def store_inv_def
      simp del: proposal_ok.simps split: option.splits if_splits intro!: store_inv_emergency)

lemma ratify_emergency_inv [inv_intro]:
  assumes "store_inv st"
  shows "store_inv (snd (ratify_emergency st eid))"
  using assms
  by (auto simp: ratify_emergency_def emergency_ok_def store_inv_def
      simp del: proposal_ok.simps split: option.splits if_splits)

lemma emergency_ops_entry [simp]:
  "entry_of (snd (submit_emergency sha256 st proposer title desc data csize config now)) = entry_of st"
  "entry_of (snd (approve_emergency st eid approver committee config)) = entry_of st"
  "entry_of (snd (ratify_emergency st eid)) = entry_of st"
  by (auto simp: submit_emergency_def generate_id_def approve_emergency_def ratify_emergency_def Let_def
      split: option.splits)

lemma supermajority_iff:
  assumes "ep_committee_size ep * bps + 9999 \<le> U64_MAX"
  shows "has_supermajority ep bps \<longleftrightarrow> 0 < ep_committee_size ep
    \<and> ep_committee_size ep * bps \<le> length (ep_approvals ep) * 10000"
  using assms by (auto simp: has_supermajority_def Let_def saturating_mul_u64_def saturating_add_u64_def)

end
