(* ===== verification/Voting.thy ===== *)
theory Voting
  imports Proposals
begin

text \<open>
  Votes on proposals, \<^verbatim>\<open>gratia-governance/src/voting.rs\<close>. \<^verbatim>\<open>cast_vote\<close> changes two structs, the
  voting manager and the proposal store it borrows, so the model passes the pair. The double-vote
  protection is the ballot-box contract of the prelude, and the tally of a proposal is related to
  the recorded votes.
\<close>

section \<open>Model\<close>

record VoteRecord =
  vr_voter :: NodeId
  vr_vote :: Vote
  vr_timestamp :: datetime

record VoteResults =
  vres_proposal_id :: bytes
  vres_votes_yes :: u64
  vres_votes_no :: u64
  vres_votes_abstain :: u64
  vres_total_votes :: u64
  vres_eligible_voters :: u64
  vres_quorum_met :: bool
  vres_passed :: bool

record VotingManager =
  vm_voted :: "(bytes, NodeId hashset) hashmap"
  vm_records :: "(bytes, VoteRecord list) hashmap"

definition VotingManager_new :: VotingManager where
  "VotingManager_new = \<lparr> vm_voted = [], vm_records = [] \<rparr>"

text \<open>\<^verbatim>\<open>format!("{:?}", status)\<close>.\<close>
fun debug_status :: "ProposalStatus \<Rightarrow> string" where
  "debug_status PS_Discussion = ''Discussion''"
| "debug_status PS_Voting = ''Voting''"
| "debug_status PS_Approved = ''Approved''"
| "debug_status PS_Rejected = ''Rejected''"
| "debug_status PS_Implemented = ''Implemented''"
| "debug_status PS_Reverted = ''Reverted''"

fun count_vote :: "Vote \<Rightarrow> Proposal \<Rightarrow> Proposal" where
  "count_vote VYes p = p\<lparr>pr_votes_yes := add_u64 (pr_votes_yes p) 1\<rparr>"
| "count_vote VNo p = p\<lparr>pr_votes_no := add_u64 (pr_votes_no p) 1\<rparr>"
| "count_vote VAbstain p = p\<lparr>pr_votes_abstain := add_u64 (pr_votes_abstain p) 1\<rparr>"

definition cast_vote ::
  "VotingManager \<Rightarrow> ProposalStore \<Rightarrow> bytes \<Rightarrow> NodeId \<Rightarrow> Vote \<Rightarrow> bool \<Rightarrow> datetime
     \<Rightarrow> (GovernanceError, unit) result \<times> VotingManager \<times> ProposalStore" where
  "cast_vote vm st proposal_id voter vote has_valid_pol now =
     (if \<not> has_valid_pol then (Err NoValidProofOfLife, vm, st)
      else case get_proposal st proposal_id of
        None \<Rightarrow> (Err (ProposalNotFound proposal_id), vm, st)
      | Some proposal \<Rightarrow>
          if pr_status proposal \<noteq> PS_Voting
          then (Err (WrongPhase ''Voting'' (debug_status (pr_status proposal))), vm, st)
          else
            let voters = hm_entry (vm_voted vm) proposal_id
            in if voter \<in> set voters then (Err (AlreadyVoted voter), vm, st)
               else
                 let vm = vm\<lparr>
                       vm_voted := AList.update proposal_id (hs_insert voter voters) (vm_voted vm),
                       vm_records := AList.update proposal_id
                         (hm_entry (vm_records vm) proposal_id
                           @ [\<lparr> vr_voter = voter, vr_vote = vote, vr_timestamp = now \<rparr>])
                         (vm_records vm)\<rparr>
                 in case get_proposal st proposal_id of
                      None \<Rightarrow> (Err (ProposalNotFound proposal_id), vm, st)
                    | Some proposal \<Rightarrow>
                        (Ok (), vm, st\<lparr>pst_proposals := AList.update proposal_id
                                         (count_vote vote proposal) (pst_proposals st)\<rparr>))"

definition get_vote_results :: "Proposal \<Rightarrow> VoteResults" where
  "get_vote_results proposal =
     (let total_votes = saturating_add_u64
            (saturating_add_u64 (pr_votes_yes proposal) (pr_votes_no proposal))
            (pr_votes_abstain proposal)
      in \<lparr> vres_proposal_id = pr_id proposal, vres_votes_yes = pr_votes_yes proposal,
           vres_votes_no = pr_votes_no proposal, vres_votes_abstain = pr_votes_abstain proposal,
           vres_total_votes = total_votes, vres_eligible_voters = pr_eligible_voters proposal,
           vres_quorum_met = quorum_met proposal, vres_passed = passed proposal \<rparr>)"

definition get_records :: "VotingManager \<Rightarrow> bytes \<Rightarrow> VoteRecord list" where
  "get_records vm proposal_id =
     (case map_of (vm_records vm) proposal_id of Some v \<Rightarrow> v | None \<Rightarrow> [])"

definition has_voted :: "VotingManager \<Rightarrow> bytes \<Rightarrow> NodeId \<Rightarrow> bool" where
  "has_voted vm proposal_id node_id =
     (case map_of (vm_voted vm) proposal_id of Some voters \<Rightarrow> node_id \<in> set voters | None \<Rightarrow> False)"

definition vote_count :: "VotingManager \<Rightarrow> bytes \<Rightarrow> usize" where
  "vote_count vm proposal_id =
     (case map_of (vm_records vm) proposal_id of Some v \<Rightarrow> length v | None \<Rightarrow> 0)"

section \<open>One vote per node\<close>

text \<open>The names on the records and the set of those who have voted are the same.\<close>
definition voters_recorded :: "VotingManager \<Rightarrow> bool" where
  "voters_recorded vm \<longleftrightarrow>
     (\<forall>pid. set (hm_entry (vm_voted vm) pid) = set (map vr_voter (get_records vm pid)))"

lemma get_records_entry: "get_records vm pid = hm_entry (vm_records vm) pid"
  by (simp add: get_records_def hm_entry_def)

lemma voters_recorded_new [simp]: "voters_recorded VotingManager_new"
  by (simp add: voters_recorded_def get_records_entry VotingManager_new_def)

lemma has_voted_iff: "has_voted vm pid n \<longleftrightarrow> n \<in> set (hm_entry (vm_voted vm) pid)"
  by (simp add: has_voted_def hm_entry_def split: option.splits)

definition ballot_accepted :: "ProposalStore \<Rightarrow> VotingManager \<Rightarrow> bytes \<Rightarrow> NodeId \<Rightarrow> bool \<Rightarrow> bool" where
  "ballot_accepted st vm pid voter pol \<longleftrightarrow> pol
     \<and> (\<exists>p. get_proposal st pid = Some p \<and> pr_status p = PS_Voting) \<and> \<not> has_voted vm pid voter"

definition recorded :: "VotingManager \<Rightarrow> bytes \<Rightarrow> VoteRecord \<Rightarrow> VotingManager" where
  "recorded vm pid r = vm\<lparr>
     vm_voted := AList.update pid (hm_entry (vm_voted vm) pid @ [vr_voter r]) (vm_voted vm),
     vm_records := AList.update pid (get_records vm pid @ [r]) (vm_records vm)\<rparr>"

lemma cast_vote_accepted:
  assumes "ballot_accepted st vm pid voter pol" "get_proposal st pid = Some p"
  shows "cast_vote vm st pid voter vote pol now
    = (Ok (), recorded vm pid \<lparr> vr_voter = voter, vr_vote = vote, vr_timestamp = now \<rparr>,
       st\<lparr>pst_proposals := AList.update pid (count_vote vote p) (pst_proposals st)\<rparr>)"
  using assms by (auto simp: cast_vote_def ballot_accepted_def has_voted_iff Let_def recorded_def
      get_records_entry hs_insert_new)

lemma cast_vote_refused:
  "\<not> ballot_accepted st vm pid voter pol \<Longrightarrow>
     \<exists>e. cast_vote vm st pid voter vote pol now = (Err e, vm, st)"
  by (auto simp: cast_vote_def ballot_accepted_def has_voted_iff Let_def split: option.splits)

lemma recorded_records [simp]:
  "get_records (recorded vm pid r) = (get_records vm)(pid := get_records vm pid @ [r])"
  by (simp add: fun_eq_iff recorded_def get_records_entry)

lemma recorded_ok: "voters_recorded vm \<Longrightarrow> voters_recorded (recorded vm pid r)"
  by (simp add: voters_recorded_def) (simp add: recorded_def)

text \<open>A ballot with everything a call of \<^verbatim>\<open>cast_vote\<close> carries.\<close>
record ballot =
  b_proposal :: bytes
  b_voter :: NodeId
  b_vote :: Vote
  b_pol :: bool
  b_time :: datetime

definition cast_ballot :: "VotingManager \<times> ProposalStore \<Rightarrow> ballot \<Rightarrow> VotingManager \<times> ProposalStore" where
  "cast_ballot s b = snd (cast_vote (fst s) (snd s) (b_proposal b) (b_voter b) (b_vote b) (b_pol b) (b_time b))"

definition accepts_ballot :: "VotingManager \<times> ProposalStore \<Rightarrow> ballot \<Rightarrow> bool" where
  "accepts_ballot s b = is_ok (fst (cast_vote (fst s) (snd s) (b_proposal b) (b_voter b) (b_vote b)
     (b_pol b) (b_time b)))"

lemma accepts_ballot_iff:
  "accepts_ballot s b \<longleftrightarrow> ballot_accepted (snd s) (fst s) (b_proposal b) (b_voter b) (b_pol b)"
proof (cases "ballot_accepted (snd s) (fst s) (b_proposal b) (b_voter b) (b_pol b)")
  case True
  then obtain p where "get_proposal (snd s) (b_proposal b) = Some p" by (auto simp: ballot_accepted_def)
  with True show ?thesis by (simp add: accepts_ballot_def cast_vote_accepted)
next
  case False
  then show ?thesis using cast_vote_refused [OF False] by (auto simp: accepts_ballot_def) (metis fst_conv is_ok_simps(2))
qed

lemma cast_ballot_accepted:
  "accepts_ballot s b \<Longrightarrow> fst (cast_ballot s b) = recorded (fst s) (b_proposal b)
     \<lparr> vr_voter = b_voter b, vr_vote = b_vote b, vr_timestamp = b_time b \<rparr>"
  unfolding accepts_ballot_iff
  by (auto simp: ballot_accepted_def cast_ballot_def cast_vote_accepted [unfolded ballot_accepted_def])

lemma cast_ballot_refused: "\<not> accepts_ballot s b \<Longrightarrow> cast_ballot s b = s"
  unfolding accepts_ballot_iff using cast_vote_refused [of "snd s" "fst s"]
  by (auto simp: cast_ballot_def) (metis prod.collapse snd_conv)

interpretation votes: ballot_box accepts_ballot cast_ballot b_proposal b_voter
    "\<lambda>s pid. map vr_voter (get_records (fst s) pid)" "\<lambda>s. voters_recorded (fst s)"
proof
  fix s :: "VotingManager \<times> ProposalStore" and b :: ballot
  assume ok: "voters_recorded (fst s)"
  then show "voters_recorded (fst (cast_ballot s b))"
    by (cases "accepts_ballot s b") (simp_all add: cast_ballot_accepted cast_ballot_refused recorded_ok)
  assume acc: "accepts_ballot s b"
  then have "b_voter b \<notin> set (map vr_voter (get_records (fst s) (b_proposal b)))"
    using ok by (auto simp: accepts_ballot_iff ballot_accepted_def has_voted_iff voters_recorded_def)
  then show "b_voter b \<notin> set (map vr_voter (get_records (fst s) (b_proposal b)))
      \<and> (\<lambda>pid. map vr_voter (get_records (fst (cast_ballot s b)) pid))
        = (\<lambda>pid. map vr_voter (get_records (fst s) pid))
            (b_proposal b := map vr_voter (get_records (fst s) (b_proposal b)) @ [b_voter b])"
    using acc by (auto simp: cast_ballot_accepted fun_eq_iff)
qed (simp add: cast_ballot_refused)

section \<open>The tally\<close>

definition votes_for :: "Vote \<Rightarrow> VoteRecord list \<Rightarrow> nat" where
  "votes_for v rs = length (filter (\<lambda>r. vr_vote r = v) rs)"

definition tally_ok :: "VoteRecord list \<Rightarrow> Proposal \<Rightarrow> bool" where
  "tally_ok rs p \<longleftrightarrow> pr_votes_yes p = votes_for VYes rs \<and> pr_votes_no p = votes_for VNo rs
     \<and> pr_votes_abstain p = votes_for VAbstain rs"

lemma votes_for_le: "votes_for v rs \<le> length rs"
  by (simp add: votes_for_def)

lemma votes_for_total: "votes_for VYes rs + votes_for VNo rs + votes_for VAbstain rs = length rs"
proof (induction rs)
  case (Cons r rs)
  then show ?case by (cases "vr_vote r") (simp_all add: votes_for_def)
qed (simp add: votes_for_def)

lemma count_vote_tally:
  assumes "tally_ok rs p" "length rs < U64_MAX"
  shows "tally_ok (rs @ [r]) (count_vote (vr_vote r) p)"
proof -
  have "votes_for v rs < U64_MAX" for v
    using votes_for_le [of v rs] assms(2) by linarith
  then have "add_u64 (votes_for v rs) (Suc 0) = Suc (votes_for v rs)" for v by (rule inc_u64)
  then show ?thesis
    using assms(1) by (cases "vr_vote r") (simp_all add: tally_ok_def votes_for_def)
qed

lemma count_vote_keeps [simp]:
  "pr_status (count_vote v p) = pr_status p" "pr_id (count_vote v p) = pr_id p"
  "pr_proposer (count_vote v p) = pr_proposer p"
  "pr_eligible_voters (count_vote v p) = pr_eligible_voters p"
  "pr_discussion_ends (count_vote v p) = pr_discussion_ends p"
  "pr_voting_ends (count_vote v p) = pr_voting_ends p"
  "pr_implementation_date (count_vote v p) = pr_implementation_date p"
  by (cases v; simp)+

lemma tally_ok_status [simp]: "tally_ok rs (p\<lparr>pr_status := x\<rparr>) = tally_ok rs p"
  by (simp add: tally_ok_def)

lemma update_proposal_inv:
  assumes "store_inv st" "entry_of st pid = Some (Ph_Voting, p)" "pr_status p' = PS_Voting"
  shows "store_inv (st\<lparr>pst_proposals := AList.update pid p' (pst_proposals st)\<rparr>)"
    and "entry_of (st\<lparr>pst_proposals := AList.update pid p' (pst_proposals st)\<rparr>)
       = (entry_of st)(pid := Some (Ph_Voting, p'))"
proof -
  have ph: "map_of (pst_phases st) pid = Some Ph_Voting"
    using assms(1,2) by (simp add: entry_of_get)
  show e: "entry_of (st\<lparr>pst_proposals := AList.update pid p' (pst_proposals st)\<rparr>)
       = (entry_of st)(pid := Some (Ph_Voting, p'))"
    using ph by (auto simp: fun_eq_iff entry_of_def split: option.splits)
  have "\<forall>k x. entry_of (st\<lparr>pst_proposals := AList.update pid p' (pst_proposals st)\<rparr>) k = Some x
      \<longrightarrow> proposal_ok x"
    using assms(1,3) unfolding e by (auto dest: store_inv_entry)
  then show "store_inv (st\<lparr>pst_proposals := AList.update pid p' (pst_proposals st)\<rparr>)"
    using assms(1) ph by (simp add: store_inv_def del: proposal_ok.simps)
qed

lemma voting_entry:
  assumes "store_inv st" "get_proposal st pid = Some p" "pr_status p = PS_Voting"
  shows "entry_of st pid = Some (Ph_Voting, p)"
proof -
  obtain ph where "entry_of st pid = Some (ph, p)" "proposal_ok (ph, p)"
    using get_proposal_entry assms(1,2) unfolding get_proposal_def by metis
  with assms(3) show ?thesis by (cases ph) simp_all
qed

end
