(* ===== verification/Polling.thy ===== *)
theory Polling
  imports Proposals
begin

text \<open>
  On-chain polls, \<^verbatim>\<open>gratia-governance/src/polling.rs\<close>. The great-circle test of the geographic
  filter is floating-point trigonometry and is a parameter (\<open>within_radius\<close>), as are SHA-256 and the
  wall clock; percentages are exact fractions. Indexing \<^verbatim>\<open>poll.votes\<close> out of range would panic:
  the functions that index return \<^const>\<open>None\<close> there, and the invariant shows it never happens.
\<close>

section \<open>Model\<close>

record PollVoteRecord =
  pv_voter :: NodeId
  pv_option_index :: u32
  pv_timestamp :: datetime

record PollStore =
  polls_map :: "(bytes, Poll) hashmap"
  polls_voted :: "(bytes, NodeId hashset) hashmap"
  polls_records :: "(bytes, PollVoteRecord list) hashmap"
  next_poll_nonce :: u64

definition PollStore_new :: PollStore where
  "PollStore_new = \<lparr> polls_map = [], polls_voted = [], polls_records = [], next_poll_nonce = 0 \<rparr>"

record PollOptionResult =
  por_index :: u32
  por_label :: string
  por_votes :: u64
  por_percentage :: f64

record PollResults =
  pres_poll_id :: bytes
  pres_question :: string
  pres_total_voters :: u64
  pres_options :: "PollOptionResult list"
  pres_expired :: bool

definition generate_poll_id ::
  "(bytes \<Rightarrow> bytes) \<Rightarrow> PollStore \<Rightarrow> Address \<Rightarrow> datetime \<Rightarrow> bytes \<times> PollStore" where
  "generate_poll_id sha256 ps creator now =
     (sha256 (id_preimage ''gratia-poll-v1:'' (address_bytes creator) now (next_poll_nonce ps)),
      ps\<lparr>next_poll_nonce := add_u64 (next_poll_nonce ps) 1\<rparr>)"

definition create_poll ::
  "(bytes \<Rightarrow> bytes) \<Rightarrow> PollStore \<Rightarrow> Address \<Rightarrow> string \<Rightarrow> string list \<Rightarrow> u64 \<Rightarrow> GeographicFilter option
     \<Rightarrow> Lux \<Rightarrow> GovernanceConfig \<Rightarrow> datetime \<Rightarrow> (GovernanceError, bytes) result \<times> PollStore" where
  "create_poll sha256 ps creator question options duration_secs geographic_filter creator_balance
       config now =
     (if question = [] then (Err EmptyQuestion, ps)
      else if length options < 2 then (Err TooFewOptions, ps)
      else if creator_balance < poll_creation_fee config
      then (Err (InsufficientBalance creator_balance (poll_creation_fee config)), ps)
      else
        let (pid, ps) = generate_poll_id sha256 ps creator now;
            expires_at = now + duration_seconds (as_i64 duration_secs);
            vote_counts = replicate (length options) 0;
            poll = \<lparr> poll_id = pid, poll_creator = creator, poll_question = question,
              poll_options = options, poll_created_at = now, poll_expires_at = expires_at,
              poll_votes = vote_counts, poll_total_voters = 0,
              poll_geographic_filter = geographic_filter,
              poll_creation_fee_paid = poll_creation_fee config \<rparr>
        in (Ok pid, ps\<lparr>polls_map := AList.update pid poll (polls_map ps)\<rparr>))"

text \<open>The filter check: no filter admits everybody, a filter admits known locations within it.\<close>
definition passes_filter ::
  "(GeoLocation \<Rightarrow> GeographicFilter \<Rightarrow> bool) \<Rightarrow> GeographicFilter option \<Rightarrow> GeoLocation option \<Rightarrow> bool" where
  "passes_filter within_radius filter_opt location_opt =
     (case filter_opt of
        None \<Rightarrow> True
      | Some f \<Rightarrow> (case location_opt of None \<Rightarrow> False | Some l \<Rightarrow> within_radius l f))"

definition cast_poll_vote ::
  "(GeoLocation \<Rightarrow> GeographicFilter \<Rightarrow> bool) \<Rightarrow> PollStore \<Rightarrow> bytes \<Rightarrow> NodeId \<Rightarrow> u32 \<Rightarrow> bool
     \<Rightarrow> GeoLocation option \<Rightarrow> datetime \<Rightarrow> ((GovernanceError, unit) result \<times> PollStore) option" where
  "cast_poll_vote within_radius ps pid voter option_index has_valid_pol voter_location now =
     (if \<not> has_valid_pol then Some (Err NoValidProofOfLife, ps)
      else case map_of (polls_map ps) pid of
        None \<Rightarrow> Some (Err (PollNotFound pid), ps)
      | Some poll \<Rightarrow>
          if now \<ge> poll_expires_at poll then Some (Err PollExpired, ps)
          else if option_index \<ge> length (poll_options poll)
          then Some (Err (InvalidOptionIndex option_index (length (poll_options poll))), ps)
          else if \<not> passes_filter within_radius (poll_geographic_filter poll) voter_location
          then Some (Err OutsideGeographicFilter, ps)
          else
            let voters = hm_entry (polls_voted ps) pid
            in if voter \<in> set voters then Some (Err (AlreadyVotedPoll voter), ps)
               else
                 let ps = ps\<lparr>
                       polls_voted := AList.update pid (hs_insert voter voters) (polls_voted ps),
                       polls_records := AList.update pid
                         (hm_entry (polls_records ps) pid
                           @ [\<lparr> pv_voter = voter, pv_option_index = option_index,
                                pv_timestamp = now \<rparr>])
                         (polls_records ps)\<rparr>
                 in if option_index \<ge> length (poll_votes poll) then None
                    else
                      let poll = poll\<lparr>
                            poll_votes := (poll_votes poll)
                              [option_index := add_u64 (poll_votes poll ! option_index) 1],
                            poll_total_voters := add_u64 (poll_total_voters poll) 1\<rparr>
                      in Some (Ok (), ps\<lparr>polls_map := AList.update pid poll (polls_map ps)\<rparr>))"

definition option_result :: "Poll \<Rightarrow> nat \<times> string \<Rightarrow> PollOptionResult option" where
  "option_result poll il =
     (let (i, label) = il
      in if i \<ge> length (poll_votes poll) then None
         else
           let votes = poll_votes poll ! i;
               percentage = (if poll_total_voters poll > 0
                             then of_nat votes / of_nat (poll_total_voters poll) * 100 else 0)
           in Some \<lparr> por_index = as_u32 i, por_label = label, por_votes = votes,
                     por_percentage = percentage \<rparr>)"

text \<open>The outer option is the panic, the inner one the result for an unknown poll.\<close>
definition get_poll_results :: "datetime \<Rightarrow> PollStore \<Rightarrow> bytes \<Rightarrow> PollResults option option" where
  "get_poll_results utc_now ps pid =
     (case map_of (polls_map ps) pid of
        None \<Rightarrow> Some None
      | Some poll \<Rightarrow>
          (case those (map (option_result poll) (enumerate 0 (poll_options poll))) of
             None \<Rightarrow> None
           | Some option_results \<Rightarrow>
               Some (Some \<lparr> pres_poll_id = poll_id poll, pres_question = poll_question poll,
                 pres_total_voters = poll_total_voters poll, pres_options = option_results,
                 pres_expired = (utc_now \<ge> poll_expires_at poll) \<rparr>)))"

definition get_poll :: "PollStore \<Rightarrow> bytes \<Rightarrow> Poll option" where
  "get_poll ps pid = map_of (polls_map ps) pid"

definition active_polls :: "PollStore \<Rightarrow> datetime \<Rightarrow> Poll list" where
  "active_polls ps now = filter (\<lambda>p. now < poll_expires_at p) (map snd (polls_map ps))"

definition all_polls :: "PollStore \<Rightarrow> Poll list" where
  "all_polls ps = map snd (polls_map ps)"

definition get_poll_records :: "PollStore \<Rightarrow> bytes \<Rightarrow> PollVoteRecord list" where
  "get_poll_records ps pid =
     (case map_of (polls_records ps) pid of Some v \<Rightarrow> v | None \<Rightarrow> [])"

definition has_voted_poll :: "PollStore \<Rightarrow> bytes \<Rightarrow> NodeId \<Rightarrow> bool" where
  "has_voted_poll ps pid node_id =
     (case map_of (polls_voted ps) pid of Some voters \<Rightarrow> node_id \<in> set voters | None \<Rightarrow> False)"

section \<open>One vote per node\<close>

record poll_ballot =
  pb_poll :: bytes
  pb_voter :: NodeId
  pb_option :: u32
  pb_pol :: bool
  pb_location :: "GeoLocation option"
  pb_time :: datetime

definition cast_poll ::
  "(GeoLocation \<Rightarrow> GeographicFilter \<Rightarrow> bool) \<Rightarrow> PollStore \<Rightarrow> poll_ballot
     \<Rightarrow> ((GovernanceError, unit) result \<times> PollStore) option" where
  "cast_poll w ps b = cast_poll_vote w ps (pb_poll b) (pb_voter b) (pb_option b) (pb_pol b)
     (pb_location b) (pb_time b)"

text \<open>The store after a call; a panic leaves what was there before the call.\<close>
definition poll_step :: "(GeoLocation \<Rightarrow> GeographicFilter \<Rightarrow> bool) \<Rightarrow> PollStore \<Rightarrow> poll_ballot \<Rightarrow> PollStore" where
  "poll_step w ps b = (case cast_poll w ps b of Some (_, ps') \<Rightarrow> ps' | None \<Rightarrow> ps)"

definition accepts_poll :: "(GeoLocation \<Rightarrow> GeographicFilter \<Rightarrow> bool) \<Rightarrow> PollStore \<Rightarrow> poll_ballot \<Rightarrow> bool" where
  "accepts_poll w ps b = (case cast_poll w ps b of Some (r, _) \<Rightarrow> is_ok r | None \<Rightarrow> False)"

text \<open>What the checks of \<^verbatim>\<open>cast_poll_vote\<close> let through.\<close>
definition admissible ::
  "(GeoLocation \<Rightarrow> GeographicFilter \<Rightarrow> bool) \<Rightarrow> PollStore \<Rightarrow> poll_ballot \<Rightarrow> Poll \<Rightarrow> bool" where
  "admissible w ps b poll \<longleftrightarrow> pb_pol b \<and> map_of (polls_map ps) (pb_poll b) = Some poll
     \<and> pb_time b < poll_expires_at poll \<and> pb_option b < length (poll_options poll)
     \<and> passes_filter w (poll_geographic_filter poll) (pb_location b)
     \<and> pb_voter b \<notin> set (hm_entry (polls_voted ps) (pb_poll b))"

definition poll_record :: "poll_ballot \<Rightarrow> PollVoteRecord" where
  "poll_record b = \<lparr> pv_voter = pb_voter b, pv_option_index = pb_option b, pv_timestamp = pb_time b \<rparr>"

definition counted_poll :: "Poll \<Rightarrow> nat \<Rightarrow> Poll" where
  "counted_poll poll i = poll\<lparr>
     poll_votes := (poll_votes poll)[i := add_u64 (poll_votes poll ! i) 1],
     poll_total_voters := add_u64 (poll_total_voters poll) 1\<rparr>"

lemma get_poll_records_entry: "get_poll_records ps pid = hm_entry (polls_records ps) pid"
  by (simp add: get_poll_records_def hm_entry_def)

lemma has_voted_poll_iff: "has_voted_poll ps pid n \<longleftrightarrow> n \<in> set (hm_entry (polls_voted ps) pid)"
  by (simp add: has_voted_poll_def hm_entry_def split: option.splits)

lemma cast_poll_admissible:
  assumes "admissible w ps b poll"
  shows "cast_poll w ps b = (if pb_option b < length (poll_votes poll)
    then Some (Ok (), ps\<lparr>
      polls_voted := AList.update (pb_poll b) (hm_entry (polls_voted ps) (pb_poll b) @ [pb_voter b])
        (polls_voted ps),
      polls_records := AList.update (pb_poll b) (get_poll_records ps (pb_poll b) @ [poll_record b])
        (polls_records ps),
      polls_map := AList.update (pb_poll b) (counted_poll poll (pb_option b)) (polls_map ps)\<rparr>)
    else None)"
  using assms by (auto simp: admissible_def cast_poll_def cast_poll_vote_def Let_def hs_insert_new
      get_poll_records_entry poll_record_def counted_poll_def)

lemma cast_poll_inadmissible:
  "\<nexists>poll. admissible w ps b poll \<Longrightarrow> \<exists>e. cast_poll w ps b = Some (Err e, ps)"
  by (auto simp: admissible_def cast_poll_def cast_poll_vote_def Let_def split: option.splits)

lemma accepts_poll_iff:
  "accepts_poll w ps b \<longleftrightarrow>
     (\<exists>poll. admissible w ps b poll \<and> pb_option b < length (poll_votes poll))"
proof (cases "\<exists>poll. admissible w ps b poll")
  case True
  then obtain poll where p: "admissible w ps b poll" by blast
  then have "admissible w ps b poll' \<longleftrightarrow> poll' = poll" for poll' by (auto simp: admissible_def)
  with p show ?thesis by (auto simp: accepts_poll_def cast_poll_admissible)
next
  case False
  with cast_poll_inadmissible [OF this] show ?thesis by (auto simp: accepts_poll_def)
qed

lemma poll_step_accepted:
  assumes "accepts_poll w ps b"
  obtains poll where "admissible w ps b poll"
    "poll_step w ps b = ps\<lparr>
      polls_voted := AList.update (pb_poll b) (hm_entry (polls_voted ps) (pb_poll b) @ [pb_voter b])
        (polls_voted ps),
      polls_records := AList.update (pb_poll b) (get_poll_records ps (pb_poll b) @ [poll_record b])
        (polls_records ps),
      polls_map := AList.update (pb_poll b) (counted_poll poll (pb_option b)) (polls_map ps)\<rparr>"
  using assms that by (auto simp: accepts_poll_iff poll_step_def cast_poll_admissible)

lemma poll_step_refused:
  assumes "\<not> accepts_poll w ps b"
  shows "poll_step w ps b = ps"
proof (cases "\<exists>poll. admissible w ps b poll")
  case True
  with assms show ?thesis
    by (auto simp: accepts_poll_iff poll_step_def cast_poll_admissible split: if_splits)
next
  case False
  with cast_poll_inadmissible [OF this] show ?thesis by (auto simp: poll_step_def)
qed

definition poll_voters_recorded :: "PollStore \<Rightarrow> bool" where
  "poll_voters_recorded ps \<longleftrightarrow>
     (\<forall>pid. set (hm_entry (polls_voted ps) pid) = set (map pv_voter (get_poll_records ps pid)))"

lemma poll_step_records:
  "accepts_poll w ps b \<Longrightarrow> get_poll_records (poll_step w ps b)
     = (get_poll_records ps)(pb_poll b := get_poll_records ps (pb_poll b) @ [poll_record b])"
  by (erule poll_step_accepted) (simp add: fun_eq_iff get_poll_records_entry)

lemma poll_step_voters_recorded:
  assumes "poll_voters_recorded ps"
  shows "poll_voters_recorded (poll_step w ps b)"
proof (cases "accepts_poll w ps b")
  case True
  then have "hm_entry (polls_voted (poll_step w ps b)) =
      (hm_entry (polls_voted ps))(pb_poll b := hm_entry (polls_voted ps) (pb_poll b) @ [pb_voter b])"
    by (rule poll_step_accepted) simp
  with assms True show ?thesis
    by (simp add: poll_voters_recorded_def poll_step_records) (simp add: poll_record_def)
qed (simp add: poll_step_refused assms)

interpretation pollbox: ballot_box "accepts_poll w" "poll_step w" pb_poll pb_voter
    "\<lambda>ps pid. map pv_voter (get_poll_records ps pid)" poll_voters_recorded for w
proof
  fix ps :: PollStore and b :: poll_ballot
  assume ok: "poll_voters_recorded ps"
  show "poll_voters_recorded (poll_step w ps b)" using ok by (rule poll_step_voters_recorded)
  assume acc: "accepts_poll w ps b"
  then have "pb_voter b \<notin> set (map pv_voter (get_poll_records ps (pb_poll b)))"
    using ok by (auto simp: accepts_poll_iff admissible_def poll_voters_recorded_def)
  then show "pb_voter b \<notin> set (map pv_voter (get_poll_records ps (pb_poll b)))
      \<and> (\<lambda>pid. map pv_voter (get_poll_records (poll_step w ps b) pid))
        = (\<lambda>pid. map pv_voter (get_poll_records ps pid))
            (pb_poll b := map pv_voter (get_poll_records ps (pb_poll b)) @ [pb_voter b])"
    using acc by (auto simp: poll_step_records fun_eq_iff poll_record_def)
qed (simp add: poll_step_refused)

section \<open>The tally\<close>

definition option_count :: "PollVoteRecord list \<Rightarrow> nat \<Rightarrow> nat" where
  "option_count rs i = length (filter (\<lambda>r. pv_option_index r = i) rs)"

definition poll_ok :: "PollVoteRecord list \<Rightarrow> Poll \<Rightarrow> bool" where
  "poll_ok rs poll \<longleftrightarrow> poll_votes poll = map (option_count rs) [0..<length (poll_options poll)]
     \<and> poll_total_voters poll = length rs
     \<and> (\<forall>r \<in> set rs. pv_option_index r < length (poll_options poll))"

definition polls_inv :: "PollStore \<Rightarrow> bool" where
  "polls_inv ps \<longleftrightarrow> hm_ok (polls_map ps) \<and> poll_voters_recorded ps
     \<and> (\<forall>pid. distinct (map pv_voter (get_poll_records ps pid)))
     \<and> (\<forall>pid poll. map_of (polls_map ps) pid = Some poll \<longrightarrow> poll_ok (get_poll_records ps pid) poll)
     \<and> (\<forall>pid. map_of (polls_map ps) pid = None \<longrightarrow> get_poll_records ps pid = [])"

lemma option_count_le: "option_count rs i \<le> length rs"
  by (simp add: option_count_def)

lemma option_count_snoc: "option_count (rs @ [r]) i = option_count rs i + of_bool (pv_option_index r = i)"
  by (simp add: option_count_def)

lemma sum_option_count:
  "\<forall>r \<in> set rs. pv_option_index r < n \<Longrightarrow> sum_list (map (option_count rs) [0..<n]) = length rs"
proof (induction rs)
  case Nil
  then show ?case by (simp add: option_count_def sum_list_triv)
next
  case (Cons r rs)
  have "option_count (r # rs) = (\<lambda>i. of_bool (pv_option_index r = i) + option_count rs i)"
    by (simp add: option_count_def fun_eq_iff)
  then have "sum_list (map (option_count (r # rs)) [0..<n])
      = sum_list (map (\<lambda>i. of_bool (pv_option_index r = i)) [0..<n]) + sum_list (map (option_count rs) [0..<n])"
    by (simp add: sum_list_addf)
  also have "sum_list (map (\<lambda>i. of_bool (pv_option_index r = i)) [0..<n]) = (1::nat)"
    using Cons.prems by (simp add: interv_sum_list_conv_sum_set_nat of_bool_def)
  finally show ?case using Cons by simp
qed

lemma poll_ok_counted:
  assumes "poll_ok rs poll" "i < length (poll_options poll)" "length rs < U64_MAX" "pv_option_index r = i"
  shows "poll_ok (rs @ [r]) (counted_poll poll i)"
proof -
  have "option_count rs i < U64_MAX" using option_count_le [of rs i] assms(3) by linarith
  then have "add_u64 (option_count rs i) (Suc 0) = Suc (option_count rs i)"
    "add_u64 (length rs) (Suc 0) = Suc (length rs)"
    using assms(3) by (auto intro: inc_u64)
  then show ?thesis
    using assms by (auto simp: poll_ok_def counted_poll_def option_count_snoc intro!: nth_equalityI
        simp: nth_list_update)
qed

lemma polls_inv_new [simp]: "polls_inv PollStore_new"
  by (simp add: polls_inv_def PollStore_new_def poll_voters_recorded_def get_poll_records_def)

text \<open>With the invariant the index is in range, so no call panics.\<close>
lemma polls_inv_no_panic:
  assumes "polls_inv ps" "admissible w ps b poll"
  shows "pb_option b < length (poll_votes poll)"
  using assms by (auto simp: polls_inv_def admissible_def poll_ok_def)

lemma cast_poll_not_None: "polls_inv ps \<Longrightarrow> cast_poll w ps b \<noteq> None"
  using cast_poll_inadmissible [of w ps b] polls_inv_no_panic [of ps w b]
  by (cases "\<exists>poll. admissible w ps b poll") (auto simp: cast_poll_admissible)

lemma poll_step_inv:
  assumes inv: "polls_inv ps" and room: "length (get_poll_records ps (pb_poll b)) < U64_MAX"
  shows "polls_inv (poll_step w ps b)"
proof (cases "accepts_poll w ps b")
  case True
  from True obtain poll where p: "admissible w ps b poll"
    and step: "polls_map (poll_step w ps b)
      = AList.update (pb_poll b) (counted_poll poll (pb_option b)) (polls_map ps)"
    by (rule poll_step_accepted) simp
  have rec: "get_poll_records (poll_step w ps b)
      = (get_poll_records ps)(pb_poll b := get_poll_records ps (pb_poll b) @ [poll_record b])"
    using True by (rule poll_step_records)
  have voters: "poll_voters_recorded (poll_step w ps b)"
    using inv by (simp add: polls_inv_def poll_step_voters_recorded)
  have fresh: "pb_voter b \<notin> pv_voter ` set (get_poll_records ps (pb_poll b))"
    using inv p by (auto simp: polls_inv_def admissible_def poll_voters_recorded_def)
  have "poll_ok (get_poll_records ps (pb_poll b) @ [poll_record b]) (counted_poll poll (pb_option b))"
    using inv p room by (intro poll_ok_counted) (auto simp: polls_inv_def admissible_def poll_record_def)
  then show ?thesis
    using inv voters fresh by (auto simp: polls_inv_def rec step poll_record_def)
qed (simp add: poll_step_refused inv)

definition fresh_poll_id :: "(bytes \<Rightarrow> bytes) \<Rightarrow> PollStore \<Rightarrow> Address \<Rightarrow> datetime \<Rightarrow> bool" where
  "fresh_poll_id sha256 ps creator now \<longleftrightarrow>
     map_of (polls_map ps) (fst (generate_poll_id sha256 ps creator now)) = None"

lemma poll_books_keep [simp]:
  "get_poll_records (ps\<lparr>next_poll_nonce := k, polls_map := x\<rparr>) = get_poll_records ps"
  "poll_voters_recorded (ps\<lparr>next_poll_nonce := k, polls_map := x\<rparr>) = poll_voters_recorded ps"
  by (simp_all add: fun_eq_iff get_poll_records_def poll_voters_recorded_def)

lemma poll_ok_new:
  "poll_votes poll = replicate (length (poll_options poll)) 0 \<Longrightarrow> poll_total_voters poll = 0 \<Longrightarrow> poll_ok [] poll"
  by (auto simp: poll_ok_def option_count_def intro!: nth_equalityI)

lemma create_poll_inv:
  assumes "polls_inv ps" "fresh_poll_id sha256 ps creator now"
  shows "polls_inv (snd (create_poll sha256 ps creator question options secs geo balance config now))"
  using assms
  by (auto simp: create_poll_def generate_poll_id_def fresh_poll_id_def Let_def polls_inv_def
      intro!: poll_ok_new)

lemma get_poll_results_ok:
  assumes "polls_inv ps" "map_of (polls_map ps) pid = Some poll"
  shows "\<exists>res. get_poll_results utc_now ps pid = Some (Some res)
    \<and> map por_votes (pres_options res) = poll_votes poll
    \<and> map por_label (pres_options res) = poll_options poll
    \<and> pres_total_voters res = poll_total_voters poll"
proof -
  let ?n = "length (poll_options poll)"
  have len: "length (poll_votes poll) = ?n" using assms by (auto simp: polls_inv_def poll_ok_def)
  define f where "f il = the (option_result poll il)" for il
  have "those (map (option_result poll) xs) = Some (map f xs)"
    if "\<forall>il \<in> set xs. fst il < ?n" for xs
    using that by (induction xs) (auto simp: f_def option_result_def len Let_def split_beta)
  then have those: "those (map (option_result poll) (enumerate 0 (poll_options poll)))
      = Some (map f (enumerate 0 (poll_options poll)))"
    by (auto simp: in_set_enumerate_eq)
  have "por_votes (f (i, l)) = poll_votes poll ! i" "por_label (f (i, l)) = l" if "i < ?n" for i l
    using that len by (simp_all add: f_def option_result_def Let_def)
  then have "map (por_votes \<circ> f) (enumerate 0 (poll_options poll)) = poll_votes poll"
    "map (por_label \<circ> f) (enumerate 0 (poll_options poll)) = poll_options poll"
    using len by (auto intro!: nth_equalityI simp: nth_enumerate_eq)
  then show ?thesis using assms(2) those by (simp add: get_poll_results_def)
qed

end
