(* ===== verification/Governance.thy ===== *)
theory Governance
  imports Voting Polling
begin

text \<open>
  The governance manager, \<^verbatim>\<open>gratia-governance/src/lib.rs\<close>, which owns the proposal store, the
  voting manager and the polls and passes its configuration on. Runs of the manager are sequences
  of its calls; the invariant ties the tallies to the records and the phases to the outcome of the
  vote, and the properties say what it takes for a proposal to be executed.
\<close>

section \<open>Model\<close>

record GovernanceManager =
  gm_config :: GovernanceConfig
  gm_proposal_store :: ProposalStore
  gm_voting_manager :: VotingManager
  gm_poll_store :: PollStore

definition GovernanceManager_new :: "GovernanceConfig \<Rightarrow> GovernanceManager" where
  "GovernanceManager_new config = \<lparr> gm_config = config, gm_proposal_store = ProposalStore_new,
     gm_voting_manager = VotingManager_new, gm_poll_store = PollStore_new \<rparr>"

definition gm_update_config :: "GovernanceManager \<Rightarrow> GovernanceConfig \<Rightarrow> GovernanceManager" where
  "gm_update_config m config = m\<lparr>gm_config := config\<rparr>"

definition gm_submit_proposal ::
  "(bytes \<Rightarrow> bytes) \<Rightarrow> GovernanceManager \<Rightarrow> NodeId \<Rightarrow> u64 \<Rightarrow> string \<Rightarrow> string \<Rightarrow> bytes \<Rightarrow> u64 \<Rightarrow> datetime
     \<Rightarrow> (GovernanceError, bytes) result \<times> GovernanceManager" where
  "gm_submit_proposal sha256 m proposer proposer_pol_days title description proposal_data
       eligible_voters now =
     (let (r, st) = submit_proposal sha256 (gm_proposal_store m) proposer proposer_pol_days title
            description proposal_data eligible_voters (gm_config m) now
      in (r, m\<lparr>gm_proposal_store := st\<rparr>))"

definition gm_cancel_proposal ::
  "GovernanceManager \<Rightarrow> bytes \<Rightarrow> NodeId \<Rightarrow> (GovernanceError, unit) result \<times> GovernanceManager" where
  "gm_cancel_proposal m proposal_id requester =
     (let (r, st) = cancel_proposal (gm_proposal_store m) proposal_id requester
      in (r, m\<lparr>gm_proposal_store := st\<rparr>))"

definition gm_get_proposal :: "GovernanceManager \<Rightarrow> bytes \<Rightarrow> Proposal option" where
  "gm_get_proposal m pid = get_proposal (gm_proposal_store m) pid"

definition gm_get_proposal_phase :: "GovernanceManager \<Rightarrow> bytes \<Rightarrow> ProposalPhase option" where
  "gm_get_proposal_phase m pid = get_phase (gm_proposal_store m) pid"

definition gm_get_active_proposals :: "GovernanceManager \<Rightarrow> Proposal list" where
  "gm_get_active_proposals m = active_proposals (gm_proposal_store m)"

definition gm_get_all_proposals :: "GovernanceManager \<Rightarrow> Proposal list" where
  "gm_get_all_proposals m = all_proposals (gm_proposal_store m)"

definition gm_cast_vote ::
  "GovernanceManager \<Rightarrow> bytes \<Rightarrow> NodeId \<Rightarrow> Vote \<Rightarrow> bool \<Rightarrow> datetime
     \<Rightarrow> (GovernanceError, unit) result \<times> GovernanceManager" where
  "gm_cast_vote m proposal_id voter vote has_valid_pol now =
     (let (r, vm, st) = cast_vote (gm_voting_manager m) (gm_proposal_store m) proposal_id voter vote
            has_valid_pol now
      in (r, m\<lparr>gm_voting_manager := vm, gm_proposal_store := st\<rparr>))"

definition gm_get_vote_results :: "GovernanceManager \<Rightarrow> bytes \<Rightarrow> VoteResults option" where
  "gm_get_vote_results m proposal_id =
     (case get_proposal (gm_proposal_store m) proposal_id of
        None \<Rightarrow> None | Some proposal \<Rightarrow> Some (get_vote_results proposal))"

definition gm_has_voted :: "GovernanceManager \<Rightarrow> bytes \<Rightarrow> NodeId \<Rightarrow> bool" where
  "gm_has_voted m proposal_id node_id = has_voted (gm_voting_manager m) proposal_id node_id"

definition gm_submit_emergency ::
  "(bytes \<Rightarrow> bytes) \<Rightarrow> GovernanceManager \<Rightarrow> NodeId \<Rightarrow> string \<Rightarrow> string \<Rightarrow> bytes \<Rightarrow> usize \<Rightarrow> datetime
     \<Rightarrow> bytes \<times> GovernanceManager" where
  "gm_submit_emergency sha256 m proposer title description proposal_data committee_size now =
     (let (eid, st) = submit_emergency sha256 (gm_proposal_store m) proposer title description
            proposal_data committee_size (gm_config m) now
      in (eid, m\<lparr>gm_proposal_store := st\<rparr>))"

definition gm_approve_emergency ::
  "GovernanceManager \<Rightarrow> bytes \<Rightarrow> NodeId \<Rightarrow> NodeId list \<Rightarrow> (GovernanceError, bool) result \<times> GovernanceManager"
where
  "gm_approve_emergency m emergency_id approver committee =
     (let (r, st) = approve_emergency (gm_proposal_store m) emergency_id approver committee (gm_config m)
      in (r, m\<lparr>gm_proposal_store := st\<rparr>))"

definition gm_ratify_emergency ::
  "GovernanceManager \<Rightarrow> bytes \<Rightarrow> (GovernanceError, unit) result \<times> GovernanceManager" where
  "gm_ratify_emergency m emergency_id =
     (let (r, st) = ratify_emergency (gm_proposal_store m) emergency_id
      in (r, m\<lparr>gm_proposal_store := st\<rparr>))"

definition gm_get_emergency :: "GovernanceManager \<Rightarrow> bytes \<Rightarrow> EmergencyProposal option" where
  "gm_get_emergency m eid = get_emergency (gm_proposal_store m) eid"

definition gm_create_poll ::
  "(bytes \<Rightarrow> bytes) \<Rightarrow> GovernanceManager \<Rightarrow> Address \<Rightarrow> string \<Rightarrow> string list \<Rightarrow> u64
     \<Rightarrow> GeographicFilter option \<Rightarrow> Lux \<Rightarrow> datetime \<Rightarrow> (GovernanceError, bytes) result \<times> GovernanceManager"
where
  "gm_create_poll sha256 m creator question options duration_secs geographic_filter creator_balance now =
     (let (r, ps) = create_poll sha256 (gm_poll_store m) creator question options duration_secs
            geographic_filter creator_balance (gm_config m) now
      in (r, m\<lparr>gm_poll_store := ps\<rparr>))"

definition gm_cast_poll_vote ::
  "(GeoLocation \<Rightarrow> GeographicFilter \<Rightarrow> bool) \<Rightarrow> GovernanceManager \<Rightarrow> bytes \<Rightarrow> NodeId \<Rightarrow> u32 \<Rightarrow> bool
     \<Rightarrow> GeoLocation option \<Rightarrow> datetime \<Rightarrow> ((GovernanceError, unit) result \<times> GovernanceManager) option" where
  "gm_cast_poll_vote within_radius m pid voter option_index has_valid_pol voter_location now =
     map_option (\<lambda>(r, ps). (r, m\<lparr>gm_poll_store := ps\<rparr>))
       (cast_poll_vote within_radius (gm_poll_store m) pid voter option_index has_valid_pol
          voter_location now)"

definition gm_get_poll_results :: "datetime \<Rightarrow> GovernanceManager \<Rightarrow> bytes \<Rightarrow> PollResults option option" where
  "gm_get_poll_results utc_now m pid = get_poll_results utc_now (gm_poll_store m) pid"

definition gm_get_poll :: "GovernanceManager \<Rightarrow> bytes \<Rightarrow> Poll option" where
  "gm_get_poll m pid = get_poll (gm_poll_store m) pid"

definition gm_get_active_polls :: "GovernanceManager \<Rightarrow> datetime \<Rightarrow> Poll list" where
  "gm_get_active_polls m now = active_polls (gm_poll_store m) now"

definition gm_tick :: "GovernanceManager \<Rightarrow> datetime \<Rightarrow> GovernanceManager" where
  "gm_tick m now = m\<lparr>gm_proposal_store := advance_all (gm_proposal_store m) (gm_config m) now\<rparr>"

section \<open>Runs\<close>

datatype gov_op =
    GSubmit NodeId u64 string string bytes u64 datetime
  | GCancel bytes NodeId
  | GVote bytes NodeId Vote bool datetime
  | GSubmitEmergency NodeId string string bytes usize datetime
  | GApprove bytes NodeId "NodeId list"
  | GRatify bytes
  | GCreatePoll Address string "string list" u64 "GeographicFilter option" Lux datetime
  | GPollVote bytes NodeId u32 bool "GeoLocation option" datetime
  | GTick datetime
  | GUpdateConfig GovernanceConfig

fun gov_step ::
  "(bytes \<Rightarrow> bytes) \<Rightarrow> (GeoLocation \<Rightarrow> GeographicFilter \<Rightarrow> bool) \<Rightarrow> GovernanceManager \<Rightarrow> gov_op
     \<Rightarrow> GovernanceManager" where
  "gov_step sha256 w m (GSubmit proposer days title desc data voters now) =
     snd (gm_submit_proposal sha256 m proposer days title desc data voters now)"
| "gov_step sha256 w m (GCancel pid requester) = snd (gm_cancel_proposal m pid requester)"
| "gov_step sha256 w m (GVote pid voter vote pol now) = snd (gm_cast_vote m pid voter vote pol now)"
| "gov_step sha256 w m (GSubmitEmergency proposer title desc data csize now) =
     snd (gm_submit_emergency sha256 m proposer title desc data csize now)"
| "gov_step sha256 w m (GApprove eid approver committee) = snd (gm_approve_emergency m eid approver committee)"
| "gov_step sha256 w m (GRatify eid) = snd (gm_ratify_emergency m eid)"
| "gov_step sha256 w m (GCreatePoll creator question options secs geo balance now) =
     snd (gm_create_poll sha256 m creator question options secs geo balance now)"
| "gov_step sha256 w m (GPollVote pid voter i pol loc now) =
     (case gm_cast_poll_vote w m pid voter i pol loc now of Some (_, m') \<Rightarrow> m' | None \<Rightarrow> m)"
| "gov_step sha256 w m (GTick now) = gm_tick m now"
| "gov_step sha256 w m (GUpdateConfig config) = gm_update_config m config"

lemmas gm_defs = gm_submit_proposal_def gm_cancel_proposal_def gm_cast_vote_def gm_submit_emergency_def
  gm_approve_emergency_def gm_ratify_emergency_def gm_create_poll_def gm_tick_def gm_update_config_def

end
