(* ===== verification/Governance_Runs.thy ===== *)
theory Governance_Runs
  imports Governance
begin

text \<open>
  Runs of the governance manager. The only assumption about SHA-256 is that the inputs hashed in
  the run do not collide; from it the identifiers of proposals and polls are fresh, so a proposal
  is never overwritten and its tally is always that of the recorded votes.
\<close>

section \<open>Fresh identifiers\<close>

fun stamps :: "gov_op \<Rightarrow> (string \<times> bytes \<times> datetime) set" where
  "stamps (GSubmit proposer days title desc data voters now) =
     {(''gratia-proposal-v1:'', node_id_bytes proposer, now)}"
| "stamps (GSubmitEmergency proposer title desc data csize now) =
     {(''gratia-proposal-v1:'', node_id_bytes proposer, now)}"
| "stamps (GCreatePoll creator question options secs geo balance now) =
     {(''gratia-poll-v1:'', address_bytes creator, now)}"
| "stamps _ = {}"

text \<open>What the calls of a set hash, with the first counter values.\<close>
definition hashed :: "gov_op set \<Rightarrow> nat \<Rightarrow> bytes set" where
  "hashed ops n = (\<lambda>((tag, author, now), j). id_preimage tag author now j)
     ` ((\<Union>op \<in> ops. stamps op) \<times> {..<n})"

definition collision_free :: "(bytes \<Rightarrow> bytes) \<Rightarrow> gov_op list \<Rightarrow> bool" where
  "collision_free sha256 ops = inj_on sha256 (hashed (set ops) (length ops))"

lemma id_preimage_nonce:
  assumes "id_preimage tag a t i = id_preimage tag' a' t' j" "i \<le> U64_MAX" "j \<le> U64_MAX"
  shows "i = j"
proof -
  have "(byte_string tag @ a @ i64_le_bytes (timestamp t)) @ le_bytes 8 i
      = (byte_string tag' @ a' @ i64_le_bytes (timestamp t')) @ le_bytes 8 j"
    using assms(1) by (simp add: id_preimage_def)
  then have "le_bytes 8 i = le_bytes 8 j"
    by (subst (asm) append_eq_append_conv) simp_all
  then show ?thesis using assms(2,3) by (simp add: le_bytes_inj U64_MAX_def)
qed

definition issued :: "(bytes \<Rightarrow> bytes) \<Rightarrow> gov_op set \<Rightarrow> string \<Rightarrow> nat \<Rightarrow> bytes set" where
  "issued sha256 ops tag n = {sha256 (id_preimage tag a t j) |a t j. (tag, a, t) \<in> (\<Union>op \<in> ops. stamps op) \<and> j < n}"

lemma issued_mono: "n \<le> n' \<Longrightarrow> issued sha256 ops tag n \<subseteq> issued sha256 ops tag n'"
  unfolding issued_def using order_less_le_trans by blast

lemma issued_next: "(tag, a, t) \<in> (\<Union>op \<in> ops. stamps op) \<Longrightarrow>
    sha256 (id_preimage tag a t n) \<in> issued sha256 ops tag (Suc n)"
  by (auto simp: issued_def)

lemma hashed_memI: "(tag, a, t) \<in> (\<Union>op \<in> ops. stamps op) \<Longrightarrow> j < n \<Longrightarrow> id_preimage tag a t j \<in> hashed ops n"
  unfolding hashed_def by (rule image_eqI [of _ _ "((tag, a, t), j)"]) auto

lemma issued_fresh:
  assumes "inj_on sha256 (hashed ops N)" "n < N" "N \<le> U64_MAX" "(tag, a, t) \<in> (\<Union>op \<in> ops. stamps op)"
  shows "sha256 (id_preimage tag a t n) \<notin> issued sha256 ops tag n"
proof
  assume "sha256 (id_preimage tag a t n) \<in> issued sha256 ops tag n"
  then obtain a' t' j where j: "sha256 (id_preimage tag a t n) = sha256 (id_preimage tag a' t' j)"
    "(tag, a', t') \<in> (\<Union>op \<in> ops. stamps op)" "j < n" by (auto simp: issued_def)
  have "id_preimage tag a t n \<in> hashed ops N" "id_preimage tag a' t' j \<in> hashed ops N"
    using assms(2,4) j(2,3) by (auto intro!: hashed_memI)
  then have "id_preimage tag a t n = id_preimage tag a' t' j"
    using assms(1) j(1) by (simp add: inj_on_eq_iff)
  then have "n = j" by (rule id_preimage_nonce) (use assms(2,3) j(3) in auto)
  with j(3) show False by simp
qed

section \<open>Invariant\<close>

definition books_ok :: "gov_op set \<Rightarrow> nat \<Rightarrow> VotingManager \<Rightarrow> ProposalStore \<Rightarrow> bool" where
  "books_ok ops k vm st \<longleftrightarrow> voters_recorded vm
     \<and> (\<forall>pid. length (get_records vm pid) \<le> k \<and> distinct (map vr_voter (get_records vm pid))
          \<and> (\<forall>r \<in> set (get_records vm pid).
               GVote pid (vr_voter r) (vr_vote r) True (vr_timestamp r) \<in> ops)
          \<and> (case get_proposal st pid of None \<Rightarrow> get_records vm pid = []
             | Some p \<Rightarrow> tally_ok (get_records vm pid) p))"

definition gov_inv ::
  "(bytes \<Rightarrow> bytes) \<Rightarrow> gov_op set \<Rightarrow> nat \<Rightarrow> nat \<times> GovernanceManager \<Rightarrow> bool" where
  "gov_inv sha256 ops N s \<longleftrightarrow> (case s of (k, m) \<Rightarrow>
     inj_on sha256 (hashed ops N) \<and> k \<le> N \<and> N \<le> U64_MAX
     \<and> store_inv (gm_proposal_store m) \<and> polls_inv (gm_poll_store m)
     \<and> pst_next_proposal_nonce (gm_proposal_store m) \<le> k \<and> next_poll_nonce (gm_poll_store m) \<le> k
     \<and> dom (map_of (pst_proposals (gm_proposal_store m)))
         \<subseteq> issued sha256 ops ''gratia-proposal-v1:'' (pst_next_proposal_nonce (gm_proposal_store m))
     \<and> dom (map_of (polls_map (gm_poll_store m)))
         \<subseteq> issued sha256 ops ''gratia-poll-v1:'' (next_poll_nonce (gm_poll_store m))
     \<and> (\<forall>pid. length (get_poll_records (gm_poll_store m) pid) \<le> k)
     \<and> books_ok ops k (gm_voting_manager m) (gm_proposal_store m))"

text \<open>A call of the run, before the run's length is used up.\<close>
definition gov_guard :: "gov_op set \<Rightarrow> nat \<Rightarrow> nat \<times> GovernanceManager \<Rightarrow> gov_op \<Rightarrow> bool" where
  "gov_guard ops N s op \<longleftrightarrow> op \<in> ops \<and> fst s < N"

definition counted_step ::
  "(bytes \<Rightarrow> bytes) \<Rightarrow> (GeoLocation \<Rightarrow> GeographicFilter \<Rightarrow> bool) \<Rightarrow> nat \<times> GovernanceManager \<Rightarrow> gov_op
     \<Rightarrow> nat \<times> GovernanceManager" where
  "counted_step sha256 w s op = (Suc (fst s), gov_step sha256 w (snd s) op)"

lemma proposal_of_entry: "store_inv st \<Longrightarrow> get_proposal st pid = map_option snd (entry_of st pid)"
proof (cases "map_of (pst_proposals st) pid")
  case (Some p)
  assume "store_inv st"
  then obtain ph where "entry_of st pid = Some (ph, p)" using Some by (rule get_proposal_entry)
  then show ?thesis by (simp add: get_proposal_def Some)
qed (simp add: get_proposal_def entry_of_def split: option.splits)

definition same_tally :: "Proposal \<Rightarrow> Proposal \<Rightarrow> bool" where
  "same_tally p q \<longleftrightarrow> pr_votes_yes p = pr_votes_yes q \<and> pr_votes_no p = pr_votes_no q
     \<and> pr_votes_abstain p = pr_votes_abstain q"

lemma same_tally_ok: "same_tally p q \<Longrightarrow> tally_ok rs p = tally_ok rs q"
  by (simp add: same_tally_def tally_ok_def)

text \<open>Changing the store keeps the books when no counter moves: every proposal is still there with
  its counters, and a new one starts from zero.\<close>
lemma books_ok_store:
  assumes "books_ok ops k vm st" "k \<le> k'"
    and "\<And>pid. case get_proposal st' pid of
        None \<Rightarrow> get_proposal st pid = None
      | Some q \<Rightarrow> (case get_proposal st pid of None \<Rightarrow> tally_ok [] q | Some p \<Rightarrow> same_tally p q)"
  shows "books_ok ops k' vm st'"
  unfolding books_ok_def
proof (intro conjI allI)
  show "voters_recorded vm" using assms(1) by (simp add: books_ok_def)
  fix pid
  have old: "length (get_records vm pid) \<le> k" "distinct (map vr_voter (get_records vm pid))"
    "\<forall>r \<in> set (get_records vm pid). GVote pid (vr_voter r) (vr_vote r) True (vr_timestamp r) \<in> ops"
    "case get_proposal st pid of None \<Rightarrow> get_records vm pid = []
       | Some p \<Rightarrow> tally_ok (get_records vm pid) p"
    using assms(1) by (simp_all add: books_ok_def)
  show "length (get_records vm pid) \<le> k'" using old(1) assms(2) by simp
  show "distinct (map vr_voter (get_records vm pid))" by (rule old(2))
  show "\<forall>r \<in> set (get_records vm pid). GVote pid (vr_voter r) (vr_vote r) True (vr_timestamp r) \<in> ops"
    by (rule old(3))
  show "case get_proposal st' pid of None \<Rightarrow> get_records vm pid = []
       | Some p \<Rightarrow> tally_ok (get_records vm pid) p"
    using assms(3) [of pid] old(4) by (auto split: option.splits simp: same_tally_ok)
qed

lemma books_ok_mono: "books_ok ops k vm st \<Longrightarrow> k \<le> k' \<Longrightarrow> books_ok ops k' vm st"
  by (erule books_ok_store) (auto simp: same_tally_def split: option.splits)

lemma gov_inv_storeI:
  assumes "gov_inv sha256 ops N (k, m)" "k < N" "store_inv st'"
    and "pst_next_proposal_nonce st' \<le> Suc k"
    and "dom (map_of (pst_proposals st'))
           \<subseteq> issued sha256 ops ''gratia-proposal-v1:'' (pst_next_proposal_nonce st')"
    and "books_ok ops (Suc k) vm' st'"
  shows "gov_inv sha256 ops N (Suc k, m\<lparr>gm_voting_manager := vm', gm_proposal_store := st'\<rparr>)"
  using assms by (auto simp: gov_inv_def intro: le_SucI)

lemma gov_inv_pollI:
  assumes "gov_inv sha256 ops N (k, m)" "k < N" "polls_inv ps'" "next_poll_nonce ps' \<le> Suc k"
    and "dom (map_of (polls_map ps')) \<subseteq> issued sha256 ops ''gratia-poll-v1:'' (next_poll_nonce ps')"
    and "\<And>pid. length (get_poll_records ps' pid) \<le> Suc k"
  shows "gov_inv sha256 ops N (Suc k, m\<lparr>gm_poll_store := ps'\<rparr>)"
  using assms books_ok_mono [of ops k "gm_voting_manager m" "gm_proposal_store m" "Suc k"]
  by (auto simp: gov_inv_def intro: le_SucI)

lemma inc_nonce: "n \<le> k \<Longrightarrow> k < N \<Longrightarrow> N \<le> U64_MAX \<Longrightarrow> add_u64 n (Suc 0) = Suc n"
  by (simp add: inc_u64)

lemma moved_same_tally: "same_tally (snd e) (snd (moved now e))"
  by (simp add: moved_def same_tally_def Let_def)

lemma same_tally_refl [simp]: "same_tally p p" "same_tally p (p\<lparr>pr_status := x\<rparr>)"
  by (simp_all add: same_tally_def)

lemma books_ok_entries:
  assumes "books_ok ops k vm st" "store_inv st" "store_inv st'"
    and "\<And>pid. case entry_of st' pid of
        None \<Rightarrow> entry_of st pid = None
      | Some (_, q) \<Rightarrow> (case entry_of st pid of None \<Rightarrow> tally_ok [] q | Some (_, p) \<Rightarrow> same_tally p q)"
  shows "books_ok ops (Suc k) vm st'"
proof (rule books_ok_store [OF assms(1)])
  fix pid
  show "case get_proposal st' pid of None \<Rightarrow> get_proposal st pid = None
      | Some q \<Rightarrow> (case get_proposal st pid of None \<Rightarrow> tally_ok [] q | Some p \<Rightarrow> same_tally p q)"
    using assms(4) [of pid] by (auto simp: proposal_of_entry assms(2,3) split: option.splits prod.splits)
qed simp

lemma dom_of_entries: "store_inv st \<Longrightarrow> dom (map_of (pst_proposals st)) = dom (entry_of st)"
  using proposal_of_entry [of st] by (auto simp: dom_def get_proposal_def)

lemma fresh_submission:
  assumes "gov_inv sha256 ops N (k, m)" "k < N"
    and "(''gratia-proposal-v1:'', node_id_bytes proposer, now) \<in> (\<Union>op \<in> ops. stamps op)"
  shows "entry_of (gm_proposal_store m) (fst (generate_id sha256 (gm_proposal_store m) proposer now)) = None"
proof -
  let ?st = "gm_proposal_store m"
  have "pst_next_proposal_nonce ?st < N" "N \<le> U64_MAX" "inj_on sha256 (hashed ops N)" "store_inv ?st"
    "dom (map_of (pst_proposals ?st)) \<subseteq> issued sha256 ops ''gratia-proposal-v1:'' (pst_next_proposal_nonce ?st)"
    using assms(1,2) by (auto simp: gov_inv_def)
  then have "fst (generate_id sha256 ?st proposer now) \<notin> dom (map_of (pst_proposals ?st))"
    using issued_fresh [OF _ _ _ assms(3)] by (auto simp: generate_id_def)
  then show ?thesis using \<open>store_inv ?st\<close> by (auto simp: dom_of_entries)
qed

lemma gov_submit_inv:
  assumes inv: "gov_inv sha256 ops N (k, m)" and k: "k < N"
    and st: "(''gratia-proposal-v1:'', node_id_bytes proposer, now) \<in> (\<Union>op \<in> ops. stamps op)"
  shows "gov_inv sha256 ops N (Suc k, m\<lparr>gm_proposal_store :=
    snd (submit_proposal sha256 (gm_proposal_store m) proposer days title desc data voters config now)\<rparr>)"
proof -
  let ?st = "gm_proposal_store m" and ?vm = "gm_voting_manager m"
  let ?st' = "snd (submit_proposal sha256 ?st proposer days title desc data voters config now)"
  have si: "store_inv ?st" and n: "pst_next_proposal_nonce ?st \<le> k" and N: "N \<le> U64_MAX"
    and books: "books_ok ops k ?vm ?st"
    and d: "dom (map_of (pst_proposals ?st)) \<subseteq> issued sha256 ops ''gratia-proposal-v1:'' (pst_next_proposal_nonce ?st)"
    using inv by (simp_all add: gov_inv_def)
  have si': "store_inv ?st'" using si by (rule inv_intro)
  note fresh = fresh_submission [OF inv k st]
  have inc: "add_u64 (pst_next_proposal_nonce ?st) (Suc 0) = Suc (pst_next_proposal_nonce ?st)"
    using n k N by (rule inc_nonce)
  have "books_ok ops (Suc k) ?vm ?st'"
    using books si si'
  proof (rule books_ok_entries)
    fix pid
    show "case entry_of ?st' pid of None \<Rightarrow> entry_of ?st pid = None
      | Some (_, q) \<Rightarrow> (case entry_of ?st pid of None \<Rightarrow> tally_ok [] q | Some (_, p) \<Rightarrow> same_tally p q)"
      using fresh by (auto simp: submit_proposal_shape Let_def generate_id_store tally_ok_def
          votes_for_def split: option.splits)
  qed
  moreover have "dom (entry_of ?st') \<subseteq> issued sha256 ops ''gratia-proposal-v1:'' (pst_next_proposal_nonce ?st')"
    using d issued_mono [of "pst_next_proposal_nonce ?st" "Suc (pst_next_proposal_nonce ?st)" sha256 ops]
      issued_next [OF st, of sha256 "pst_next_proposal_nonce ?st"]
    by (auto simp: dom_of_entries si submit_proposal_shape Let_def generate_id_def inc)
  moreover have "pst_next_proposal_nonce ?st' \<le> Suc k"
    using n by (auto simp: submit_proposal_shape Let_def generate_id_def inc)
  ultimately show ?thesis
    using gov_inv_storeI [OF inv k si', of ?vm] by (simp add: dom_of_entries si')
qed

lemma gov_store_inv:
  assumes inv: "gov_inv sha256 ops N (k, m)" and k: "k < N" and si': "store_inv st'"
    and n: "pst_next_proposal_nonce st' \<le> Suc k"
      "pst_next_proposal_nonce (gm_proposal_store m) \<le> pst_next_proposal_nonce st'"
    and same: "\<And>pid. case entry_of st' pid of
        None \<Rightarrow> entry_of (gm_proposal_store m) pid = None
      | Some (_, q) \<Rightarrow> (case entry_of (gm_proposal_store m) pid of
          None \<Rightarrow> False | Some (_, p) \<Rightarrow> same_tally p q)"
  shows "gov_inv sha256 ops N (Suc k, m\<lparr>gm_proposal_store := st'\<rparr>)"
proof -
  let ?st = "gm_proposal_store m" and ?vm = "gm_voting_manager m"
  have si: "store_inv ?st" and books: "books_ok ops k ?vm ?st"
    and d: "dom (map_of (pst_proposals ?st)) \<subseteq> issued sha256 ops ''gratia-proposal-v1:'' (pst_next_proposal_nonce ?st)"
    using inv by (simp_all add: gov_inv_def)
  have "books_ok ops (Suc k) ?vm st'"
    using books si si'
  proof (rule books_ok_entries)
    fix pid
    show "case entry_of st' pid of None \<Rightarrow> entry_of ?st pid = None
      | Some (_, q) \<Rightarrow> (case entry_of ?st pid of None \<Rightarrow> tally_ok [] q | Some (_, p) \<Rightarrow> same_tally p q)"
      using same [of pid] by (auto split: option.splits prod.splits)
  qed
  moreover have "dom (entry_of st') \<subseteq> dom (entry_of ?st)"
    using same by (fastforce split: option.splits)
  then have "dom (map_of (pst_proposals st')) \<subseteq> issued sha256 ops ''gratia-proposal-v1:'' (pst_next_proposal_nonce st')"
    using d issued_mono [OF n(2), of sha256 ops] by (auto simp: dom_of_entries si si')
  ultimately show ?thesis
    using gov_inv_storeI [OF inv k si' n(1), of ?vm] by simp
qed

lemma gov_vote_inv:
  assumes inv: "gov_inv sha256 ops N (k, m)" and k: "k < N" and op: "GVote pid voter vote pol now \<in> ops"
  shows "gov_inv sha256 ops N (Suc k, snd (gm_cast_vote m pid voter vote pol now))"
proof (cases "ballot_accepted (gm_proposal_store m) (gm_voting_manager m) pid voter pol")
  let ?st = "gm_proposal_store m" and ?vm = "gm_voting_manager m"
  have si: "store_inv ?st" and books: "books_ok ops k ?vm ?st" and N: "N \<le> U64_MAX"
    and n: "pst_next_proposal_nonce ?st \<le> k"
    and d: "dom (map_of (pst_proposals ?st)) \<subseteq> issued sha256 ops ''gratia-proposal-v1:'' (pst_next_proposal_nonce ?st)"
    using inv by (simp_all add: gov_inv_def)
  {
    case True
    then obtain p where p: "get_proposal ?st pid = Some p" "pr_status p = PS_Voting" "pol"
      "\<not> has_voted ?vm pid voter" by (auto simp: ballot_accepted_def)
    let ?r = "\<lparr> vr_voter = voter, vr_vote = vote, vr_timestamp = now \<rparr>"
    let ?st' = "?st\<lparr>pst_proposals := AList.update pid (count_vote vote p) (pst_proposals ?st)\<rparr>"
    have e: "entry_of ?st pid = Some (Ph_Voting, p)" using si p(1,2) by (rule voting_entry)
    have si': "store_inv ?st'" using si e by (rule update_proposal_inv) (simp add: p(2))
    have old: "tally_ok (get_records ?vm pid) p" "length (get_records ?vm pid) \<le> k"
      using books p(1) by (auto simp: books_ok_def split: option.splits dest: spec [of _ pid])
    then have "tally_ok (get_records ?vm pid @ [?r]) (count_vote vote p)"
      using count_vote_tally [of _ p ?r] k N by simp
    moreover have "voter \<notin> vr_voter ` set (get_records ?vm pid)"
      using p(4) books by (simp add: books_ok_def voters_recorded_def has_voted_iff)
    ultimately have "books_ok ops (Suc k) (recorded ?vm pid ?r) ?st'"
      using books op p(3) recorded_ok [of ?vm pid ?r]
      by (auto simp: books_ok_def get_proposal_def le_SucI cong: option.case_cong)
    then show ?thesis
      using gov_inv_storeI [OF inv k si', of "recorded ?vm pid ?r"] n d p(1) True
      by (auto simp: gm_cast_vote_def cast_vote_accepted get_proposal_def)
  next
    case False
    then obtain e where e: "cast_vote ?vm ?st pid voter vote pol now = (Err e, ?vm, ?st)"
      using cast_vote_refused by blast
    show ?thesis
      using gov_inv_storeI [OF inv k si, of ?vm] n d books_ok_mono [OF books, of "Suc k"]
      by (simp add: gm_cast_vote_def e)
  }
qed

lemma gov_poll_vote_inv:
  assumes inv: "gov_inv sha256 ops N (k, m)" and k: "k < N"
  shows "gov_inv sha256 ops N (Suc k, gov_step sha256 w m (GPollVote pid voter i pol loc now))"
proof -
  let ?ps = "gm_poll_store m"
  let ?b = "\<lparr> pb_poll = pid, pb_voter = voter, pb_option = i, pb_pol = pol, pb_location = loc, pb_time = now \<rparr>"
  have pi: "polls_inv ?ps" and N: "N \<le> U64_MAX" and len: "length (get_poll_records ?ps q) \<le> k"
    and n: "next_poll_nonce ?ps \<le> k"
    and d: "dom (map_of (polls_map ?ps)) \<subseteq> issued sha256 ops ''gratia-poll-v1:'' (next_poll_nonce ?ps)" for q
    using inv by (simp_all add: gov_inv_def)
  have step: "gov_step sha256 w m (GPollVote pid voter i pol loc now) = m\<lparr>gm_poll_store := poll_step w ?ps ?b\<rparr>"
    by (auto simp: gm_cast_poll_vote_def poll_step_def cast_poll_def split: option.splits)
  have pi': "polls_inv (poll_step w ?ps ?b)"
    using pi by (rule poll_step_inv) (use len [of pid] k N in simp)
  show ?thesis unfolding step
  proof (cases "accepts_poll w ?ps ?b")
    case True
    from True obtain poll where a: "admissible w ?ps ?b poll"
      and s: "next_poll_nonce (poll_step w ?ps ?b) = next_poll_nonce ?ps"
      "polls_map (poll_step w ?ps ?b) = AList.update pid (counted_poll poll i) (polls_map ?ps)"
      by (rule poll_step_accepted) simp
    have "map_of (polls_map ?ps) pid = Some poll" using a by (simp add: admissible_def)
    then have dom: "dom (map_of (polls_map (poll_step w ?ps ?b)))
        \<subseteq> issued sha256 ops ''gratia-poll-v1:'' (next_poll_nonce (poll_step w ?ps ?b))"
      using d by (auto simp: s)
    have "length (get_poll_records (poll_step w ?ps ?b) q) \<le> Suc k" for q
      using len [of q] len [of pid] by (simp add: poll_step_records [OF True])
    with gov_inv_pollI [OF inv k pi' _ dom] n show
      "gov_inv sha256 ops N (Suc k, m\<lparr>gm_poll_store := poll_step w ?ps ?b\<rparr>)" by (simp add: s)
  next
    case False
    then show "gov_inv sha256 ops N (Suc k, m\<lparr>gm_poll_store := poll_step w ?ps ?b\<rparr>)"
      using gov_inv_pollI [OF inv k pi _ d] n len by (simp add: poll_step_refused le_SucI)
  qed
qed

lemma gov_create_poll_inv:
  assumes inv: "gov_inv sha256 ops N (k, m)" and k: "k < N"
    and st: "(''gratia-poll-v1:'', address_bytes creator, now) \<in> (\<Union>op \<in> ops. stamps op)"
  shows "gov_inv sha256 ops N (Suc k, snd (gm_create_poll sha256 m creator question options secs geo balance now))"
proof -
  let ?ps = "gm_poll_store m"
  let ?ps' = "snd (create_poll sha256 ?ps creator question options secs geo balance (gm_config m) now)"
  have pi: "polls_inv ?ps" and N: "N \<le> U64_MAX" and len: "length (get_poll_records ?ps q) \<le> k"
    and n: "next_poll_nonce ?ps \<le> k" and inj: "inj_on sha256 (hashed ops N)"
    and d: "dom (map_of (polls_map ?ps)) \<subseteq> issued sha256 ops ''gratia-poll-v1:'' (next_poll_nonce ?ps)" for q
    using inv by (simp_all add: gov_inv_def)
  have "fresh_poll_id sha256 ?ps creator now"
    using issued_fresh [OF inj _ N st, of "next_poll_nonce ?ps"] n k d
    by (auto simp: fresh_poll_id_def generate_poll_id_def)
  with pi have pi': "polls_inv ?ps'" by (rule create_poll_inv)
  have inc: "add_u64 (next_poll_nonce ?ps) (Suc 0) = Suc (next_poll_nonce ?ps)"
    using n k N by (rule inc_nonce)
  have "dom (map_of (polls_map ?ps')) \<subseteq> issued sha256 ops ''gratia-poll-v1:'' (next_poll_nonce ?ps')"
    using d issued_mono [of "next_poll_nonce ?ps" "Suc (next_poll_nonce ?ps)" sha256 ops]
      issued_next [OF st, of sha256 "next_poll_nonce ?ps"]
    by (auto simp: create_poll_def generate_poll_id_def Let_def inc)
  moreover have "length (get_poll_records ?ps' q) \<le> Suc k" for q
    using len [of q] by (simp add: create_poll_def generate_poll_id_def Let_def)
  moreover have "next_poll_nonce ?ps' \<le> Suc k"
    using n by (simp add: create_poll_def generate_poll_id_def Let_def inc)
  ultimately show ?thesis
    using gov_inv_pollI [OF inv k pi'] by (simp add: gm_create_poll_def split_beta)
qed

lemma cancel_proposal_nonce [simp]:
  "pst_next_proposal_nonce (snd (cancel_proposal st pid requester)) = pst_next_proposal_nonce st"
  by (auto simp: cancel_proposal_def Let_def split: option.splits)

lemma advance_all_nonce [simp]:
  "pst_next_proposal_nonce (advance_all st config now) = pst_next_proposal_nonce st"
  by (simp add: advance_all_def Let_def)

lemma emergency_nonce [simp]:
  "pst_next_proposal_nonce (snd (approve_emergency st eid approver committee config)) = pst_next_proposal_nonce st"
  "pst_next_proposal_nonce (snd (ratify_emergency st eid)) = pst_next_proposal_nonce st"
  "pst_next_proposal_nonce (snd (submit_emergency sha256 st proposer title desc data csize config now))
     = add_u64 (pst_next_proposal_nonce st) 1"
  by (auto simp: approve_emergency_def ratify_emergency_def submit_emergency_def generate_id_def Let_def
      split: option.splits)

lemma cancel_entries:
  assumes "store_inv st"
  shows "case entry_of (snd (cancel_proposal st pid requester)) k of
      None \<Rightarrow> entry_of st k = None
    | Some (_, q) \<Rightarrow> (case entry_of st k of None \<Rightarrow> False | Some (_, p) \<Rightarrow> same_tally p q)"
  using cancel_proposal_shape [OF assms, of pid requester]
  by (cases "cancel_proposal st pid requester") (auto split: option.splits if_splits)

lemma tick_entries:
  assumes "store_inv st"
  shows "case entry_of (advance_all st config now) k of
      None \<Rightarrow> entry_of st k = None
    | Some (_, q) \<Rightarrow> (case entry_of st k of None \<Rightarrow> False | Some (_, p) \<Rightarrow> same_tally p q)"
proof -
  have "hm_ok (pst_proposals st)" using assms by (simp add: store_inv_def)
  then show ?thesis using moved_same_tally [of "the (entry_of st k)" now]
    by (auto simp: advance_all_entry split: option.splits)
qed

lemma gov_config_inv:
  "gov_inv sha256 ops N (k, m) \<Longrightarrow> k < N \<Longrightarrow> gov_inv sha256 ops N (Suc k, m\<lparr>gm_config := config\<rparr>)"
  using books_ok_mono [of ops k "gm_voting_manager m" "gm_proposal_store m" "Suc k"]
  by (auto simp: gov_inv_def intro: le_SucI)

lemma gov_emergency_inv:
  assumes "gov_inv sha256 ops N (k, m)" "k < N" "store_inv st'" "entry_of st' = entry_of (gm_proposal_store m)"
    and "pst_next_proposal_nonce st' = pst_next_proposal_nonce (gm_proposal_store m)
       \<or> pst_next_proposal_nonce st' = add_u64 (pst_next_proposal_nonce (gm_proposal_store m)) (Suc 0)"
  shows "gov_inv sha256 ops N (Suc k, m\<lparr>gm_proposal_store := st'\<rparr>)"
proof (rule gov_store_inv [OF assms(1-3)])
  have "pst_next_proposal_nonce (gm_proposal_store m) \<le> k" "N \<le> U64_MAX"
    using assms(1) by (simp_all add: gov_inv_def)
  then show "pst_next_proposal_nonce st' \<le> Suc k"
    "pst_next_proposal_nonce (gm_proposal_store m) \<le> pst_next_proposal_nonce st'"
    using assms(2,5) by (auto simp: inc_nonce)
qed (auto simp: assms(4) split: option.splits)

lemma gov_step_inv:
  assumes inv: "gov_inv sha256 ops N (k, m)" and g: "op \<in> ops" "k < N"
  shows "gov_inv sha256 ops N (Suc k, gov_step sha256 w m op)"
proof -
  have si: "store_inv (gm_proposal_store m)" and n: "pst_next_proposal_nonce (gm_proposal_store m) \<le> Suc k"
    using inv by (auto simp: gov_inv_def)
  have stamped: "stamps op \<subseteq> (\<Union>op \<in> ops. stamps op)" using g(1) by blast
  show ?thesis
  proof (cases op)
    case (GSubmit proposer days title desc data voters now)
    then show ?thesis using gov_submit_inv [OF inv g(2)] stamped
      by (simp add: gm_submit_proposal_def split_beta)
  next
    case (GCancel pid requester)
    then show ?thesis
      using gov_store_inv [OF inv g(2) cancel_proposal_inv [OF si] _ _ cancel_entries [OF si]] n
      by (simp add: gm_cancel_proposal_def split_beta)
  next
    case (GVote pid voter vote pol now)
    then show ?thesis using gov_vote_inv [OF inv g(2)] g(1) by simp
  next
    case (GSubmitEmergency proposer title desc data csize now)
    then show ?thesis
      using gov_emergency_inv [OF inv g(2) submit_emergency_inv [OF si]]
      by (simp add: gm_submit_emergency_def split_beta)
  next
    case (GApprove eid approver committee)
    then show ?thesis
      using gov_emergency_inv [OF inv g(2) approve_emergency_inv [OF si]]
      by (simp add: gm_approve_emergency_def split_beta)
  next
    case (GRatify eid)
    then show ?thesis
      using gov_emergency_inv [OF inv g(2) ratify_emergency_inv [OF si]]
      by (simp add: gm_ratify_emergency_def split_beta)
  next
    case (GCreatePoll creator question options secs geo balance now)
    then show ?thesis using gov_create_poll_inv [OF inv g(2)] stamped by simp
  next
    case (GPollVote pid voter i pol loc now)
    then show ?thesis using gov_poll_vote_inv [OF inv g(2)] by simp
  next
    case (GTick now)
    then show ?thesis
      using gov_store_inv [OF inv g(2) advance_all_inv [OF si] _ _ tick_entries [OF si]] n
      by (simp add: gm_tick_def)
  next
    case (GUpdateConfig config)
    then show ?thesis using gov_config_inv [OF inv g(2)] by (simp add: gm_update_config_def)
  qed
qed

interpretation gov: keeps_invariant "counted_step sha256 w" "gov_guard ops N" "gov_inv sha256 ops N"
    for sha256 w ops N
  by unfold_locales (auto simp: counted_step_def gov_guard_def gov_step_inv)

definition run_gov ::
  "(bytes \<Rightarrow> bytes) \<Rightarrow> (GeoLocation \<Rightarrow> GeographicFilter \<Rightarrow> bool) \<Rightarrow> GovernanceConfig \<Rightarrow> gov_op list
     \<Rightarrow> GovernanceManager" where
  "run_gov sha256 w config ops = foldl (gov_step sha256 w) (GovernanceManager_new config) ops"

lemma counted_run:
  "foldl (counted_step sha256 w) (k, m) ops = (k + length ops, foldl (gov_step sha256 w) m ops)"
  by (induction ops arbitrary: k m) (simp_all add: counted_step_def)

lemma guarded_run:
  "set ops \<subseteq> O' \<Longrightarrow> k + length ops \<le> N \<Longrightarrow> guarded (gov_guard O' N) (counted_step sha256 w) (k, m) ops"
  by (induction ops arbitrary: k m) (simp_all add: counted_step_def gov_guard_def)

lemma gov_inv_new:
  "inj_on sha256 (hashed ops N) \<Longrightarrow> N \<le> U64_MAX \<Longrightarrow> gov_inv sha256 ops N (0, GovernanceManager_new config)"
  by (auto simp: gov_inv_def GovernanceManager_new_def books_ok_def VotingManager_new_def
      voters_recorded_new [unfolded VotingManager_new_def] get_proposal_def get_records_def
      ProposalStore_new_def PollStore_new_def get_poll_records_def
      store_inv_new [unfolded ProposalStore_new_def] polls_inv_new [unfolded PollStore_new_def])

lemma run_gov_inv:
  assumes "collision_free sha256 ops" "length ops \<le> U64_MAX"
  shows "gov_inv sha256 (set ops) (length ops) (length ops, run_gov sha256 w config ops)"
proof -
  have "gov_inv sha256 (set ops) (length ops) (0, GovernanceManager_new config)"
    using assms by (intro gov_inv_new) (simp_all add: collision_free_def)
  moreover have "guarded (gov_guard (set ops) (length ops)) (counted_step sha256 w)
      (0, GovernanceManager_new config) ops"
    by (rule guarded_run) simp_all
  ultimately show ?thesis using gov.run_inv by (fastforce simp: counted_run run_gov_def)
qed

section \<open>The life of one proposal\<close>

text \<open>What a single call may do to a proposal and its phase.\<close>
inductive entry_step ::
  "VotingManager \<Rightarrow> gov_op \<Rightarrow> bytes \<Rightarrow> ProposalPhase \<times> Proposal \<Rightarrow> ProposalPhase \<times> Proposal \<Rightarrow> bool"
  for vm op pid where
  untouched: "entry_step vm op pid e e"
| ticked: "op = GTick now \<Longrightarrow> phase_step now p ph ph' \<Longrightarrow>
    entry_step vm op pid (ph, p) (ph', p\<lparr>pr_status := to_core_status ph'\<rparr>)"
| withdrawn: "op = GCancel pid (pr_proposer p) \<Longrightarrow>
    entry_step vm op pid (Ph_Discussion, p) (Ph_Cancelled, p\<lparr>pr_status := PS_Rejected\<rparr>)"
| voted: "op = GVote pid voter vote True now \<Longrightarrow> \<not> has_voted vm pid voter \<Longrightarrow>
    entry_step vm op pid (Ph_Voting, p) (Ph_Voting, count_vote vote p)"

inductive_cases entry_stepE: "entry_step vm op pid (ph, p) (ph', p')"

lemma moved_entry_step: "entry_step vm (GTick now) pid (ph, p) (moved now (ph, p))"
proof (cases "next_phase now p ph = ph")
  case True
  then show ?thesis by (simp add: moved_def entry_step.untouched)
next
  case False
  with next_phase_step [of now p ph] have "phase_step now p ph (next_phase now p ph)" by simp
  then show ?thesis using False by (auto simp: moved_def Let_def intro: entry_step.ticked)
qed

lemma gov_entry_step:
  assumes inv: "gov_inv sha256 ops N (k, m)" and g: "op \<in> ops" "k < N"
    and e: "entry_of (gm_proposal_store m) pid = Some (ph, p)"
  shows "\<exists>e'. entry_of (gm_proposal_store (gov_step sha256 w m op)) pid = Some e'
    \<and> entry_step (gm_voting_manager m) op pid (ph, p) e'"
proof -
  let ?st = "gm_proposal_store m" and ?vm = "gm_voting_manager m"
  have si: "store_inv ?st" using inv by (simp add: gov_inv_def)
  note un = entry_step.untouched [of ?vm op pid "(ph, p)"]
  show ?thesis
  proof (cases op)
    case (GSubmit proposer days title desc data voters now)
    then have "(''gratia-proposal-v1:'', node_id_bytes proposer, now) \<in> (\<Union>op \<in> ops. stamps op)"
      using g(1) by force
    then have "entry_of ?st (fst (generate_id sha256 ?st proposer now)) = None"
      by (rule fresh_submission [OF inv g(2)])
    then have "fst (generate_id sha256 ?st proposer now) \<noteq> pid" using e by auto
    then show ?thesis using GSubmit e un
      by (simp add: gm_submit_proposal_def split_beta submit_proposal_shape Let_def generate_id_store)
  next
    case (GCancel pid' requester)
    obtain r st' where r: "cancel_proposal ?st pid' requester = (r, st')" by fastforce
    show ?thesis using cancel_proposal_shape [OF si r] GCancel r e un
      by (cases "pid' = pid") (auto simp: gm_cancel_proposal_def intro!: entry_step.withdrawn)
  next
    case (GVote pid' voter vote pol now)
    show ?thesis
    proof (cases "ballot_accepted ?st ?vm pid' voter pol")
      case True
      then obtain q where q: "get_proposal ?st pid' = Some q" "pr_status q = PS_Voting" "pol"
        "\<not> has_voted ?vm pid' voter" by (auto simp: ballot_accepted_def)
      have v: "entry_of ?st pid' = Some (Ph_Voting, q)" using si q(1,2) by (rule voting_entry)
      show ?thesis
        using update_proposal_inv(2) [OF si v, of "count_vote vote q"] True q GVote e un v
        by (cases "pid' = pid") (auto simp: gm_cast_vote_def cast_vote_accepted intro!: entry_step.voted)
    next
      case False
      then show ?thesis using cast_vote_refused [OF False, of vote now] GVote e un
        by (auto simp: gm_cast_vote_def)
    qed
  next
    case (GTick now)
    have "hm_ok (pst_proposals ?st)" using si by (simp add: store_inv_def)
    then show ?thesis using GTick e by (simp add: gm_tick_def advance_all_entry moved_entry_step)
  next
    case (GPollVote pid' voter i pol loc now)
    then show ?thesis using e un by (auto simp: gm_cast_poll_vote_def split: option.splits)
  qed (use e un in \<open>simp_all add: gm_defs split_beta\<close>)
qed

lemma run_gov_inv_before:
  assumes "collision_free sha256 (ops @ [op])" "length ops < U64_MAX"
  shows "gov_inv sha256 (set (ops @ [op])) (Suc (length ops)) (length ops, run_gov sha256 w config ops)"
proof -
  let ?O = "set (ops @ [op])" and ?N = "Suc (length ops)"
  have "gov_inv sha256 ?O ?N (0, GovernanceManager_new config)"
    using assms by (intro gov_inv_new) (simp_all add: collision_free_def)
  moreover have "guarded (gov_guard ?O ?N) (counted_step sha256 w) (0, GovernanceManager_new config) ops"
    by (rule guarded_run) auto
  ultimately have "gov_inv sha256 ?O ?N (foldl (counted_step sha256 w) (0, GovernanceManager_new config) ops)"
    by (rule gov.run_inv)
  then show ?thesis by (simp add: counted_run run_gov_def)
qed

text \<open>Who has voted is never forgotten, on proposals and on polls, whatever is called.\<close>

definition voted_pairs :: "GovernanceManager \<Rightarrow> (bytes \<times> NodeId) set" where
  "voted_pairs m = {(pid, n). gm_has_voted m pid n}"

definition poll_voted_pairs :: "GovernanceManager \<Rightarrow> (bytes \<times> NodeId) set" where
  "poll_voted_pairs m = {(pid, n). has_voted_poll (gm_poll_store m) pid n}"

lemma cast_vote_keeps_voted:
  "has_voted vm q n \<Longrightarrow> has_voted (fst (snd (cast_vote vm st pid voter vote pol now))) q n"
proof (cases "ballot_accepted st vm pid voter pol")
  case True
  then obtain p where "get_proposal st pid = Some p" by (auto simp: ballot_accepted_def)
  with True show "has_voted vm q n \<Longrightarrow> ?thesis"
    by (auto simp: cast_vote_accepted recorded_def has_voted_iff)
next
  case False
  then show "has_voted vm q n \<Longrightarrow> ?thesis" using cast_vote_refused [OF False, of vote now] by auto
qed

lemma gov_step_voted: "voted_pairs m \<subseteq> voted_pairs (gov_step sha256 w m op)"
proof (cases op)
  case (GVote pid voter vote pol now)
  then show ?thesis
    by (auto simp: voted_pairs_def gm_has_voted_def gm_cast_vote_def split_beta cast_vote_keeps_voted)
next
  case (GPollVote pid' voter i pol loc now)
  then show ?thesis
    by (auto simp: voted_pairs_def gm_has_voted_def gm_cast_poll_vote_def split: option.splits)
qed (simp_all add: gm_defs split_beta voted_pairs_def gm_has_voted_def)

lemma gov_step_poll_voted: "poll_voted_pairs m \<subseteq> poll_voted_pairs (gov_step sha256 w m op)"
proof (cases op)
  case (GPollVote pid voter i pol loc now)
  let ?b = "\<lparr> pb_poll = pid, pb_voter = voter, pb_option = i, pb_pol = pol, pb_location = loc, pb_time = now \<rparr>"
  have step: "gov_step sha256 w m op = m\<lparr>gm_poll_store := poll_step w (gm_poll_store m) ?b\<rparr>"
    unfolding GPollVote by (auto simp: gm_cast_poll_vote_def poll_step_def cast_poll_def split: option.splits)
  show ?thesis
  proof (cases "accepts_poll w (gm_poll_store m) ?b")
    case True
    then show ?thesis
      by (rule poll_step_accepted) (auto simp: step poll_voted_pairs_def has_voted_poll_iff)
  qed (simp add: step poll_step_refused poll_voted_pairs_def)
qed (auto simp: gm_defs split_beta poll_voted_pairs_def has_voted_poll_def create_poll_def
    generate_poll_id_def Let_def)

interpretation voted: never_decreases "gov_step sha256 w" "\<lambda>_ _. True" "\<lambda>_. True" voted_pairs for sha256 w
  by unfold_locales (simp_all add: gov_step_voted)

interpretation poll_voted: never_decreases "gov_step sha256 w" "\<lambda>_ _. True" "\<lambda>_. True" poll_voted_pairs for sha256 w
  by unfold_locales (simp_all add: gov_step_poll_voted)

section \<open>Properties\<close>

text \<open>C3: A proposal is approved or executed only by a vote of distinct nodes that held a valid
  Proof of Life: every counted vote was cast by a call of the run, no node is counted twice, the
  counters are exactly the recorded votes, turnout lies between a fifth of the eligible voters and
  all of them, and yes beats no.\<close>

theorem executed_only_by_vote:
  assumes "collision_free sha256 ops" "length ops < U64_MAX" "m = run_gov sha256 w config ops"
    and "gm_get_proposal_phase m pid = Some ph" "ph = Ph_Approved \<or> ph = Ph_Executed"
  shows "\<exists>p rs. gm_get_proposal m pid = Some p \<and> rs = get_records (gm_voting_manager m) pid
    \<and> distinct (map vr_voter rs)
    \<and> (\<forall>r \<in> set rs. GVote pid (vr_voter r) (vr_vote r) True (vr_timestamp r) \<in> set ops)
    \<and> pr_votes_yes p = votes_for VYes rs \<and> pr_votes_no p = votes_for VNo rs
    \<and> 0 < pr_eligible_voters p \<and> length rs \<le> pr_eligible_voters p
    \<and> pr_eligible_voters p div 5 \<le> length rs \<and> votes_for VNo rs < votes_for VYes rs"
proof -
  have inv: "gov_inv sha256 (set ops) (length ops) (length ops, m)"
    unfolding assms(3) using assms(1,2) by (intro run_gov_inv) simp_all
  let ?st = "gm_proposal_store m" and ?rs = "get_records (gm_voting_manager m) pid"
  have si: "store_inv ?st" and books: "books_ok (set ops) (length ops) (gm_voting_manager m) ?st"
    using inv by (simp_all add: gov_inv_def)
  obtain p where e: "entry_of ?st pid = Some (ph, p)"
    using assms(4) si by (cases "map_of (pst_proposals ?st) pid")
      (auto simp: gm_get_proposal_phase_def get_phase_def entry_of_def store_inv_def)
  then have p: "get_proposal ?st pid = Some p" using proposal_of_entry [OF si, of pid] by simp
  have "proposal_ok (ph, p)" using si e by (rule store_inv_entry)
  then have "passed p" using assms(5) by auto
  moreover have tally: "tally_ok ?rs p" and len: "length ?rs \<le> length ops"
    using books p by (auto simp: books_ok_def split: option.splits dest: spec [of _ pid])
  ultimately show ?thesis
    using books p passed_exact [of p] votes_for_total [of ?rs] assms(2)
    by (auto simp: gm_get_proposal_def tally_ok_def books_ok_def)
qed

definition quick_config :: GovernanceConfig where
  "quick_config = GovernanceConfig_default\<lparr>discussion_period_secs := 0, voting_period_secs := 0,
     implementation_delay_secs := 0\<rparr>"

definition first_id :: bytes where
  "first_id = id_preimage ''gratia-proposal-v1:'' [1] 0 0"

definition quick_vote :: "gov_op list" where
  "quick_vote = [GSubmit (NodeId [1]) 90 [] [] [] 5 0, GTick 0,
     GVote first_id (NodeId [2]) VYes True 0, GTick 0]"

lemma first_id_fold: "id_preimage ''gratia-proposal-v1:'' [Suc 0] 0 0 = first_id"
  by (simp add: first_id_def)

lemma quick_vote_run:
  "gm_get_proposal_phase (run_gov (\<lambda>x. x) w quick_config quick_vote) first_id = Some Ph_Approved"
  by (simp add: run_gov_def quick_vote_def GovernanceManager_new_def gm_submit_proposal_def
      submit_proposal_def generate_id_def ProposalStore_new_def first_id_fold quick_config_def
      GovernanceConfig_default_def duration_seconds_def as_i64_def gm_tick_def advance_all_def
      advance_proposal_def set_phase_def gm_cast_vote_def cast_vote_def get_proposal_def
      VotingManager_new_def hm_map_values_def passed_exact U64_MAX_def inc_u64 gm_get_proposal_phase_def
      get_phase_def Let_def)

lemma quick_vote_free: "collision_free (\<lambda>x. x) ops"
  by (simp add: collision_free_def)

theorem executed_only_by_vote_witness:
  "\<exists>p. gm_get_proposal (run_gov (\<lambda>x. x) (\<lambda>_ _. True) quick_config quick_vote) first_id = Some p
     \<and> 0 < pr_votes_yes p"
  using executed_only_by_vote [OF quick_vote_free _ refl quick_vote_run, of "\<lambda>_ _. True"]
  by (auto simp: quick_vote_def U64_MAX_def)

text \<open>C6: In every run a proposal moves only along its life cycle: a call leaves it alone, or is
  the tick whose time reached the end of its phase, or the withdrawal by its author during the
  discussion, or a first vote of a verified node during the voting. It never disappears, ended
  phases are final, execution follows approval and only when the implementation date has come, and
  outside the voting phase no counter moves.\<close>

theorem life_cycle_respected:
  assumes "collision_free sha256 (ops @ [op])" "length ops < U64_MAX"
    and "m = run_gov sha256 w config ops" "m' = gov_step sha256 w m op"
    and "gm_get_proposal_phase m pid = Some ph" "gm_get_proposal m pid = Some p"
  shows "\<exists>ph' p'. gm_get_proposal_phase m' pid = Some ph' \<and> gm_get_proposal m' pid = Some p'
    \<and> entry_step (gm_voting_manager m) op pid (ph, p) (ph', p')
    \<and> pr_status p' = to_core_status ph'
    \<and> (ph \<in> {Ph_Rejected, Ph_Executed, Ph_Cancelled} \<longrightarrow> ph' = ph \<and> p' = p)
    \<and> (ph' = Ph_Executed \<and> ph \<noteq> Ph_Executed \<longrightarrow>
         ph = Ph_Approved \<and> (\<exists>now. op = GTick now \<and> pr_implementation_date p \<le> now))
    \<and> (ph \<noteq> Ph_Voting \<longrightarrow> same_tally p p')"
proof -
  let ?O = "set (ops @ [op])" and ?N = "Suc (length ops)"
  have inv: "gov_inv sha256 ?O ?N (length ops, m)"
    unfolding assms(3) using assms(1,2) by (rule run_gov_inv_before)
  have inv': "gov_inv sha256 ?O ?N (?N, m')"
    unfolding assms(4) using inv by (rule gov_step_inv) simp_all
  have e: "entry_of (gm_proposal_store m) pid = Some (ph, p)"
    using assms(5,6) by (simp add: entry_of_def gm_get_proposal_phase_def gm_get_proposal_def
        get_phase_def get_proposal_def)
  obtain ph' p' where e': "entry_of (gm_proposal_store m') pid = Some (ph', p')"
    and step: "entry_step (gm_voting_manager m) op pid (ph, p) (ph', p')"
    using gov_entry_step [OF inv _ _ e, of op w] assms(4) by auto
  have si': "store_inv (gm_proposal_store m')" using inv' by (simp add: gov_inv_def)
  have "proposal_ok (ph', p')" using si' e' by (rule store_inv_entry)
  moreover have "ph \<in> {Ph_Rejected, Ph_Executed, Ph_Cancelled} \<longrightarrow> ph' = ph \<and> p' = p"
    "ph' = Ph_Executed \<and> ph \<noteq> Ph_Executed \<longrightarrow>
         ph = Ph_Approved \<and> (\<exists>now. op = GTick now \<and> pr_implementation_date p \<le> now)"
    "ph \<noteq> Ph_Voting \<longrightarrow> same_tally p p'"
    using step by (auto elim!: entry_stepE phase_step_toE)
  ultimately show ?thesis
    using e' step by (auto simp: entry_of_get [OF si'] gm_get_proposal_phase_def gm_get_proposal_def
        get_phase_def get_proposal_def)
qed

theorem life_cycle_respected_witness:
  "let m = run_gov (\<lambda>x. x) (\<lambda>_ _. True) quick_config quick_vote;
       m' = gov_step (\<lambda>x. x) (\<lambda>_ _. True) m (GVote first_id (NodeId [9]) VNo True 0)
   in \<exists>p p'. gm_get_proposal m first_id = Some p \<and> gm_get_proposal m' first_id = Some p' \<and> same_tally p p'"
proof -
  let ?m = "run_gov (\<lambda>x. x) (\<lambda>_ _. True) quick_config quick_vote"
  obtain p where "gm_get_proposal ?m first_id = Some p"
    using run_gov_inv [OF quick_vote_free, of quick_vote "\<lambda>_ _. True" quick_config] quick_vote_run
    by (cases "gm_get_proposal ?m first_id")
      (auto simp: gov_inv_def store_inv_def gm_get_proposal_def get_proposal_def quick_vote_def U64_MAX_def
        gm_get_proposal_phase_def get_phase_def)
  then show ?thesis
    using life_cycle_respected [OF quick_vote_free _ refl refl quick_vote_run, where p = p
        and op = "GVote first_id (NodeId [9]) VNo True 0" and w = "\<lambda>_ _. True"]
    by (auto simp: Let_def quick_vote_def U64_MAX_def)
qed

text \<open>C12: One phone, one vote: once a node's vote on a proposal has been accepted, every further
  attempt of that node on that proposal is refused and changes nothing, whatever was called in
  between.\<close>

theorem one_phone_one_vote:
  assumes "gm_cast_vote m pid voter vote pol now = (Ok (), m')"
    and "m'' = foldl (gov_step sha256 w) m' ops"
  shows "\<exists>e. gm_cast_vote m'' pid voter vote' pol' later = (Err e, m'')"
proof -
  let ?st = "gm_proposal_store m" and ?vm = "gm_voting_manager m"
  have "ballot_accepted ?st ?vm pid voter pol"
  proof (rule ccontr)
    assume "\<not> ballot_accepted ?st ?vm pid voter pol"
    then obtain e where "cast_vote ?vm ?st pid voter vote pol now = (Err e, ?vm, ?st)"
      using cast_vote_refused by blast
    with assms(1) show False by (simp add: gm_cast_vote_def)
  qed
  then have "gm_has_voted m' pid voter"
    using assms(1) cast_vote_accepted [of ?st ?vm pid voter pol _ vote now]
    by (auto simp: ballot_accepted_def gm_cast_vote_def gm_has_voted_def has_voted_iff recorded_def)
  then have "gm_has_voted m'' pid voter"
    using voted.run_mono [where s = m' and es = ops and ?sha256.0 = sha256 and w = w] assms(2) by (auto simp: voted_pairs_def)
  then have "\<not> ballot_accepted (gm_proposal_store m'') (gm_voting_manager m'') pid voter pol'"
    by (simp add: ballot_accepted_def gm_has_voted_def)
  then show ?thesis using cast_vote_refused [of _ _ pid voter pol' vote' later]
    by (force simp: gm_cast_vote_def)
qed

definition open_vote :: "gov_op list" where
  "open_vote = [GSubmit (NodeId [1]) 90 [] [] [] 5 0, GTick 0]"

lemma open_vote_proposal:
  "gm_get_proposal (run_gov (\<lambda>x. x) w quick_config open_vote) first_id
     = Some ((new_proposal first_id (NodeId [1]) [] [] [] 5 quick_config 0)\<lparr>pr_status := PS_Voting\<rparr>)"
  by (simp add: run_gov_def open_vote_def GovernanceManager_new_def gm_submit_proposal_def
      submit_proposal_def generate_id_def ProposalStore_new_def first_id_fold quick_config_def
      GovernanceConfig_default_def duration_seconds_def as_i64_def gm_tick_def advance_all_def
      advance_proposal_def set_phase_def get_proposal_def gm_get_proposal_def new_proposal_def
      hm_map_values_def Let_def)

lemma open_vote_voters: "gm_voting_manager (run_gov sha256 w config open_vote) = VotingManager_new"
  by (simp add: run_gov_def open_vote_def GovernanceManager_new_def gm_submit_proposal_def split_beta gm_tick_def)

lemma open_vote_accepts:
  "\<exists>m'. gm_cast_vote (run_gov (\<lambda>x. x) w quick_config open_vote) first_id voter vote True now = (Ok (), m')"
proof -
  let ?m = "run_gov (\<lambda>x. x) w quick_config open_vote"
  have "ballot_accepted (gm_proposal_store ?m) (gm_voting_manager ?m) first_id voter True"
    using open_vote_proposal [of w]
    by (simp add: ballot_accepted_def gm_get_proposal_def open_vote_voters has_voted_def VotingManager_new_def)
  then show ?thesis using open_vote_proposal [of w]
    by (simp add: gm_cast_vote_def cast_vote_accepted gm_get_proposal_def)
qed

theorem one_phone_one_vote_witness:
  "\<exists>m' e. gm_cast_vote (run_gov (\<lambda>x. x) (\<lambda>_ _. True) quick_config open_vote) first_id (NodeId [2]) VYes True 0
       = (Ok (), m')
     \<and> gm_cast_vote (gov_step (\<lambda>x. x) (\<lambda>_ _. True) m' (GTick (-1))) first_id (NodeId [2]) VNo True 1
       = (Err e, gov_step (\<lambda>x. x) (\<lambda>_ _. True) m' (GTick (-1)))"
proof -
  obtain m' where m': "gm_cast_vote (run_gov (\<lambda>x. x) (\<lambda>_ _. True) quick_config open_vote) first_id
      (NodeId [2]) VYes True 0 = (Ok (), m')" using open_vote_accepts by blast
  from one_phone_one_vote [OF m' refl, of "\<lambda>x. x" "\<lambda>_ _. True" "[GTick (-1)]" VNo True 1] m'
  show ?thesis by auto
qed

text \<open>In every run the published result of a poll is exact and can be computed without a panic:
  each option has as many votes as there are recorded votes for it, the options together have as
  many as there are voters, and no node is among them twice.\<close>

theorem poll_results_exact:
  assumes "collision_free sha256 ops" "length ops \<le> U64_MAX" "m = run_gov sha256 w config ops"
    and "gm_get_poll m pid = Some poll"
  shows "\<exists>res rs. gm_get_poll_results utc_now m pid = Some (Some res)
    \<and> rs = get_poll_records (gm_poll_store m) pid \<and> distinct (map pv_voter rs)
    \<and> map por_votes (pres_options res) = map (option_count rs) [0..<length (poll_options poll)]
    \<and> pres_total_voters res = length rs
    \<and> sum_list (map por_votes (pres_options res)) = pres_total_voters res"
proof -
  have "gov_inv sha256 (set ops) (length ops) (length ops, m)"
    unfolding assms(3) using assms(1,2) by (rule run_gov_inv)
  then have inv: "polls_inv (gm_poll_store m)" by (simp add: gov_inv_def)
  have p: "map_of (polls_map (gm_poll_store m)) pid = Some poll"
    using assms(4) by (simp add: gm_get_poll_def get_poll_def)
  let ?rs = "get_poll_records (gm_poll_store m) pid"
  have ok: "poll_ok ?rs poll" "distinct (map pv_voter ?rs)" using inv p by (auto simp: polls_inv_def)
  obtain res where "get_poll_results utc_now (gm_poll_store m) pid = Some (Some res)"
    "map por_votes (pres_options res) = poll_votes poll" "pres_total_voters res = poll_total_voters poll"
    using get_poll_results_ok [OF inv p] by blast
  then show ?thesis
    using ok sum_option_count [of ?rs "length (poll_options poll)"]
    by (auto simp: gm_get_poll_results_def poll_ok_def)
qed

definition one_poll :: "gov_op list" where
  "one_poll = [GCreatePoll (Address [1]) ''lunch'' [''a'', ''b''] 60 None 10000000 0]"

lemma one_poll_run: "\<exists>pid poll. gm_get_poll (run_gov (\<lambda>x. x) w GovernanceConfig_default one_poll) pid = Some poll
    \<and> length (poll_options poll) = 2"
  by (simp add: run_gov_def one_poll_def GovernanceManager_new_def gm_create_poll_def create_poll_def
      generate_poll_id_def PollStore_new_def GovernanceConfig_default_def LUX_PER_GRAT_def Let_def
      gm_get_poll_def get_poll_def)

theorem poll_results_exact_witness:
  "\<exists>pid res. gm_get_poll_results 0 (run_gov (\<lambda>x. x) (\<lambda>_ _. True) GovernanceConfig_default one_poll) pid
     = Some (Some res) \<and> length (pres_options res) = 2"
proof -
  obtain pid poll where p: "gm_get_poll (run_gov (\<lambda>x. x) (\<lambda>_ _. True) GovernanceConfig_default one_poll) pid
      = Some poll" "length (poll_options poll) = 2" using one_poll_run by blast
  have "length one_poll \<le> U64_MAX" by (simp add: one_poll_def U64_MAX_def)
  from poll_results_exact [OF quick_vote_free this refl p(1), of 0] p(2)
  show ?thesis by (metis length_map length_upt diff_zero)
qed

text \<open>An approval activates an emergency proposal exactly when a committee member who has not
  approved yet completes the supermajority: a pending proposal becomes active if and only if the
  approver is new and the approvals, this one included, reach the threshold share of the committee
  size; an outsider and a resolved proposal change nothing.\<close>

theorem emergency_activates_exactly:
  assumes "store_inv st" "get_emergency st eid = Some ep"
    and "ep_committee_size ep * emergency_threshold_bps config + 9999 \<le> U64_MAX"
    and "approve_emergency st eid approver committee config = (r, st')"
  shows "(r = Ok True \<longleftrightarrow> approver \<in> set committee \<and> \<not> ep_activated ep \<and> \<not> ep_reverted ep
       \<and> approver \<notin> set (ep_approvals ep) \<and> 0 < ep_committee_size ep
       \<and> ep_committee_size ep * emergency_threshold_bps config \<le> Suc (length (ep_approvals ep)) * 10000)
    \<and> (\<exists>ep'. get_emergency st' eid = Some ep' \<and> distinct (ep_approvals ep')
         \<and> (ep_activated ep' \<longleftrightarrow> ep_activated ep \<or> r = Ok True)
         \<and> set (ep_approvals ep') = set (ep_approvals ep) \<union>
             (if approver \<in> set committee \<and> \<not> ep_activated ep \<and> \<not> ep_reverted ep then {approver} else {}))"
proof -
  have d: "distinct (ep_approvals ep)"
    using assms(1,2) by (auto simp: store_inv_def get_emergency_def emergency_ok_def)
  have sup: "has_supermajority (ep\<lparr>ep_approvals := a\<rparr>) (emergency_threshold_bps config)
      \<longleftrightarrow> 0 < ep_committee_size ep \<and> ep_committee_size ep * emergency_threshold_bps config \<le> length a * 10000" for a
    using assms(3) supermajority_iff [of "ep\<lparr>ep_approvals := a\<rparr>"] by simp
  show ?thesis
    using assms(2,4) d
    by (auto simp: approve_emergency_def get_emergency_def Let_def sup hs_insert_new split: if_splits)
qed

definition patch :: EmergencyProposal where
  "patch = \<lparr> ep_id = [5], ep_proposer = NodeId [1], ep_title = [], ep_description = [],
     ep_proposal_data = [], ep_submitted_at = 0, ep_ratification_deadline = 0,
     ep_approvals = [NodeId [1], NodeId [2]], ep_committee_size = 4, ep_activated = False,
     ep_ratified = False, ep_reverted = False \<rparr>"

definition patch_store :: ProposalStore where
  "patch_store = ProposalStore_new\<lparr>pst_emergency_proposals := [([5], patch)]\<rparr>"

lemma patch_store_inv: "store_inv patch_store"
  unfolding patch_store_def by (rule store_inv_emergency)
    (auto simp: hm_ok_def patch_def emergency_ok_def split: if_splits)

lemma patch_store_get: "get_emergency patch_store [5] = Some patch"
  by (simp add: get_emergency_def patch_store_def)

theorem emergency_activates_exactly_witness:
  "fst (approve_emergency patch_store [5] (NodeId [3]) [NodeId [3]] GovernanceConfig_default) = Ok True"
  using emergency_activates_exactly [OF patch_store_inv patch_store_get _
      surjective_pairing, of GovernanceConfig_default "NodeId [3]" "[NodeId [3]]"]
  by (simp add: patch_def GovernanceConfig_default_def U64_MAX_def)

text \<open>The ratification deadline binds only if a tick happens in time: an active emergency
  proposal that no tick has reverted can be ratified however late, and once ratified no tick at
  any time reverts it.\<close>

theorem late_ratification_sticks:
  assumes "get_emergency st eid = Some ep" "ep_activated ep" "\<not> ep_reverted ep"
    and "ep_ratification_deadline ep \<le> now"
  shows "\<exists>st'. ratify_emergency st eid = (Ok (), st')
    \<and> (\<exists>ep'. get_emergency (advance_all st' config now) eid = Some ep'
         \<and> ep_activated ep' \<and> ep_ratified ep' \<and> \<not> ep_reverted ep')"
  using assms(1-3)
  by (auto simp: ratify_emergency_def get_emergency_def advance_all_def Let_def revert_overdue_def)

theorem late_ratification_sticks_witness:
  "\<exists>st'. ratify_emergency (patch_store\<lparr>pst_emergency_proposals := [([5], patch\<lparr>ep_activated := True\<rparr>)]\<rparr>) [5]
     = (Ok (), st')"
proof -
  let ?st = "patch_store\<lparr>pst_emergency_proposals := [([5], patch\<lparr>ep_activated := True\<rparr>)]\<rparr>"
  have "get_emergency ?st [5] = Some (patch\<lparr>ep_activated := True\<rparr>)"
    by (simp add: get_emergency_def)
  then show ?thesis
    using late_ratification_sticks [where now = 7] by (fastforce simp: patch_def)
qed

text \<open>The end of the voting period does not close the vote: as long as no tick has moved the
  proposal on, a first vote of a verified node is accepted and counted at any time after the end.\<close>

theorem late_votes_are_counted:
  assumes "gm_get_proposal m pid = Some p" "pr_status p = PS_Voting"
    and "\<not> gm_has_voted m pid voter" "pr_voting_ends p < now"
  shows "\<exists>m'. gm_cast_vote m pid voter vote True now = (Ok (), m')
    \<and> gm_get_proposal m' pid = Some (count_vote vote p) \<and> gm_has_voted m' pid voter"
proof -
  have "ballot_accepted (gm_proposal_store m) (gm_voting_manager m) pid voter True"
    using assms(1-3) by (auto simp: ballot_accepted_def gm_get_proposal_def gm_has_voted_def)
  then show ?thesis
    using assms(1) by (auto simp: gm_cast_vote_def cast_vote_accepted gm_get_proposal_def get_proposal_def
        gm_has_voted_def has_voted_iff recorded_def)
qed

theorem late_votes_are_counted_witness:
  "\<exists>m'. gm_cast_vote (run_gov (\<lambda>x. x) (\<lambda>_ _. True) quick_config open_vote) first_id (NodeId [2]) VYes True 1
     = (Ok (), m')"
proof -
  let ?m = "run_gov (\<lambda>x. x) (\<lambda>_ _. True) quick_config open_vote"
  have "\<not> gm_has_voted ?m first_id (NodeId [2])"
    by (simp add: gm_has_voted_def open_vote_voters has_voted_def VotingManager_new_def)
  moreover have "pr_voting_ends (new_proposal first_id (NodeId [1]) [] [] [] 5 quick_config 0) = 0"
    by (simp add: new_proposal_def quick_config_def duration_seconds_def as_i64_def Let_def)
  ultimately show ?thesis
    using late_votes_are_counted [OF open_vote_proposal, where voter = "NodeId [2]" and now = 1 and vote = VYes] by auto
qed

text \<open>One vote too many defeats a proposal: when more nodes have voted than were eligible when it
  was submitted, it does not pass, even if every single vote is yes.\<close>

theorem surplus_votes_defeat_proposal:
  assumes "tally_ok rs p" "length rs < U64_MAX" "pr_eligible_voters p < length rs"
  shows "\<not> passed p"
  using assms passed_exact [of p] votes_for_total [of rs] by (auto simp: tally_ok_def)

theorem surplus_votes_defeat_proposal_witness:
  "let p = new_proposal [] (NodeId [1]) [] [] [] 2 GovernanceConfig_default 0
   in \<not> passed (p\<lparr>pr_votes_yes := 3\<rparr>)"
  using surplus_votes_defeat_proposal [of "map (\<lambda>i. \<lparr> vr_voter = NodeId [i], vr_vote = VYes,
      vr_timestamp = 0 \<rparr>) [1, 2, 3]"
      "(new_proposal [] (NodeId [1]) [] [] [] 2 GovernanceConfig_default 0)\<lparr>pr_votes_yes := 3\<rparr>"]
  by (simp add: tally_ok_def votes_for_def U64_MAX_def new_proposal_def Let_def)

end
