(* ===== verification/Streamlet.thy ===== *)
theory Streamlet
  imports Core_Types
begin

text \<open>
  The Streamlet finality gadget, \<^verbatim>\<open>gratia-consensus/src/streamlet.rs\<close>: proposals, votes,
  notarization at two thirds, finality after three consecutive notarized heights, and pruning. Log
  output is left out; a height range loop with an early return is recursion over the list of
  heights.
\<close>

section \<open>Model\<close>

record StreamletVote =
  sv_epoch :: u64
  sv_block_hash :: bytes
  sv_height :: u64
  sv_signature :: ValidatorSignature

record ProposedBlock =
  pb_header :: BlockHeader
  pb_block_hash :: bytes
  pb_epoch :: u64
  pb_votes :: "StreamletVote list"
  pb_notarized :: bool
  pb_finalized :: bool

definition ProposedBlock_new :: "BlockHeader \<Rightarrow> bytes \<Rightarrow> u64 \<Rightarrow> ProposedBlock" where
  "ProposedBlock_new header block_hash epoch =
     \<lparr> pb_header = header, pb_block_hash = block_hash, pb_epoch = epoch, pb_votes = [],
       pb_notarized = False, pb_finalized = False \<rparr>"

abbreviation voter_of_vote :: "StreamletVote \<Rightarrow> NodeId" where
  "voter_of_vote v \<equiv> vs_validator (sv_signature v)"

definition notarization_threshold :: "usize \<Rightarrow> usize" where
  "notarization_threshold committee_size = add_u64 (mul_u64 committee_size 2) 2 div 3"

definition block_add_vote :: "ProposedBlock \<Rightarrow> StreamletVote \<Rightarrow> usize \<Rightarrow> bool \<times> ProposedBlock" where
  "block_add_vote b vote committee_size =
     (if \<exists>v \<in> set (pb_votes b). voter_of_vote v = voter_of_vote vote then (False, b)
      else
        let b = b\<lparr>pb_votes := pb_votes b @ [vote]\<rparr>;
            threshold = notarization_threshold committee_size
        in if \<not> pb_notarized b \<and> length (pb_votes b) \<ge> threshold
           then (True, b\<lparr>pb_notarized := True\<rparr>)
           else (False, b))"

definition block_vote_count :: "ProposedBlock \<Rightarrow> usize" where
  "block_vote_count b = length (pb_votes b)"

record StreamletState =
  ss_node_id :: NodeId
  ss_committee_size :: usize
  ss_proposed_blocks :: "(bytes, ProposedBlock) hashmap"
  ss_blocks_by_height :: "(u64, bytes list) hashmap"
  ss_finalized_height :: u64
  ss_finalized_hash :: bytes
  ss_voted_epochs :: "(u64, bytes) hashmap"
  ss_highest_notarized_height :: u64
  ss_remote_votes :: "(u64 \<times> NodeId, bytes) hashmap"

definition StreamletState_new :: "NodeId \<Rightarrow> usize \<Rightarrow> StreamletState" where
  "StreamletState_new node_id committee_size =
     \<lparr> ss_node_id = node_id, ss_committee_size = committee_size, ss_proposed_blocks = [],
       ss_blocks_by_height = [], ss_finalized_height = 0, ss_finalized_hash = replicate 32 0,
       ss_voted_epochs = [], ss_highest_notarized_height = 0, ss_remote_votes = [] \<rparr>"

definition restore :: "StreamletState \<Rightarrow> u64 \<Rightarrow> bytes \<Rightarrow> StreamletState" where
  "restore s finalized_height finalized_hash =
     s\<lparr>ss_finalized_height := finalized_height, ss_finalized_hash := finalized_hash,
       ss_highest_notarized_height := finalized_height\<rparr>"

definition add_proposal :: "StreamletState \<Rightarrow> BlockHeader \<Rightarrow> bytes \<Rightarrow> u64 \<Rightarrow> bool \<times> StreamletState" where
  "add_proposal s header block_hash epoch =
     (if contains_key (ss_proposed_blocks s) block_hash then (False, s)
      else
        let height = bh_height header;
            proposed = ProposedBlock_new header block_hash epoch
        in (True, s\<lparr>
             ss_proposed_blocks := AList.update block_hash proposed (ss_proposed_blocks s),
             ss_blocks_by_height := AList.update height
               (hm_entry (ss_blocks_by_height s) height @ [block_hash]) (ss_blocks_by_height s)\<rparr>))"

definition should_vote :: "StreamletState \<Rightarrow> bytes \<Rightarrow> u64 \<Rightarrow> bool" where
  "should_vote s block_hash epoch =
     (if contains_key (ss_voted_epochs s) epoch then False
      else case map_of (ss_proposed_blocks s) block_hash of
        None \<Rightarrow> False
      | Some proposed \<Rightarrow>
          let height = bh_height (pb_header proposed)
          in if height \<le> ss_finalized_height s then False
             else
               let expected = add_u64 (ss_highest_notarized_height s) 1
               in if height \<noteq> expected \<and> height \<noteq> add_u64 (ss_finalized_height s) 1 then False
                  else True)"

definition record_vote :: "StreamletState \<Rightarrow> u64 \<Rightarrow> bytes \<Rightarrow> StreamletState" where
  "record_vote s epoch block_hash =
     s\<lparr>ss_voted_epochs := AList.update epoch block_hash (ss_voted_epochs s)\<rparr>"

text \<open>The loop over the hashes at a height: the first one whose block is notarized.\<close>
definition get_notarized_at :: "StreamletState \<Rightarrow> u64 \<Rightarrow> bytes option" where
  "get_notarized_at s height =
     (case map_of (ss_blocks_by_height s) height of
        None \<Rightarrow> None
      | Some hashes \<Rightarrow>
          List.find (\<lambda>h. case map_of (ss_proposed_blocks s) h of
                           Some proposed \<Rightarrow> pb_notarized proposed | None \<Rightarrow> False) hashes)"

text \<open>\<^verbatim>\<open>keys().max().unwrap_or(0)\<close>.\<close>
definition max_or_0 :: "u64 list \<Rightarrow> u64" where
  "max_or_0 xs = foldl max 0 xs"

definition prune_below :: "StreamletState \<Rightarrow> u64 \<Rightarrow> StreamletState" where
  "prune_below s height =
     (let old = filter (\<lambda>(h, _). h < height) (ss_blocks_by_height s);
          blocks_by_height = filter (\<lambda>(h, _). \<not> h < height) (ss_blocks_by_height s);
          proposed_blocks =
            foldl (\<lambda>m (_, hashes). foldl (\<lambda>m hash. AList.delete hash m) m hashes)
              (ss_proposed_blocks s) old;
          max_epoch = max_or_0 (map fst (ss_voted_epochs s));
          voted_epochs = filter (\<lambda>(e, _). \<not> add_u64 e 100 < max_epoch) (ss_voted_epochs s);
          remote_max_epoch = max_or_0 (map (fst \<circ> fst) (ss_remote_votes s));
          remote_votes =
            filter (\<lambda>((e, _), _). add_u64 e 100 \<ge> remote_max_epoch) (ss_remote_votes s)
      in s\<lparr>ss_blocks_by_height := blocks_by_height, ss_proposed_blocks := proposed_blocks,
           ss_voted_epochs := voted_epochs, ss_remote_votes := remote_votes\<rparr>)"

primrec finality_loop :: "StreamletState \<Rightarrow> u64 list \<Rightarrow> u64 option \<times> StreamletState" where
  "finality_loop s [] = (None, s)"
| "finality_loop s (h # hs) =
     (case (get_notarized_at s h, get_notarized_at s (add_u64 h 1), get_notarized_at s (add_u64 h 2)) of
        (Some _, Some middle_hash, Some _) \<Rightarrow>
          let new_finalized = add_u64 h 1
          in if new_finalized > ss_finalized_height s
             then (Some new_finalized,
                   prune_below (s\<lparr>ss_finalized_height := new_finalized,
                                  ss_finalized_hash := middle_hash\<rparr>) new_finalized)
             else finality_loop s hs
      | _ \<Rightarrow> finality_loop s hs)"

definition check_finality :: "StreamletState \<Rightarrow> u64 option \<times> StreamletState" where
  "check_finality s =
     finality_loop s [add_u64 (ss_finalized_height s) 1
       ..< Suc (saturating_sub (ss_highest_notarized_height s) 1)]"

definition add_vote :: "StreamletState \<Rightarrow> StreamletVote \<Rightarrow> (bool \<times> u64 option) \<times> StreamletState" where
  "add_vote s vote =
     (let block_hash = sv_block_hash vote;
          voter = voter_of_vote vote;
          epoch = sv_epoch vote;
          equivocation_key = (epoch, voter)
      in if (case map_of (ss_remote_votes s) equivocation_key of
               Some existing_hash \<Rightarrow> existing_hash \<noteq> block_hash | None \<Rightarrow> False)
         then ((False, None), s)
         else
           let s = s\<lparr>ss_remote_votes := AList.update equivocation_key block_hash (ss_remote_votes s)\<rparr>
           in case map_of (ss_proposed_blocks s) block_hash of
                None \<Rightarrow> ((False, None), s)
              | Some proposed \<Rightarrow>
                  let (just_notarized, proposed) = block_add_vote proposed vote (ss_committee_size s);
                      s = s\<lparr>ss_proposed_blocks :=
                              AList.update block_hash proposed (ss_proposed_blocks s)\<rparr>
                  in if just_notarized
                     then
                       let height = bh_height (pb_header proposed);
                           s = (if height > ss_highest_notarized_height s
                                then s\<lparr>ss_highest_notarized_height := height\<rparr> else s);
                           (finalized, s) = check_finality s
                       in ((True, finalized), s)
                     else ((False, None), s))"

definition next_proposal_height :: "StreamletState \<Rightarrow> u64" where
  "next_proposal_height s =
     add_u64 (max (ss_highest_notarized_height s) (ss_finalized_height s)) 1"

definition next_proposal_parent :: "StreamletState \<Rightarrow> bytes" where
  "next_proposal_parent s =
     (case get_notarized_at s (ss_highest_notarized_height s) of
        Some hash \<Rightarrow> hash | None \<Rightarrow> ss_finalized_hash s)"

definition clear_pending :: "StreamletState \<Rightarrow> StreamletState" where
  "clear_pending s =
     (let s = prune_below s (add_u64 (ss_finalized_height s) 1)
      in s\<lparr>ss_voted_epochs := [], ss_remote_votes := [],
           ss_highest_notarized_height := ss_finalized_height s\<rparr>)"

definition streamlet_stats :: "StreamletState \<Rightarrow> usize \<times> u64 \<times> u64" where
  "streamlet_stats s =
     (length (ss_proposed_blocks s), ss_highest_notarized_height s, ss_finalized_height s)"

section \<open>Invariant\<close>

abbreviation block_height :: "ProposedBlock \<Rightarrow> u64" where
  "block_height b \<equiv> bh_height (pb_header b)"

definition block_ok :: "usize \<Rightarrow> bytes \<Rightarrow> ProposedBlock \<Rightarrow> bool" where
  "block_ok n hash b \<longleftrightarrow> distinct (map voter_of_vote (pb_votes b))
     \<and> (\<forall>v \<in> set (pb_votes b). sv_block_hash v = hash)
     \<and> (pb_notarized b \<longleftrightarrow> pb_votes b \<noteq> [] \<and> notarization_threshold n \<le> length (pb_votes b))"

definition index_ok :: "(bytes, ProposedBlock) hashmap \<Rightarrow> (u64, bytes list) hashmap \<Rightarrow> bool" where
  "index_ok blocks by_height \<longleftrightarrow> (\<forall>h hash. hash \<in> set (hm_entry by_height h) \<longleftrightarrow>
     (\<exists>b. map_of blocks hash = Some b \<and> block_height b = h))"

definition streamlet_inv :: "StreamletState \<Rightarrow> bool" where
  "streamlet_inv s \<longleftrightarrow> index_ok (ss_proposed_blocks s) (ss_blocks_by_height s)
     \<and> (\<forall>hash b. map_of (ss_proposed_blocks s) hash = Some b \<longrightarrow> block_ok (ss_committee_size s) hash b)"

definition notarized_height :: "StreamletState \<Rightarrow> u64 \<Rightarrow> bool" where
  "notarized_height s h \<longleftrightarrow> (\<exists>hash b. map_of (ss_proposed_blocks s) hash = Some b \<and> block_height b = h
     \<and> pb_notarized b)"

lemma map_of_filter_key: "map_of (filter (\<lambda>(k, _). P k) m) k = (if P k then map_of m k else None)"
  by (induction m) auto

lemma map_of_delete_all:
  "map_of (foldl (\<lambda>m k. AList.delete k m) m ks) = (\<lambda>k. if k \<in> set ks then None else map_of m k)"
  by (induction ks arbitrary: m) (auto simp: fun_eq_iff)

lemma map_of_delete_lists:
  "map_of (foldl (\<lambda>m (_, ks). foldl (\<lambda>m k. AList.delete k m) m ks) m kss)
     = (\<lambda>k. if \<exists>e \<in> set kss. k \<in> set (snd e) then None else map_of m k)"
  by (induction kss arbitrary: m) (auto simp: fun_eq_iff map_of_delete_all split: prod.splits)

lemma streamlet_inv_new [simp]: "streamlet_inv (StreamletState_new n c)"
  by (simp add: streamlet_inv_def index_ok_def StreamletState_new_def)

definition is_notarized :: "StreamletState \<Rightarrow> bytes \<Rightarrow> bool" where
  "is_notarized s hash = (case map_of (ss_proposed_blocks s) hash of
     Some proposed \<Rightarrow> pb_notarized proposed | None \<Rightarrow> False)"

lemma get_notarized_at_find:
  "get_notarized_at s h = List.find (is_notarized s) (hm_entry (ss_blocks_by_height s) h)"
proof -
  have "is_notarized s = (\<lambda>hash. case map_of (ss_proposed_blocks s) hash of
      Some proposed \<Rightarrow> pb_notarized proposed | None \<Rightarrow> False)"
    by (rule ext) (rule is_notarized_def)
  then show ?thesis
    unfolding get_notarized_at_def hm_entry_def by (cases "map_of (ss_blocks_by_height s) h") simp_all
qed

lemma find_Some_mem: "List.find P xs = Some x \<Longrightarrow> x \<in> set xs \<and> P x"
  by (induction xs) (auto split: if_splits)

lemma index_mem:
  "streamlet_inv s \<Longrightarrow> hash \<in> set (hm_entry (ss_blocks_by_height s) h) \<longleftrightarrow>
     (\<exists>b. map_of (ss_proposed_blocks s) hash = Some b \<and> block_height b = h)"
  by (simp add: streamlet_inv_def index_ok_def)

lemma get_notarized_at_Some:
  assumes "streamlet_inv s" "get_notarized_at s h = Some hash"
  shows "\<exists>b. map_of (ss_proposed_blocks s) hash = Some b \<and> block_height b = h \<and> pb_notarized b"
proof -
  note * = find_Some_mem [OF assms(2) [unfolded get_notarized_at_find]]
  have mem: "hash \<in> set (hm_entry (ss_blocks_by_height s) h)" and n: "is_notarized s hash"
    using * by simp_all
  from mem obtain b where "map_of (ss_proposed_blocks s) hash = Some b" "block_height b = h"
    unfolding index_mem [OF assms(1)] by blast
  with n show ?thesis by (simp add: is_notarized_def)
qed

lemma get_notarized_at_iff:
  assumes "streamlet_inv s"
  shows "get_notarized_at s h \<noteq> None \<longleftrightarrow> notarized_height s h"
proof
  assume "get_notarized_at s h \<noteq> None"
  then obtain hash where "get_notarized_at s h = Some hash" by blast
  from get_notarized_at_Some [OF assms this] show "notarized_height s h"
    unfolding notarized_height_def by blast
next
  assume "notarized_height s h"
  then obtain hash b where b: "map_of (ss_proposed_blocks s) hash = Some b" "block_height b = h" "pb_notarized b"
    unfolding notarized_height_def by blast
  then have "hash \<in> set (hm_entry (ss_blocks_by_height s) h)" "is_notarized s hash"
    unfolding index_mem [OF assms] by (simp_all add: is_notarized_def)
  then show "get_notarized_at s h \<noteq> None"
    by (simp only: get_notarized_at_find find_None_iff) blast
qed

lemma add_proposal_inv [inv_intro]:
  assumes "streamlet_inv s"
  shows "streamlet_inv (snd (add_proposal s header hash epoch))"
proof (cases "contains_key (ss_proposed_blocks s) hash")
  case True
  then show ?thesis using assms by (simp add: add_proposal_def)
next
  case False
  then have "map_of (ss_proposed_blocks s) hash = None" by (simp add: contains_key_def)
  with assms show ?thesis
    by (auto simp: add_proposal_def Let_def contains_key_def streamlet_inv_def index_ok_def block_ok_def
        ProposedBlock_new_def)
qed

lemma block_add_vote_new:
  assumes "voter_of_vote vote \<notin> voter_of_vote ` set (pb_votes b)"
  shows "block_add_vote b vote n = (\<not> pb_notarized b \<and> notarization_threshold n \<le> Suc (length (pb_votes b)),
    b\<lparr>pb_votes := pb_votes b @ [vote],
      pb_notarized := (pb_notarized b \<or> notarization_threshold n \<le> Suc (length (pb_votes b)))\<rparr>)"
proof -
  have "\<not> (\<exists>v \<in> set (pb_votes b). voter_of_vote v = voter_of_vote vote)"
    using assms by (metis image_eqI)
  then show ?thesis by (cases "pb_notarized b") (simp_all add: block_add_vote_def Let_def)
qed

lemma block_add_vote_dup:
  "voter_of_vote vote \<in> voter_of_vote ` set (pb_votes b) \<Longrightarrow> block_add_vote b vote n = (False, b)"
  by (auto simp: block_add_vote_def)

lemma block_add_vote_ok:
  assumes ok: "block_ok n hash b" and h: "sv_block_hash vote = hash"
    and r: "block_add_vote b vote n = (j, b')"
  shows "block_ok n hash b' \<and> pb_header b' = pb_header b \<and> set (pb_votes b') \<subseteq> insert vote (set (pb_votes b))
    \<and> (j \<longleftrightarrow> pb_notarized b' \<and> \<not> pb_notarized b) \<and> (pb_notarized b \<longrightarrow> pb_notarized b')"
proof (cases "voter_of_vote vote \<in> voter_of_vote ` set (pb_votes b)")
  case True
  then have "j = False" "b' = b" using r by (simp_all add: block_add_vote_dup)
  then show ?thesis using ok by blast
next
  case False
  let ?t = "notarization_threshold n \<le> Suc (length (pb_votes b))"
  have j: "j = (\<not> pb_notarized b \<and> ?t)"
    and b': "b' = b\<lparr>pb_votes := pb_votes b @ [vote], pb_notarized := (pb_notarized b \<or> ?t)\<rparr>"
    using r by (simp_all add: block_add_vote_new [OF False])
  have t: "pb_notarized b \<Longrightarrow> ?t" using ok by (simp add: block_ok_def)
  have "block_ok n hash b'"
    unfolding block_ok_def b' using ok False h by (simp add: block_ok_def) (metis le_SucI)
  then show ?thesis unfolding j b' by (cases "pb_notarized b") (simp_all add: subset_insertI)
qed

text \<open>Pruning drops exactly the blocks below the height.\<close>

lemma prune_blocks:
  assumes "streamlet_inv s" "hm_ok (ss_blocks_by_height s)"
  shows "map_of (ss_proposed_blocks (prune_below s H)) hash
    = (case map_of (ss_proposed_blocks s) hash of
         Some b \<Rightarrow> if block_height b < H then None else Some b | None \<Rightarrow> None)"
proof -
  let ?old = "filter (\<lambda>(h, _). h < H) (ss_blocks_by_height s)"
  have old: "(\<exists>e \<in> set ?old. hash \<in> set (snd e)) \<longleftrightarrow> (\<exists>h < H. hash \<in> set (hm_entry (ss_blocks_by_height s) h))"
  proof
    assume "\<exists>e \<in> set ?old. hash \<in> set (snd e)"
    then obtain h hs where e: "(h, hs) \<in> set (ss_blocks_by_height s)" "h < H" "hash \<in> set hs" by auto
    have "map_of (ss_blocks_by_height s) h = Some hs"
      using assms(2) e(1) by (simp add: hm_ok_def)
    with e show "\<exists>h < H. hash \<in> set (hm_entry (ss_blocks_by_height s) h)" by (auto simp: hm_entry_def)
  next
    assume "\<exists>h < H. hash \<in> set (hm_entry (ss_blocks_by_height s) h)"
    then obtain h where h: "h < H" "hash \<in> set (hm_entry (ss_blocks_by_height s) h)" by blast
    then obtain hs where hs: "map_of (ss_blocks_by_height s) h = Some hs" "hash \<in> set hs"
      by (cases "map_of (ss_blocks_by_height s) h") (simp_all add: hm_entry_def)
    then have "(h, hs) \<in> set ?old" using h(1) map_of_SomeD [OF hs(1)] by simp
    with hs(2) show "\<exists>e \<in> set ?old. hash \<in> set (snd e)" by force
  qed
  have "map_of (ss_proposed_blocks (prune_below s H)) hash
      = (if \<exists>e \<in> set ?old. hash \<in> set (snd e) then None else map_of (ss_proposed_blocks s) hash)"
    by (simp add: prune_below_def Let_def map_of_delete_lists)
  also have "\<dots> = (if \<exists>b. map_of (ss_proposed_blocks s) hash = Some b \<and> block_height b < H then None
      else map_of (ss_proposed_blocks s) hash)"
    unfolding old index_mem [OF assms(1)] by (rule if_cong) blast+
  also have "\<dots> = (case map_of (ss_proposed_blocks s) hash of
         Some b \<Rightarrow> if block_height b < H then None else Some b | None \<Rightarrow> None)"
    by (cases "map_of (ss_proposed_blocks s) hash") simp_all
  finally show ?thesis .
qed

lemma prune_heights:
  "hm_entry (ss_blocks_by_height (prune_below s H)) h = (if h < H then [] else hm_entry (ss_blocks_by_height s) h)"
  by (simp add: prune_below_def Let_def hm_entry_def map_of_filter_key)

lemma prune_keeps [simp]:
  "ss_committee_size (prune_below s H) = ss_committee_size s"
  "ss_finalized_height (prune_below s H) = ss_finalized_height s"
  "ss_finalized_hash (prune_below s H) = ss_finalized_hash s"
  "ss_highest_notarized_height (prune_below s H) = ss_highest_notarized_height s"
  by (simp_all add: prune_below_def Let_def)

lemma hm_ok_filter: "hm_ok m \<Longrightarrow> hm_ok (filter P m)"
  by (simp add: hm_ok_def distinct_map_filter)

definition wf_streamlet :: "StreamletState \<Rightarrow> bool" where
  "wf_streamlet s \<longleftrightarrow> streamlet_inv s \<and> hm_ok (ss_blocks_by_height s)"

lemma prune_wf:
  assumes "wf_streamlet s"
  shows "wf_streamlet (prune_below s H)"
proof -
  have inv: "streamlet_inv s" "hm_ok (ss_blocks_by_height s)" using assms by (simp_all add: wf_streamlet_def)
  note blocks = prune_blocks [OF inv]
  have "hash \<in> set (hm_entry (ss_blocks_by_height (prune_below s H)) h) \<longleftrightarrow>
      (\<exists>b. map_of (ss_proposed_blocks (prune_below s H)) hash = Some b \<and> block_height b = h)" for h hash
    using index_mem [OF inv(1), of hash h]
    by (cases "map_of (ss_proposed_blocks s) hash") (auto simp: blocks prune_heights)
  moreover have "block_ok (ss_committee_size s) hash b"
    if "map_of (ss_proposed_blocks (prune_below s H)) hash = Some b" for hash b
    using that inv(1) by (auto simp: blocks streamlet_inv_def split: option.splits if_splits)
  moreover have "hm_ok (ss_blocks_by_height (prune_below s H))"
    using inv(2) by (simp add: prune_below_def Let_def hm_ok_filter)
  ultimately show ?thesis by (simp add: wf_streamlet_def streamlet_inv_def index_ok_def)
qed

end
