(* ===== verification/Streamlet_Safety.thy ===== *)
theory Streamlet_Safety
  imports Streamlet
begin

text \<open>
  What runs of the Streamlet state guarantee, restores and committee changes included: which votes
  notarize a block, exactly when a height is finalized, that only a restore lowers the finalized
  height, that parent hashes play no part, and that two blocks cannot both be notarized by votes of
  one epoch. The last one rests on the intersection of quorums, stated as an interface and
  interpreted on the notarization threshold.
\<close>

section \<open>Quorums\<close>

locale quorum_system =
  fixes quorum :: "'a set \<Rightarrow> bool"
  assumes intersect: "quorum Q \<Longrightarrow> quorum Q' \<Longrightarrow> Q \<inter> Q' \<noteq> {}"
begin

lemma one_choice:
  assumes "quorum Q" "quorum Q'" "\<forall>v \<in> Q. choice v = Some a" "\<forall>v \<in> Q'. choice v = Some b"
  shows "a = b"
proof -
  obtain v where "v \<in> Q" "v \<in> Q'" using intersect [OF assms(1,2)] by blast
  then show ?thesis using assms(3,4) by (metis option.inject)
qed

end

definition committee_quorum :: "'a set \<Rightarrow> 'a set \<Rightarrow> bool" where
  "committee_quorum C Q \<longleftrightarrow> finite C \<and> C \<noteq> {} \<and> card C * 2 + 2 \<le> U64_MAX \<and> Q \<subseteq> C
     \<and> notarization_threshold (card C) \<le> card Q"

lemma notarization_threshold_eq: "n * 2 + 2 \<le> U64_MAX \<Longrightarrow> notarization_threshold n = (n * 2 + 2) div 3"
  by (simp add: notarization_threshold_def)

interpretation committee: quorum_system "committee_quorum C" for C
proof
  fix Q Q' assume q: "committee_quorum C Q" "committee_quorum C Q'"
  show "Q \<inter> Q' \<noteq> {}"
  proof
    assume "Q \<inter> Q' = {}"
    moreover have fin: "finite C" "Q \<subseteq> C" "Q' \<subseteq> C" using q by (simp_all add: committee_quorum_def)
    ultimately have "card Q + card Q' = card (Q \<union> Q')"
      by (metis card_Un_disjoint finite_subset)
    also have "\<dots> \<le> card C" using fin by (intro card_mono) auto
    finally have "card Q + card Q' \<le> card C" .
    moreover have "(card C * 2 + 2) div 3 \<le> card Q" "(card C * 2 + 2) div 3 \<le> card Q'" "0 < card C"
      using q notarization_threshold_eq [of "card C"] by (auto simp: committee_quorum_def card_gt_0_iff)
    ultimately show False by linarith
  qed
qed

section \<open>Finality\<close>

definition triple :: "StreamletState \<Rightarrow> u64 \<Rightarrow> bool" where
  "triple s h \<longleftrightarrow> notarized_height s h \<and> notarized_height s (Suc h) \<and> notarized_height s (Suc (Suc h))"

definition finalize_at :: "StreamletState \<Rightarrow> u64 \<Rightarrow> StreamletState" where
  "finalize_at s f = prune_below (s\<lparr>ss_finalized_height := f,
     ss_finalized_hash := the (get_notarized_at s f)\<rparr>) f"

lemma finality_loop_eq:
  assumes "streamlet_inv s"
    and "\<forall>h \<in> set hs. ss_finalized_height s < Suc h \<and> h + 2 \<le> U64_MAX"
  shows "finality_loop s hs = (case List.find (triple s) hs of
      None \<Rightarrow> (None, s) | Some h \<Rightarrow> (Some (Suc h), finalize_at s (Suc h)))"
  using assms(2)
proof (induction hs)
  case (Cons h hs)
  have [simp]: "add_u64 h 1 = Suc h" "add_u64 h (Suc 0) = Suc h" "add_u64 h 2 = Suc (Suc h)"
    using Cons.prems by simp_all
  show ?case
  proof (cases "triple s h")
    case True
    then obtain a b c where n: "get_notarized_at s h = Some a" "get_notarized_at s (Suc h) = Some b"
      "get_notarized_at s (Suc (Suc h)) = Some c"
      unfolding triple_def get_notarized_at_iff [OF assms(1), symmetric] by blast
    then show ?thesis using True Cons.prems by (simp add: finalize_at_def Let_def)
  next
    case False
    then have "get_notarized_at s h = None \<or> get_notarized_at s (Suc h) = None
        \<or> get_notarized_at s (Suc (Suc h)) = None"
      unfolding triple_def get_notarized_at_iff [OF assms(1), symmetric] by blast
    then have "finality_loop s (h # hs) = finality_loop s hs"
      by (auto split: option.splits)
    then show ?thesis using False Cons by simp
  qed
qed simp

text \<open>The heights in the state are far from the end of the 64-bit range, and the finalized height is
  not above the highest notarized one.\<close>
definition tip_ok :: "StreamletState \<Rightarrow> bool" where
  "tip_ok s \<longleftrightarrow> ss_highest_notarized_height s + 2 \<le> U64_MAX \<and> ss_finalized_height s \<le> ss_highest_notarized_height s"

lemma find_least:
  assumes "List.find P [a..<b] = Some x"
  shows "P x" "a \<le> x" "x < b" "\<And>y. a \<le> y \<Longrightarrow> y < x \<Longrightarrow> \<not> P y"
proof -
  obtain i where i: "i < b - a" "P ([a..<b] ! i)" "x = [a..<b] ! i" "\<forall>j < i. \<not> P ([a..<b] ! j)"
    using assms by (auto simp: find_Some_iff)
  then have x: "x = a + i" by simp
  show "P x" using i(2,3) by simp
  show "a \<le> x" "x < b" using i(1) x by simp_all
  fix y assume y: "a \<le> y" "y < x"
  then have "\<not> P ([a..<b] ! (y - a))" using i(4) x by simp
  then show "\<not> P y" using y i(1) x by simp
qed

lemma check_finality_cases:
  assumes inv: "streamlet_inv s" and tip: "tip_ok s"
  obtains (final) h where "ss_finalized_height s < h" "h < ss_highest_notarized_height s" "triple s h"
      "\<forall>y. ss_finalized_height s < y \<and> y < h \<longrightarrow> \<not> triple s y"
      "check_finality s = (Some (Suc h), finalize_at s (Suc h))"
  | (none) "\<forall>h. ss_finalized_height s < h \<and> h < ss_highest_notarized_height s \<longrightarrow> \<not> triple s h"
      "check_finality s = (None, s)"
proof -
  let ?f = "ss_finalized_height s" and ?t = "ss_highest_notarized_height s"
  have f: "add_u64 ?f 1 = Suc ?f" using tip by (simp add: tip_ok_def)
  have loop: "check_finality s = (case List.find (triple s) [Suc ?f..<Suc (?t - 1)] of
      None \<Rightarrow> (None, s) | Some h \<Rightarrow> (Some (Suc h), finalize_at s (Suc h)))"
    unfolding check_finality_def f saturating_sub_eq
    by (rule finality_loop_eq [OF inv]) (use tip in \<open>auto simp: tip_ok_def\<close>)
  show thesis
  proof (cases "List.find (triple s) [Suc ?f..<Suc (?t - 1)]")
    case None
    then have no: "h \<in> set [Suc ?f..<Suc (?t - 1)] \<Longrightarrow> \<not> triple s h" for h
      by (simp only: find_None_iff) blast
    have "\<not> triple s h" if "?f < h \<and> h < ?t" for h
      by (rule no) (use that in \<open>simp only: set_upt atLeastLessThan_iff, linarith\<close>)
    moreover have "check_finality s = (None, s)" unfolding loop None by simp
    ultimately show thesis using none by blast
  next
    case (Some h)
    note l = find_least [OF Some]
    have "check_finality s = (Some (Suc h), finalize_at s (Suc h))" unfolding loop Some by simp
    then show thesis using l by (intro final [of h]) (simp_all add: Suc_le_eq)
  qed
qed

section \<open>Votes\<close>

definition remote_max :: "StreamletState \<Rightarrow> u64" where
  "remote_max s = max_or_0 (map (fst \<circ> fst) (ss_remote_votes s))"

lemma foldl_max_start: "(a::nat) \<le> foldl max a xs"
proof (induction xs arbitrary: a)
  case (Cons x xs)
  have "a \<le> max a x" by simp
  also have "\<dots> \<le> foldl max (max a x) xs" by (rule Cons.IH)
  finally show ?case by simp
qed simp

lemma foldl_max_ge: "x \<in> set xs \<Longrightarrow> (x::nat) \<le> foldl max a xs"
proof (induction xs arbitrary: a)
  case (Cons y xs)
  then show ?case
    using foldl_max_start [of "max a y" xs] by (cases "x = y") simp_all
qed simp

lemma foldl_max_mem: "foldl max (a::nat) xs = a \<or> foldl max a xs \<in> set xs"
proof (induction xs arbitrary: a)
  case (Cons x xs)
  then show ?case using Cons.IH [of "max a x"] by (auto simp: max_def split: if_splits)
qed simp

lemma remote_max_ge: "map_of (ss_remote_votes s) (e, n) = Some h \<Longrightarrow> e \<le> remote_max s"
  unfolding remote_max_def max_or_0_def by (rule foldl_max_ge) (force dest: map_of_SomeD)

lemma remote_max_le:
  assumes "hm_ok (ss_remote_votes s)" "\<And>e n h. map_of (ss_remote_votes s) (e, n) = Some h \<Longrightarrow> e \<le> k"
  shows "remote_max s \<le> k"
proof -
  have "remote_max s = 0 \<or> remote_max s \<in> set (map (fst \<circ> fst) (ss_remote_votes s))"
    unfolding remote_max_def max_or_0_def by (rule foldl_max_mem)
  then show ?thesis
  proof
    assume "remote_max s \<in> set (map (fst \<circ> fst) (ss_remote_votes s))"
    then obtain n h where "((remote_max s, n), h) \<in> set (ss_remote_votes s)" by auto
    then have "map_of (ss_remote_votes s) (remote_max s, n) = Some h"
      using assms(1) by (simp add: hm_ok_def)
    then show ?thesis by (rule assms(2))
  qed simp
qed

text \<open>Every counted vote is on the record of its epoch, unless the record is too old to be kept. The flag
  says whether the record has been kept since the start.\<close>
definition vote_on_record :: "StreamletState \<Rightarrow> bytes \<Rightarrow> StreamletVote \<Rightarrow> bool" where
  "vote_on_record s hash v \<longleftrightarrow> map_of (ss_remote_votes s) (sv_epoch v, voter_of_vote v) = Some hash
     \<or> sv_epoch v + 100 < remote_max s"

definition votes_ok :: "bool \<Rightarrow> NodeId set \<Rightarrow> StreamletState \<Rightarrow> bool" where
  "votes_ok R C s \<longleftrightarrow> hm_ok (ss_remote_votes s)
     \<and> (\<forall>e n h. map_of (ss_remote_votes s) (e, n) = Some h \<longrightarrow> e + 100 \<le> U64_MAX)
     \<and> (\<forall>hash b v. map_of (ss_proposed_blocks s) hash = Some b \<longrightarrow> v \<in> set (pb_votes b)
          \<longrightarrow> voter_of_vote v \<in> C \<and> (R \<longrightarrow> vote_on_record s hash v))"

lemma votes_ok_D:
  "votes_ok R C s \<Longrightarrow> map_of (ss_proposed_blocks s) hash = Some b \<Longrightarrow> v \<in> set (pb_votes b)
     \<Longrightarrow> voter_of_vote v \<in> C \<and> (R \<longrightarrow> vote_on_record s hash v)"
  unfolding votes_ok_def by blast

text \<open>The state with a vote noted, and with a block replaced.\<close>
definition note_vote :: "StreamletState \<Rightarrow> StreamletVote \<Rightarrow> StreamletState" where
  "note_vote s vote = s\<lparr>ss_remote_votes :=
     AList.update (sv_epoch vote, voter_of_vote vote) (sv_block_hash vote) (ss_remote_votes s)\<rparr>"

definition equivocates :: "StreamletState \<Rightarrow> StreamletVote \<Rightarrow> bool" where
  "equivocates s vote = (case map_of (ss_remote_votes s) (sv_epoch vote, voter_of_vote vote) of
     Some existing \<Rightarrow> existing \<noteq> sv_block_hash vote | None \<Rightarrow> False)"

definition set_block :: "StreamletState \<Rightarrow> bytes \<Rightarrow> ProposedBlock \<Rightarrow> StreamletState" where
  "set_block s hash b = s\<lparr>ss_proposed_blocks := AList.update hash b (ss_proposed_blocks s)\<rparr>"

definition raise_tip :: "StreamletState \<Rightarrow> u64 \<Rightarrow> StreamletState" where
  "raise_tip s h = s\<lparr>ss_highest_notarized_height := max h (ss_highest_notarized_height s)\<rparr>"

lemma add_vote_cases:
  obtains (equivocation) "equivocates s vote" "add_vote s vote = ((False, None), s)"
  | (unknown) "\<not> equivocates s vote" "map_of (ss_proposed_blocks s) (sv_block_hash vote) = None"
      "add_vote s vote = ((False, None), note_vote s vote)"
  | (counted) b b' where "\<not> equivocates s vote" "map_of (ss_proposed_blocks s) (sv_block_hash vote) = Some b"
      "block_add_vote b vote (ss_committee_size s) = (False, b')"
      "add_vote s vote = ((False, None), set_block (note_vote s vote) (sv_block_hash vote) b')"
  | (notarized) b b' where "\<not> equivocates s vote" "map_of (ss_proposed_blocks s) (sv_block_hash vote) = Some b"
      "block_add_vote b vote (ss_committee_size s) = (True, b')"
      "add_vote s vote =
        (let (f, s') = check_finality (raise_tip (set_block (note_vote s vote) (sv_block_hash vote) b')
           (block_height b')) in ((True, f), s'))"
proof (cases "equivocates s vote")
  case True
  then show thesis by (intro equivocation) (simp_all add: add_vote_def equivocates_def Let_def)
next
  case ne: False
  show thesis
  proof (cases "map_of (ss_proposed_blocks s) (sv_block_hash vote)")
    case None
    then show thesis using ne
      by (intro unknown) (simp_all add: add_vote_def equivocates_def note_vote_def Let_def)
  next
    case (Some b)
    obtain j b' where j: "block_add_vote b vote (ss_committee_size s) = (j, b')" by fastforce
    show thesis
    proof (cases j)
      case True
      with ne Some j show thesis
        by (intro notarized [of b b']) (simp_all add: add_vote_def equivocates_def note_vote_def Let_def
            set_block_def raise_tip_def max_def)
    next
      case False
      with ne Some j show thesis
        by (intro counted [of b b']) (simp_all add: add_vote_def equivocates_def note_vote_def Let_def
            set_block_def)
    qed
  qed
qed

section \<open>Preservation\<close>

definition live_inv :: "bool \<Rightarrow> NodeId set \<Rightarrow> StreamletState \<Rightarrow> bool" where
  "live_inv R C s \<longleftrightarrow> wf_streamlet s \<and> tip_ok s \<and> votes_ok R C s
     \<and> (\<forall>hash b. map_of (ss_proposed_blocks s) hash = Some b \<longrightarrow> block_height b + 2 \<le> U64_MAX)"

lemma streamlet_inv_remote [simp]:
  "wf_streamlet (s\<lparr>ss_remote_votes := r\<rparr>) = wf_streamlet s"
  "notarized_height (s\<lparr>ss_remote_votes := r\<rparr>) = notarized_height s"
  by (simp_all add: wf_streamlet_def streamlet_inv_def notarized_height_def fun_eq_iff)

lemma note_vote_keeps [simp]:
  "wf_streamlet (note_vote s vote) = wf_streamlet s"
  "tip_ok (note_vote s vote) = tip_ok s"
  "ss_proposed_blocks (note_vote s vote) = ss_proposed_blocks s"
  "ss_committee_size (note_vote s vote) = ss_committee_size s"
  "ss_finalized_height (note_vote s vote) = ss_finalized_height s"
  by (simp_all add: note_vote_def tip_ok_def)

lemma note_vote_record:
  assumes "votes_ok R C s" "\<not> equivocates s vote"
  shows "map_of (ss_remote_votes (note_vote s vote)) (e, n) =
      (if (e, n) = (sv_epoch vote, voter_of_vote vote) then Some (sv_block_hash vote)
       else map_of (ss_remote_votes s) (e, n))"
    and "remote_max s \<le> remote_max (note_vote s vote)"
proof -
  show eq: "map_of (ss_remote_votes (note_vote s vote)) (e, n) =
      (if (e, n) = (sv_epoch vote, voter_of_vote vote) then Some (sv_block_hash vote)
       else map_of (ss_remote_votes s) (e, n))" for e n
    by (simp add: note_vote_def)
  show "remote_max s \<le> remote_max (note_vote s vote)"
  proof (rule remote_max_le)
    show "hm_ok (ss_remote_votes s)" using assms(1) by (simp add: votes_ok_def)
    fix e n h assume "map_of (ss_remote_votes s) (e, n) = Some h"
    then have "\<exists>h. map_of (ss_remote_votes (note_vote s vote)) (e, n) = Some h" by (simp add: eq)
    then show "e \<le> remote_max (note_vote s vote)" using remote_max_ge by blast
  qed
qed

lemma note_vote_keeps_record:
  assumes ok: "votes_ok R C s" and ne: "\<not> equivocates s vote" and r: "vote_on_record s hash v"
  shows "vote_on_record (note_vote s vote) hash v"
proof (cases "map_of (ss_remote_votes s) (sv_epoch v, voter_of_vote v) = Some hash")
  case True
  then have "(sv_epoch v, voter_of_vote v) = (sv_epoch vote, voter_of_vote vote) \<Longrightarrow> hash = sv_block_hash vote"
    using ne by (auto simp: equivocates_def)
  with True show ?thesis unfolding vote_on_record_def note_vote_record(1) [OF ok ne] by auto
next
  case False
  then show ?thesis using r note_vote_record(2) [OF ok ne] unfolding vote_on_record_def by linarith
qed

lemma note_vote_votes_ok:
  assumes ok: "votes_ok R C s" and ne: "\<not> equivocates s vote" and e: "sv_epoch vote + 100 \<le> U64_MAX"
  shows "votes_ok R C (note_vote s vote)"
  unfolding votes_ok_def
proof (intro conjI allI impI)
  show "hm_ok (ss_remote_votes (note_vote s vote))" using ok by (simp add: votes_ok_def note_vote_def)
next
  fix e' n h assume "map_of (ss_remote_votes (note_vote s vote)) (e', n) = Some h"
  then show "e' + 100 \<le> U64_MAX"
    unfolding note_vote_record(1) [OF ok ne] using ok e by (auto simp: votes_ok_def split: if_splits)
next
  fix hash b v assume "map_of (ss_proposed_blocks (note_vote s vote)) hash = Some b" "v \<in> set (pb_votes b)"
  then have v: "voter_of_vote v \<in> C \<and> (R \<longrightarrow> vote_on_record s hash v)" using votes_ok_D [OF ok] by simp
  then show "voter_of_vote v \<in> C" "R \<Longrightarrow> vote_on_record (note_vote s vote) hash v"
    using note_vote_keeps_record [OF ok ne] by blast+
qed

lemma note_vote_noted: "vote_on_record (note_vote s vote) (sv_block_hash vote) vote"
  by (simp add: vote_on_record_def note_vote_def)

lemma set_block_keeps [simp]:
  "ss_remote_votes (set_block s hash b) = ss_remote_votes s"
  "ss_committee_size (set_block s hash b) = ss_committee_size s"
  "ss_finalized_height (set_block s hash b) = ss_finalized_height s"
  "ss_highest_notarized_height (set_block s hash b) = ss_highest_notarized_height s"
  "map_of (ss_proposed_blocks (set_block s hash b)) = (map_of (ss_proposed_blocks s))(hash \<mapsto> b)"
  "remote_max (set_block s hash b) = remote_max s"
  "vote_on_record (set_block s hash b) = vote_on_record s"
  by (simp_all add: set_block_def remote_max_def vote_on_record_def fun_eq_iff)

lemma set_block_wf:
  assumes wf: "wf_streamlet s" and b: "map_of (ss_proposed_blocks s) hash = Some b"
    and b': "block_ok (ss_committee_size s) hash b'" "pb_header b' = pb_header b"
  shows "wf_streamlet (set_block s hash b')"
proof -
  have inv: "streamlet_inv s" using wf by (simp add: wf_streamlet_def)
  have "k \<in> set (hm_entry (ss_blocks_by_height s) h) \<longleftrightarrow>
      (\<exists>c. map_of (ss_proposed_blocks (set_block s hash b')) k = Some c \<and> block_height c = h)" for k h
    unfolding index_mem [OF inv] using b b'(2) by (cases "k = hash") simp_all
  moreover have "block_ok (ss_committee_size s) k c"
    if "map_of (ss_proposed_blocks (set_block s hash b')) k = Some c" for k c
    using that b'(1) inv unfolding streamlet_inv_def by (cases "k = hash") simp_all
  moreover have "ss_blocks_by_height (set_block s hash b') = ss_blocks_by_height s"
    by (simp add: set_block_def)
  ultimately show ?thesis using wf
    unfolding wf_streamlet_def streamlet_inv_def index_ok_def by simp
qed

lemma set_block_votes_ok:
  assumes ok: "votes_ok R C s" and b: "map_of (ss_proposed_blocks s) hash = Some b"
    and new: "set (pb_votes b') \<subseteq> insert vote (set (pb_votes b))" "voter_of_vote vote \<in> C"
      "vote_on_record s hash vote"
  shows "votes_ok R C (set_block s hash b')"
proof -
  have "voter_of_vote v \<in> C \<and> (R \<longrightarrow> vote_on_record s k v)"
    if "map_of (ss_proposed_blocks (set_block s hash b')) k = Some c" "v \<in> set (pb_votes c)" for k c v
  proof (cases "k = hash")
    case True
    then have "v = vote \<or> v \<in> set (pb_votes b)" using that new(1) by auto
    then show ?thesis using True new(2,3) votes_ok_D [OF ok b] by blast
  next
    case False
    then show ?thesis using that votes_ok_D [OF ok] by simp
  qed
  then show ?thesis using ok unfolding votes_ok_def by simp
qed

lemma raise_tip_keeps [simp]:
  "wf_streamlet (raise_tip s h) = wf_streamlet s" "votes_ok R C (raise_tip s h) = votes_ok R C s"
  "ss_proposed_blocks (raise_tip s h) = ss_proposed_blocks s"
  "notarized_height (raise_tip s h) = notarized_height s"
  "ss_finalized_height (raise_tip s h) = ss_finalized_height s"
  "ss_committee_size (raise_tip s h) = ss_committee_size s"
  by (simp_all add: raise_tip_def wf_streamlet_def streamlet_inv_def votes_ok_def vote_on_record_def
      remote_max_def notarized_height_def fun_eq_iff)

lemma set_block_notarized:
  assumes "map_of (ss_proposed_blocks s) hash = Some b" "pb_header b' = pb_header b"
    and "notarized_height (set_block s hash b') h"
  shows "notarized_height s h \<or> (h = block_height b \<and> pb_notarized b')"
proof -
  obtain k c where "map_of (ss_proposed_blocks (set_block s hash b')) k = Some c" "block_height c = h"
    "pb_notarized c" using assms(3) unfolding notarized_height_def by blast
  then show ?thesis using assms(2) unfolding notarized_height_def by (cases "k = hash") auto
qed

lemma prune_remote:
  "map_of (ss_remote_votes (prune_below s H)) (e, n)
     = (if remote_max s \<le> add_u64 e 100 then map_of (ss_remote_votes s) (e, n) else None)"
proof -
  have "map_of (filter (\<lambda>((e, _), _). m \<le> add_u64 e 100) xs) (e, n)
      = (if m \<le> add_u64 e 100 then map_of xs (e, n) else None)" for m and xs :: "((u64 \<times> NodeId) \<times> bytes) list"
    by (induction xs) (auto split: prod.splits)
  then show ?thesis by (simp add: prune_below_def Let_def remote_max_def)
qed

lemma prune_remote_max:
  assumes ok: "votes_ok R C s"
  shows "remote_max (prune_below s H) = remote_max s"
proof (rule antisym)
  have hm: "hm_ok (ss_remote_votes s)" "hm_ok (ss_remote_votes (prune_below s H))"
    using ok by (simp_all add: votes_ok_def prune_below_def Let_def hm_ok_filter)
  show "remote_max (prune_below s H) \<le> remote_max s"
    by (rule remote_max_le [OF hm(2)]) (auto simp: prune_remote split: if_splits intro: remote_max_ge)
  have "remote_max s = 0 \<or> remote_max s \<in> set (map (fst \<circ> fst) (ss_remote_votes s))"
    unfolding remote_max_def max_or_0_def by (rule foldl_max_mem)
  then show "remote_max s \<le> remote_max (prune_below s H)"
  proof
    assume "remote_max s \<in> set (map (fst \<circ> fst) (ss_remote_votes s))"
    then obtain n h where "((remote_max s, n), h) \<in> set (ss_remote_votes s)" by auto
    then have m: "map_of (ss_remote_votes s) (remote_max s, n) = Some h"
      using hm(1) by (simp add: hm_ok_def)
    then have "remote_max s + 100 \<le> U64_MAX" using ok unfolding votes_ok_def by blast
    then have "map_of (ss_remote_votes (prune_below s H)) (remote_max s, n) = Some h"
      using m by (simp add: prune_remote)
    then show ?thesis by (rule remote_max_ge)
  qed simp
qed

lemma prune_votes_ok:
  assumes ok: "votes_ok R C s" and wf: "wf_streamlet s"
  shows "votes_ok R C (prune_below s H)"
  unfolding votes_ok_def
proof (intro conjI allI impI)
  show "hm_ok (ss_remote_votes (prune_below s H))"
    using ok by (simp add: votes_ok_def prune_below_def Let_def hm_ok_filter)
next
  fix e n h assume "map_of (ss_remote_votes (prune_below s H)) (e, n) = Some h"
  then have "map_of (ss_remote_votes s) (e, n) = Some h" by (simp add: prune_remote split: if_splits)
  then show "e + 100 \<le> U64_MAX" using ok unfolding votes_ok_def by blast
next
  fix hash b v assume b: "map_of (ss_proposed_blocks (prune_below s H)) hash = Some b" and v: "v \<in> set (pb_votes b)"
  have "map_of (ss_proposed_blocks s) hash = Some b"
    using b wf prune_blocks [of s H hash] by (auto simp: wf_streamlet_def split: option.splits if_splits)
  then have old: "voter_of_vote v \<in> C" "R \<longrightarrow> vote_on_record s hash v" using votes_ok_D [OF ok] v by blast+
  show "voter_of_vote v \<in> C" by (rule old(1))
  assume R: R
  show "vote_on_record (prune_below s H) hash v"
    unfolding vote_on_record_def prune_remote_max [OF ok] prune_remote
  proof (cases "map_of (ss_remote_votes s) (sv_epoch v, voter_of_vote v) = Some hash")
    case True
    then have "sv_epoch v + 100 \<le> U64_MAX" using ok unfolding votes_ok_def by blast
    then have "add_u64 (sv_epoch v) 100 = sv_epoch v + 100" by simp
    with True show "(if remote_max s \<le> add_u64 (sv_epoch v) 100
        then map_of (ss_remote_votes s) (sv_epoch v, voter_of_vote v) else None) = Some hash
        \<or> sv_epoch v + 100 < remote_max s" by simp
  next
    case False
    then show "(if remote_max s \<le> add_u64 (sv_epoch v) 100
        then map_of (ss_remote_votes s) (sv_epoch v, voter_of_vote v) else None) = Some hash
        \<or> sv_epoch v + 100 < remote_max s" using old(2) R unfolding vote_on_record_def by blast
  qed
qed

lemma live_inv_D:
  assumes "live_inv R C s"
  shows "wf_streamlet s" "streamlet_inv s" "tip_ok s" "votes_ok R C s"
    "map_of (ss_proposed_blocks s) hash = Some b \<Longrightarrow> block_height b + 2 \<le> U64_MAX"
    "map_of (ss_proposed_blocks s) hash = Some b \<Longrightarrow> block_ok (ss_committee_size s) hash b"
  using assms unfolding live_inv_def wf_streamlet_def streamlet_inv_def by blast+

lemma set_final_keeps:
  "live_inv R C s \<Longrightarrow> f \<le> ss_highest_notarized_height s \<Longrightarrow>
     live_inv R C (s\<lparr>ss_finalized_height := f, ss_finalized_hash := x\<rparr>)"
  by (simp add: live_inv_def wf_streamlet_def streamlet_inv_def tip_ok_def notarized_height_def votes_ok_def
      vote_on_record_def remote_max_def)

lemma prune_live:
  assumes "live_inv R C s"
  shows "live_inv R C (prune_below s H)"
proof -
  note d = live_inv_D [OF assms]
  have sub: "map_of (ss_proposed_blocks s) hash = Some b"
    if "map_of (ss_proposed_blocks (prune_below s H)) hash = Some b" for hash b
    using that d(1) prune_blocks [of s H hash] by (auto simp: wf_streamlet_def split: option.splits if_splits)
  have "tip_ok (prune_below s H)" using d(3) unfolding tip_ok_def by simp
  then show ?thesis
    using sub d(5) prune_wf [OF d(1)] prune_votes_ok [OF d(4,1)] unfolding live_inv_def by blast
qed

lemma check_finality_live:
  assumes "live_inv R C s"
  shows "live_inv R C (snd (check_finality s)) \<and> ss_finalized_height s \<le> ss_finalized_height (snd (check_finality s))"
proof -
  note d = live_inv_D [OF assms]
  show ?thesis
  proof (rule check_finality_cases [OF d(2,3)])
    fix h assume h: "ss_finalized_height s < h" "h < ss_highest_notarized_height s"
      "check_finality s = (Some (Suc h), finalize_at s (Suc h))"
    have "live_inv R C (finalize_at s (Suc h))"
      unfolding finalize_at_def using h(2) by (intro prune_live set_final_keeps assms) simp
    then show ?thesis using h by (simp add: finalize_at_def)
  qed (simp add: assms)
qed

lemma counted_live:
  assumes inv: "live_inv R C s" and ne: "\<not> equivocates s vote"
    and b: "map_of (ss_proposed_blocks s) (sv_block_hash vote) = Some b"
    and add: "block_add_vote b vote (ss_committee_size s) = (j, b')"
    and g: "voter_of_vote vote \<in> C" "sv_epoch vote + 100 \<le> U64_MAX"
  defines "s' \<equiv> set_block (note_vote s vote) (sv_block_hash vote) b'"
  shows "wf_streamlet s'" "votes_ok R C s'"
    "map_of (ss_proposed_blocks s') hash = Some c \<Longrightarrow> block_height c + 2 \<le> U64_MAX"
    "notarized_height s' h \<Longrightarrow> notarized_height s h \<or> (h = block_height b' \<and> j)"
    "block_height b' + 2 \<le> U64_MAX"
proof -
  note d = live_inv_D [OF inv]
  have b': "block_ok (ss_committee_size s) (sv_block_hash vote) b'" "pb_header b' = pb_header b"
    "set (pb_votes b') \<subseteq> insert vote (set (pb_votes b))" "j \<longleftrightarrow> pb_notarized b' \<and> \<not> pb_notarized b"
    using block_add_vote_ok [OF d(6) [OF b] refl add] by blast+
  show "wf_streamlet s'"
    unfolding s'_def using d(1) b b'(1,2) by (intro set_block_wf) simp_all
  show "votes_ok R C s'"
    unfolding s'_def
  proof (rule set_block_votes_ok)
    show "votes_ok R C (note_vote s vote)" using d(4) ne g(2) by (rule note_vote_votes_ok)
    show "map_of (ss_proposed_blocks (note_vote s vote)) (sv_block_hash vote) = Some b" using b by simp
    show "set (pb_votes b') \<subseteq> insert vote (set (pb_votes b))" by (rule b'(3))
  qed (rule g(1), rule note_vote_noted)
  show hb: "block_height b' + 2 \<le> U64_MAX" using d(5) [OF b] b'(2) by simp
  show "map_of (ss_proposed_blocks s') hash = Some c \<Longrightarrow> block_height c + 2 \<le> U64_MAX"
    using hb d(5) by (cases "hash = sv_block_hash vote") (simp_all add: s'_def)
  assume "notarized_height s' h"
  then have "notarized_height (note_vote s vote) h \<or> (h = block_height b \<and> pb_notarized b')"
    unfolding s'_def using b b'(2) by (intro set_block_notarized) simp_all
  then show "notarized_height s h \<or> (h = block_height b' \<and> j)"
    using b b'(2,4) unfolding notarized_height_def note_vote_keeps by auto
qed

lemma tallied_live:
  assumes inv: "live_inv R C s" and v: "\<not> equivocates s vote"
      "map_of (ss_proposed_blocks s) (sv_block_hash vote) = Some b"
      "block_add_vote b vote (ss_committee_size s) = (True, b')"
    and g: "voter_of_vote vote \<in> C" "sv_epoch vote + 100 \<le> U64_MAX"
  shows "live_inv R C (raise_tip (set_block (note_vote s vote) (sv_block_hash vote) b') (block_height b'))"
    (is "live_inv R C ?s")
proof -
  note c = counted_live [OF inv v g]
  have hi: "ss_highest_notarized_height ?s = max (block_height b') (ss_highest_notarized_height s)"
    by (simp add: raise_tip_def note_vote_def)
  have "ss_highest_notarized_height ?s + 2 \<le> U64_MAX"
    "ss_finalized_height ?s \<le> ss_highest_notarized_height ?s"
    using live_inv_D(3) [OF inv] c(5) unfolding hi tip_ok_def by (simp_all add: max_def)
  then show ?thesis unfolding live_inv_def tip_ok_def using c(1-3) by simp
qed

lemma add_vote_live:
  assumes inv: "live_inv R C s" and g: "voter_of_vote vote \<in> C" "sv_epoch vote + 100 \<le> U64_MAX"
  shows "live_inv R C (snd (add_vote s vote))
    \<and> ss_finalized_height s \<le> ss_finalized_height (snd (add_vote s vote))"
proof (cases rule: add_vote_cases [of s vote])
  case equivocation
  then show ?thesis using inv by simp
next
  case unknown
  then show ?thesis
    using inv note_vote_votes_ok [OF live_inv_D(4) [OF inv] unknown(1) g(2)]
    by (simp add: live_inv_def)
next
  case (counted b b')
  let ?s = "set_block (note_vote s vote) (sv_block_hash vote) b'"
  note c = counted_live [OF inv counted(1-3) g]
  have "tip_ok ?s" using live_inv_D(3) [OF inv] by (simp add: tip_ok_def note_vote_def)
  then have "live_inv R C ?s" unfolding live_inv_def using c(1-3) by blast
  then show ?thesis using counted(4) by simp
next
  case (notarized b b')
  from check_finality_live [OF tallied_live [OF inv notarized(1-3) g]] show ?thesis
    using notarized(4) by (simp add: Let_def split_beta)
qed

lemma add_proposal_live:
  assumes inv: "live_inv R C s" and h: "bh_height header + 2 \<le> U64_MAX"
  shows "live_inv R C (snd (add_proposal s header hash epoch))
    \<and> ss_finalized_height (snd (add_proposal s header hash epoch)) = ss_finalized_height s"
proof (cases "contains_key (ss_proposed_blocks s) hash")
  case True
  then show ?thesis using inv by (simp add: add_proposal_def)
next
  case False
  let ?s = "snd (add_proposal s header hash epoch)"
  note d = live_inv_D [OF inv]
  have blocks: "map_of (ss_proposed_blocks ?s) = (map_of (ss_proposed_blocks s))
      (hash \<mapsto> ProposedBlock_new header hash epoch)"
    and same: "ss_remote_votes ?s = ss_remote_votes s" "ss_finalized_height ?s = ss_finalized_height s"
      "ss_highest_notarized_height ?s = ss_highest_notarized_height s"
    using False by (simp_all add: add_proposal_def Let_def)
  have new: "pb_votes (ProposedBlock_new header hash epoch) = []"
    "\<not> pb_notarized (ProposedBlock_new header hash epoch)"
    "block_height (ProposedBlock_new header hash epoch) = bh_height header"
    by (simp_all add: ProposedBlock_new_def)
  have "hm_ok (ss_blocks_by_height ?s)" using False d(1)
    by (simp add: add_proposal_def Let_def wf_streamlet_def)
  then have "wf_streamlet ?s" using add_proposal_inv [OF d(2)] by (simp add: wf_streamlet_def)
  moreover have "tip_ok ?s" using d(3) unfolding tip_ok_def same by blast
  moreover have "votes_ok R C ?s"
    using d(4) new(1) unfolding votes_ok_def vote_on_record_def remote_max_def same blocks
    by (auto split: if_splits)
  moreover have "block_height b + 2 \<le> U64_MAX" if "map_of (ss_proposed_blocks ?s) k = Some b" for k b
    using that d(5) h new(3) unfolding blocks by (auto split: if_splits)
  ultimately show ?thesis unfolding live_inv_def same by blast
qed

section \<open>Runs\<close>

text \<open>What a committee member does: it learns proposals, records its own votes and counts the votes of
  the committee; it is set back to a stored height at a restart or when it yields its chain to a
  peer, and it drops its votes when the committee changes.\<close>
datatype streamlet_op =
  SPropose BlockHeader bytes u64
| SRecord u64 bytes
| SVote StreamletVote
| SRestore u64 bytes
| SClear

primrec streamlet_step :: "StreamletState \<Rightarrow> streamlet_op \<Rightarrow> StreamletState" where
  "streamlet_step s (SPropose header hash epoch) = snd (add_proposal s header hash epoch)"
| "streamlet_step s (SRecord epoch hash) = record_vote s epoch hash"
| "streamlet_step s (SVote vote) = snd (add_vote s vote)"
| "streamlet_step s (SRestore height hash) = restore s height hash"
| "streamlet_step s SClear = clear_pending s"

text \<open>Heights and epochs stay clear of the end of the 64-bit range, and votes come from the
  committee: the signature check of the caller.\<close>
primrec streamlet_guard :: "NodeId set \<Rightarrow> StreamletState \<Rightarrow> streamlet_op \<Rightarrow> bool" where
  "streamlet_guard C s (SPropose header hash epoch) \<longleftrightarrow> bh_height header + 2 \<le> U64_MAX"
| "streamlet_guard C s (SRecord epoch hash) \<longleftrightarrow> True"
| "streamlet_guard C s (SVote vote) \<longleftrightarrow> voter_of_vote vote \<in> C \<and> sv_epoch vote + 100 \<le> U64_MAX"
| "streamlet_guard C s (SRestore height hash) \<longleftrightarrow> height + 2 \<le> U64_MAX"
| "streamlet_guard C s SClear \<longleftrightarrow> True"

text \<open>The calls that set the highest notarized height back.\<close>
primrec resets :: "streamlet_op \<Rightarrow> bool" where
  "resets (SPropose header hash epoch) \<longleftrightarrow> False"
| "resets (SRecord epoch hash) \<longleftrightarrow> False"
| "resets (SVote vote) \<longleftrightarrow> False"
| "resets (SRestore height hash) \<longleftrightarrow> True"
| "resets SClear \<longleftrightarrow> True"

lemma record_vote_live [simp]: "live_inv R C (record_vote s epoch hash) = live_inv R C s"
  by (simp add: record_vote_def live_inv_def wf_streamlet_def streamlet_inv_def tip_ok_def
      votes_ok_def vote_on_record_def remote_max_def)

lemma restore_live:
  "live_inv R C s \<Longrightarrow> height + 2 \<le> U64_MAX \<Longrightarrow> live_inv R C (restore s height hash)"
  by (simp add: restore_def live_inv_def wf_streamlet_def streamlet_inv_def tip_ok_def
      votes_ok_def vote_on_record_def remote_max_def)

lemma clear_live:
  assumes "live_inv R C s"
  shows "live_inv False C (clear_pending s)"
proof -
  have "add_u64 (ss_finalized_height s) 1 = Suc (ss_finalized_height s)"
    using live_inv_D(3) [OF assms] by (simp add: tip_ok_def)
  moreover have "live_inv R C (prune_below s (Suc (ss_finalized_height s)))" by (rule prune_live [OF assms])
  ultimately show ?thesis
    by (simp add: clear_pending_def Let_def live_inv_def wf_streamlet_def streamlet_inv_def tip_ok_def votes_ok_def hm_ok_def)
qed

lemma streamlet_step_live:
  assumes "live_inv R C s" "streamlet_guard C s op" "R \<longrightarrow> op \<noteq> SClear"
  shows "live_inv R C (streamlet_step s op)"
    "\<not> resets op \<Longrightarrow> ss_finalized_height s \<le> ss_finalized_height (streamlet_step s op)"
proof -
  have "live_inv R C (streamlet_step s op) \<and> (\<not> resets op \<longrightarrow> ss_finalized_height s \<le> ss_finalized_height (streamlet_step s op))"
  proof (cases op)
    case (SPropose header hash epoch)
    then show ?thesis using assms add_proposal_live by simp
  next
    case (SRecord epoch hash)
    then show ?thesis using assms(1) by (simp add: record_vote_def [of s epoch hash])
      (simp add: record_vote_live [unfolded record_vote_def])
  next
    case (SVote vote)
    then show ?thesis using assms add_vote_live by simp
  next
    case (SRestore height hash)
    then show ?thesis using assms restore_live by simp
  next
    case SClear
    then show ?thesis using assms clear_live by simp
  qed
  then show "live_inv R C (streamlet_step s op)"
    "\<not> resets op \<Longrightarrow> ss_finalized_height s \<le> ss_finalized_height (streamlet_step s op)" by blast+
qed

interpretation streamlet: keeps_invariant streamlet_step "\<lambda>s op. streamlet_guard C s op \<and> (R \<longrightarrow> op \<noteq> SClear)" "live_inv R C"
    for C R
  by unfold_locales (simp add: streamlet_step_live(1))

interpretation streamlet_heights: never_decreases streamlet_step "\<lambda>s op. streamlet_guard C s op \<and> \<not> resets op"
    "live_inv False C" ss_finalized_height for C
  by unfold_locales (simp_all add: streamlet_step_live)

lemma live_inv_new: "live_inv R C (StreamletState_new me n)"
  by (simp add: live_inv_def wf_streamlet_def tip_ok_def votes_ok_def
      streamlet_inv_new [unfolded StreamletState_new_def] StreamletState_new_def hm_ok_def U64_MAX_def)

definition run_streamlet :: "NodeId \<Rightarrow> usize \<Rightarrow> streamlet_op list \<Rightarrow> StreamletState" where
  "run_streamlet me n ops = foldl streamlet_step (StreamletState_new me n) ops"

definition valid_run :: "NodeId set \<Rightarrow> NodeId \<Rightarrow> usize \<Rightarrow> streamlet_op list \<Rightarrow> bool" where
  "valid_run C me n ops = guarded (streamlet_guard C) streamlet_step (StreamletState_new me n) ops"

lemma guarded_also:
  "guarded g step s es \<Longrightarrow> \<forall>e \<in> set es. P e \<Longrightarrow> guarded (\<lambda>s e. g s e \<and> P e) step s es"
  by (induction es arbitrary: s) simp_all

lemma run_recorded:
  assumes "valid_run C me n ops" "R \<longrightarrow> SClear \<notin> set ops"
  shows "live_inv R C (run_streamlet me n ops)"
proof -
  have "\<forall>op \<in> set ops. R \<longrightarrow> op \<noteq> SClear" using assms(2) by blast
  from guarded_also [OF assms(1) [unfolded valid_run_def] this] show ?thesis
    unfolding run_streamlet_def by (rule streamlet.run_inv [OF live_inv_new])
qed

lemmas run_live = run_recorded [of _ _ _ _ False, simplified]

lemma prune_notarized_height:
  assumes "wf_streamlet s"
  shows "notarized_height (prune_below s H) h \<longleftrightarrow> H \<le> h \<and> notarized_height s h"
proof -
  have "map_of (ss_proposed_blocks (prune_below s H)) hash = Some b \<longleftrightarrow>
      map_of (ss_proposed_blocks s) hash = Some b \<and> H \<le> block_height b" for hash b
    using assms prune_blocks [of s H hash]
    by (auto simp: wf_streamlet_def not_less split: option.splits if_splits)
  then show ?thesis unfolding notarized_height_def by auto
qed

text \<open>Until a reset, no height above the highest notarized one is notarized.\<close>
definition tip_bound :: "StreamletState \<Rightarrow> bool" where
  "tip_bound s \<longleftrightarrow> (\<forall>h. notarized_height s h \<longrightarrow> h \<le> ss_highest_notarized_height s)"

lemma finality_tip_bound:
  assumes "live_inv R C s" "tip_bound s"
  shows "tip_bound (snd (check_finality s))"
proof -
  note d = live_inv_D [OF assms(1)]
  show ?thesis
  proof (rule check_finality_cases [OF d(2,3)])
    fix h assume cf: "check_finality s = (Some (Suc h), finalize_at s (Suc h))"
    let ?s = "s\<lparr>ss_finalized_height := Suc h, ss_finalized_hash := the (get_notarized_at s (Suc h))\<rparr>"
    have "wf_streamlet ?s" using d(1) by (simp add: wf_streamlet_def streamlet_inv_def)
    from prune_notarized_height [OF this] have "notarized_height (finalize_at s (Suc h)) k \<Longrightarrow> notarized_height s k" for k
      by (simp add: finalize_at_def notarized_height_def)
    then show ?thesis using assms(2) unfolding cf tip_bound_def by (simp add: finalize_at_def)
  qed (simp add: assms(2))
qed

lemma add_vote_tip_bound:
  assumes inv: "live_inv R C s" and g: "voter_of_vote vote \<in> C" "sv_epoch vote + 100 \<le> U64_MAX" and tip: "tip_bound s"
  shows "tip_bound (snd (add_vote s vote))"
proof (cases rule: add_vote_cases [of s vote])
  case unknown
  then show ?thesis using tip by (simp add: tip_bound_def note_vote_def)
next
  case (counted b b')
  have "notarized_height (set_block (note_vote s vote) (sv_block_hash vote) b') h \<Longrightarrow> notarized_height s h" for h
    using counted_live(4) [OF inv counted(1-3) g] by blast
  then show ?thesis using tip counted(4) by (auto simp: tip_bound_def note_vote_def)
next
  case (notarized b b')
  let ?s = "raise_tip (set_block (note_vote s vote) (sv_block_hash vote) b') (block_height b')"
  have hi: "ss_highest_notarized_height ?s = max (block_height b') (ss_highest_notarized_height s)"
    by (simp add: raise_tip_def note_vote_def)
  have "h \<le> ss_highest_notarized_height ?s" if "notarized_height ?s h" for h
    using that counted_live(4) [OF inv notarized(1-3) g] tip unfolding hi tip_bound_def by (auto simp: le_max_iff_disj)
  then have "tip_bound ?s" by (simp add: tip_bound_def)
  from finality_tip_bound [OF tallied_live [OF inv notarized(1-3) g] this] show ?thesis
    using notarized(4) by (simp add: Let_def split_beta)
qed (simp add: tip)

lemma add_proposal_tip_bound:
  assumes "tip_bound s"
  shows "tip_bound (snd (add_proposal s header hash epoch))"
proof (cases "contains_key (ss_proposed_blocks s) hash")
  case False
  have "notarized_height (snd (add_proposal s header hash epoch)) k \<Longrightarrow> notarized_height s k" for k
    using False by (auto simp: notarized_height_def add_proposal_def Let_def ProposedBlock_new_def split: if_splits)
  then show ?thesis using assms False by (auto simp: tip_bound_def add_proposal_def Let_def)
qed (simp add: add_proposal_def assms)

interpretation streamlet_tip: keeps_invariant streamlet_step "\<lambda>s op. streamlet_guard C s op \<and> \<not> resets op"
    "\<lambda>s. live_inv False C s \<and> tip_bound s" for C
proof
  fix s op assume a: "live_inv False C s \<and> tip_bound s" "streamlet_guard C s op \<and> \<not> resets op"
  then have "tip_bound (streamlet_step s op)"
    by (cases op) (simp_all add: add_proposal_tip_bound add_vote_tip_bound [of False C],
      simp add: record_vote_def tip_bound_def notarized_height_def)
  then show "live_inv False C (streamlet_step s op) \<and> tip_bound (streamlet_step s op)"
    using a by (simp add: streamlet_step_live(1))
qed

lemma run_tip_bound:
  assumes "valid_run C me n ops" "\<forall>op \<in> set ops. \<not> resets op"
  shows "tip_bound (run_streamlet me n ops)"
proof -
  have "live_inv False C (StreamletState_new me n) \<and> tip_bound (StreamletState_new me n)"
    using live_inv_new by (simp add: tip_bound_def notarized_height_def StreamletState_new_def)
  from streamlet_tip.run_inv [OF this guarded_also [OF assms(1) [unfolded valid_run_def] assms(2)]]
  show ?thesis by (simp add: run_streamlet_def)
qed

lemma set_block_hash [simp]:
  "ss_finalized_hash (set_block s hash b) = ss_finalized_hash s"
  "ss_finalized_hash (note_vote s vote) = ss_finalized_hash s"
  "ss_finalized_hash (raise_tip s h) = ss_finalized_hash s"
  by (simp_all add: set_block_def note_vote_def raise_tip_def)

lemma check_finality_committee [simp]: "ss_committee_size (snd (check_finality s)) = ss_committee_size s"
proof -
  have "ss_committee_size (snd (finality_loop s hs)) = ss_committee_size s" for hs
    by (induction hs) (auto simp: Let_def split: option.splits)
  then show ?thesis by (simp add: check_finality_def)
qed

lemma streamlet_step_committee [simp]: "ss_committee_size (streamlet_step s op) = ss_committee_size s"
proof (cases op)
  case (SVote vote)
  show ?thesis
    by (cases rule: add_vote_cases [of s vote]) (simp_all add: SVote Let_def split_beta)
qed (simp_all add: add_proposal_def Let_def record_vote_def restore_def clear_pending_def)

lemma run_committee: "ss_committee_size (run_streamlet me n ops) = n"
proof -
  have "ss_committee_size (foldl streamlet_step s ops) = ss_committee_size s" for s
    by (induction ops arbitrary: s) simp_all
  then show ?thesis by (simp add: run_streamlet_def StreamletState_new_def)
qed

text \<open>A quorum behind a block: distinct members of the committee, two thirds of its size.\<close>
definition quorum_block :: "NodeId set \<Rightarrow> usize \<Rightarrow> ProposedBlock \<Rightarrow> bool" where
  "quorum_block C n b \<longleftrightarrow> distinct (map voter_of_vote (pb_votes b)) \<and> voter_of_vote ` set (pb_votes b) \<subseteq> C
     \<and> pb_votes b \<noteq> [] \<and> 2 * n \<le> 3 * length (pb_votes b)"

lemma notarized_quorum:
  assumes "live_inv R C s" "map_of (ss_proposed_blocks s) hash = Some b" "pb_notarized b"
    "ss_committee_size s * 2 + 2 \<le> U64_MAX"
  shows "quorum_block C (ss_committee_size s) b"
proof -
  have "block_ok (ss_committee_size s) hash b" "votes_ok R C s"
    using live_inv_D(6,4) [OF assms(1)] assms(2) by blast+
  then show ?thesis
    using assms(3) notarization_threshold_eq [OF assms(4)] votes_ok_D [OF _ assms(2), of R C]
    by (auto simp: block_ok_def quorum_block_def)
qed

lemma finalize_at_blocks:
  assumes inv: "live_inv R C s" and t: "triple s h"
  shows "\<exists>b. map_of (ss_proposed_blocks (finalize_at s (Suc h))) (ss_finalized_hash (finalize_at s (Suc h))) = Some b
      \<and> block_height b = Suc h \<and> pb_notarized b"
    and "notarized_height (finalize_at s (Suc h)) (Suc (Suc h))"
proof -
  note d = live_inv_D [OF inv]
  let ?s = "s\<lparr>ss_finalized_height := Suc h, ss_finalized_hash := the (get_notarized_at s (Suc h))\<rparr>"
  have wf: "wf_streamlet ?s" using d(1) by (simp add: wf_streamlet_def streamlet_inv_def)
  then have "notarized_height (finalize_at s (Suc h)) (Suc (Suc h)) = notarized_height ?s (Suc (Suc h))"
    unfolding finalize_at_def by (simp add: prune_notarized_height)
  then show "notarized_height (finalize_at s (Suc h)) (Suc (Suc h))"
    using t by (simp add: triple_def notarized_height_def)
  obtain hash where hash: "get_notarized_at s (Suc h) = Some hash"
    using t get_notarized_at_iff [OF d(2), of "Suc h"] unfolding triple_def by blast
  obtain b where b: "map_of (ss_proposed_blocks s) hash = Some b" "block_height b = Suc h" "pb_notarized b"
    using get_notarized_at_Some [OF d(2) hash] by blast
  have "map_of (ss_proposed_blocks (prune_below ?s (Suc h))) hash = Some b"
    using wf prune_blocks [of ?s "Suc h" hash] b(1,2) by (simp add: wf_streamlet_def)
  then show "\<exists>b. map_of (ss_proposed_blocks (finalize_at s (Suc h))) (ss_finalized_hash (finalize_at s (Suc h))) = Some b
      \<and> block_height b = Suc h \<and> pb_notarized b"
    using b(2,3) hash by (simp add: finalize_at_def)
qed

lemma tallied_notarized:
  assumes b: "map_of (ss_proposed_blocks s) (sv_block_hash vote) = Some b" "\<not> pb_notarized b"
    and b': "pb_header b' = pb_header b" "pb_notarized b'"
  shows "notarized_height (raise_tip (set_block (note_vote s vote) (sv_block_hash vote) b') t) h \<longleftrightarrow>
    notarized_height s h \<or> h = block_height b"
proof -
  have "notarized_height s h \<Longrightarrow> \<exists>hash c. hash \<noteq> sv_block_hash vote \<and> map_of (ss_proposed_blocks s) hash = Some c
      \<and> block_height c = h \<and> pb_notarized c"
    using b unfolding notarized_height_def by (metis option.inject)
  moreover have "notarized_height (set_block (note_vote s vote) (sv_block_hash vote) b') h \<longleftrightarrow>
      (\<exists>hash c. hash \<noteq> sv_block_hash vote \<and> map_of (ss_proposed_blocks s) hash = Some c
        \<and> block_height c = h \<and> pb_notarized c) \<or> h = block_height b"
    using b'(1,2) unfolding notarized_height_def by (auto simp: note_vote_keeps)
  ultimately show ?thesis unfolding raise_tip_keeps notarized_height_def by blast
qed

text \<open>The vote that completes the quorum of a known block, and the heights that are notarized once
  it is counted.\<close>
definition completes_quorum :: "StreamletState \<Rightarrow> StreamletVote \<Rightarrow> ProposedBlock \<Rightarrow> bool" where
  "completes_quorum s vote b \<longleftrightarrow> map_of (ss_proposed_blocks s) (sv_block_hash vote) = Some b \<and> \<not> pb_notarized b
     \<and> \<not> equivocates s vote \<and> voter_of_vote vote \<notin> voter_of_vote ` set (pb_votes b)
     \<and> notarization_threshold (ss_committee_size s) \<le> Suc (length (pb_votes b))"

definition three_with :: "StreamletState \<Rightarrow> ProposedBlock \<Rightarrow> u64 \<Rightarrow> bool" where
  "three_with s b h \<longleftrightarrow> (\<forall>k \<in> {h, h + 1, h + 2}. notarized_height s k \<or> k = block_height b)"

lemma not_completing:
  assumes "\<nexists>b. completes_quorum s vote b"
  obtains s' where "add_vote s vote = ((False, None), s')" "ss_finalized_height s' = ss_finalized_height s"
    "ss_finalized_hash s' = ss_finalized_hash s"
proof (cases rule: add_vote_cases [of s vote])
  case (notarized b b')
  have "voter_of_vote vote \<notin> voter_of_vote ` set (pb_votes b)"
    using notarized(3) block_add_vote_dup by fastforce
  then have "completes_quorum s vote b"
    using notarized(1-3) by (simp add: completes_quorum_def block_add_vote_new)
  then show thesis using assms by blast
qed (rule that, simp_all)+

lemma completing:
  assumes inv: "live_inv R C s" and g: "voter_of_vote vote \<in> C" "sv_epoch vote + 100 \<le> U64_MAX"
    and b: "completes_quorum s vote b"
  obtains s1 where "live_inv R C s1" "add_vote s vote = (let (f, s') = check_finality s1 in ((True, f), s'))"
    "triple s1 = three_with s b" "ss_finalized_height s1 = ss_finalized_height s"
    "ss_finalized_hash s1 = ss_finalized_hash s"
    "ss_highest_notarized_height s1 = max (ss_highest_notarized_height s) (block_height b)"
proof -
  note q = b [unfolded completes_quorum_def]
  let ?b = "b\<lparr>pb_votes := pb_votes b @ [vote], pb_notarized := True\<rparr>"
  let ?s = "raise_tip (set_block (note_vote s vote) (sv_block_hash vote) ?b) (block_height b)"
  have add: "block_add_vote b vote (ss_committee_size s) = (True, ?b)"
    using q by (simp add: block_add_vote_new)
  have "live_inv R C ?s" using tallied_live [OF inv _ _ add g] q by simp
  moreover have "triple ?s h = three_with s b h" for h
    using tallied_notarized [of s vote b ?b] q unfolding triple_def three_with_def by simp
  then have "triple ?s = three_with s b" by (rule ext)
  moreover have "add_vote s vote = (let (f, s') = check_finality ?s in ((True, f), s'))"
    using q add by (cases rule: add_vote_cases [of s vote]) auto
  moreover have "ss_highest_notarized_height ?s = max (ss_highest_notarized_height s) (block_height b)"
    by (simp add: raise_tip_def note_vote_def max.commute)
  ultimately show thesis using that [of ?s] by simp
qed

lemma add_vote_finality:
  assumes inv: "live_inv R C s" and g: "voter_of_vote vote \<in> C" "sv_epoch vote + 100 \<le> U64_MAX"
    and b: "completes_quorum s vote b" and r: "add_vote s vote = ((j, fin), s')"
  shows "j" "case fin of
      None \<Rightarrow> ss_finalized_height s' = ss_finalized_height s \<and> ss_finalized_hash s' = ss_finalized_hash s
        \<and> (\<forall>h. ss_finalized_height s < h \<and> h < max (ss_highest_notarized_height s) (block_height b) \<longrightarrow> \<not> three_with s b h)
    | Some f \<Rightarrow> ss_finalized_height s' = f
        \<and> (\<exists>h. f = h + 1 \<and> ss_finalized_height s < h \<and> h < max (ss_highest_notarized_height s) (block_height b)
             \<and> three_with s b h \<and> (\<forall>k. ss_finalized_height s < k \<and> k < h \<longrightarrow> \<not> three_with s b k))
        \<and> (\<exists>b. map_of (ss_proposed_blocks s') (ss_finalized_hash s') = Some b \<and> block_height b = f \<and> pb_notarized b)
        \<and> notarized_height s' (f + 1)"
proof -
  obtain s1 where s1: "live_inv R C s1" "add_vote s vote = (let (f, s') = check_finality s1 in ((True, f), s'))"
    "triple s1 = three_with s b" "ss_finalized_height s1 = ss_finalized_height s"
    "ss_finalized_hash s1 = ss_finalized_hash s"
    "ss_highest_notarized_height s1 = max (ss_highest_notarized_height s) (block_height b)"
    by (rule completing [OF inv g b])
  have cf: "check_finality s1 = (fin, s')" and "j" using s1(2) r by (simp_all add: Let_def split_beta prod_eq_iff)
  then show "j" by simp
  show "case fin of
      None \<Rightarrow> ss_finalized_height s' = ss_finalized_height s \<and> ss_finalized_hash s' = ss_finalized_hash s
        \<and> (\<forall>h. ss_finalized_height s < h \<and> h < max (ss_highest_notarized_height s) (block_height b) \<longrightarrow> \<not> three_with s b h)
    | Some f \<Rightarrow> ss_finalized_height s' = f
        \<and> (\<exists>h. f = h + 1 \<and> ss_finalized_height s < h \<and> h < max (ss_highest_notarized_height s) (block_height b)
             \<and> three_with s b h \<and> (\<forall>k. ss_finalized_height s < k \<and> k < h \<longrightarrow> \<not> three_with s b k))
        \<and> (\<exists>b. map_of (ss_proposed_blocks s') (ss_finalized_hash s') = Some b \<and> block_height b = f \<and> pb_notarized b)
        \<and> notarized_height s' (f + 1)"
  proof (rule check_finality_cases [OF live_inv_D(2,3) [OF s1(1)]])
    fix h assume h: "ss_finalized_height s1 < h" "h < ss_highest_notarized_height s1" "triple s1 h"
      "\<forall>y. ss_finalized_height s1 < y \<and> y < h \<longrightarrow> \<not> triple s1 y"
      "check_finality s1 = (Some (Suc h), finalize_at s1 (Suc h))"
    have e: "fin = Some (Suc h)" "s' = finalize_at s1 (Suc h)" using h(5) cf by simp_all
    have "ss_finalized_height s' = Suc h" unfolding e by (simp add: finalize_at_def)
    then show ?thesis using h(1-4) finalize_at_blocks [OF s1(1) h(3)] unfolding e s1(3,4,6) by simp
  next
    assume n: "\<forall>h. ss_finalized_height s1 < h \<and> h < ss_highest_notarized_height s1 \<longrightarrow> \<not> triple s1 h"
      "check_finality s1 = (None, s1)"
    have e: "fin = None" "s' = s1" using n(2) cf by simp_all
    show ?thesis using n(1) unfolding e s1(3-6) by simp
  qed
qed

lemma epoch_choice:
  assumes inv: "live_inv True C s" and b: "map_of (ss_proposed_blocks s) hash = Some b" "pb_notarized b"
    and C: "finite C" "C \<noteq> {}" "card C * 2 + 2 \<le> U64_MAX" "ss_committee_size s = card C"
    and e: "\<forall>v \<in> set (pb_votes b). sv_epoch v = e" "remote_max s \<le> e + 100"
  shows "committee_quorum C (voter_of_vote ` set (pb_votes b))
    \<and> (\<forall>v \<in> voter_of_vote ` set (pb_votes b). map_of (ss_remote_votes s) (e, v) = Some hash)"
proof -
  have ok: "block_ok (card C) hash b" using live_inv_D(6) [OF inv b(1)] C(4) by simp
  have v: "voter_of_vote v \<in> C \<and> vote_on_record s hash v" if "v \<in> set (pb_votes b)" for v
    using votes_ok_D [OF live_inv_D(4) [OF inv] b(1) that] by simp
  have "card (voter_of_vote ` set (pb_votes b)) = length (pb_votes b)"
    using ok distinct_card [of "map voter_of_vote (pb_votes b)"] by (simp add: block_ok_def)
  then have "committee_quorum C (voter_of_vote ` set (pb_votes b))"
    using ok b(2) C(1-3) v by (auto simp: committee_quorum_def block_ok_def)
  moreover have "map_of (ss_remote_votes s) (e, voter_of_vote v) = Some hash" if "v \<in> set (pb_votes b)" for v
    using v [OF that] e that unfolding vote_on_record_def by auto
  ultimately show ?thesis by blast
qed

section \<open>Properties\<close>

text \<open>C4: The finality rule, for every vote of a committee member after any run, restores and committee
  changes included. The vote notarizes a block exactly if it completes the quorum of a stored block.
  Then the heights between the finalized one and the tip are searched upwards for three consecutive
  heights with a notarized block, this one counted; the middle of the first such three is finalized,
  its hash is that of a stored block of that height, and this block and one of the next height are
  each backed by two thirds of the committee, distinct members. If there are no such three, or the
  vote does not notarize, the finalized block stays. The tip is the highest notarized height, which a
  restore sets back, or the height of the voted block; parents are not looked at.\<close>

theorem finality_rule_exact:
  assumes "valid_run C me n ops" "n * 2 + 2 \<le> U64_MAX" "s = run_streamlet me n ops"
    and "streamlet_guard C s (SVote vote)" "add_vote s vote = ((j, fin), s')"
  shows "(j \<longleftrightarrow> (\<exists>b. completes_quorum s vote b))
    \<and> (fin = None \<longrightarrow> ss_finalized_height s' = ss_finalized_height s \<and> ss_finalized_hash s' = ss_finalized_hash s)
    \<and> (\<not> j \<longrightarrow> fin = None)
    \<and> (\<forall>b. completes_quorum s vote b \<longrightarrow> (let tip = max (ss_highest_notarized_height s) (block_height b) in case fin of
        None \<Rightarrow> \<forall>h. ss_finalized_height s < h \<and> h < tip \<longrightarrow> \<not> three_with s b h
      | Some f \<Rightarrow> ss_finalized_height s' = f
          \<and> (\<exists>h. f = h + 1 \<and> ss_finalized_height s < h \<and> h < tip \<and> three_with s b h
               \<and> (\<forall>k. ss_finalized_height s < k \<and> k < h \<longrightarrow> \<not> three_with s b k))
          \<and> (\<exists>b. map_of (ss_proposed_blocks s') (ss_finalized_hash s') = Some b \<and> block_height b = f \<and> quorum_block C n b)
          \<and> (\<exists>hash b. map_of (ss_proposed_blocks s') hash = Some b \<and> block_height b = f + 1 \<and> quorum_block C n b)))"
proof -
  have live: "live_inv False C s" using run_live [OF assms(1)] assms(3) by simp
  have g: "voter_of_vote vote \<in> C" "sv_epoch vote + 100 \<le> U64_MAX" using assms(4) by simp_all
  have step: "s' = streamlet_step s (SVote vote)" using assms(5) by simp
  have live': "live_inv False C s'" unfolding step by (rule streamlet_step_live [OF live assms(4)]) simp
  have n': "ss_committee_size s' = n" unfolding step streamlet_step_committee assms(3) by (rule run_committee)
  have q: "quorum_block C n b" if "map_of (ss_proposed_blocks s') hash = Some b" "pb_notarized b" for hash b
    using notarized_quorum [OF live' that] n' assms(2) by simp
  show ?thesis
  proof (cases "\<exists>b. completes_quorum s vote b")
    case True
    then obtain b where b: "completes_quorum s vote b" by blast
    have one: "completes_quorum s vote c \<longleftrightarrow> c = b" for c using b by (auto simp: completes_quorum_def)
    note f = add_vote_finality [OF live g b assms(5)]
    show ?thesis
    proof (cases fin)
      case None
      then show ?thesis using f by (simp add: one)
    next
      case (Some k)
      then show ?thesis using f q by (simp add: one notarized_height_def) blast
    qed
  next
    case False
    then show ?thesis by (rule not_completing) (use False assms(5) in simp)
  qed
qed

text \<open>A committee of one and three proposals whose parents are unrelated.\<close>
definition sample_header :: "u64 \<Rightarrow> BlockHeader" where
  "sample_header h = \<lparr> bh_height = h, bh_timestamp = 0, bh_parent_hash = BlockHash [7], bh_transactions_root = [],
     bh_state_root = [], bh_attestations_root = [], bh_producer = NodeId [1], bh_vrf_proof = [],
     bh_active_miners = 1, bh_geographic_diversity = 1, bh_producer_pubkey = [] \<rparr>"

definition sample_vote :: "u64 \<Rightarrow> bytes \<Rightarrow> u64 \<Rightarrow> StreamletVote" where
  "sample_vote e hash h = \<lparr> sv_epoch = e, sv_block_hash = hash, sv_height = h,
     sv_signature = \<lparr> vs_validator = NodeId [1], vs_signature = [] \<rparr> \<rparr>"

definition sample_ops :: "streamlet_op list" where
  "sample_ops = [SPropose (sample_header 1) [11] 1, SVote (sample_vote 1 [11] 1),
     SPropose (sample_header 2) [12] 2, SVote (sample_vote 2 [12] 2), SPropose (sample_header 3) [13] 3]"

definition sample_block :: "u64 \<Rightarrow> bool \<Rightarrow> ProposedBlock" where
  "sample_block h n = \<lparr> pb_header = sample_header h, pb_block_hash = [10 + h], pb_epoch = h,
     pb_votes = (if n then [sample_vote h [10 + h] h] else []), pb_notarized = n, pb_finalized = False \<rparr>"

definition sample_state :: StreamletState where
  "sample_state = \<lparr> ss_node_id = NodeId [1], ss_committee_size = 1,
     ss_proposed_blocks = [([11], sample_block 1 True), ([12], sample_block 2 True), ([13], sample_block 3 False)],
     ss_blocks_by_height = [(1, [[11]]), (2, [[12]]), (3, [[13]])], ss_finalized_height = 0,
     ss_finalized_hash = replicate 32 0, ss_voted_epochs = [], ss_highest_notarized_height = 2,
     ss_remote_votes = [((1, NodeId [1]), [11]), ((2, NodeId [1]), [12])] \<rparr>"

lemmas sample_defs = sample_header_def sample_vote_def sample_block_def contains_key_def hm_entry_def Let_def
  add_proposal_def ProposedBlock_new_def add_vote_def block_add_vote_def notarization_threshold_def
  check_finality_def get_notarized_at_def U64_MAX_def

lemma sample_run: "run_streamlet (NodeId [1]) 1 sample_ops = sample_state"
  by (simp add: run_streamlet_def sample_ops_def sample_state_def StreamletState_new_def sample_defs)

lemma sample_valid: "valid_run {NodeId [1]} (NodeId [1]) 1 sample_ops"
  by (simp add: valid_run_def sample_ops_def sample_header_def sample_vote_def U64_MAX_def)

lemma sample_final: "add_vote sample_state (sample_vote 3 [13] 3) = ((True, Some 2),
    sample_state\<lparr>ss_proposed_blocks := [([12], sample_block 2 True), ([13], sample_block 3 True)],
      ss_blocks_by_height := [(2, [[12]]), (3, [[13]])], ss_finalized_height := 2, ss_finalized_hash := [12],
      ss_highest_notarized_height := 3,
      ss_remote_votes := [((1, NodeId [1]), [11]), ((2, NodeId [1]), [12]), ((3, NodeId [1]), [13])]\<rparr>)"
  by (simp add: sample_state_def prune_below_def max_or_0_def sample_defs upt_rec)

lemma sample_completes: "completes_quorum sample_state (sample_vote 3 [13] 3) (sample_block 3 False)"
  by (simp add: completes_quorum_def equivocates_def sample_state_def sample_vote_def sample_block_def
      notarization_threshold_def U64_MAX_def)

theorem finality_rule_exact_witness:
  "three_with sample_state (sample_block 3 False) 1 \<and> (\<exists>b. quorum_block {NodeId [1]} 1 b \<and> block_height b = 2)"
proof -
  have "streamlet_guard {NodeId [1]} sample_state (SVote (sample_vote 3 [13] 3))" "1 * 2 + 2 \<le> U64_MAX"
    by (simp_all add: sample_vote_def U64_MAX_def)
  from finality_rule_exact [OF sample_valid this(2) sample_run [symmetric] this(1) sample_final]
  show ?thesis using sample_completes by (simp add: Let_def) blast
qed

text \<open>The height of the last finalized block never falls while proposals, own votes and the
  votes of others arrive, in whatever order; only a restore may lower it.\<close>

theorem finalized_height_monotone:
  assumes "valid_run C me n (ops @ later)" "\<forall>op \<in> set later. \<not> resets op"
  shows "ss_finalized_height (run_streamlet me n ops) \<le> ss_finalized_height (run_streamlet me n (ops @ later))"
proof -
  have ops: "valid_run C me n ops" and later: "guarded (streamlet_guard C) streamlet_step (run_streamlet me n ops) later"
    using assms(1) by (simp_all add: valid_run_def run_streamlet_def guarded_append)
  from streamlet_heights.run_mono [OF run_live [OF ops] guarded_also [OF later assms(2)]]
  show ?thesis by (simp add: run_streamlet_def)
qed

theorem finalized_height_monotone_witness:
  "ss_finalized_height (run_streamlet (NodeId [1]) 1 []) \<le> ss_finalized_height (run_streamlet (NodeId [1]) 1 sample_ops)"
proof -
  have "valid_run {NodeId [1]} (NodeId [1]) 1 ([] @ sample_ops)" "\<forall>op \<in> set sample_ops. \<not> resets op"
    using sample_valid by (simp_all add: sample_ops_def)
  from finalized_height_monotone [OF this] show ?thesis by simp
qed

text \<open>C5: No two blocks are notarized by votes of one epoch, whatever the node restores in between. Votes
  that conflict with an earlier vote of their sender in the epoch are refused, and two quorums of the
  committee share a member; the epoch has to be within the hundred epochs for which votes are
  remembered, and the record of votes must not have been emptied by a committee change.\<close>

theorem one_notarized_block_per_epoch:
  assumes "finite C" "C \<noteq> {}" "card C * 2 + 2 \<le> U64_MAX"
    and "valid_run C me (card C) ops" "s = run_streamlet me (card C) ops" "remote_max s \<le> e + 100"
    and "SClear \<notin> set ops"
    and "map_of (ss_proposed_blocks s) h1 = Some b1" "pb_notarized b1" "\<forall>v \<in> set (pb_votes b1). sv_epoch v = e"
    and "map_of (ss_proposed_blocks s) h2 = Some b2" "pb_notarized b2" "\<forall>v \<in> set (pb_votes b2). sv_epoch v = e"
  shows "h1 = h2"
proof -
  have inv: "live_inv True C s" "ss_committee_size s = card C"
    using run_recorded [OF assms(4), of True] run_committee assms(5,7) by simp_all
  note q = epoch_choice [OF inv(1) _ _ assms(1-3) inv(2) _ assms(6)]
  note q1 = q [OF assms(8-10)] and q2 = q [OF assms(11-13)]
  show ?thesis
    by (rule committee.one_choice [OF conjunct1 [OF q1] conjunct1 [OF q2] conjunct2 [OF q1] conjunct2 [OF q2]])
qed

theorem one_notarized_block_per_epoch_witness:
  "\<nexists>b. map_of (ss_proposed_blocks sample_state) [12] = Some b \<and> pb_notarized b
     \<and> list_all (\<lambda>v. sv_epoch v = 1) (pb_votes b)"
proof
  assume "\<exists>b. map_of (ss_proposed_blocks sample_state) [12] = Some b \<and> pb_notarized b
    \<and> list_all (\<lambda>v. sv_epoch v = 1) (pb_votes b)"
  then obtain b where b: "map_of (ss_proposed_blocks sample_state) [12] = Some b" "pb_notarized b"
    "\<forall>v \<in> set (pb_votes b). sv_epoch v = 1"
    by (auto simp: list_all_iff)
  have s: "map_of (ss_proposed_blocks sample_state) [11] = Some (sample_block 1 True)"
    "pb_notarized (sample_block 1 True)" "\<forall>v \<in> set (pb_votes (sample_block 1 True)). sv_epoch v = 1"
    "remote_max sample_state \<le> 1 + 100"
    by (simp_all add: sample_state_def sample_block_def sample_vote_def remote_max_def max_or_0_def)
  have "valid_run {NodeId [1]} (NodeId [1]) (card {NodeId [1]}) sample_ops"
    "sample_state = run_streamlet (NodeId [1]) (card {NodeId [1]}) sample_ops"
    using sample_valid sample_run by simp_all
  note run = this
  have "SClear \<notin> set sample_ops" by (simp add: sample_ops_def)
  from one_notarized_block_per_epoch [OF _ _ _ run s(4) this s(1-3) b] show False by (simp add: U64_MAX_def)
qed

text \<open>C11: Finality is reached. When a vote completes the quorum of the last missing of three consecutive
  heights above the finalized one, it finalizes a block above the old one at once, whatever else the
  node has stored, provided the node was never set back, by a restore or a committee change, or the
  lowest of the three heights is below the highest notarized height it has noted since. The three
  blocks need not extend each other.\<close>

theorem deciding_vote_finalizes:
  assumes "valid_run C me n ops" "s = run_streamlet me n ops" "streamlet_guard C s (SVote vote)"
    and "completes_quorum s vote b" "ss_finalized_height s < h" "three_with s b h"
    and "(\<forall>op \<in> set ops. \<not> resets op) \<or> h < max (ss_highest_notarized_height s) (block_height b)"
  shows "\<exists>f s'. add_vote s vote = ((True, Some f), s') \<and> ss_finalized_height s < f \<and> f \<le> h + 1"
proof -
  have live: "live_inv False C s" using run_live [OF assms(1)] assms(2) by simp
  have g: "voter_of_vote vote \<in> C" "sv_epoch vote + 100 \<le> U64_MAX" using assms(3) by simp_all
  have tip: "h < max (ss_highest_notarized_height s) (block_height b)"
    using assms(7)
  proof
    assume "\<forall>op \<in> set ops. \<not> resets op"
    then have "tip_bound s" using run_tip_bound [OF assms(1)] assms(2) by blast
    then show ?thesis using assms(6) by (auto simp: three_with_def tip_bound_def)
  qed
  obtain j fin s' where r: "add_vote s vote = ((j, fin), s')" by (metis surj_pair)
  note f = add_vote_finality [OF live g assms(4) r]
  show ?thesis
  proof (cases fin)
    case None
    then show ?thesis using f(2) assms(5,6) tip by simp
  next
    case (Some k)
    then obtain i where "k = i + 1" "ss_finalized_height s < i" "\<forall>k. ss_finalized_height s < k \<and> k < i \<longrightarrow> \<not> three_with s b k"
      using f(2) by auto
    moreover from this have "i \<le> h" using assms(5,6) by (meson not_le)
    ultimately show ?thesis using r f(1) Some by simp
  qed
qed

theorem deciding_vote_finalizes_witness:
  "\<exists>f s'. add_vote sample_state (sample_vote 3 [13] 3) = ((True, Some f), s') \<and> 0 < f \<and> f \<le> 1 + 1"
proof -
  let ?v = "sample_vote 3 [13] 3" and ?b = "sample_block 3 False"
  have g: "streamlet_guard {NodeId [1]} sample_state (SVote ?v)"
    by (simp add: sample_vote_def U64_MAX_def)
  have "notarized_height sample_state 1" "notarized_height sample_state 2" "block_height ?b = 3"
    unfolding notarized_height_def
    by (rule exI [of _ "[11]"], simp add: sample_state_def sample_block_def sample_header_def)
      (rule exI [of _ "[12]"], simp_all add: sample_state_def sample_block_def sample_header_def)
  then have n: "three_with sample_state ?b 1"
    by (simp add: three_with_def numeral_2_eq_2 numeral_3_eq_3)
  have "ss_finalized_height sample_state < 1" "\<forall>op \<in> set sample_ops. \<not> resets op"
    by (simp_all add: sample_state_def sample_ops_def)
  then show ?thesis
    using deciding_vote_finalizes [OF sample_valid sample_run [symmetric] g sample_completes _ n]
    by (metis gr0I not_less0)
qed

section \<open>Parents\<close>

text \<open>The same state, and the same calls, with other parent hashes in the proposals.\<close>
definition reparent_block :: "BlockHash \<Rightarrow> ProposedBlock \<Rightarrow> ProposedBlock" where
  "reparent_block parent b = b\<lparr>pb_header := (pb_header b)\<lparr>bh_parent_hash := parent\<rparr>\<rparr>"

definition reparent :: "(bytes \<Rightarrow> BlockHash) \<Rightarrow> StreamletState \<Rightarrow> StreamletState" where
  "reparent p s = s\<lparr>ss_proposed_blocks := map (\<lambda>(hash, b). (hash, reparent_block (p hash) b)) (ss_proposed_blocks s)\<rparr>"

primrec reparent_op :: "(bytes \<Rightarrow> BlockHash) \<Rightarrow> streamlet_op \<Rightarrow> streamlet_op" where
  "reparent_op p (SPropose header hash epoch) = SPropose (header\<lparr>bh_parent_hash := p hash\<rparr>) hash epoch"
| "reparent_op p (SRecord epoch hash) = SRecord epoch hash"
| "reparent_op p (SVote vote) = SVote vote"
| "reparent_op p (SRestore height hash) = SRestore height hash"
| "reparent_op p SClear = SClear"

lemma reparent_block_keeps [simp]:
  "block_height (reparent_block x b) = block_height b" "pb_notarized (reparent_block x b) = pb_notarized b"
  "pb_votes (reparent_block x b) = pb_votes b"
  by (simp_all add: reparent_block_def)

lemma reparent_keeps [simp]:
  "ss_finalized_height (reparent p s) = ss_finalized_height s" "ss_finalized_hash (reparent p s) = ss_finalized_hash s"
  "ss_highest_notarized_height (reparent p s) = ss_highest_notarized_height s"
  "ss_blocks_by_height (reparent p s) = ss_blocks_by_height s" "ss_committee_size (reparent p s) = ss_committee_size s"
  "ss_voted_epochs (reparent p s) = ss_voted_epochs s" "ss_remote_votes (reparent p s) = ss_remote_votes s"
  by (simp_all add: reparent_def)

lemma reparent_lookup [simp]:
  "map_of (ss_proposed_blocks (reparent p s)) hash = map_option (reparent_block (p hash)) (map_of (ss_proposed_blocks s) hash)"
proof -
  have "map_of (map (\<lambda>(k, b). (k, reparent_block (p k) b)) m) hash = map_option (reparent_block (p hash)) (map_of m hash)" for m
    by (induction m) auto
  then show ?thesis by (simp add: reparent_def)
qed

lemma map_keyed_update:
  "map (\<lambda>(k, b). (k, f k b)) (AList.update k x m) = AList.update k (f k x) (map (\<lambda>(k, b). (k, f k b)) m)"
  by (induction m) auto

lemma map_keyed_delete:
  "map (\<lambda>(k, b). (k, f k b)) (AList.delete k m) = AList.delete k (map (\<lambda>(k, b). (k, f k b)) m)"
  by (induction m) auto

lemma map_keyed_deletes:
  "map (\<lambda>(k, b). (k, f k b)) (foldl (\<lambda>m k. AList.delete k m) m ks)
     = foldl (\<lambda>m k. AList.delete k m) (map (\<lambda>(k, b). (k, f k b)) m) ks"
  by (induction ks arbitrary: m) (simp_all add: map_keyed_delete)

lemma map_keyed_prune:
  "map (\<lambda>(k, b). (k, f k b)) (foldl (\<lambda>m (_, ks). foldl (\<lambda>m k. AList.delete k m) m ks) m kss)
     = foldl (\<lambda>m (_, ks). foldl (\<lambda>m k. AList.delete k m) m ks) (map (\<lambda>(k, b). (k, f k b)) m) kss"
  by (induction kss arbitrary: m) (simp_all add: map_keyed_deletes split_beta)

lemma reparent_prune: "prune_below (reparent p s) H = reparent p (prune_below s H)"
  by (simp add: prune_below_def reparent_def Let_def map_keyed_prune)

lemma reparent_notarized_at [simp]: "get_notarized_at (reparent p s) h = get_notarized_at s h"
proof -
  have "(\<lambda>hash. case map_of (ss_proposed_blocks (reparent p s)) hash of Some proposed \<Rightarrow> pb_notarized proposed | None \<Rightarrow> False)
      = (\<lambda>hash. case map_of (ss_proposed_blocks s) hash of Some proposed \<Rightarrow> pb_notarized proposed | None \<Rightarrow> False)"
    by (rule ext) (simp split: option.split)
  then show ?thesis by (simp only: get_notarized_at_def reparent_keeps)
qed

lemma reparent_finalized:
  "reparent p s\<lparr>ss_finalized_height := f, ss_finalized_hash := x\<rparr> = reparent p (s\<lparr>ss_finalized_height := f, ss_finalized_hash := x\<rparr>)"
  by (simp add: reparent_def)

lemma reparent_finality_loop: "finality_loop (reparent p s) hs = map_prod id (reparent p) (finality_loop s hs)"
  by (induction hs) (simp_all add: Let_def reparent_finalized reparent_prune split: option.split)

lemma reparent_check_finality: "check_finality (reparent p s) = map_prod id (reparent p) (check_finality s)"
  by (simp add: check_finality_def reparent_finality_loop)

lemma reparent_states:
  "note_vote (reparent p s) vote = reparent p (note_vote s vote)"
  "set_block (reparent p s) hash (reparent_block (p hash) b) = reparent p (set_block s hash b)"
  "raise_tip (reparent p s) h = reparent p (raise_tip s h)"
  "equivocates (reparent p s) vote = equivocates s vote"
  by (simp_all add: note_vote_def set_block_def raise_tip_def equivocates_def) (simp_all add: reparent_def map_keyed_update)

lemma reparent_block_add_vote:
  "block_add_vote (reparent_block x b) vote n = map_prod id (reparent_block x) (block_add_vote b vote n)"
  by (simp add: block_add_vote_def reparent_block_def Let_def)

lemma reparent_add_vote: "add_vote (reparent p s) vote = map_prod id (reparent p) (add_vote s vote)"
proof (cases rule: add_vote_cases [of s vote])
  case equivocation
  then show ?thesis
    by (cases rule: add_vote_cases [of "reparent p s" vote]) (simp_all add: reparent_states)
next
  case unknown
  then show ?thesis
    by (cases rule: add_vote_cases [of "reparent p s" vote]) (simp_all add: reparent_states)
next
  case (counted b b')
  then show ?thesis
    by (cases rule: add_vote_cases [of "reparent p s" vote]) (auto simp: reparent_states reparent_block_add_vote)
next
  case (notarized b b')
  then show ?thesis
    by (cases rule: add_vote_cases [of "reparent p s" vote])
      (auto simp: reparent_states reparent_block_add_vote reparent_check_finality Let_def split_beta)
qed

lemma reparent_add_proposal:
  "add_proposal (reparent p s) (header\<lparr>bh_parent_hash := p hash\<rparr>) hash epoch = map_prod id (reparent p) (add_proposal s header hash epoch)"
proof -
  have "contains_key (ss_proposed_blocks (reparent p s)) hash = contains_key (ss_proposed_blocks s) hash"
    by (simp add: contains_key_def)
  then show ?thesis
    by (simp add: add_proposal_def Let_def)
      (simp add: reparent_def map_keyed_update ProposedBlock_new_def reparent_block_def)
qed

lemma reparent_step: "streamlet_step (reparent p s) (reparent_op p op) = reparent p (streamlet_step s op)"
proof (cases op)
  case SClear
  then show ?thesis by (simp add: clear_pending_def reparent_prune Let_def) (simp add: reparent_def)
qed (simp_all add: reparent_add_proposal reparent_add_vote, simp_all add: record_vote_def restore_def reparent_def)

lemma reparent_run: "run_streamlet me n (map (reparent_op p) ops) = reparent p (run_streamlet me n ops)"
proof -
  have "foldl streamlet_step (reparent p s) (map (reparent_op p) ops) = reparent p (foldl streamlet_step s ops)" for s
    by (induction ops arbitrary: s) (simp_all add: reparent_step)
  from this [of "StreamletState_new me n"] show ?thesis
    by (simp add: run_streamlet_def reparent_def StreamletState_new_def)
qed

text \<open>C32: Parents play no part. Whatever parent hashes the proposals of a run name, every vote has the
  same answer, the same height and block are finalized, and the node votes for the same proposals: of
  blocks that extend each other, as the documented rules demand, nothing is asked, and three blocks
  that form no chain are finalized just as three that do.\<close>

theorem finality_ignores_parents:
  "let s = run_streamlet me n ops; s' = run_streamlet me n (map (reparent_op p) ops)
   in fst (add_vote s' vote) = fst (add_vote s vote)
      \<and> ss_finalized_height (snd (add_vote s' vote)) = ss_finalized_height (snd (add_vote s vote))
      \<and> ss_finalized_hash (snd (add_vote s' vote)) = ss_finalized_hash (snd (add_vote s vote))
      \<and> should_vote s' hash epoch = should_vote s hash epoch
      \<and> next_proposal_height s' = next_proposal_height s \<and> next_proposal_parent s' = next_proposal_parent s"
  unfolding reparent_run
  by (simp add: reparent_add_vote Let_def should_vote_def next_proposal_height_def next_proposal_parent_def split: option.split)

text \<open>What a committee change leaves behind. Every block above the finalized height stays with
  the votes it has, counted towards the new committee's quorum, while the record that detects a
  second vote in an epoch is emptied and no later vote counts as equivocation against it.\<close>

theorem clear_pending_keeps_pending_votes:
  assumes "valid_run C me n ops" "s = run_streamlet me n ops"
    and "map_of (ss_proposed_blocks s) hash = Some b" "ss_finalized_height s < block_height b"
  shows "map_of (ss_proposed_blocks (clear_pending s)) hash = Some b
    \<and> \<not> equivocates (clear_pending s) vote
    \<and> ss_highest_notarized_height (clear_pending s) = ss_finalized_height s"
proof -
  note d = live_inv_D [OF run_live [OF assms(1)], folded assms(2)]
  have "add_u64 (ss_finalized_height s) 1 = Suc (ss_finalized_height s)"
    using d(3) by (simp add: tip_ok_def)
  then show ?thesis
    using d(1) assms(3,4)
    by (simp add: clear_pending_def Let_def wf_streamlet_def prune_blocks equivocates_def)
qed

theorem clear_pending_keeps_pending_votes_witness:
  "map_of (ss_proposed_blocks (clear_pending sample_state)) [12] = Some (sample_block 2 True)
     \<and> \<not> equivocates (clear_pending sample_state) (sample_vote 2 [99] 2)"
proof -
  have "map_of (ss_proposed_blocks sample_state) [12] = Some (sample_block 2 True)"
    "ss_finalized_height sample_state < block_height (sample_block 2 True)"
    by (simp_all add: sample_state_def sample_block_def sample_header_def)
  from clear_pending_keeps_pending_votes [OF sample_valid sample_run [symmetric] this]
  show ?thesis by blast
qed

end
