(* ===== verification/Merkle.thy ===== *)
theory Merkle
  imports Core_Types
begin

text \<open>
  The Merkle tree of \<^verbatim>\<open>gratia-state/src/merkle.rs\<close>: construction level by level, inclusion proofs
  and their stand-alone verification. SHA-256 is a parameter. Indexing a level out of its range,
  which panics in the code, is the value \<^term>\<open>None\<close>; the properties show that it does not happen
  for a built tree, that every leaf has a proof that verifies, that a proof of the right length
  cannot verify for anything that is not a leaf unless it exhibits a collision, and that the root
  does not determine how often the last leaf occurs.
\<close>

section \<open>Model\<close>

datatype ProofDirection = PD_Left | PD_Right

record ProofStep =
  ps_hash :: bytes
  ps_direction :: ProofDirection

record MerkleProof =
  mp_leaf_hash :: bytes
  mp_path :: "ProofStep list"
  mp_root :: bytes

record MerkleTree =
  mt_levels :: "bytes list list"

definition zero_hash :: bytes where
  "zero_hash = replicate 32 0"

definition hash_pair :: "(bytes \<Rightarrow> bytes) \<Rightarrow> bytes \<Rightarrow> bytes \<Rightarrow> bytes" where
  "hash_pair sha256 left right = sha256 (left @ right)"

text \<open>The loop over the chunks of two.\<close>
fun next_level :: "(bytes \<Rightarrow> bytes) \<Rightarrow> bytes list \<Rightarrow> bytes list" where
  "next_level sha256 (a # b # rest) = hash_pair sha256 a b # next_level sha256 rest"
| "next_level sha256 [a] = [hash_pair sha256 a a]"
| "next_level sha256 [] = []"

lemma next_level_length [simp]: "length (next_level sha256 xs) = (length xs + 1) div 2"
  by (induction sha256 xs rule: next_level.induct) simp_all

lemma next_level_nonempty: "length xs > 1 \<Longrightarrow> next_level sha256 xs \<noteq> []"
  by (cases "(sha256, xs)" rule: next_level.cases) simp_all

function build_loop :: "(bytes \<Rightarrow> bytes) \<Rightarrow> bytes list list \<Rightarrow> bytes list \<Rightarrow> bytes list list" where
  "build_loop sha256 levels current =
     (if length current > 1
      then let nxt = next_level sha256 current in build_loop sha256 (levels @ [nxt]) nxt
      else levels)"
  by pat_completeness auto
termination by (relation "measure (\<lambda>(_, _, current). length current)") auto

declare build_loop.simps [simp del]

definition merkle_build :: "(bytes \<Rightarrow> bytes) \<Rightarrow> bytes list \<Rightarrow> MerkleTree" where
  "merkle_build sha256 leaves =
     (if leaves = [] then \<lparr> mt_levels = [[zero_hash]] \<rparr>
      else \<lparr> mt_levels = build_loop sha256 [leaves] leaves \<rparr>)"

definition build_from_data :: "(bytes \<Rightarrow> bytes) \<Rightarrow> bytes list \<Rightarrow> MerkleTree" where
  "build_from_data sha256 items = merkle_build sha256 (map sha256 items)"

definition merkle_root :: "MerkleTree \<Rightarrow> bytes" where
  "merkle_root t =
     (if mt_levels t = [] \<or> last (mt_levels t) = [] then zero_hash else hd (last (mt_levels t)))"

definition leaf_count :: "MerkleTree \<Rightarrow> usize" where
  "leaf_count t = (case mt_levels t of [] \<Rightarrow> 0 | l # _ \<Rightarrow> length l)"

definition merkle_depth :: "MerkleTree \<Rightarrow> usize" where
  "merkle_depth t = (if mt_levels t = [] then 0 else length (mt_levels t) - 1)"

text \<open>The walk from the leaf to one below the root.\<close>
primrec path_loop :: "bytes list list \<Rightarrow> usize \<Rightarrow> ProofStep list \<Rightarrow> ProofStep list option" where
  "path_loop [] index path = Some path"
| "path_loop (level # levels) index path =
     (let sibling_index =
            (if index mod 2 = 0 then (if index + 1 < length level then index + 1 else index)
             else index - 1);
          direction = (if index mod 2 = 0 then PD_Right else PD_Left)
      in if sibling_index < length level
         then path_loop levels (index div 2)
                (path @ [\<lparr> ps_hash = level ! sibling_index, ps_direction = direction \<rparr>])
         else None)"

definition generate_proof :: "MerkleTree \<Rightarrow> usize \<Rightarrow> MerkleProof option option" where
  "generate_proof t leaf_index =
     (case mt_levels t of
        [] \<Rightarrow> Some None
      | leaves # _ \<Rightarrow>
          if length leaves = 1 \<and> leaves ! 0 = zero_hash then Some None
          else if leaf_index \<ge> length leaves then Some None
          else
            let leaf_hash = leaves ! leaf_index
            in case path_loop (take (length (mt_levels t) - 1) (mt_levels t)) leaf_index [] of
                 None \<Rightarrow> None
               | Some path \<Rightarrow>
                   Some (Some \<lparr> mp_leaf_hash = leaf_hash, mp_path = path, mp_root = merkle_root t \<rparr>))"

definition proof_step :: "(bytes \<Rightarrow> bytes) \<Rightarrow> bytes \<Rightarrow> ProofStep \<Rightarrow> bytes" where
  "proof_step sha256 current step =
     (case ps_direction step of
        PD_Left \<Rightarrow> hash_pair sha256 (ps_hash step) current
      | PD_Right \<Rightarrow> hash_pair sha256 current (ps_hash step))"

definition verify_proof :: "(bytes \<Rightarrow> bytes) \<Rightarrow> MerkleProof \<Rightarrow> bool" where
  "verify_proof sha256 p =
     (foldl (proof_step sha256) (mp_leaf_hash p) (mp_path p) = mp_root p)"

section \<open>Construction\<close>

text \<open>The levels above a list of nodes, from the bottom.\<close>
function levels_above :: "(bytes \<Rightarrow> bytes) \<Rightarrow> bytes list \<Rightarrow> bytes list list" where
  "levels_above sha256 xs =
     (if length xs > 1 then next_level sha256 xs # levels_above sha256 (next_level sha256 xs) else [])"
  by pat_completeness auto
termination by (relation "measure (\<lambda>(_, xs). length xs)") auto

declare levels_above.simps [simp del]

lemma build_loop_eq: "build_loop sha256 levels xs = levels @ levels_above sha256 xs"
proof (induction sha256 levels xs rule: build_loop.induct)
  case (1 sha256 levels xs)
  then show ?case
    by (cases "length xs > 1")
      (simp_all add: build_loop.simps [of sha256 levels xs] levels_above.simps [of sha256 xs] Let_def)
qed

lemma build_levels: "xs \<noteq> [] \<Longrightarrow> mt_levels (merkle_build sha256 xs) = xs # levels_above sha256 xs"
  by (simp add: merkle_build_def build_loop_eq)

text \<open>The root by recursion on the halved list.\<close>
function root_of :: "(bytes \<Rightarrow> bytes) \<Rightarrow> bytes list \<Rightarrow> bytes" where
  "root_of sha256 xs =
     (if length xs > 1 then root_of sha256 (next_level sha256 xs)
      else if xs = [] then zero_hash else hd xs)"
  by pat_completeness auto
termination by (relation "measure (\<lambda>(_, xs). length xs)") auto

declare root_of.simps [simp del]

lemma root_of_short [simp]: "root_of sha256 [] = zero_hash" "root_of sha256 [x] = x"
  by (simp_all add: root_of.simps [of sha256 "[]"] root_of.simps [of sha256 "[x]"])

lemma last_levels_above:
  "xs \<noteq> [] \<Longrightarrow> last (xs # levels_above sha256 xs) = [root_of sha256 xs]"
proof (induction sha256 xs rule: levels_above.induct)
  case (1 sha256 xs)
  show ?case
  proof (cases "length xs > 1")
    case True
    moreover from this have "next_level sha256 xs \<noteq> []" by (rule next_level_nonempty)
    ultimately show ?thesis using 1
      by (simp add: levels_above.simps [of sha256 xs] root_of.simps [of sha256 xs])
  next
    case False
    with 1 obtain x where "xs = [x]" by (cases xs) auto
    then show ?thesis by (simp add: levels_above.simps [of sha256 "[x]"] root_of.simps [of sha256 "[x]"])
  qed
qed

lemma merkle_root_eq: "merkle_root (merkle_build sha256 xs) = root_of sha256 xs"
proof (cases "xs = []")
  case True
  then show ?thesis by (simp add: merkle_root_def merkle_build_def root_of.simps)
next
  case False
  then show ?thesis
    using last_levels_above [OF False, of sha256] by (simp add: merkle_root_def build_levels)
qed

section \<open>Proofs\<close>

lemma next_level_nth:
  "j < (length xs + 1) div 2 \<Longrightarrow> next_level sha256 xs ! j =
     hash_pair sha256 (xs ! (2 * j)) (if 2 * j + 1 < length xs then xs ! (2 * j + 1) else xs ! (2 * j))"
proof (induction sha256 xs arbitrary: j rule: next_level.induct)
  case (1 sha256 a b rest)
  then show ?case by (cases j) simp_all
qed simp_all

lemma next_level_step:
  assumes "i < length xs" "length xs > 1"
  shows "\<exists>st. path_loop (xs # levels) i acc = path_loop levels (i div 2) (acc @ [st])
    \<and> proof_step sha256 (xs ! i) st = next_level sha256 xs ! (i div 2)
    \<and> i div 2 < length (next_level sha256 xs)"
proof (cases "i mod 2 = 0")
  case True
  then have i: "2 * (i div 2) = i" by presburger
  show ?thesis using True assms next_level_nth [of "i div 2" xs sha256]
    by (auto simp: i Let_def proof_step_def)
next
  case False
  then have i: "2 * (i div 2) = i - 1" "2 * (i div 2) + 1 = i" "0 < i" by presburger+
  show ?thesis using False assms next_level_nth [of "i div 2" xs sha256] i
    by (auto simp: Let_def proof_step_def)
qed

lemma path_verifies:
  "i < length xs \<Longrightarrow> \<exists>path. path_loop (butlast (xs # levels_above sha256 xs)) i acc = Some (acc @ path)
     \<and> foldl (proof_step sha256) (xs ! i) path = root_of sha256 xs \<and> length path = length (levels_above sha256 xs)"
proof (induction sha256 xs arbitrary: i acc rule: levels_above.induct)
  case (1 sha256 xs)
  show ?case
  proof (cases "length xs > 1")
    case True
    let ?ys = "next_level sha256 xs"
    obtain st where st: "path_loop (xs # butlast (?ys # levels_above sha256 ?ys)) i acc
          = path_loop (butlast (?ys # levels_above sha256 ?ys)) (i div 2) (acc @ [st])"
        "proof_step sha256 (xs ! i) st = ?ys ! (i div 2)" "i div 2 < length ?ys"
      using next_level_step [OF 1(2) True, of "butlast (?ys # levels_above sha256 ?ys)" acc sha256] by blast
    obtain path where p: "path_loop (butlast (?ys # levels_above sha256 ?ys)) (i div 2) (acc @ [st])
          = Some (acc @ [st] @ path)"
        "foldl (proof_step sha256) (?ys ! (i div 2)) path = root_of sha256 ?ys"
        "length path = length (levels_above sha256 ?ys)"
      using 1(1) [OF True st(3), of "acc @ [st]"] by auto
    have "levels_above sha256 xs = ?ys # levels_above sha256 ?ys" "root_of sha256 xs = root_of sha256 ?ys"
      using True by (simp_all add: levels_above.simps [of sha256 xs] root_of.simps [of sha256 xs])
    then show ?thesis using st(1,2) p by (intro exI [of _ "st # path"]) simp
  next
    case False
    with 1(2) obtain x where "xs = [x]" "i = 0" by (cases xs) auto
    then show ?thesis
      by (simp add: levels_above.simps [of sha256 "[x]"] root_of.simps [of sha256 "[x]"])
  qed
qed

lemma generate_proof_built:
  assumes "i < length xs" "xs \<noteq> [zero_hash]"
  shows "\<exists>p. generate_proof (merkle_build sha256 xs) i = Some (Some p) \<and> mp_leaf_hash p = xs ! i
    \<and> mp_root p = root_of sha256 xs \<and> foldl (proof_step sha256) (xs ! i) (mp_path p) = root_of sha256 xs
    \<and> length (mp_path p) = length (levels_above sha256 xs)"
proof -
  have ne: "xs \<noteq> []" using assms(1) by auto
  have z: "\<not> (length xs = 1 \<and> xs ! 0 = zero_hash)" using assms(2) by (cases xs) auto
  obtain path where p: "path_loop (butlast (xs # levels_above sha256 xs)) i [] = Some path"
    "foldl (proof_step sha256) (xs ! i) path = root_of sha256 xs" "length path = length (levels_above sha256 xs)"
    using path_verifies [OF assms(1), of sha256 "[]"] by auto
  show ?thesis
    using assms(1) z p build_levels [OF ne, of sha256]
    by (simp add: generate_proof_def merkle_root_eq butlast_conv_take)
qed

lemma levels_count:
  "xs \<noteq> [] \<Longrightarrow> length xs \<le> 2 ^ length (levels_above sha256 xs)
     \<and> (length xs > 1 \<longrightarrow> 2 ^ (length (levels_above sha256 xs) - 1) < length xs)"
proof (induction sha256 xs rule: levels_above.induct)
  case (1 sha256 xs)
  show ?case
  proof (cases "length xs > 1")
    case True
    let ?ys = "next_level sha256 xs" and ?d = "length (levels_above sha256 (next_level sha256 xs))"
    have la: "length (levels_above sha256 xs) = Suc ?d"
      using True by (simp add: levels_above.simps [of sha256 xs])
    have l: "length ?ys = (length xs + 1) div 2" by simp
    have ne: "?ys \<noteq> []" by (rule next_level_nonempty [OF True])
    have IH: "length ?ys \<le> 2 ^ ?d" "length ?ys > 1 \<longrightarrow> 2 ^ (?d - 1) < length ?ys"
      using 1(1) [OF True ne] by blast+
    have "length xs \<le> 2 ^ Suc ?d" using IH(1) l by simp
    moreover have "2 ^ ?d < length xs"
    proof (cases "length ?ys > 1")
      case True
      then have "0 < ?d" by (simp add: levels_above.simps [of sha256 ?ys])
      then have "2 ^ ?d = 2 * (2::nat) ^ (?d - 1)" by (cases ?d) simp_all
      moreover have "2 ^ (?d - 1) < (length xs + 1) div 2" using IH(2) True l by simp
      ultimately show ?thesis by linarith
    next
      case False
      then have "?d = 0" by (simp add: levels_above.simps [of sha256 ?ys])
      then show ?thesis using \<open>length xs > 1\<close> by simp
    qed
    ultimately show ?thesis unfolding la by simp
  next
    case False
    then show ?thesis using 1(2) by (cases xs) (simp_all add: levels_above.simps [of sha256 xs])
  qed
qed

section \<open>Soundness\<close>

text \<open>The byte strings hashed while building the tree and while checking a proof.\<close>

fun level_inputs :: "bytes list \<Rightarrow> bytes list" where
  "level_inputs (a # b # rest) = (a @ b) # level_inputs rest"
| "level_inputs [a] = [a @ a]"
| "level_inputs [] = []"

definition tree_inputs :: "(bytes \<Rightarrow> bytes) \<Rightarrow> bytes list \<Rightarrow> bytes list" where
  "tree_inputs sha256 xs = concat (map level_inputs (butlast (xs # levels_above sha256 xs)))"

definition step_input :: "bytes \<Rightarrow> ProofStep \<Rightarrow> bytes" where
  "step_input current step =
     (case ps_direction step of PD_Left \<Rightarrow> ps_hash step @ current | PD_Right \<Rightarrow> current @ ps_hash step)"

primrec path_inputs :: "(bytes \<Rightarrow> bytes) \<Rightarrow> bytes \<Rightarrow> ProofStep list \<Rightarrow> bytes list" where
  "path_inputs sha256 current [] = []"
| "path_inputs sha256 current (step # path) =
     step_input current step # path_inputs sha256 (sha256 (step_input current step)) path"

lemma proof_step_input: "proof_step sha256 current step = sha256 (step_input current step)"
  by (simp add: proof_step_def step_input_def hash_pair_def split: ProofDirection.split)

lemma next_level_mem:
  "y \<in> set (next_level sha256 xs) \<Longrightarrow>
     \<exists>a b. a \<in> set xs \<and> b \<in> set xs \<and> a @ b \<in> set (level_inputs xs) \<and> y = sha256 (a @ b)"
proof (induction sha256 xs rule: next_level.induct)
  case (1 sha256 a b rest)
  then show ?case by (cases "y = hash_pair sha256 a b") (auto simp: hash_pair_def)
qed (auto simp: hash_pair_def)

lemma tree_inputs_step:
  "length xs > 1 \<Longrightarrow> tree_inputs sha256 xs = level_inputs xs @ tree_inputs sha256 (next_level sha256 xs)"
  by (simp add: tree_inputs_def levels_above.simps [of sha256 xs])

text \<open>All hashes have 32 bytes.\<close>
definition hash_sized :: "bytes \<Rightarrow> ProofStep list \<Rightarrow> bytes list \<Rightarrow> bool" where
  "hash_sized leaf path xs \<longleftrightarrow> length leaf = 32 \<and> list_all (\<lambda>st. length (ps_hash st) = 32) path
     \<and> list_all (\<lambda>x. length x = 32) xs"

lemma path_sound:
  "xs \<noteq> [] \<Longrightarrow> length path = length (levels_above sha256 xs) \<Longrightarrow> hash_sized leaf path xs
    \<Longrightarrow> \<forall>x. length (sha256 x) = 32
    \<Longrightarrow> inj_on sha256 (set (tree_inputs sha256 xs) \<union> set (path_inputs sha256 leaf path))
    \<Longrightarrow> foldl (proof_step sha256) leaf path = root_of sha256 xs \<Longrightarrow> leaf \<in> set xs"
proof (induction sha256 xs arbitrary: path leaf rule: levels_above.induct)
  case (1 sha256 xs)
  show ?case
  proof (cases "length xs > 1")
    case True
    let ?ys = "next_level sha256 xs"
    have la: "levels_above sha256 xs = ?ys # levels_above sha256 ?ys" "root_of sha256 xs = root_of sha256 ?ys"
      using True by (simp_all add: levels_above.simps [of sha256 xs] root_of.simps [of sha256 xs])
    then obtain st rest where path: "path = st # rest" "length rest = length (levels_above sha256 ?ys)"
      using "1.prems"(2) by (cases path) auto
    let ?c = "sha256 (step_input leaf st)"
    have sized: "length leaf = 32" "length (ps_hash st) = 32" "\<And>x. x \<in> set xs \<Longrightarrow> length x = 32"
      "hash_sized ?c rest ?ys"
      using "1.prems"(3,4) next_level_mem [of _ sha256 xs] unfolding path
      by (fastforce simp: hash_sized_def list_all_iff)+
    have inputs: "set (tree_inputs sha256 xs) = set (level_inputs xs) \<union> set (tree_inputs sha256 ?ys)"
      by (simp add: tree_inputs_step [OF True])
    have inj: "inj_on sha256 (set (level_inputs xs) \<union> {step_input leaf st})"
      "inj_on sha256 (set (tree_inputs sha256 ?ys) \<union> set (path_inputs sha256 ?c rest))"
      using "1.prems"(5) unfolding path inputs by (auto elim: inj_on_subset)
    have fold: "foldl (proof_step sha256) ?c rest = root_of sha256 ?ys"
      using "1.prems"(6) unfolding path la foldl_Cons proof_step_input [of sha256 leaf st] .
    have "?c \<in> set ?ys"
      by (rule "1.IH" [OF True next_level_nonempty [OF True] path(2) sized(4) "1.prems"(4) inj(2) fold])
    then obtain a b where ab: "a \<in> set xs" "b \<in> set xs" "a @ b \<in> set (level_inputs xs)" "?c = sha256 (a @ b)"
      using next_level_mem by blast
    have "step_input leaf st = a @ b" using inj_onD [OF inj(1) ab(4)] ab(3) by simp
    then have "leaf = a \<or> leaf = b"
      using sized(1,2) sized(3) [OF ab(1)] sized(3) [OF ab(2)]
      by (cases "ps_direction st") (simp_all add: step_input_def)
    then show ?thesis using ab(1,2) by blast
  next
    case False
    with "1.prems"(1) obtain x where x: "xs = [x]" by (cases xs) auto
    then have "path = []" using "1.prems"(2) by (simp add: levels_above.simps [of sha256 "[x]"])
    then show ?thesis using "1.prems"(6) x by (simp add: root_of.simps [of sha256 "[x]"])
  qed
qed

lemma next_level_duplicate:
  "odd (length xs) \<Longrightarrow> next_level sha256 (xs @ [last xs]) = next_level sha256 xs"
proof (induction sha256 xs rule: next_level.induct)
  case (1 sha256 a b rest)
  then show ?case by (cases rest) auto
qed simp_all

section \<open>Properties\<close>

text \<open>C15: Every leaf of a tree has an inclusion proof that verifies: generating it does not panic, it
  names the leaf and the root of the tree, and its length is the depth, which is the logarithm of the
  number of leaves rounded up. The only tree without proofs is that of a single leaf equal to the
  marker of the empty tree.\<close>

theorem every_leaf_has_a_proof:
  assumes "i < length leaves" "leaves \<noteq> [zero_hash]" "t = merkle_build sha256 leaves"
  shows "\<exists>p. generate_proof t i = Some (Some p) \<and> mp_leaf_hash p = leaves ! i \<and> mp_root p = merkle_root t
    \<and> verify_proof sha256 p \<and> length (mp_path p) = merkle_depth t
    \<and> leaf_count t = length leaves \<and> leaf_count t \<le> 2 ^ merkle_depth t
    \<and> (leaf_count t > 1 \<longrightarrow> 2 ^ (merkle_depth t - 1) < leaf_count t)"
proof -
  have ne: "leaves \<noteq> []" using assms(1) by auto
  have d: "merkle_depth t = length (levels_above sha256 leaves)" "leaf_count t = length leaves"
    unfolding assms(3) merkle_depth_def leaf_count_def build_levels [OF ne] by simp_all
  show ?thesis
    using generate_proof_built [OF assms(1,2), of sha256] levels_count [OF ne, of sha256]
    unfolding d unfolding assms(3) merkle_root_eq verify_proof_def by auto
qed

definition sample_leaves :: "bytes list" where
  "sample_leaves = [replicate 32 1, replicate 32 2, replicate 32 3]"

theorem every_leaf_has_a_proof_witness:
  "\<exists>p. generate_proof (merkle_build (take 32) sample_leaves) 2 = Some (Some p) \<and> verify_proof (take 32) p
     \<and> mp_leaf_hash p = replicate 32 3"
  using every_leaf_has_a_proof [of 2 sample_leaves _ "take 32", OF _ _ refl]
  by (auto simp: sample_leaves_def)

text \<open>C16: A verifying proof of the right length proves membership: if it verifies against the root of
  a tree then its leaf is one of the leaves, unless it exhibits two different inputs with the same
  SHA-256 hash. A proof generated by a tree has this length.\<close>

theorem verified_leaf_is_member:
  assumes "leaves \<noteq> []" "t = merkle_build sha256 leaves" "mp_root p = merkle_root t"
    and "length (mp_path p) = merkle_depth t" "verify_proof sha256 p"
    and "\<forall>x. length (sha256 x) = 32" "hash_sized (mp_leaf_hash p) (mp_path p) leaves"
    and "inj_on sha256 (set (tree_inputs sha256 leaves) \<union> set (path_inputs sha256 (mp_leaf_hash p) (mp_path p)))"
  shows "mp_leaf_hash p \<in> set leaves"
proof (rule path_sound [OF assms(1) _ assms(7,6,8)])
  show "length (mp_path p) = length (levels_above sha256 leaves)"
    using assms(4) unfolding assms(2) merkle_depth_def build_levels [OF assms(1)] by simp
  show "foldl (proof_step sha256) (mp_leaf_hash p) (mp_path p) = root_of sha256 leaves"
    using assms(3,5) unfolding assms(2) merkle_root_eq verify_proof_def by simp
qed

definition pad_hash :: "bytes \<Rightarrow> bytes" where
  "pad_hash x = take 32 (x @ replicate 32 0)"

lemma pad_hash_length [simp]: "length (pad_hash x) = 32"
  by (simp add: pad_hash_def min_def)

definition two_leaves :: "bytes list" where
  "two_leaves = [replicate 32 1, replicate 32 2]"

lemma two_leaves_tree:
  "levels_above pad_hash two_leaves = [[replicate 32 1]]" "root_of pad_hash two_leaves = replicate 32 1"
proof -
  have n: "next_level pad_hash two_leaves = [replicate 32 1]"
    by (simp add: two_leaves_def hash_pair_def pad_hash_def)
  have "length two_leaves > 1" by (simp add: two_leaves_def)
  then show "levels_above pad_hash two_leaves = [[replicate 32 1]]" "root_of pad_hash two_leaves = replicate 32 1"
    using n levels_above.simps [of pad_hash "[replicate 32 1]"] root_of.simps [of pad_hash "[replicate 32 1]"]
    by (simp_all add: levels_above.simps [of pad_hash two_leaves] root_of.simps [of pad_hash two_leaves])
qed

theorem verified_leaf_is_member_witness:
  "let p = \<lparr> mp_leaf_hash = replicate 32 1, mp_path = [\<lparr> ps_hash = replicate 32 2, ps_direction = PD_Right \<rparr>],
      mp_root = replicate 32 1 \<rparr>
   in verify_proof pad_hash p \<and> mp_leaf_hash p \<in> set two_leaves"
proof -
  let ?p = "\<lparr> mp_leaf_hash = replicate 32 1, mp_path = [\<lparr> ps_hash = replicate 32 2, ps_direction = PD_Right \<rparr>],
      mp_root = replicate 32 1 \<rparr> :: MerkleProof"
  have ne: "two_leaves \<noteq> []" by (simp add: two_leaves_def)
  have v: "verify_proof pad_hash ?p"
    by (simp add: verify_proof_def proof_step_def hash_pair_def pad_hash_def)
  have "mp_root ?p = merkle_root (merkle_build pad_hash two_leaves)"
    "length (mp_path ?p) = merkle_depth (merkle_build pad_hash two_leaves)"
    "\<forall>x. length (pad_hash x) = 32" "hash_sized (mp_leaf_hash ?p) (mp_path ?p) two_leaves"
    "inj_on pad_hash (set (tree_inputs pad_hash two_leaves)
       \<union> set (path_inputs pad_hash (mp_leaf_hash ?p) (mp_path ?p)))"
    by (simp_all add: merkle_root_eq two_leaves_tree merkle_depth_def build_levels [OF ne] tree_inputs_def
        step_input_def) (simp_all add: hash_sized_def two_leaves_def)
  from verified_leaf_is_member [OF ne refl this(1,2) v this(3-5)] show ?thesis using v by simp
qed

text \<open>The root does not commit to the number of leaves: with an odd number of leaves, repeating the
  last one gives a longer list with the same root.\<close>

theorem root_hides_repeated_last_leaf:
  assumes "odd (length leaves)" "length leaves > 1"
  shows "merkle_root (merkle_build sha256 (leaves @ [last leaves])) = merkle_root (merkle_build sha256 leaves)
    \<and> leaf_count (merkle_build sha256 (leaves @ [last leaves])) = Suc (leaf_count (merkle_build sha256 leaves))"
proof -
  have "leaves \<noteq> []" using assms(2) by auto
  then show ?thesis
    using assms(2) unfolding merkle_root_eq leaf_count_def
    by (simp add: root_of.simps [of sha256 leaves] root_of.simps [of sha256 "leaves @ [last leaves]"]
        next_level_duplicate [OF assms(1)] build_levels)
qed

theorem root_hides_repeated_last_leaf_witness:
  "merkle_root (merkle_build pad_hash (sample_leaves @ [replicate 32 3])) = merkle_root (merkle_build pad_hash sample_leaves)"
  using root_hides_repeated_last_leaf [of sample_leaves pad_hash] by (simp add: sample_leaves_def)

end
