(* ===== verification/Sorted_Maps.thy ===== *)
theory Sorted_Maps
  imports Gratia_Prelude "HOL-Library.List_Lexorder" "HOL-Library.Char_ord"
begin

text \<open>
  \<^verbatim>\<open>std::collections::BTreeMap\<close> as an association list in strictly increasing key order, which is
  the order of its iterators. Byte strings and names are ordered lexicographically, as the
  \<^verbatim>\<open>Ord\<close> instances of \<^verbatim>\<open>Vec<u8>\<close> and \<^verbatim>\<open>String\<close> do. The contract of a map is a locale,
  interpreted on these operations.
\<close>

section \<open>Operations\<close>

type_synonym ('k, 'v) btreemap = "('k \<times> 'v) list"

fun bt_insert :: "'k :: linorder \<Rightarrow> 'v \<Rightarrow> ('k, 'v) btreemap \<Rightarrow> ('k, 'v) btreemap" where
  "bt_insert k v [] = [(k, v)]"
| "bt_insert k v ((k', v') # m) =
     (if k < k' then (k, v) # (k', v') # m
      else if k = k' then (k, v) # m
      else (k', v') # bt_insert k v m)"

definition bt_remove :: "'k \<Rightarrow> ('k, 'v) btreemap \<Rightarrow> ('k, 'v) btreemap" where
  "bt_remove k m = filter (\<lambda>(k', _). k' \<noteq> k) m"

definition bt_ok :: "('k :: linorder, 'v) btreemap \<Rightarrow> bool" where
  "bt_ok m = sorted_wrt (<) (map fst m)"

section \<open>The contract of a map\<close>

locale key_value =
  fixes empty :: "'m" and lookup :: "'m \<Rightarrow> 'k \<Rightarrow> 'v option"
    and insert :: "'k \<Rightarrow> 'v \<Rightarrow> 'm \<Rightarrow> 'm" and remove :: "'k \<Rightarrow> 'm \<Rightarrow> 'm" and inv :: "'m \<Rightarrow> bool"
  assumes lookup_empty: "lookup empty = Map.empty"
    and lookup_insert: "inv m \<Longrightarrow> lookup (insert k v m) = (lookup m)(k \<mapsto> v)"
    and lookup_remove: "inv m \<Longrightarrow> lookup (remove k m) = (lookup m)(k := None)"
    and inv_empty: "inv empty"
    and inv_insert: "inv m \<Longrightarrow> inv (insert k v m)"
    and inv_remove: "inv m \<Longrightarrow> inv (remove k m)"
begin

lemma remove_fresh_insert: "inv m \<Longrightarrow> lookup m k = None \<Longrightarrow> lookup (remove k (insert k v m)) = lookup m"
  by (simp add: lookup_remove inv_insert lookup_insert fun_upd_idem)

lemma insert_twice: "inv m \<Longrightarrow> lookup (insert k v (insert k u m)) = lookup (insert k v m)"
  by (simp add: lookup_insert inv_insert)

end

lemma bt_ok_Nil [simp]: "bt_ok []"
  by (simp add: bt_ok_def)

lemma bt_ok_Cons: "bt_ok ((k, v) # m) \<longleftrightarrow> (\<forall>k' \<in> fst ` set m. k < k') \<and> bt_ok m"
  by (auto simp: bt_ok_def)

lemma bt_insert_keys [simp]: "fst ` set (bt_insert k v m) = insert k (fst ` set m)"
  by (induction k v m rule: bt_insert.induct) auto

lemma bt_insert_ok [simp]: "bt_ok m \<Longrightarrow> bt_ok (bt_insert k v m)"
  by (induction k v m rule: bt_insert.induct) (auto simp: bt_ok_Cons)

lemma bt_insert_lookup [simp]: "bt_ok m \<Longrightarrow> map_of (bt_insert k v m) = (map_of m)(k \<mapsto> v)"
proof (induction k v m rule: bt_insert.induct)
  case (2 k v k' v' m)
  then show ?case by (auto simp: bt_ok_Cons fun_upd_twist)
qed simp

lemma bt_remove_ok [simp]: "bt_ok m \<Longrightarrow> bt_ok (bt_remove k m)"
  by (auto simp: bt_ok_def bt_remove_def sorted_wrt_map intro: sorted_wrt_filter)

lemma bt_remove_lookup [simp]: "map_of (bt_remove k m) = (map_of m)(k := None)"
  by (induction m) (auto simp: bt_remove_def)

interpretation btree: key_value "[]" map_of bt_insert bt_remove bt_ok
  by unfold_locales (simp_all add: fun_eq_iff)

lemma bt_ok_distinct: "bt_ok m \<Longrightarrow> distinct (map fst m)"
  by (simp add: bt_ok_def strict_sorted_iff)

lemma bt_ok_map_of: "bt_ok m \<Longrightarrow> (k, v) \<in> set m \<longleftrightarrow> map_of m k = Some v"
  using bt_ok_distinct by (auto dest: map_of_SomeD)

text \<open>A sorted map is determined by its lookup function, so iteration orders agree as soon as the
  contents do.\<close>
lemma bt_ext: "bt_ok m \<Longrightarrow> bt_ok m' \<Longrightarrow> map_of m = map_of m' \<Longrightarrow> m = m'"
proof (induction m arbitrary: m')
  case Nil
  then show ?case by (cases m') (auto simp: fun_eq_iff split: if_splits)
next
  case (Cons e m)
  obtain k v where e: "e = (k, v)" by (cases e)
  have "map_of m' k = Some v" using fun_cong [OF Cons.prems(3), of k] unfolding e by simp
  then obtain k' v' n where m': "m' = (k', v') # n" by (cases m') (simp, cases "hd m'", simp)
  have dom: "fst ` set (e # m) = fst ` set m'"
    using Cons.prems(3) by (metis dom_map_of_conv_image_fst)
  have kk: "k = k'"
  proof (rule ccontr)
    assume "k \<noteq> k'"
    then have "k \<in> fst ` set n" "k' \<in> fst ` set m" using dom unfolding e m' by auto
    then have "k' < k" "k < k'" using Cons.prems(1,2) unfolding e m' bt_ok_Cons by blast+
    then show False by simp
  qed
  have vv: "v = v'" using fun_cong [OF Cons.prems(3), of k] unfolding e m' kk by simp
  have "k \<notin> fst ` set m" "k \<notin> fst ` set n"
    using Cons.prems(1,2) unfolding e m' bt_ok_Cons kk by auto
  then have "map_of m k = None" "map_of n k = None" by (simp_all add: map_of_eq_None_iff)
  moreover have "map_of m x = map_of n x" if "x \<noteq> k" for x
    using fun_cong [OF Cons.prems(3), of x] that unfolding e m' kk by simp
  ultimately have "map_of m = map_of n" by (metis ext)
  then show ?case using Cons.IH [of n] Cons.prems(1,2) kk vv unfolding e m' bt_ok_Cons by simp
qed

end
