(* ===== verification/Storage.thy ===== *)
theory Storage
  imports Sorted_Maps Core_Types
begin

text \<open>
  The storage layer of \<^verbatim>\<open>gratia-state/src/db.rs\<close> with the error type of
  \<^verbatim>\<open>gratia-core/src/error.rs\<close>. The trait \<^verbatim>\<open>StateStore\<close> is a record of its operations over a
  state, as a trait object is a table of methods; \<^verbatim>\<open>InMemoryStore\<close> is one such record and the typed
  accessors of \<^verbatim>\<open>StateDb\<close> take any. \<^verbatim>\<open>bincode\<close> is a parameter: an encoder and a decoder per type.
  The lock around the data, which fails only after a panic of another thread, the RocksDB back end
  and the persistence to a file are left out.
\<close>

section \<open>Errors\<close>

datatype GratiaError =
    GE_ProofOfLifeInvalid string
  | GE_InsufficientUnlocks u32 u32
  | GE_UnlockSpreadTooNarrow u32 u32
  | GE_NoChargeCycleEvent
  | GE_InsufficientBtVariation
  | GE_OnboardingIncomplete u32 u32
  | GE_MiningConditionsNotMet string
  | GE_NotPluggedIn
  | GE_BatteryTooLow u8 u8
  | GE_ThermalThrottle f32 f32
  | GE_InsufficientStake u64 u64
  | GE_UnstakeCooldownActive u64
  | GE_InsufficientBalance u64 u64
  | GE_InvalidSignature
  | GE_NonceMismatch u64 u64
  | GE_InvalidZkProof string
  | GE_BlockValidationFailed string
  | GE_InvalidVrfProof
  | GE_InsufficientSignatures usize usize
  | GE_InsufficientHistory u64 u64
  | GE_QuorumNotMet u32 u32
  | GE_AlreadyVoted
  | GE_WalletLocked
  | GE_RecoveryClaimPending
  | GE_BehavioralMatchFailed u32 u32
  | GE_PeerNotFound string
  | GE_ShardNotAvailable u16
  | GE_StorageError string
  | GE_StorageLimitExceeded
  | GE_SerializationError string
  | GE_Other string

section \<open>Control flow\<close>

text \<open>The operator \<^verbatim>\<open>?\<close> after a call that changes the state, and after one in the body of a loop.\<close>

definition and_then :: "('e, 'a) result \<times> 's \<Rightarrow> ('a \<Rightarrow> 's \<Rightarrow> ('e, 'b) result \<times> 's) \<Rightarrow> ('e, 'b) result \<times> 's" where
  "and_then m f = (case m of (Err e, s) \<Rightarrow> (Err e, s) | (Ok x, s) \<Rightarrow> f x s)"

primrec try_each :: "('s \<Rightarrow> 'a \<Rightarrow> ('e, unit) result \<times> 's) \<Rightarrow> 's \<Rightarrow> 'a list \<Rightarrow> ('e, unit) result \<times> 's" where
  "try_each f s [] = (Ok (), s)"
| "try_each f s (x # xs) = and_then (f s x) (\<lambda>_ s. try_each f s xs)"

lemma and_then_simps [simp]:
  "and_then (Err e, s) f = (Err e, s)" "and_then (Ok x, s) f = f x s"
  by (simp_all add: and_then_def)

section \<open>Encodings\<close>

record 'a Codec =
  enc :: "'a \<Rightarrow> (string, bytes) result"
  dec :: "bytes \<Rightarrow> (string, 'a) result"

text \<open>What the code relies on: decoding an encoded value gives it back.\<close>
definition codec_at :: "'a Codec \<Rightarrow> 'a \<Rightarrow> bool" where
  "codec_at c x \<longleftrightarrow> (\<exists>b. enc c x = Ok b \<and> dec c b = Ok x)"

definition be_bytes :: "nat \<Rightarrow> nat \<Rightarrow> bytes" where
  "be_bytes n v = rev (le_bytes n v)"

primrec of_le_bytes :: "bytes \<Rightarrow> nat" where
  "of_le_bytes [] = 0"
| "of_le_bytes (b # bs) = b + 256 * of_le_bytes bs"

definition of_be_bytes :: "bytes \<Rightarrow> nat" where
  "of_be_bytes bs = of_le_bytes (rev bs)"

lemma of_le_bytes_le_bytes: "v < 256 ^ n \<Longrightarrow> of_le_bytes (le_bytes n v) = v"
proof (induction n arbitrary: v)
  case (Suc n)
  have "v div 256 < 256 ^ n" using Suc.prems by (simp add: div_less_iff_less_mult mult.commute)
  with Suc.IH show ?case by simp
qed simp

lemma of_be_bytes_be_bytes [simp]: "v \<le> U64_MAX \<Longrightarrow> of_be_bytes (be_bytes 8 v) = v"
  by (simp add: of_be_bytes_def be_bytes_def of_le_bytes_le_bytes U64_MAX_def)

lemma be_bytes_length [simp]: "length (be_bytes n v) = n"
  by (simp add: be_bytes_def)

lemma be_bytes_inj: "v \<le> U64_MAX \<Longrightarrow> w \<le> U64_MAX \<Longrightarrow> be_bytes 8 v = be_bytes 8 w \<longleftrightarrow> v = w"
  by (metis of_be_bytes_be_bytes)

section \<open>The store\<close>

definition CF_BLOCKS :: string where "CF_BLOCKS = ''blocks''"
definition CF_TRANSACTIONS :: string where "CF_TRANSACTIONS = ''transactions''"
definition CF_ACCOUNTS :: string where "CF_ACCOUNTS = ''accounts''"
definition CF_STATE :: string where "CF_STATE = ''state''"
definition CF_ATTESTATIONS :: string where "CF_ATTESTATIONS = ''attestations''"

lemmas cf_defs = CF_BLOCKS_def CF_TRANSACTIONS_def CF_ACCOUNTS_def CF_STATE_def CF_ATTESTATIONS_def

definition ALL_COLUMN_FAMILIES :: "string list" where
  "ALL_COLUMN_FAMILIES = [CF_BLOCKS, CF_TRANSACTIONS, CF_ACCOUNTS, CF_STATE, CF_ATTESTATIONS]"

definition STATE_KEY_CHAIN_TIP :: bytes where "STATE_KEY_CHAIN_TIP = byte_string ''chain_tip''"
definition STATE_KEY_BLOCK_HEIGHT :: bytes where "STATE_KEY_BLOCK_HEIGHT = byte_string ''block_height''"
definition STATE_KEY_STATE_ROOT :: bytes where "STATE_KEY_STATE_ROOT = byte_string ''state_root''"

record AccountState =
  ac_balance :: Lux
  ac_nonce :: u64
  ac_staked :: Lux
  ac_overflow_stake :: Lux
  ac_pol_valid :: bool
  ac_pol_consecutive_days :: u64
  ac_last_pol_date :: "int option"
  ac_node_id :: "NodeId option"

definition AccountState_default :: AccountState where
  "AccountState_default =
     \<lparr> ac_balance = 0, ac_nonce = 0, ac_staked = 0, ac_overflow_stake = 0, ac_pol_valid = False,
       ac_pol_consecutive_days = 0, ac_last_pol_date = None, ac_node_id = None \<rparr>"

type_synonym batch_op = "string \<times> bytes \<times> bytes option"

record 's StateStore =
  st_put :: "'s \<Rightarrow> string \<Rightarrow> bytes \<Rightarrow> bytes \<Rightarrow> (GratiaError, unit) result \<times> 's"
  st_get :: "'s \<Rightarrow> string \<Rightarrow> bytes \<Rightarrow> (GratiaError, bytes option) result"
  st_delete :: "'s \<Rightarrow> string \<Rightarrow> bytes \<Rightarrow> (GratiaError, unit) result \<times> 's"
  st_batch_write :: "'s \<Rightarrow> batch_op list \<Rightarrow> (GratiaError, unit) result \<times> 's"
  st_iter_cf :: "'s \<Rightarrow> string \<Rightarrow> (GratiaError, (bytes \<times> bytes) list) result"
  st_iter_cf_limit :: "'s \<Rightarrow> string \<Rightarrow> usize \<Rightarrow> (GratiaError, (bytes \<times> bytes) list) result"
  st_count_keys :: "'s \<Rightarrow> string \<Rightarrow> (GratiaError, u64) result"
  st_estimate_size_bytes :: "'s \<Rightarrow> (GratiaError, u64) result"

record InMemoryStore =
  ims_data :: "(string, (bytes, bytes) btreemap) btreemap"

definition InMemoryStore_new :: InMemoryStore where
  "InMemoryStore_new = \<lparr> ims_data = foldl (\<lambda>d cf. bt_insert cf [] d) [] ALL_COLUMN_FAMILIES \<rparr>"

definition unknown_cf :: "string \<Rightarrow> GratiaError" where
  "unknown_cf cf = GE_StorageError (''unknown column family: '' @ cf)"

definition mem_put ::
  "InMemoryStore \<Rightarrow> string \<Rightarrow> bytes \<Rightarrow> bytes \<Rightarrow> (GratiaError, unit) result \<times> InMemoryStore" where
  "mem_put s cf key value =
     (case map_of (ims_data s) cf of
        None \<Rightarrow> (Err (unknown_cf cf), s)
      | Some cf_map \<Rightarrow>
          (Ok (), s\<lparr>ims_data := bt_insert cf (bt_insert key value cf_map) (ims_data s)\<rparr>))"

definition mem_get :: "InMemoryStore \<Rightarrow> string \<Rightarrow> bytes \<Rightarrow> (GratiaError, bytes option) result" where
  "mem_get s cf key =
     (case map_of (ims_data s) cf of
        None \<Rightarrow> Err (unknown_cf cf)
      | Some cf_map \<Rightarrow> Ok (map_of cf_map key))"

definition mem_delete ::
  "InMemoryStore \<Rightarrow> string \<Rightarrow> bytes \<Rightarrow> (GratiaError, unit) result \<times> InMemoryStore" where
  "mem_delete s cf key =
     (case map_of (ims_data s) cf of
        None \<Rightarrow> (Err (unknown_cf cf), s)
      | Some cf_map \<Rightarrow>
          (Ok (), s\<lparr>ims_data := bt_insert cf (bt_remove key cf_map) (ims_data s)\<rparr>))"

primrec mem_batch_write ::
  "InMemoryStore \<Rightarrow> batch_op list \<Rightarrow> (GratiaError, unit) result \<times> InMemoryStore" where
  "mem_batch_write s [] = (Ok (), s)"
| "mem_batch_write s (op # operations) =
     (case op of (cf, key, value) \<Rightarrow>
        (case map_of (ims_data s) cf of
           None \<Rightarrow> (Err (unknown_cf cf), s)
         | Some cf_map \<Rightarrow>
             mem_batch_write
               (s\<lparr>ims_data := bt_insert cf
                    (case value of Some v \<Rightarrow> bt_insert key v cf_map | None \<Rightarrow> bt_remove key cf_map)
                    (ims_data s)\<rparr>)
               operations))"

definition mem_iter_cf :: "InMemoryStore \<Rightarrow> string \<Rightarrow> (GratiaError, (bytes \<times> bytes) list) result" where
  "mem_iter_cf s cf =
     (case map_of (ims_data s) cf of None \<Rightarrow> Err (unknown_cf cf) | Some cf_map \<Rightarrow> Ok cf_map)"

definition mem_iter_cf_limit ::
  "InMemoryStore \<Rightarrow> string \<Rightarrow> usize \<Rightarrow> (GratiaError, (bytes \<times> bytes) list) result" where
  "mem_iter_cf_limit s cf limit =
     (case map_of (ims_data s) cf of None \<Rightarrow> Err (unknown_cf cf) | Some cf_map \<Rightarrow> Ok (take limit cf_map))"

definition mem_count_keys :: "InMemoryStore \<Rightarrow> string \<Rightarrow> (GratiaError, u64) result" where
  "mem_count_keys s cf =
     (case map_of (ims_data s) cf of None \<Rightarrow> Err (unknown_cf cf) | Some cf_map \<Rightarrow> Ok (as_u64 (length cf_map)))"

definition mem_estimate_size_bytes :: "InMemoryStore \<Rightarrow> (GratiaError, u64) result" where
  "mem_estimate_size_bytes s =
     Ok (foldl (\<lambda>total (_, cf_map).
           foldl (\<lambda>total (k, v). add_u64 total (add_u64 (as_u64 (length k)) (as_u64 (length v)))) total cf_map)
         0 (ims_data s))"

definition in_memory :: "InMemoryStore StateStore" where
  "in_memory =
     \<lparr> st_put = mem_put, st_get = mem_get, st_delete = mem_delete, st_batch_write = mem_batch_write,
       st_iter_cf = mem_iter_cf, st_iter_cf_limit = mem_iter_cf_limit, st_count_keys = mem_count_keys,
       st_estimate_size_bytes = mem_estimate_size_bytes \<rparr>"

section \<open>Typed access\<close>

record Bincode =
  bc_header :: "BlockHeader Codec"
  bc_block :: "Block Codec"
  bc_transaction :: "Transaction Codec"
  bc_account :: "AccountState Codec"
  bc_attestation :: "ProofOfLifeAttestation Codec"

record 's StateDb =
  db_store :: "'s StateStore"
  db_bincode :: Bincode

text \<open>\<^verbatim>\<open>.map_err(|e| GratiaError::SerializationError(e.to_string()))\<close>.\<close>
definition ser_result :: "(string, 'a) result \<Rightarrow> (GratiaError, 'a) result" where
  "ser_result r = (case r of Err e \<Rightarrow> Err (GE_SerializationError e) | Ok x \<Rightarrow> Ok x)"

definition header_hash :: "(bytes \<Rightarrow> bytes) \<Rightarrow> Bincode \<Rightarrow> BlockHeader \<Rightarrow> (GratiaError, BlockHash) result" where
  "header_hash sha256 bc h =
     (case enc (bc_header bc) h of
        Err e \<Rightarrow> Err (GE_SerializationError (''block header serialization failed: '' @ e))
      | Ok encoded \<Rightarrow> Ok (BlockHash (sha256 encoded)))"

definition put_block ::
  "(bytes \<Rightarrow> bytes) \<Rightarrow> 's StateDb \<Rightarrow> 's \<Rightarrow> Block \<Rightarrow> (GratiaError, unit) result \<times> 's" where
  "put_block sha256 db s block =
     (case header_hash sha256 (db_bincode db) (blk_header block) of
        Err e \<Rightarrow> (Err e, s)
      | Ok hash \<Rightarrow>
          (case ser_result (enc (bc_block (db_bincode db)) block) of
             Err e \<Rightarrow> (Err e, s)
           | Ok encoded \<Rightarrow>
               (case st_put (db_store db) s CF_BLOCKS (block_hash_bytes hash) encoded of
                  (Err e, s) \<Rightarrow> (Err e, s)
                | (Ok _, s) \<Rightarrow>
                    let height_key = be_bytes 8 (bh_height (blk_header block))
                    in st_put (db_store db) s CF_BLOCKS height_key (block_hash_bytes hash))))"

definition get_block :: "'s StateDb \<Rightarrow> 's \<Rightarrow> BlockHash \<Rightarrow> (GratiaError, Block option) result" where
  "get_block db s hash =
     (case st_get (db_store db) s CF_BLOCKS (block_hash_bytes hash) of
        Err e \<Rightarrow> Err e
      | Ok None \<Rightarrow> Ok None
      | Ok (Some data) \<Rightarrow> map_sum id Some (ser_result (dec (bc_block (db_bincode db)) data)))"

definition get_block_by_height :: "'s StateDb \<Rightarrow> 's \<Rightarrow> u64 \<Rightarrow> (GratiaError, Block option) result" where
  "get_block_by_height db s height =
     (case st_get (db_store db) s CF_BLOCKS (be_bytes 8 height) of
        Err e \<Rightarrow> Err e
      | Ok None \<Rightarrow> Ok None
      | Ok (Some hash_bytes) \<Rightarrow>
          if length hash_bytes \<noteq> 32 then Err (GE_StorageError ''corrupt block height index'')
          else get_block db s (BlockHash hash_bytes))"

definition delete_block :: "'s StateDb \<Rightarrow> 's \<Rightarrow> BlockHash \<Rightarrow> (GratiaError, unit) result \<times> 's" where
  "delete_block db s hash =
     (case get_block db s hash of
        Err e \<Rightarrow> (Err e, s)
      | Ok found \<Rightarrow>
          (case (case found of
                   Some block \<Rightarrow> st_delete (db_store db) s CF_BLOCKS (be_bytes 8 (bh_height (blk_header block)))
                 | None \<Rightarrow> (Ok (), s)) of
             (Err e, s) \<Rightarrow> (Err e, s)
           | (Ok _, s) \<Rightarrow> st_delete (db_store db) s CF_BLOCKS (block_hash_bytes hash)))"

definition put_transaction :: "'s StateDb \<Rightarrow> 's \<Rightarrow> Transaction \<Rightarrow> (GratiaError, unit) result \<times> 's" where
  "put_transaction db s tx =
     (case ser_result (enc (bc_transaction (db_bincode db)) tx) of
        Err e \<Rightarrow> (Err e, s)
      | Ok encoded \<Rightarrow> st_put (db_store db) s CF_TRANSACTIONS (tx_hash_bytes (tx_hash tx)) encoded)"

definition get_transaction :: "'s StateDb \<Rightarrow> 's \<Rightarrow> TxHash \<Rightarrow> (GratiaError, Transaction option) result" where
  "get_transaction db s hash =
     (case st_get (db_store db) s CF_TRANSACTIONS (tx_hash_bytes hash) of
        Err e \<Rightarrow> Err e
      | Ok None \<Rightarrow> Ok None
      | Ok (Some data) \<Rightarrow> map_sum id Some (ser_result (dec (bc_transaction (db_bincode db)) data)))"

definition delete_transaction :: "'s StateDb \<Rightarrow> 's \<Rightarrow> TxHash \<Rightarrow> (GratiaError, unit) result \<times> 's" where
  "delete_transaction db s hash = st_delete (db_store db) s CF_TRANSACTIONS (tx_hash_bytes hash)"

definition put_account :: "'s StateDb \<Rightarrow> 's \<Rightarrow> Address \<Rightarrow> AccountState \<Rightarrow> (GratiaError, unit) result \<times> 's" where
  "put_account db s address state =
     (case ser_result (enc (bc_account (db_bincode db)) state) of
        Err e \<Rightarrow> (Err e, s)
      | Ok encoded \<Rightarrow> st_put (db_store db) s CF_ACCOUNTS (address_bytes address) encoded)"

definition get_account :: "'s StateDb \<Rightarrow> 's \<Rightarrow> Address \<Rightarrow> (GratiaError, AccountState) result" where
  "get_account db s address =
     (case st_get (db_store db) s CF_ACCOUNTS (address_bytes address) of
        Err e \<Rightarrow> Err e
      | Ok None \<Rightarrow> Ok AccountState_default
      | Ok (Some data) \<Rightarrow> ser_result (dec (bc_account (db_bincode db)) data))"

definition get_balance :: "'s StateDb \<Rightarrow> 's \<Rightarrow> Address \<Rightarrow> (GratiaError, Lux) result" where
  "get_balance db s address = map_sum id ac_balance (get_account db s address)"

definition get_nonce :: "'s StateDb \<Rightarrow> 's \<Rightarrow> Address \<Rightarrow> (GratiaError, u64) result" where
  "get_nonce db s address = map_sum id ac_nonce (get_account db s address)"

definition put_attestation ::
  "'s StateDb \<Rightarrow> 's \<Rightarrow> ProofOfLifeAttestation \<Rightarrow> (GratiaError, unit) result \<times> 's" where
  "put_attestation db s att =
     (case ser_result (enc (bc_attestation (db_bincode db)) att) of
        Err e \<Rightarrow> (Err e, s)
      | Ok encoded \<Rightarrow> st_put (db_store db) s CF_ATTESTATIONS (pol_nullifier att) encoded)"

definition get_attestation_by_nullifier ::
  "'s StateDb \<Rightarrow> 's \<Rightarrow> bytes \<Rightarrow> (GratiaError, ProofOfLifeAttestation option) result" where
  "get_attestation_by_nullifier db s nullifier =
     (case st_get (db_store db) s CF_ATTESTATIONS nullifier of
        Err e \<Rightarrow> Err e
      | Ok None \<Rightarrow> Ok None
      | Ok (Some data) \<Rightarrow> map_sum id Some (ser_result (dec (bc_attestation (db_bincode db)) data)))"

definition has_nullifier :: "'s StateDb \<Rightarrow> 's \<Rightarrow> bytes \<Rightarrow> (GratiaError, bool) result" where
  "has_nullifier db s nullifier =
     map_sum id (\<lambda>v. v \<noteq> None) (st_get (db_store db) s CF_ATTESTATIONS nullifier)"

definition set_chain_tip :: "'s StateDb \<Rightarrow> 's \<Rightarrow> BlockHash \<Rightarrow> (GratiaError, unit) result \<times> 's" where
  "set_chain_tip db s hash = st_put (db_store db) s CF_STATE STATE_KEY_CHAIN_TIP (block_hash_bytes hash)"

definition get_chain_tip :: "'s StateDb \<Rightarrow> 's \<Rightarrow> (GratiaError, BlockHash option) result" where
  "get_chain_tip db s =
     (case st_get (db_store db) s CF_STATE STATE_KEY_CHAIN_TIP of
        Err e \<Rightarrow> Err e
      | Ok None \<Rightarrow> Ok None
      | Ok (Some data) \<Rightarrow>
          if length data \<noteq> 32 then Err (GE_StorageError ''corrupt chain tip'')
          else Ok (Some (BlockHash data)))"

definition set_block_height :: "'s StateDb \<Rightarrow> 's \<Rightarrow> u64 \<Rightarrow> (GratiaError, unit) result \<times> 's" where
  "set_block_height db s height = st_put (db_store db) s CF_STATE STATE_KEY_BLOCK_HEIGHT (be_bytes 8 height)"

definition get_block_height :: "'s StateDb \<Rightarrow> 's \<Rightarrow> (GratiaError, u64) result" where
  "get_block_height db s =
     (case st_get (db_store db) s CF_STATE STATE_KEY_BLOCK_HEIGHT of
        Err e \<Rightarrow> Err e
      | Ok None \<Rightarrow> Ok 0
      | Ok (Some data) \<Rightarrow>
          if length data \<noteq> 8 then Err (GE_StorageError ''corrupt block height'')
          else Ok (of_be_bytes data))"

definition set_state_root :: "'s StateDb \<Rightarrow> 's \<Rightarrow> bytes \<Rightarrow> (GratiaError, unit) result \<times> 's" where
  "set_state_root db s state_root = st_put (db_store db) s CF_STATE STATE_KEY_STATE_ROOT state_root"

definition get_state_root :: "'s StateDb \<Rightarrow> 's \<Rightarrow> (GratiaError, bytes) result" where
  "get_state_root db s =
     (case st_get (db_store db) s CF_STATE STATE_KEY_STATE_ROOT of
        Err e \<Rightarrow> Err e
      | Ok None \<Rightarrow> Ok (replicate 32 0)
      | Ok (Some data) \<Rightarrow>
          if length data \<noteq> 32 then Err (GE_StorageError ''corrupt state root'') else Ok data)"

definition db_batch_write :: "'s StateDb \<Rightarrow> 's \<Rightarrow> batch_op list \<Rightarrow> (GratiaError, unit) result \<times> 's" where
  "db_batch_write db s operations = st_batch_write (db_store db) s operations"

definition estimate_size_bytes :: "'s StateDb \<Rightarrow> 's \<Rightarrow> (GratiaError, u64) result" where
  "estimate_size_bytes db s = st_estimate_size_bytes (db_store db) s"

section \<open>The contract of a store\<close>

text \<open>The contents of a store, column family by column family, and what one operation of a batch does
  to them.\<close>
type_synonym contents = "string \<Rightarrow> bytes \<Rightarrow> bytes option"

definition put_in :: "contents \<Rightarrow> string \<Rightarrow> bytes \<Rightarrow> bytes option \<Rightarrow> contents" where
  "put_in v cf k d = v(cf := (v cf)(k := d))"

definition batch_in :: "contents \<Rightarrow> batch_op \<Rightarrow> contents" where
  "batch_in v op = (case op of (cf, k, d) \<Rightarrow> put_in v cf k d)"

lemma put_in_apply: "put_in v cf k d cf' k' = (if cf' = cf \<and> k' = k then d else v cf' k')"
  by (simp add: put_in_def)

lemma put_in_twice [simp]: "put_in (put_in v cf k d) cf k d' = put_in v cf k d'"
  by (simp add: put_in_def)

lemma put_in_idem: "v cf k = d \<Longrightarrow> put_in v cf k d = v"
  by (auto simp: put_in_def fun_eq_iff)

lemma put_in_other [simp]: "cf' \<noteq> cf \<Longrightarrow> put_in v cf k d cf' = v cf'"
  by (simp add: put_in_def)

lemma cf_distinct [simp]:
  "CF_BLOCKS \<noteq> CF_ACCOUNTS" "CF_TRANSACTIONS \<noteq> CF_ACCOUNTS" "CF_STATE \<noteq> CF_ACCOUNTS" "CF_ATTESTATIONS \<noteq> CF_ACCOUNTS"
  "CF_ACCOUNTS \<noteq> CF_BLOCKS" "CF_TRANSACTIONS \<noteq> CF_BLOCKS" "CF_STATE \<noteq> CF_BLOCKS" "CF_ATTESTATIONS \<noteq> CF_BLOCKS"
  "CF_ACCOUNTS \<noteq> CF_STATE" "CF_TRANSACTIONS \<noteq> CF_STATE" "CF_BLOCKS \<noteq> CF_STATE" "CF_ATTESTATIONS \<noteq> CF_STATE"
  "CF_ACCOUNTS \<noteq> CF_TRANSACTIONS" "CF_STATE \<noteq> CF_TRANSACTIONS" "CF_BLOCKS \<noteq> CF_TRANSACTIONS"
  "CF_ATTESTATIONS \<noteq> CF_TRANSACTIONS" "CF_ACCOUNTS \<noteq> CF_ATTESTATIONS" "CF_STATE \<noteq> CF_ATTESTATIONS"
  "CF_BLOCKS \<noteq> CF_ATTESTATIONS" "CF_TRANSACTIONS \<noteq> CF_ATTESTATIONS"
  by (simp_all add: cf_defs)

lemma cf_known [simp]:
  "CF_BLOCKS \<in> set ALL_COLUMN_FAMILIES" "CF_TRANSACTIONS \<in> set ALL_COLUMN_FAMILIES"
  "CF_ACCOUNTS \<in> set ALL_COLUMN_FAMILIES" "CF_STATE \<in> set ALL_COLUMN_FAMILIES"
  "CF_ATTESTATIONS \<in> set ALL_COLUMN_FAMILIES"
  by (simp_all add: ALL_COLUMN_FAMILIES_def)

lemma state_keys [simp]:
  "STATE_KEY_CHAIN_TIP \<noteq> STATE_KEY_BLOCK_HEIGHT" "STATE_KEY_CHAIN_TIP \<noteq> STATE_KEY_STATE_ROOT"
  "STATE_KEY_BLOCK_HEIGHT \<noteq> STATE_KEY_STATE_ROOT" "STATE_KEY_BLOCK_HEIGHT \<noteq> STATE_KEY_CHAIN_TIP"
  "STATE_KEY_STATE_ROOT \<noteq> STATE_KEY_CHAIN_TIP" "STATE_KEY_STATE_ROOT \<noteq> STATE_KEY_BLOCK_HEIGHT"
  by (simp_all add: STATE_KEY_CHAIN_TIP_def STATE_KEY_BLOCK_HEIGHT_def STATE_KEY_STATE_ROOT_def byte_string_def)

locale state_store =
  fixes vt :: "'s StateStore" and ok :: "'s \<Rightarrow> bool" and view :: "'s \<Rightarrow> contents"
  assumes get: "ok s \<Longrightarrow> cf \<in> set ALL_COLUMN_FAMILIES \<Longrightarrow> st_get vt s cf k = Ok (view s cf k)"
    and put: "ok s \<Longrightarrow> cf \<in> set ALL_COLUMN_FAMILIES \<Longrightarrow>
      \<exists>s'. st_put vt s cf k d = (Ok (), s') \<and> ok s' \<and> view s' = put_in (view s) cf k (Some d)"
    and delete: "ok s \<Longrightarrow> cf \<in> set ALL_COLUMN_FAMILIES \<Longrightarrow>
      \<exists>s'. st_delete vt s cf k = (Ok (), s') \<and> ok s' \<and> view s' = put_in (view s) cf k None"
    and batch: "ok s \<Longrightarrow> fst ` set ops \<subseteq> set ALL_COLUMN_FAMILIES \<Longrightarrow>
      \<exists>s'. st_batch_write vt s ops = (Ok (), s') \<and> ok s' \<and> view s' = foldl batch_in (view s) ops"
    and iter: "ok s \<Longrightarrow> cf \<in> set ALL_COLUMN_FAMILIES \<Longrightarrow>
      \<exists>m. st_iter_cf vt s cf = Ok m \<and> bt_ok m \<and> map_of m = view s cf"
    and limit: "ok s \<Longrightarrow> cf \<in> set ALL_COLUMN_FAMILIES \<Longrightarrow> \<exists>m. st_iter_cf_limit vt s cf n = Ok m"
    and count: "ok s \<Longrightarrow> cf \<in> set ALL_COLUMN_FAMILIES \<Longrightarrow> \<exists>n. st_count_keys vt s cf = Ok n"
    and size: "ok s \<Longrightarrow> \<exists>n. st_estimate_size_bytes vt s = Ok n"
begin

lemma put_get:
  "ok s \<Longrightarrow> cf \<in> set ALL_COLUMN_FAMILIES \<Longrightarrow> st_put vt s cf k d = (r, s') \<Longrightarrow>
     r = Ok () \<and> ok s' \<and> st_get vt s' cf k = Ok (Some d)"
  using put [of s cf k d] by (auto simp: get put_in_def)

lemma iter_same:
  "ok s \<Longrightarrow> ok s' \<Longrightarrow> cf \<in> set ALL_COLUMN_FAMILIES \<Longrightarrow> view s cf = view s' cf \<Longrightarrow>
     st_iter_cf vt s cf = st_iter_cf vt s' cf"
  using iter [of s cf] iter [of s' cf] bt_ext by (metis (no_types, lifting))

end

text \<open>The in-memory store keeps the contract.\<close>

definition mem_ok :: "InMemoryStore \<Rightarrow> bool" where
  "mem_ok s \<longleftrightarrow> bt_ok (ims_data s) \<and> (\<forall>cf \<in> set ALL_COLUMN_FAMILIES. map_of (ims_data s) cf \<noteq> None)
     \<and> (\<forall>cf m. map_of (ims_data s) cf = Some m \<longrightarrow> bt_ok m)"

definition mem_view :: "InMemoryStore \<Rightarrow> contents" where
  "mem_view s cf k = (case map_of (ims_data s) cf of Some m \<Rightarrow> map_of m k | None \<Rightarrow> None)"

lemma mem_set:
  assumes "mem_ok s" "map_of (ims_data s) cf = Some m" "bt_ok m'" "map_of m' = (map_of m)(k := d)"
  shows "mem_ok (s\<lparr>ims_data := bt_insert cf m' (ims_data s)\<rparr>)
    \<and> mem_view (s\<lparr>ims_data := bt_insert cf m' (ims_data s)\<rparr>) = put_in (mem_view s) cf k d"
proof -
  let ?s = "s\<lparr>ims_data := bt_insert cf m' (ims_data s)\<rparr>"
  have data: "bt_ok (ims_data s)" using assms(1) by (simp add: mem_ok_def)
  then have new: "map_of (ims_data ?s) = (map_of (ims_data s))(cf \<mapsto> m')" by simp
  have "mem_ok ?s"
    using assms(1,3) data unfolding mem_ok_def new by simp
  moreover have "mem_view ?s c j = put_in (mem_view s) cf k d c j" for c j
    using assms(2,4) unfolding mem_view_def put_in_apply new by simp
  ultimately show ?thesis by blast
qed

lemma mem_known: "mem_ok s \<Longrightarrow> cf \<in> set ALL_COLUMN_FAMILIES \<Longrightarrow>
    \<exists>m. map_of (ims_data s) cf = Some m \<and> bt_ok m \<and> map_of m = mem_view s cf"
proof -
  assume "mem_ok s" "cf \<in> set ALL_COLUMN_FAMILIES"
  then obtain m where "map_of (ims_data s) cf = Some m" "bt_ok m" unfolding mem_ok_def by blast
  then show ?thesis by (auto simp: mem_view_def fun_eq_iff)
qed

lemma mem_batch:
  "mem_ok s \<Longrightarrow> fst ` set ops \<subseteq> set ALL_COLUMN_FAMILIES \<Longrightarrow>
     \<exists>s'. mem_batch_write s ops = (Ok (), s') \<and> mem_ok s' \<and> mem_view s' = foldl batch_in (mem_view s) ops"
proof (induction ops arbitrary: s)
  case (Cons op ops)
  obtain cf k d where op: "op = (cf, k, d)" by (cases op)
  have "cf \<in> set ALL_COLUMN_FAMILIES" using Cons.prems(2) op by simp
  then obtain m where m: "map_of (ims_data s) cf = Some m" "bt_ok m" using mem_known [OF Cons.prems(1)] by blast
  let ?m = "case d of Some v \<Rightarrow> bt_insert k v m | None \<Rightarrow> bt_remove k m"
  let ?s = "s\<lparr>ims_data := bt_insert cf ?m (ims_data s)\<rparr>"
  have "bt_ok ?m" "map_of ?m = (map_of m)(k := d)" using m(2) by (cases d; simp)+
  from mem_set [OF Cons.prems(1) m(1) this] have s: "mem_ok ?s" "mem_view ?s = batch_in (mem_view s) op"
    by (simp_all add: op batch_in_def)
  show ?case using Cons.IH [OF s(1)] Cons.prems(2) m(1) s(2) by (simp add: op)
qed simp

interpretation mem: state_store in_memory mem_ok mem_view
proof
  fix s cf and k d :: bytes
  assume s: "mem_ok s" and cf: "cf \<in> set ALL_COLUMN_FAMILIES"
  obtain m where m: "map_of (ims_data s) cf = Some m" "bt_ok m" "map_of m = mem_view s cf"
    using mem_known [OF s cf] by blast
  show "st_get in_memory s cf k = Ok (mem_view s cf k)"
    using m by (simp add: in_memory_def mem_get_def)
  show "\<exists>s'. st_put in_memory s cf k d = (Ok (), s') \<and> mem_ok s' \<and> mem_view s' = put_in (mem_view s) cf k (Some d)"
    using m mem_set [OF s m(1), of "bt_insert k d m" k "Some d"] by (simp add: in_memory_def mem_put_def)
  show "\<exists>s'. st_delete in_memory s cf k = (Ok (), s') \<and> mem_ok s' \<and> mem_view s' = put_in (mem_view s) cf k None"
    using m mem_set [OF s m(1), of "bt_remove k m" k None] by (simp add: in_memory_def mem_delete_def)
  show "\<exists>m. st_iter_cf in_memory s cf = Ok m \<and> bt_ok m \<and> map_of m = mem_view s cf"
    using m by (simp add: in_memory_def mem_iter_cf_def)
  show "\<exists>m. st_iter_cf_limit in_memory s cf n = Ok m" "\<exists>n. st_count_keys in_memory s cf = Ok n" for n
    using m by (simp_all add: in_memory_def mem_iter_cf_limit_def mem_count_keys_def)
qed (simp_all add: in_memory_def mem_batch mem_estimate_size_bytes_def)

lemma new_families:
  "bt_ok d \<Longrightarrow> bt_ok (foldl (\<lambda>d cf. bt_insert cf [] d) d cfs)
     \<and> map_of (foldl (\<lambda>d cf. bt_insert cf [] d) d cfs) = (\<lambda>cf. if cf \<in> set cfs then Some [] else map_of d cf)"
proof (induction cfs arbitrary: d)
  case (Cons cf cfs)
  from Cons.IH [of "bt_insert cf [] d"] Cons.prems show ?case by (simp add: fun_eq_iff)
qed (simp add: fun_eq_iff)

lemma mem_new [simp]: "mem_ok InMemoryStore_new" "mem_view InMemoryStore_new = (\<lambda>_ _. None)"
  using new_families [of "[] :: (string \<times> (bytes \<times> bytes) list) list" ALL_COLUMN_FAMILIES]
  by (simp_all add: mem_ok_def mem_view_def InMemoryStore_new_def fun_eq_iff)

end
