(* ===== verification/Pruning.thy ===== *)
theory Pruning
  imports Storage
begin

text \<open>
  Pruning, \<^verbatim>\<open>gratia-state/src/pruning.rs\<close>: the retention policy, the removal of old blocks,
  transactions and attestations, the full cycle, and the interval counter of the pruning manager.
  The utilisation estimate, a floating-point quotient for display, and log output are left out. The
  properties bound what a cycle may remove and show what it does to headers and counters.
\<close>

section \<open>Model\<close>

record PruningPolicy =
  pp_max_db_size_bytes :: u64
  pp_block_retention_count :: u64
  pp_transaction_retention_count :: u64
  pp_attestation_retention_days :: u32
  pp_warning_threshold :: f64

definition PruningPolicy_default :: PruningPolicy where
  "PruningPolicy_default =
     \<lparr> pp_max_db_size_bytes = 3 * 1024 * 1024 * 1024, pp_block_retention_count = 100000,
       pp_transaction_retention_count = 50000, pp_attestation_retention_days = 30,
       pp_warning_threshold = 4 / 5 \<rparr>"

record PruningResult =
  prr_blocks_pruned :: u64
  prr_transactions_pruned :: u64
  prr_attestations_pruned :: u64
  prr_bytes_freed :: u64

definition should_prune :: "'s StateDb \<Rightarrow> 's \<Rightarrow> PruningPolicy \<Rightarrow> (GratiaError, bool) result" where
  "should_prune db s policy =
     (case estimate_size_bytes db s of
        Err e \<Rightarrow> Err e
      | Ok current_size \<Rightarrow> Ok (current_size > pp_max_db_size_bytes policy))"

primrec prune_blocks_loop ::
  "'s StateDb \<Rightarrow> 's \<Rightarrow> u64 \<Rightarrow> u64 list \<Rightarrow> (GratiaError, u64) result \<times> 's" where
  "prune_blocks_loop db s pruned [] = (Ok pruned, s)"
| "prune_blocks_loop db s pruned (height # heights) =
     (case st_get (db_store db) s CF_BLOCKS (be_bytes 8 height) of
        Err e \<Rightarrow> (Err e, s)
      | Ok None \<Rightarrow> prune_blocks_loop db s pruned heights
      | Ok (Some hash_bytes) \<Rightarrow>
          if length hash_bytes = 32
          then (case st_delete (db_store db) s CF_BLOCKS hash_bytes of
                  (Err e, s) \<Rightarrow> (Err e, s)
                | (Ok _, s) \<Rightarrow> prune_blocks_loop db s (add_u64 pruned 1) heights)
          else prune_blocks_loop db s pruned heights)"

definition prune_old_blocks ::
  "'s StateDb \<Rightarrow> 's \<Rightarrow> PruningPolicy \<Rightarrow> u64 \<Rightarrow> (GratiaError, u64) result \<times> 's" where
  "prune_old_blocks db s policy current_height =
     (if current_height \<le> pp_block_retention_count policy then (Ok 0, s)
      else
        let cutoff_height = sub_u64 current_height (pp_block_retention_count policy)
        in prune_blocks_loop db s 0 [0..<cutoff_height])"

text \<open>The entries that decode, with their timestamps.\<close>
definition timestamped_of :: "Bincode \<Rightarrow> (bytes \<times> bytes) list \<Rightarrow> (bytes \<times> datetime) list" where
  "timestamped_of bc entries =
     concat (map (\<lambda>(key, value). case dec (bc_transaction bc) value of
        Ok tx \<Rightarrow> [(key, tx_timestamp tx)] | Err _ \<Rightarrow> []) entries)"

definition prune_old_transactions ::
  "'s StateDb \<Rightarrow> 's \<Rightarrow> PruningPolicy \<Rightarrow> u64 \<Rightarrow> (GratiaError, u64) result \<times> 's" where
  "prune_old_transactions db s policy current_height =
     (if current_height \<le> pp_transaction_retention_count policy then (Ok 0, s)
      else case st_count_keys (db_store db) s CF_TRANSACTIONS of
        Err e \<Rightarrow> (Err e, s)
      | Ok count \<Rightarrow>
          let max_expected_txs = mul_u64 (pp_transaction_retention_count policy) 1000
          in if count \<le> max_expected_txs then (Ok 0, s)
             else case st_iter_cf (db_store db) s CF_TRANSACTIONS of
               Err e \<Rightarrow> (Err e, s)
             | Ok all_txs \<Rightarrow>
                 let excess = sub_u64 count max_expected_txs;
                     timestamped = sort_key snd (timestamped_of (db_bincode db) all_txs);
                     to_remove = min excess (length timestamped);
                     batch = map (\<lambda>(key, _). (CF_TRANSACTIONS, key, None)) (take to_remove timestamped)
                 in if batch \<noteq> []
                    then (case db_batch_write db s batch of
                            (Err e, s) \<Rightarrow> (Err e, s)
                          | (Ok _, s) \<Rightarrow> (Ok (as_u64 (length batch)), s))
                    else (Ok 0, s))"

definition prune_old_attestations ::
  "'s StateDb \<Rightarrow> 's \<Rightarrow> PruningPolicy \<Rightarrow> (GratiaError, u64) result \<times> 's" where
  "prune_old_attestations db s policy =
     (let max_retained = mul_u64 (pp_attestation_retention_days policy) 10000
      in case st_count_keys (db_store db) s CF_ATTESTATIONS of
           Err e \<Rightarrow> (Err e, s)
         | Ok count \<Rightarrow>
             if count \<le> max_retained then (Ok 0, s)
             else
               let prune_count = sub_u64 count max_retained
               in case st_iter_cf_limit (db_store db) s CF_ATTESTATIONS prune_count of
                    Err e \<Rightarrow> (Err e, s)
                  | Ok to_prune \<Rightarrow>
                      let batch = map (\<lambda>(key, _). (CF_ATTESTATIONS, key, None)) to_prune;
                          pruned = as_u64 (length batch)
                      in if batch \<noteq> []
                         then (case db_batch_write db s batch of
                                 (Err e, s) \<Rightarrow> (Err e, s)
                               | (Ok _, s) \<Rightarrow> (Ok pruned, s))
                         else (Ok pruned, s))"

definition run_pruning_cycle ::
  "'s StateDb \<Rightarrow> 's \<Rightarrow> PruningPolicy \<Rightarrow> u64 \<Rightarrow> (GratiaError, PruningResult) result \<times> 's" where
  "run_pruning_cycle db s policy current_height =
     (case estimate_size_bytes db s of
        Err e \<Rightarrow> (Err e, s)
      | Ok size_before \<Rightarrow>
          (case prune_old_blocks db s policy current_height of
             (Err e, s) \<Rightarrow> (Err e, s)
           | (Ok blocks_pruned, s) \<Rightarrow>
               (case prune_old_transactions db s policy current_height of
                  (Err e, s) \<Rightarrow> (Err e, s)
                | (Ok transactions_pruned, s) \<Rightarrow>
                    (case prune_old_attestations db s policy of
                       (Err e, s) \<Rightarrow> (Err e, s)
                     | (Ok attestations_pruned, s) \<Rightarrow>
                         (case estimate_size_bytes db s of
                            Err e \<Rightarrow> (Err e, s)
                          | Ok size_after \<Rightarrow>
                              (Ok \<lparr> prr_blocks_pruned = blocks_pruned,
                                    prr_transactions_pruned = transactions_pruned,
                                    prr_attestations_pruned = attestations_pruned,
                                    prr_bytes_freed = saturating_sub size_before size_after \<rparr>, s))))))"

record PruningConfig =
  pcfg_max_blocks_retained :: u64
  pcfg_max_state_size_bytes :: u64
  pcfg_prune_interval_blocks :: u64
  pcfg_keep_recent_txs_days :: u32

definition PruningConfig_default :: PruningConfig where
  "PruningConfig_default =
     \<lparr> pcfg_max_blocks_retained = 10000, pcfg_max_state_size_bytes = 2147483648,
       pcfg_prune_interval_blocks = 100, pcfg_keep_recent_txs_days = 90 \<rparr>"

record PruneStats =
  pst_total_blocks_pruned :: u64
  pst_total_bytes_freed :: u64
  pst_last_prune_height :: u64
  pst_last_prune_timestamp :: datetime

definition PruneStats_default :: PruneStats where
  "PruneStats_default =
     \<lparr> pst_total_blocks_pruned = 0, pst_total_bytes_freed = 0, pst_last_prune_height = 0,
       pst_last_prune_timestamp = 0 \<rparr>"

record PruningManager =
  pm_config :: PruningConfig
  pm_blocks_since_last_prune :: u64
  pm_prune_stats :: PruneStats

definition PruningManager_new :: "PruningConfig \<Rightarrow> PruningManager" where
  "PruningManager_new config =
     \<lparr> pm_config = config, pm_blocks_since_last_prune = 0, pm_prune_stats = PruneStats_default \<rparr>"

definition pm_tick :: "PruningManager \<Rightarrow> PruningManager" where
  "pm_tick m = m\<lparr>pm_blocks_since_last_prune := add_u64 (pm_blocks_since_last_prune m) 1\<rparr>"

definition pm_should_prune :: "PruningManager \<Rightarrow> bool \<times> PruningManager" where
  "pm_should_prune m =
     (if pm_blocks_since_last_prune m \<ge> pcfg_prune_interval_blocks (pm_config m)
      then (True, m\<lparr>pm_blocks_since_last_prune := 0\<rparr>) else (False, m))"

definition calculate_prune_target :: "PruningManager \<Rightarrow> u64 \<Rightarrow> u64" where
  "calculate_prune_target m current_height =
     saturating_sub current_height (pcfg_max_blocks_retained (pm_config m))"

definition estimate_storage_bytes :: "u64 \<Rightarrow> u64 \<Rightarrow> u64" where
  "estimate_storage_bytes block_count tx_count =
     saturating_add_u64 (saturating_mul_u64 block_count 450) (saturating_mul_u64 tx_count 300)"

definition pm_record_prune :: "datetime \<Rightarrow> PruningManager \<Rightarrow> u64 \<Rightarrow> u64 \<Rightarrow> u64 \<Rightarrow> PruningManager" where
  "pm_record_prune utc_now m blocks_pruned bytes_freed height =
     m\<lparr>pm_prune_stats :=
         \<lparr> pst_total_blocks_pruned = add_u64 (pst_total_blocks_pruned (pm_prune_stats m)) blocks_pruned,
           pst_total_bytes_freed = add_u64 (pst_total_bytes_freed (pm_prune_stats m)) bytes_freed,
           pst_last_prune_height = height, pst_last_prune_timestamp = utc_now \<rparr>\<rparr>"

section \<open>What pruning removes\<close>

text \<open>The hashes the height index holds for some heights.\<close>
definition indexed :: "contents \<Rightarrow> u64 list \<Rightarrow> bytes set" where
  "indexed v hs = {k. length k = 32 \<and> (\<exists>h \<in> set hs. v CF_BLOCKS (be_bytes 8 h) = Some k)}"

definition has_pointer :: "contents \<Rightarrow> u64 \<Rightarrow> bool" where
  "has_pointer v h = (case v CF_BLOCKS (be_bytes 8 h) of Some k \<Rightarrow> length k = 32 | None \<Rightarrow> False)"

definition pointer_count :: "contents \<Rightarrow> u64 \<Rightarrow> u64 list \<Rightarrow> u64" where
  "pointer_count v p hs = foldl (\<lambda>n h. if has_pointer v h then add_u64 n 1 else n) p hs"

lemma pointer_count_simps [simp]:
  "pointer_count v p [] = p"
  "pointer_count v p (h # hs) = pointer_count v (if has_pointer v h then add_u64 p 1 else p) hs"
  by (simp_all add: pointer_count_def)

definition without_blocks :: "contents \<Rightarrow> bytes set \<Rightarrow> contents" where
  "without_blocks v K = v(CF_BLOCKS := (\<lambda>k. if k \<in> K then None else v CF_BLOCKS k))"

lemma indexed_Cons:
  "has_pointer v h \<Longrightarrow> indexed v (h # hs) = insert (the (v CF_BLOCKS (be_bytes 8 h))) (indexed v hs)"
  "\<not> has_pointer v h \<Longrightarrow> indexed v (h # hs) = indexed v hs"
  by (auto simp: indexed_def has_pointer_def split: option.splits)

lemma indexed_pruned:
  assumes "length k = 32"
  shows "indexed (put_in v CF_BLOCKS k None) hs = indexed v hs"
proof -
  have "be_bytes 8 h \<noteq> k" for h using assms be_bytes_length [of 8 h] by auto
  then show ?thesis by (simp add: indexed_def put_in_apply)
qed

lemma without_put:
  "without_blocks (put_in v CF_BLOCKS k None) K = without_blocks v (insert k K)"
  by (auto simp: without_blocks_def put_in_def fun_eq_iff)

context state_store
begin

lemma prune_loop_eq:
  assumes "db_store db = vt"
  shows "ok s \<Longrightarrow> \<exists>s'. prune_blocks_loop db s p hs = (Ok (pointer_count (view s) p hs), s') \<and> ok s'
    \<and> view s' = without_blocks (view s) (indexed (view s) hs)"
proof (induction hs arbitrary: s p)
  case Nil
  then show ?case by (simp add: without_blocks_def indexed_def)
next
  case (Cons h hs)
  show ?case
  proof (cases "has_pointer (view s) h")
    case False
    have "prune_blocks_loop db s p (h # hs) = prune_blocks_loop db s p hs"
      using False Cons.prems assms by (cases "view s CF_BLOCKS (be_bytes 8 h)") (simp_all add: get has_pointer_def)
    then show ?thesis
      using Cons.IH [OF Cons.prems, of p] False unfolding indexed_Cons(2) [OF False] by simp
  next
    case True
    then obtain k where k: "view s CF_BLOCKS (be_bytes 8 h) = Some k" "length k = 32"
      by (cases "view s CF_BLOCKS (be_bytes 8 h)") (simp_all add: has_pointer_def)
    obtain s1 where s1: "st_delete vt s CF_BLOCKS k = (Ok (), s1)" "ok s1"
      "view s1 = put_in (view s) CF_BLOCKS k None" using delete [OF Cons.prems cf_known(1)] by blast
    have "be_bytes 8 h' \<noteq> k" for h' using k(2) be_bytes_length [of 8 h'] by auto
    then have "has_pointer (view s1) h' = has_pointer (view s) h'" for h'
      by (simp add: s1(3) put_in_apply has_pointer_def)
    then have same: "pointer_count (view s1) = pointer_count (view s)" by (simp add: pointer_count_def fun_eq_iff)
    have step: "prune_blocks_loop db s p (h # hs) = prune_blocks_loop db s1 (add_u64 p 1) hs"
      using k s1(1) Cons.prems assms by (simp add: get)
    have "without_blocks (view s1) (indexed (view s1) hs) = without_blocks (view s) (indexed (view s) (h # hs))"
      unfolding s1(3) indexed_pruned [OF k(2)] without_put indexed_Cons(1) [OF True] k(1) by simp
    then show ?thesis unfolding step using Cons.IH [OF s1(2), of "add_u64 p 1"] True unfolding same by simp
  qed
qed

lemma prune_blocks_eq:
  assumes "ok s" "db_store db = vt" "h \<le> U64_MAX"
  shows "\<exists>s'. prune_old_blocks db s policy h =
      (Ok (pointer_count (view s) 0 [0..<h - pp_block_retention_count policy]), s') \<and> ok s'
    \<and> view s' = without_blocks (view s) (indexed (view s) [0..<h - pp_block_retention_count policy])"
proof (cases "h \<le> pp_block_retention_count policy")
  case True
  then show ?thesis using assms(1) by (simp add: prune_old_blocks_def without_blocks_def indexed_def)
next
  case False
  then have "prune_old_blocks db s policy h = prune_blocks_loop db s 0 [0..<h - pp_block_retention_count policy]"
    using assms(3) by (simp add: prune_old_blocks_def Let_def)
  then show ?thesis using prune_loop_eq [OF assms(2,1)] by simp
qed

text \<open>A batch on one column family leaves the others alone.\<close>
lemma batch_one_family:
  assumes "ok s" "cf \<in> set ALL_COLUMN_FAMILIES" "db_store db = vt" "\<forall>op \<in> set ops. fst op = cf"
  shows "\<exists>s'. db_batch_write db s ops = (Ok (), s') \<and> ok s' \<and> (\<forall>cf'. cf' \<noteq> cf \<longrightarrow> view s' cf' = view s cf')"
proof -
  have "foldl batch_in v ops cf' = v cf'" if "cf' \<noteq> cf" for v cf'
    using assms(4) that by (induction ops arbitrary: v) (auto simp: batch_in_def split: prod.splits)
  moreover have "fst ` set ops \<subseteq> set ALL_COLUMN_FAMILIES" using assms(2,4) by auto
  moreover from this obtain s' where "st_batch_write vt s ops = (Ok (), s')" "ok s'"
    "view s' = foldl batch_in (view s) ops" using batch [OF assms(1)] by blast
  ultimately show ?thesis using assms(3) by (simp add: db_batch_write_def)
qed

end

context state_store
begin

lemma prune_transactions_frame:
  assumes "ok s" "db_store db = vt"
  shows "\<exists>n s'. prune_old_transactions db s policy h = (Ok n, s') \<and> ok s'
    \<and> (\<forall>cf. cf \<noteq> CF_TRANSACTIONS \<longrightarrow> view s' cf = view s cf)"
proof -
  obtain n m where c: "st_count_keys vt s CF_TRANSACTIONS = Ok n" and i: "st_iter_cf vt s CF_TRANSACTIONS = Ok m"
    using count [OF assms(1) cf_known(2)] iter [OF assms(1) cf_known(2)] by blast
  let ?t = "sort_key snd (timestamped_of (db_bincode db) m)"
  let ?b = "map (\<lambda>(key, _). (CF_TRANSACTIONS, key, None))
      (take (min (sub_u64 n (mul_u64 (pp_transaction_retention_count policy) 1000)) (length ?t)) ?t) :: batch_op list"
  have "\<forall>op \<in> set ?b. fst op = CF_TRANSACTIONS" by auto
  then obtain s' where s': "db_batch_write db s ?b = (Ok (), s')" "ok s'"
    "\<forall>cf. cf \<noteq> CF_TRANSACTIONS \<longrightarrow> view s' cf = view s cf"
    using batch_one_family [OF assms(1) cf_known(2) assms(2)] by blast
  consider "h \<le> pp_transaction_retention_count policy \<or> n \<le> mul_u64 (pp_transaction_retention_count policy) 1000 \<or> ?b = []"
    | "\<not> h \<le> pp_transaction_retention_count policy" "\<not> n \<le> mul_u64 (pp_transaction_retention_count policy) 1000" "?b \<noteq> []"
    by blast
  then show ?thesis
  proof cases
    case 1
    then have "prune_old_transactions db s policy h = (Ok 0, s)"
      using c i assms(2) unfolding prune_old_transactions_def Let_def by (auto simp: min_def split: if_splits)
    then show ?thesis using assms(1) by blast
  next
    case 2
    then have "prune_old_transactions db s policy h = (Ok (as_u64 (length ?b)), s')"
      using c i assms(2) s'(1) unfolding prune_old_transactions_def Let_def by simp
    then show ?thesis using s'(2,3) by blast
  qed
qed

lemma prune_attestations_frame:
  assumes "ok s" "db_store db = vt"
  shows "\<exists>n s'. prune_old_attestations db s policy = (Ok n, s') \<and> ok s'
    \<and> (\<forall>cf. cf \<noteq> CF_ATTESTATIONS \<longrightarrow> view s' cf = view s cf)"
proof -
  let ?max = "mul_u64 (pp_attestation_retention_days policy) 10000"
  obtain n where c: "st_count_keys vt s CF_ATTESTATIONS = Ok n"
    using count [OF assms(1) cf_known(5)] by blast
  obtain m where i: "st_iter_cf_limit vt s CF_ATTESTATIONS (sub_u64 n ?max) = Ok m"
    using limit [OF assms(1) cf_known(5)] by blast
  let ?b = "map (\<lambda>(key, _). (CF_ATTESTATIONS, key, None)) m :: batch_op list"
  have "\<forall>op \<in> set ?b. fst op = CF_ATTESTATIONS" by auto
  then obtain s' where s': "db_batch_write db s ?b = (Ok (), s')" "ok s'"
    "\<forall>cf. cf \<noteq> CF_ATTESTATIONS \<longrightarrow> view s' cf = view s cf"
    using batch_one_family [OF assms(1) cf_known(5) assms(2)] by blast
  consider "n \<le> ?max" | "\<not> n \<le> ?max" "?b = []" | "\<not> n \<le> ?max" "?b \<noteq> []" by blast
  then show ?thesis
  proof cases
    case 1
    then have "prune_old_attestations db s policy = (Ok 0, s)"
      using c assms(2) by (simp add: prune_old_attestations_def Let_def)
    then show ?thesis using assms(1) by blast
  next
    case 2
    then have "prune_old_attestations db s policy = (Ok (as_u64 (length ?b)), s)"
      using c i assms(2) unfolding prune_old_attestations_def Let_def by simp
    then show ?thesis using assms(1) by blast
  next
    case 3
    then have "prune_old_attestations db s policy = (Ok (as_u64 (length ?b)), s')"
      using c i assms(2) s'(1) unfolding prune_old_attestations_def Let_def by simp
    then show ?thesis using s'(2,3) by blast
  qed
qed

lemma pruning_cycle_frame:
  assumes "ok s" "db_store db = vt" "h \<le> U64_MAX"
  shows "\<exists>res s'. run_pruning_cycle db s policy h = (Ok res, s') \<and> ok s'
    \<and> prr_blocks_pruned res = pointer_count (view s) 0 [0..<h - pp_block_retention_count policy]
    \<and> view s' CF_BLOCKS = without_blocks (view s) (indexed (view s) [0..<h - pp_block_retention_count policy]) CF_BLOCKS
    \<and> (\<forall>cf. cf \<notin> {CF_BLOCKS, CF_TRANSACTIONS, CF_ATTESTATIONS} \<longrightarrow> view s' cf = view s cf)"
proof -
  let ?hs = "[0..<h - pp_block_retention_count policy]"
  obtain n where n: "st_estimate_size_bytes vt s = Ok n" using size [OF assms(1)] by blast
  obtain s1 where s1: "prune_old_blocks db s policy h = (Ok (pointer_count (view s) 0 ?hs), s1)" "ok s1"
    "view s1 = without_blocks (view s) (indexed (view s) ?hs)" using prune_blocks_eq [OF assms] by blast
  obtain k s2 where s2: "prune_old_transactions db s1 policy h = (Ok k, s2)" "ok s2"
    "\<forall>cf. cf \<noteq> CF_TRANSACTIONS \<longrightarrow> view s2 cf = view s1 cf" using prune_transactions_frame [OF s1(2) assms(2)] by blast
  obtain l s3 where s3: "prune_old_attestations db s2 policy = (Ok l, s3)" "ok s3"
    "\<forall>cf. cf \<noteq> CF_ATTESTATIONS \<longrightarrow> view s3 cf = view s2 cf" using prune_attestations_frame [OF s2(2) assms(2)] by blast
  obtain n' where n': "st_estimate_size_bytes vt s3 = Ok n'" using size [OF s3(2)] by blast
  have "run_pruning_cycle db s policy h = (Ok \<lparr> prr_blocks_pruned = pointer_count (view s) 0 ?hs,
      prr_transactions_pruned = k, prr_attestations_pruned = l, prr_bytes_freed = saturating_sub n n' \<rparr>, s3)"
    using n n' s1(1) s2(1) s3(1) assms(2) by (simp add: run_pruning_cycle_def estimate_size_bytes_def)
  moreover have "view s3 CF_BLOCKS = without_blocks (view s) (indexed (view s) ?hs) CF_BLOCKS"
    using s2(3) s3(3) by (simp add: s1(3))
  moreover have "view s3 cf = view s cf" if "cf \<notin> {CF_BLOCKS, CF_TRANSACTIONS, CF_ATTESTATIONS}" for cf
    using s2(3) s3(3) that by (simp add: s1(3) without_blocks_def)
  ultimately show ?thesis using s3(2) by auto
qed

end

section \<open>Properties\<close>

lemma without_pointer: "has_pointer (without_blocks v (indexed v hs)) h = has_pointer v h"
proof -
  have "be_bytes 8 h \<notin> indexed v hs" by (simp add: indexed_def)
  then show ?thesis by (simp add: has_pointer_def without_blocks_def)
qed

lemma without_again: "without_blocks (without_blocks v (indexed v hs)) (indexed (without_blocks v (indexed v hs)) hs)
    = without_blocks v (indexed v hs)"
proof -
  have "be_bytes 8 h \<notin> indexed v hs" for h by (simp add: indexed_def)
  then have "indexed (without_blocks v (indexed v hs)) hs = indexed v hs"
    by (simp add: indexed_def [of "without_blocks v (indexed v hs)"] without_blocks_def) (simp add: indexed_def)
  then show ?thesis by (simp add: without_blocks_def fun_eq_iff)
qed

lemma pointer_count_eq: "p + length hs \<le> U64_MAX \<Longrightarrow> pointer_count v p hs = p + length (filter (has_pointer v) hs)"
  by (induction hs arbitrary: p) simp_all

text \<open>C17: Exactly what pruning old blocks does to the in-memory store. An entry is removed if and only if
  it is a block that the height index names for a height below the retention window; every other
  entry of every column family stays, the height index included. The number returned is the number
  of heights below the window that the index has a block hash for. The header goes with the block: a
  pruned height answers that there is no block. And because the index stays, the next run changes
  nothing but reports the same number of pruned blocks again.\<close>

theorem prune_old_blocks_exact:
  assumes "mem_ok s" "db_store db = in_memory" "h \<le> U64_MAX"
    and "cutoff = h - pp_block_retention_count policy"
  shows "\<exists>n s'. prune_old_blocks db s policy h = (Ok n, s') \<and> mem_ok s'
    \<and> n = length (filter (has_pointer (mem_view s)) [0..<cutoff])
    \<and> (\<forall>cf key. mem_view s' cf key =
         (if cf = CF_BLOCKS \<and> length key = 32 \<and> (\<exists>k < cutoff. mem_view s CF_BLOCKS (be_bytes 8 k) = Some key)
          then None else mem_view s cf key))
    \<and> (\<forall>k < cutoff. has_pointer (mem_view s) k \<longrightarrow> get_block_by_height db s' k = Ok None)
    \<and> (\<exists>s''. prune_old_blocks db s' policy h = (Ok n, s'') \<and> mem_view s'' = mem_view s')"
proof -
  let ?K = "indexed (mem_view s) [0..<cutoff]"
  have get: "mem_get t CF_BLOCKS k = Ok (mem_view t CF_BLOCKS k)" if "mem_ok t" for t k
    using mem.get [OF that cf_known(1)] by (simp add: in_memory_def)
  obtain s' where s': "prune_old_blocks db s policy h = (Ok (pointer_count (mem_view s) 0 [0..<cutoff]), s')"
    "mem_ok s'" "mem_view s' = without_blocks (mem_view s) ?K"
    using mem.prune_blocks_eq [OF assms(1-3), of policy] unfolding assms(4) by blast
  obtain s'' where s'': "prune_old_blocks db s' policy h = (Ok (pointer_count (mem_view s') 0 [0..<cutoff]), s'')"
    "mem_view s'' = without_blocks (mem_view s') (indexed (mem_view s') [0..<cutoff])"
    using mem.prune_blocks_eq [OF s'(2) assms(2,3), of policy] unfolding assms(4) by blast
  have blocks: "mem_view s' CF_BLOCKS k = (if k \<in> ?K then None else mem_view s CF_BLOCKS k)" for k
    by (simp add: s'(3) without_blocks_def)
  have gone: "get_block_by_height db s' k = Ok None" if k: "k < cutoff" "has_pointer (mem_view s) k" for k
  proof -
    obtain x where x: "mem_view s CF_BLOCKS (be_bytes 8 k) = Some x" "length x = 32"
      using k(2) by (cases "mem_view s CF_BLOCKS (be_bytes 8 k)") (simp_all add: has_pointer_def)
    have "x \<in> ?K" using x k(1) by (auto simp: indexed_def)
    moreover have "be_bytes 8 k \<notin> ?K" by (simp add: indexed_def)
    ultimately show ?thesis using x assms(1,2) s'(2)
      by (simp add: get_block_by_height_def get_block_def in_memory_def get blocks)
  qed
  have n: "pointer_count (mem_view s) 0 [0..<cutoff] = length (filter (has_pointer (mem_view s)) [0..<cutoff])"
    using assms(3,4) by (simp add: pointer_count_eq)
  have view: "mem_view s' cf key =
      (if cf = CF_BLOCKS \<and> length key = 32 \<and> (\<exists>k < cutoff. mem_view s CF_BLOCKS (be_bytes 8 k) = Some key)
       then None else mem_view s cf key)" for cf key
    by (auto simp: s'(3) without_blocks_def indexed_def)
  have "pointer_count (mem_view s') = pointer_count (mem_view s)"
    by (simp add: pointer_count_def fun_eq_iff s'(3) without_pointer)
  moreover have "mem_view s'' = mem_view s'" unfolding s''(2) s'(3) by (rule without_again)
  ultimately show ?thesis using s'(1,2) s''(1) n view gone by auto
qed

definition no_codec :: "'a Codec" where
  "no_codec = \<lparr> enc = (\<lambda>_. Err ''unsupported''), dec = (\<lambda>_. Err ''unsupported'') \<rparr>"

definition bare_db :: "InMemoryStore StateDb" where
  "bare_db = \<lparr> db_store = in_memory, db_bincode = \<lparr> bc_header = no_codec, bc_block = no_codec,
     bc_transaction = no_codec, bc_account = no_codec, bc_attestation = no_codec \<rparr> \<rparr>"

definition one_block_store :: InMemoryStore where
  "one_block_store = snd (mem_put (snd (mem_put InMemoryStore_new CF_BLOCKS (replicate 32 1) [7]))
     CF_BLOCKS (be_bytes 8 0) (replicate 32 1))"

lemma one_block_store: "mem_ok one_block_store" "has_pointer (mem_view one_block_store) 0"
proof -
  let ?s = "snd (mem_put InMemoryStore_new CF_BLOCKS (replicate 32 1) [7])"
  have "\<exists>t. mem_put InMemoryStore_new CF_BLOCKS (replicate 32 1) [7] = (Ok (), t) \<and> mem_ok t"
    using mem.put [OF mem_new(1) cf_known(1)] by (simp add: in_memory_def) blast
  then have s: "mem_ok ?s" by auto
  have "\<exists>t. mem_put ?s CF_BLOCKS (be_bytes 8 0) (replicate 32 1) = (Ok (), t) \<and> mem_ok t
      \<and> mem_view t = put_in (mem_view ?s) CF_BLOCKS (be_bytes 8 0) (Some (replicate 32 1))"
    using mem.put [OF s cf_known(1)] by (simp add: in_memory_def)
  then show "mem_ok one_block_store" "has_pointer (mem_view one_block_store) 0"
    by (auto simp: one_block_store_def has_pointer_def put_in_apply)
qed

theorem prune_old_blocks_exact_witness:
  "\<exists>n s'. prune_old_blocks bare_db one_block_store (PruningPolicy_default\<lparr>pp_block_retention_count := 1\<rparr>) 5 = (Ok n, s')
     \<and> 0 < n \<and> get_block_by_height bare_db s' 0 = Ok None"
proof -
  let ?p = "PruningPolicy_default\<lparr>pp_block_retention_count := 1\<rparr>"
  have "db_store bare_db = in_memory" "(5::nat) \<le> U64_MAX" "(4::nat) = 5 - pp_block_retention_count ?p"
    by (simp_all add: bare_db_def U64_MAX_def)
  from prune_old_blocks_exact [OF one_block_store(1) this] obtain n s'
    where "prune_old_blocks bare_db one_block_store ?p 5 = (Ok n, s')"
      and n: "n = length (filter (has_pointer (mem_view one_block_store)) [0..<4])"
      and "\<forall>k < 4. has_pointer (mem_view one_block_store) k \<longrightarrow> get_block_by_height bare_db s' k = Ok None" by blast
  moreover have "0 < n" using one_block_store(2) unfolding n by (simp add: upt_rec)
  ultimately show ?thesis using one_block_store(2) by auto
qed

end
