(* ===== verification/State_Manager.thy ===== *)
theory State_Manager
  imports Merkle Pruning
begin

text \<open>
  The state transition function of \<^verbatim>\<open>gratia-state/src/lib.rs\<close>: applying and reverting blocks and
  transactions on the accounts of a store. Every write happens when the code makes it, so an error
  returns the store with what had been written before it. The check that 32 bytes are a curve point
  (\<^verbatim>\<open>VerifyingKey::from_bytes\<close>) is the parameter \<open>valid_key\<close>; log output is left out.
\<close>

record 's StateManager =
  stm_db :: "'s StateDb"
  stm_pruning_policy :: PruningPolicy

definition StateManager_new :: "'s StateDb \<Rightarrow> 's StateManager" where
  "StateManager_new db = \<lparr> stm_db = db, stm_pruning_policy = PruningPolicy_default \<rparr>"

definition with_pruning_policy :: "'s StateDb \<Rightarrow> PruningPolicy \<Rightarrow> 's StateManager" where
  "with_pruning_policy db policy = \<lparr> stm_db = db, stm_pruning_policy = policy \<rparr>"

definition address_from_pubkey ::
  "(bytes \<Rightarrow> bool) \<Rightarrow> (bytes \<Rightarrow> bytes) \<Rightarrow> bytes \<Rightarrow> (GratiaError, Address) result" where
  "address_from_pubkey valid_key sha256 pubkey_bytes =
     (if length pubkey_bytes \<noteq> 32 then Err GE_InvalidSignature
      else if \<not> valid_key pubkey_bytes then Err GE_InvalidSignature
      else Ok (Address_from_public_key sha256 pubkey_bytes))"

definition apply_transfer ::
  "'s StateDb \<Rightarrow> 's \<Rightarrow> Address \<Rightarrow> Address \<Rightarrow> Lux \<Rightarrow> Lux \<Rightarrow> u64 \<Rightarrow> (GratiaError, unit) result \<times> 's" where
  "apply_transfer db s sender recipient amount fee nonce =
     (case get_account db s sender of
        Err e \<Rightarrow> (Err e, s)
      | Ok sender_acct \<Rightarrow>
          (case checked_add_u64 amount fee of
             None \<Rightarrow> (Err (GE_Other ''transfer amount overflow''), s)
           | Some total_debit \<Rightarrow>
               if ac_balance sender_acct < total_debit
               then (Err (GE_InsufficientBalance (ac_balance sender_acct) total_debit), s)
               else if ac_nonce sender_acct \<noteq> nonce
               then (Err (GE_NonceMismatch (ac_nonce sender_acct) nonce), s)
               else
                 let sender_acct = sender_acct\<lparr>ac_balance := sub_u64 (ac_balance sender_acct) total_debit,
                                               ac_nonce := add_u64 (ac_nonce sender_acct) 1\<rparr>
                 in case put_account db s sender sender_acct of
                      (Err e, s) \<Rightarrow> (Err e, s)
                    | (Ok _, s) \<Rightarrow>
                        (case get_account db s recipient of
                           Err e \<Rightarrow> (Err e, s)
                         | Ok recipient_acct \<Rightarrow>
                             (case checked_add_u64 (ac_balance recipient_acct) amount of
                                None \<Rightarrow> (Err (GE_Other ''recipient balance overflow''), s)
                              | Some balance \<Rightarrow>
                                  put_account db s recipient (recipient_acct\<lparr>ac_balance := balance\<rparr>)))))"

definition apply_stake ::
  "'s StateDb \<Rightarrow> 's \<Rightarrow> Address \<Rightarrow> Lux \<Rightarrow> Lux \<Rightarrow> u64 \<Rightarrow> (GratiaError, unit) result \<times> 's" where
  "apply_stake db s sender amount fee nonce =
     (case get_account db s sender of
        Err e \<Rightarrow> (Err e, s)
      | Ok acct \<Rightarrow>
          (case checked_add_u64 amount fee of
             None \<Rightarrow> (Err (GE_Other ''stake amount overflow''), s)
           | Some total_debit \<Rightarrow>
               if ac_balance acct < total_debit
               then (Err (GE_InsufficientBalance (ac_balance acct) total_debit), s)
               else if ac_nonce acct \<noteq> nonce
               then (Err (GE_NonceMismatch (ac_nonce acct) nonce), s)
               else
                 let acct = acct\<lparr>ac_balance := sub_u64 (ac_balance acct) total_debit\<rparr>
                 in case checked_add_u64 (ac_staked acct) amount of
                      None \<Rightarrow> (Err (GE_Other ''staked amount overflow''), s)
                    | Some staked \<Rightarrow>
                        put_account db s sender
                          (acct\<lparr>ac_staked := staked, ac_nonce := add_u64 (ac_nonce acct) 1\<rparr>)))"

definition apply_unstake ::
  "'s StateDb \<Rightarrow> 's \<Rightarrow> Address \<Rightarrow> Lux \<Rightarrow> Lux \<Rightarrow> u64 \<Rightarrow> (GratiaError, unit) result \<times> 's" where
  "apply_unstake db s sender amount fee nonce =
     (case get_account db s sender of
        Err e \<Rightarrow> (Err e, s)
      | Ok acct \<Rightarrow>
          if ac_balance acct < fee
          then (Err (GE_InsufficientBalance (ac_balance acct) fee), s)
          else if ac_staked acct < amount
          then (Err (GE_InsufficientStake (ac_staked acct) amount), s)
          else if ac_nonce acct \<noteq> nonce
          then (Err (GE_NonceMismatch (ac_nonce acct) nonce), s)
          else put_account db s sender
                 (acct\<lparr>ac_balance := add_u64 (sub_u64 (ac_balance acct) fee) amount,
                       ac_staked := sub_u64 (ac_staked acct) amount,
                       ac_nonce := add_u64 (ac_nonce acct) 1\<rparr>))"

definition apply_fee_and_nonce ::
  "'s StateDb \<Rightarrow> 's \<Rightarrow> Address \<Rightarrow> Lux \<Rightarrow> u64 \<Rightarrow> (GratiaError, unit) result \<times> 's" where
  "apply_fee_and_nonce db s sender fee nonce =
     (case get_account db s sender of
        Err e \<Rightarrow> (Err e, s)
      | Ok acct \<Rightarrow>
          if ac_balance acct < fee
          then (Err (GE_InsufficientBalance (ac_balance acct) fee), s)
          else if ac_nonce acct \<noteq> nonce
          then (Err (GE_NonceMismatch (ac_nonce acct) nonce), s)
          else put_account db s sender
                 (acct\<lparr>ac_balance := sub_u64 (ac_balance acct) fee,
                       ac_nonce := add_u64 (ac_nonce acct) 1\<rparr>))"

definition apply_transaction ::
  "(bytes \<Rightarrow> bool) \<Rightarrow> (bytes \<Rightarrow> bytes) \<Rightarrow> 's StateDb \<Rightarrow> 's \<Rightarrow> Transaction \<Rightarrow> (GratiaError, unit) result \<times> 's" where
  "apply_transaction valid_key sha256 db s tx =
     (case address_from_pubkey valid_key sha256 (tx_sender_pubkey tx) of
        Err e \<Rightarrow> (Err e, s)
      | Ok sender_address \<Rightarrow>
          (case tx_payload tx of
             Transfer to_addr amount \<Rightarrow> apply_transfer db s sender_address to_addr amount (tx_fee tx) (tx_nonce tx)
           | Stake amount \<Rightarrow> apply_stake db s sender_address amount (tx_fee tx) (tx_nonce tx)
           | Unstake amount \<Rightarrow> apply_unstake db s sender_address amount (tx_fee tx) (tx_nonce tx)
           | _ \<Rightarrow> apply_fee_and_nonce db s sender_address (tx_fee tx) (tx_nonce tx)))"

definition revert_transaction ::
  "(bytes \<Rightarrow> bool) \<Rightarrow> (bytes \<Rightarrow> bytes) \<Rightarrow> 's StateDb \<Rightarrow> 's \<Rightarrow> Transaction \<Rightarrow> (GratiaError, unit) result \<times> 's" where
  "revert_transaction valid_key sha256 db s tx =
     (case address_from_pubkey valid_key sha256 (tx_sender_pubkey tx) of
        Err e \<Rightarrow> (Err e, s)
      | Ok sender_address \<Rightarrow>
          (case get_account db s sender_address of
             Err e \<Rightarrow> (Err e, s)
           | Ok acct \<Rightarrow>
               (case tx_payload tx of
                  Transfer to_addr amount \<Rightarrow>
                    let acct = acct\<lparr>ac_balance := add_u64 (ac_balance acct) (add_u64 amount (tx_fee tx))\<rparr>
                    in (case checked_sub_u64 (ac_nonce acct) 1 of
                          None \<Rightarrow> (Err (GE_Other ''nonce underflow during transaction revert''), s)
                        | Some nonce \<Rightarrow>
                            (case put_account db s sender_address (acct\<lparr>ac_nonce := nonce\<rparr>) of
                               (Err e, s) \<Rightarrow> (Err e, s)
                             | (Ok _, s) \<Rightarrow>
                                 (case get_account db s to_addr of
                                    Err e \<Rightarrow> (Err e, s)
                                  | Ok recipient_acct \<Rightarrow>
                                      put_account db s to_addr
                                        (recipient_acct\<lparr>ac_balance :=
                                           saturating_sub (ac_balance recipient_acct) amount\<rparr>))))
                | Stake amount \<Rightarrow>
                    put_account db s sender_address
                      (acct\<lparr>ac_balance := add_u64 (ac_balance acct) (add_u64 amount (tx_fee tx)),
                            ac_staked := saturating_sub (ac_staked acct) amount,
                            ac_nonce := sub_u64 (ac_nonce acct) 1\<rparr>)
                | Unstake amount \<Rightarrow>
                    put_account db s sender_address
                      (acct\<lparr>ac_balance := add_u64 (saturating_sub (ac_balance acct) amount) (tx_fee tx),
                            ac_staked := add_u64 (ac_staked acct) amount,
                            ac_nonce := sub_u64 (ac_nonce acct) 1\<rparr>)
                | _ \<Rightarrow>
                    put_account db s sender_address
                      (acct\<lparr>ac_balance := add_u64 (ac_balance acct) (tx_fee tx),
                            ac_nonce := sub_u64 (ac_nonce acct) 1\<rparr>))))"

definition compute_state_root :: "(bytes \<Rightarrow> bytes) \<Rightarrow> 's StateDb \<Rightarrow> 's \<Rightarrow> (GratiaError, bytes) result" where
  "compute_state_root sha256 db s =
     (case st_iter_cf (db_store db) s CF_ACCOUNTS of
        Err e \<Rightarrow> Err e
      | Ok accounts \<Rightarrow>
          if accounts = [] then Ok (sha256 (byte_string ''gratia-empty-state-v1''))
          else
            let leaves = map (\<lambda>(k, v). sha256 (k @ v)) accounts
            in Ok (merkle_root (merkle_build sha256 leaves)))"

definition apply_block ::
  "(bytes \<Rightarrow> bool) \<Rightarrow> (bytes \<Rightarrow> bytes) \<Rightarrow> 's StateManager \<Rightarrow> 's \<Rightarrow> Block \<Rightarrow> (GratiaError, unit) result \<times> 's" where
  "apply_block valid_key sha256 m s block =
     (let db = stm_db m
      in case get_block_height db s of
           Err e \<Rightarrow> (Err e, s)
         | Ok current_height \<Rightarrow>
       (case get_chain_tip db s of
           Err e \<Rightarrow> (Err e, s)
         | Ok current_tip \<Rightarrow>
            let expected_height = add_u64 current_height 1;
                height = bh_height (blk_header block)
            in if height \<noteq> expected_height
               then (Err (GE_BlockValidationFailed
                       (''expected height '' @ show_nat expected_height @ '', got '' @ show_nat height)), s)
               else if current_height > 0 \<and> (case current_tip of
                         Some tip \<Rightarrow> bh_parent_hash (blk_header block) \<noteq> tip | None \<Rightarrow> False)
               then (Err (GE_BlockValidationFailed ''parent hash does not match chain tip''), s)
               else
                 and_then (try_each (apply_transaction valid_key sha256 db) s (blk_transactions block)) (\<lambda>_ s.
                 and_then (put_block sha256 db s block) (\<lambda>_ s.
                 and_then (try_each (put_transaction db) s (blk_transactions block)) (\<lambda>_ s.
                 and_then (try_each (put_attestation db) s (blk_attestations block)) (\<lambda>_ s.
                 and_then (compute_state_root sha256 db s, s) (\<lambda>state_root s.
                 and_then (set_state_root db s state_root) (\<lambda>_ s.
                 and_then (header_hash sha256 (db_bincode db) (blk_header block), s) (\<lambda>block_hash s.
                 and_then (set_chain_tip db s block_hash) (\<lambda>_ s.
                 and_then (set_block_height db s height) (\<lambda>_ s.
                 and_then (should_prune db s (stm_pruning_policy m), s) (\<lambda>needed s.
                   if needed
                   then and_then (run_pruning_cycle db s (stm_pruning_policy m) height) (\<lambda>_ s. (Ok (), s))
                   else (Ok (), s)))))))))))))"

definition revert_block ::
  "(bytes \<Rightarrow> bool) \<Rightarrow> (bytes \<Rightarrow> bytes) \<Rightarrow> 's StateManager \<Rightarrow> 's \<Rightarrow> (GratiaError, unit) result \<times> 's" where
  "revert_block valid_key sha256 m s =
     (let db = stm_db m
      in case get_block_height db s of
           Err e \<Rightarrow> (Err e, s)
         | Ok current_height \<Rightarrow>
       if current_height = 0 then (Err (GE_BlockValidationFailed ''cannot revert genesis block''), s)
       else (case get_chain_tip db s of
           Err e \<Rightarrow> (Err e, s)
         | Ok None \<Rightarrow> (Err (GE_StorageError ''no chain tip found''), s)
         | Ok (Some tip) \<Rightarrow>
       (case get_block db s tip of
           Err e \<Rightarrow> (Err e, s)
         | Ok None \<Rightarrow> (Err (GE_StorageError ''chain tip block not found in storage''), s)
         | Ok (Some block) \<Rightarrow>
             and_then (try_each (revert_transaction valid_key sha256 db) s (rev (blk_transactions block))) (\<lambda>_ s.
             and_then (try_each (delete_transaction db) s (map tx_hash (blk_transactions block))) (\<lambda>_ s.
             and_then (delete_block db s tip) (\<lambda>_ s.
             and_then (set_chain_tip db s (bh_parent_hash (blk_header block))) (\<lambda>_ s.
             and_then (set_block_height db s (sub_u64 current_height 1)) (\<lambda>_ s.
             and_then (compute_state_root sha256 db s, s) (\<lambda>state_root s.
               set_state_root db s state_root)))))))))"

text \<open>The loop of \<^verbatim>\<open>revert_to_height\<close>: collect the transactions of the tip, then revert it.\<close>
primrec revert_loop ::
  "(bytes \<Rightarrow> bool) \<Rightarrow> (bytes \<Rightarrow> bytes) \<Rightarrow> 's StateManager \<Rightarrow> nat \<Rightarrow> Transaction list \<Rightarrow> 's
     \<Rightarrow> (GratiaError, Transaction list) result \<times> 's" where
  "revert_loop valid_key sha256 m 0 orphaned_txs s = (Ok orphaned_txs, s)"
| "revert_loop valid_key sha256 m (Suc n) orphaned_txs s =
     (case get_chain_tip (stm_db m) s of
        Err e \<Rightarrow> (Err e, s)
      | Ok tip \<Rightarrow>
          let orphaned_txs =
                (case tip of
                   None \<Rightarrow> orphaned_txs
                 | Some hash \<Rightarrow>
                     (case get_block (stm_db m) s hash of
                        Ok (Some block) \<Rightarrow> orphaned_txs @ blk_transactions block
                      | _ \<Rightarrow> orphaned_txs))
          in and_then (revert_block valid_key sha256 m s) (\<lambda>_ s.
               revert_loop valid_key sha256 m n orphaned_txs s))"

definition revert_to_height ::
  "(bytes \<Rightarrow> bool) \<Rightarrow> (bytes \<Rightarrow> bytes) \<Rightarrow> 's StateManager \<Rightarrow> 's \<Rightarrow> u64
     \<Rightarrow> (GratiaError, Transaction list) result \<times> 's" where
  "revert_to_height valid_key sha256 m s target_height =
     (case get_block_height (stm_db m) s of
        Err e \<Rightarrow> (Err e, s)
      | Ok current_height \<Rightarrow>
          if target_height \<ge> current_height then (Ok [], s)
          else revert_loop valid_key sha256 m (sub_u64 current_height target_height) [] s)"

text \<open>The loop over the heights, which stops at the first height without a block.\<close>
primrec blocks_range_loop :: "'s StateDb \<Rightarrow> 's \<Rightarrow> Block list \<Rightarrow> u64 list \<Rightarrow> Block list" where
  "blocks_range_loop db s blocks [] = blocks"
| "blocks_range_loop db s blocks (height # heights) =
     (case get_block_by_height db s height of
        Ok (Some block) \<Rightarrow> blocks_range_loop db s (blocks @ [block]) heights
      | _ \<Rightarrow> blocks)"

definition get_blocks_by_height_range :: "'s StateManager \<Rightarrow> 's \<Rightarrow> u64 \<Rightarrow> u64 \<Rightarrow> Block list" where
  "get_blocks_by_height_range m s from_height to_height =
     blocks_range_loop (stm_db m) s [] [from_height..<Suc (min to_height (add_u64 from_height 49))]"

end
