(* ===== verification/Ledger.thy ===== *)
theory Ledger
  imports State_Manager
begin

text \<open>
  The accounts behind the state manager as an abstract ledger, a function from addresses to account
  states. Within the contract of a store the transaction functions are shown to implement posting on
  that ledger; block application and reversal follow. The properties are stated for the in-memory
  store, which keeps the contract.
\<close>

section \<open>The abstract ledger\<close>

type_synonym ledger = "Address \<Rightarrow> AccountState"

definition ledger_of :: "Bincode \<Rightarrow> contents \<Rightarrow> ledger" where
  "ledger_of bc v a =
     (case v CF_ACCOUNTS (address_bytes a) of
        None \<Rightarrow> AccountState_default
      | Some d \<Rightarrow> (case dec (bc_account bc) d of Ok x \<Rightarrow> x | Err _ \<Rightarrow> AccountState_default))"

definition accounts_ok :: "Bincode \<Rightarrow> contents \<Rightarrow> bool" where
  "accounts_ok bc v \<longleftrightarrow> (\<forall>k d. v CF_ACCOUNTS k = Some d \<longrightarrow> (\<exists>x. dec (bc_account bc) d = Ok x))"

definition holdings :: "Address set \<Rightarrow> ledger \<Rightarrow> nat" where
  "holdings A L = (\<Sum>a \<in> A. ac_balance (L a) + ac_staked (L a))"

text \<open>Posting a transaction of the sender \<open>a\<close>, and when it is accepted.\<close>

definition posted :: "ledger \<Rightarrow> Address \<Rightarrow> Transaction \<Rightarrow> ledger" where
  "posted L a tx = (let acct = L a; fee = tx_fee tx; nonce = Suc (ac_nonce (L a)) in
     case tx_payload tx of
       Transfer to_addr amount \<Rightarrow>
         (let L = L(a := acct\<lparr>ac_balance := ac_balance acct - (amount + fee), ac_nonce := nonce\<rparr>)
          in L(to_addr := (L to_addr)\<lparr>ac_balance := ac_balance (L to_addr) + amount\<rparr>))
     | Stake amount \<Rightarrow> L(a := acct\<lparr>ac_balance := ac_balance acct - (amount + fee),
         ac_staked := ac_staked acct + amount, ac_nonce := nonce\<rparr>)
     | Unstake amount \<Rightarrow> L(a := acct\<lparr>ac_balance := ac_balance acct - fee + amount,
         ac_staked := ac_staked acct - amount, ac_nonce := nonce\<rparr>)
     | _ \<Rightarrow> L(a := acct\<lparr>ac_balance := ac_balance acct - fee, ac_nonce := nonce\<rparr>))"

definition acceptable :: "ledger \<Rightarrow> Address \<Rightarrow> Transaction \<Rightarrow> bool" where
  "acceptable L a tx \<longleftrightarrow> ac_nonce (L a) = tx_nonce tx \<and>
     (case tx_payload tx of
        Transfer _ amount \<Rightarrow> amount + tx_fee tx \<le> ac_balance (L a)
      | Stake amount \<Rightarrow> amount + tx_fee tx \<le> ac_balance (L a)
      | Unstake amount \<Rightarrow> tx_fee tx \<le> ac_balance (L a) \<and> amount \<le> ac_staked (L a)
      | _ \<Rightarrow> tx_fee tx \<le> ac_balance (L a))"

definition touches :: "Address \<Rightarrow> Transaction \<Rightarrow> Address set" where
  "touches a tx = insert a (case tx_payload tx of Transfer to_addr _ \<Rightarrow> {to_addr} | _ \<Rightarrow> {})"

lemma holdings_upd:
  "finite A \<Longrightarrow> a \<in> A \<Longrightarrow> holdings A (L(a := x)) + (ac_balance (L a) + ac_staked (L a))
     = holdings A L + (ac_balance x + ac_staked x)"
  unfolding holdings_def by (subst (1 2) sum.remove [of A a]) simp_all

lemma holdings_ge: "finite A \<Longrightarrow> a \<in> A \<Longrightarrow> ac_balance (L a) + ac_staked (L a) \<le> holdings A L"
  unfolding holdings_def by (rule member_le_sum) simp_all

lemma holdings_debit:
  assumes "finite A" "a \<in> A" "d \<le> ac_balance (L a)"
    and "ac_balance x + ac_staked x + d = ac_balance (L a) + ac_staked (L a)"
  shows "holdings A (L(a := x)) + d = holdings A L"
  using holdings_upd [OF assms(1,2), of L x] assms(4) by linarith

lemma posted_holdings:
  assumes A: "finite A" "touches a tx \<subseteq> A" and acc: "acceptable L a tx"
  shows "holdings A (posted L a tx) + tx_fee tx = holdings A L"
proof -
  have a: "a \<in> A" using A(2) by (auto simp: touches_def)
  show ?thesis
  proof (cases "tx_payload tx")
    case (Transfer t amount)
    then have t: "t \<in> A" using A(2) by (simp add: touches_def)
    let ?x = "(L a)\<lparr>ac_balance := ac_balance (L a) - (amount + tx_fee tx), ac_nonce := Suc (ac_nonce (L a))\<rparr>"
    let ?L = "L(a := ?x)"
    have "posted L a tx = ?L(t := (?L t)\<lparr>ac_balance := ac_balance (?L t) + amount\<rparr>)"
      by (simp add: posted_def Transfer Let_def)
    then have "holdings A (posted L a tx) = holdings A ?L + amount"
      using holdings_upd [OF A(1) t, of ?L "(?L t)\<lparr>ac_balance := ac_balance (?L t) + amount\<rparr>"] by simp
    moreover have "holdings A ?L + (amount + tx_fee tx) = holdings A L"
      using acc by (intro holdings_debit [OF A(1) a]) (simp_all add: acceptable_def Transfer)
    ultimately show ?thesis by simp
  qed (use acc in \<open>simp add: posted_def Let_def acceptable_def holdings_debit [OF A(1) a]\<close>)+
qed

section \<open>Transactions\<close>

definition codec_ok :: "'a Codec \<Rightarrow> bool" where
  "codec_ok c \<longleftrightarrow> (\<forall>x. codec_at c x)"

text \<open>A step that leaves every column family but the accounts alone, and deletes no account.\<close>
definition only_accounts :: "contents \<Rightarrow> contents \<Rightarrow> bool" where
  "only_accounts v v' \<longleftrightarrow> (\<forall>cf. cf \<noteq> CF_ACCOUNTS \<longrightarrow> v' cf = v cf) \<and> dom (v CF_ACCOUNTS) \<subseteq> dom (v' CF_ACCOUNTS)"

lemma only_accounts_trans: "only_accounts u v \<Longrightarrow> only_accounts v w \<Longrightarrow> only_accounts u w"
  unfolding only_accounts_def by (metis subset_trans)

lemma only_accounts_refl [simp]: "only_accounts v v"
  by (simp add: only_accounts_def)

lemma address_bytes_inj [simp]: "address_bytes a = address_bytes b \<longleftrightarrow> a = b"
  by (cases a; cases b) simp

lemma posted_simps:
  "tx_payload tx = Transfer t amount \<Longrightarrow> posted L a tx =
     (let L = L(a := (L a)\<lparr>ac_balance := ac_balance (L a) - (amount + tx_fee tx), ac_nonce := Suc (ac_nonce (L a))\<rparr>)
      in L(t := (L t)\<lparr>ac_balance := ac_balance (L t) + amount\<rparr>))"
  "tx_payload tx = Stake amount \<Longrightarrow> posted L a tx = L(a := (L a)\<lparr>ac_balance := ac_balance (L a) - (amount + tx_fee tx),
     ac_staked := ac_staked (L a) + amount, ac_nonce := Suc (ac_nonce (L a))\<rparr>)"
  "tx_payload tx = Unstake amount \<Longrightarrow> posted L a tx = L(a := (L a)\<lparr>ac_balance := ac_balance (L a) - tx_fee tx + amount,
     ac_staked := ac_staked (L a) - amount, ac_nonce := Suc (ac_nonce (L a))\<rparr>)"
  by (simp_all add: posted_def Let_def)

definition plain_payload :: "TransactionPayload \<Rightarrow> bool" where
  "plain_payload p = (case p of Transfer _ _ \<Rightarrow> False | Stake _ \<Rightarrow> False | Unstake _ \<Rightarrow> False | _ \<Rightarrow> True)"

lemma posted_plain:
  "plain_payload (tx_payload tx) \<Longrightarrow> posted L a tx =
     L(a := (L a)\<lparr>ac_balance := ac_balance (L a) - tx_fee tx, ac_nonce := Suc (ac_nonce (L a))\<rparr>)"
  "plain_payload (tx_payload tx) \<Longrightarrow>
     acceptable L a tx \<longleftrightarrow> ac_nonce (L a) = tx_nonce tx \<and> tx_fee tx \<le> ac_balance (L a)"
  by (cases "tx_payload tx"; simp add: plain_payload_def posted_def acceptable_def Let_def)+

text \<open>The account entries decode, and the encoding of accounts can be undone.\<close>
definition sound :: "Bincode \<Rightarrow> contents \<Rightarrow> bool" where
  "sound bc v \<longleftrightarrow> accounts_ok bc v \<and> codec_ok (bc_account bc)"

context state_store
begin

lemma get_account_led:
  assumes "ok s" "sound (db_bincode db) (view s)" "db_store db = vt"
  shows "get_account db s a = Ok (ledger_of (db_bincode db) (view s) a)"
proof (cases "view s CF_ACCOUNTS (address_bytes a)")
  case None
  then show ?thesis using assms by (simp add: get_account_def get ledger_of_def)
next
  case (Some d)
  then obtain x where "dec (bc_account (db_bincode db)) d = Ok x"
    using assms(2) unfolding sound_def accounts_ok_def by blast
  then show ?thesis using Some assms by (simp add: get_account_def get ledger_of_def ser_result_def)
qed

lemma put_account_led:
  assumes "ok s" "sound (db_bincode db) (view s)" "db_store db = vt"
  shows "\<exists>s'. put_account db s a x = (Ok (), s') \<and> ok s' \<and> sound (db_bincode db) (view s')
    \<and> only_accounts (view s) (view s') \<and> ledger_of (db_bincode db) (view s') = (ledger_of (db_bincode db) (view s))(a := x)"
proof -
  let ?bc = "db_bincode db"
  have s: "accounts_ok ?bc (view s)" "codec_ok (bc_account ?bc)" using assms(2) by (simp_all add: sound_def)
  obtain b where b: "enc (bc_account ?bc) x = Ok b" "dec (bc_account ?bc) b = Ok x"
    using s(2) unfolding codec_ok_def codec_at_def by blast
  obtain s' where s': "st_put vt s CF_ACCOUNTS (address_bytes a) b = (Ok (), s')" "ok s'"
    "view s' = put_in (view s) CF_ACCOUNTS (address_bytes a) (Some b)"
    using put [OF assms(1) cf_known(3)] by blast
  have "accounts_ok ?bc (view s')"
    using s(1) b(2) unfolding accounts_ok_def s'(3) put_in_apply by (metis option.inject)
  moreover have "ledger_of ?bc (view s') c = ((ledger_of ?bc (view s))(a := x)) c" for c
    using b(2) unfolding ledger_of_def s'(3) put_in_apply by simp
  moreover have "only_accounts (view s) (view s')" unfolding only_accounts_def s'(3) by (auto simp: put_in_def)
  ultimately show ?thesis
    using s'(1,2) b(1) s(2) assms(3) unfolding put_account_def ser_result_def sound_def by auto
qed

end

text \<open>What an attempt to apply a transaction amounts to on the ledger: it succeeds exactly when the
  transaction is acceptable, and a failure changes no account.\<close>
definition posts :: "Bincode \<Rightarrow> contents \<Rightarrow> Address \<Rightarrow> Transaction \<Rightarrow> (GratiaError, unit) result \<Rightarrow> contents \<Rightarrow> bool" where
  "posts bc v a tx r v' \<longleftrightarrow> sound bc v' \<and> only_accounts v v' \<and> (is_ok r \<longleftrightarrow> acceptable (ledger_of bc v) a tx)
     \<and> ledger_of bc v' = (if acceptable (ledger_of bc v) a tx then posted (ledger_of bc v) a tx else ledger_of bc v)"

lemma posts_refused: "sound bc v \<Longrightarrow> \<not> acceptable (ledger_of bc v) a tx \<Longrightarrow> posts bc v a tx (Err e) v"
  by (simp add: posts_def)

context state_store
begin

text \<open>A transaction that writes one account.\<close>
lemma put_posts:
  assumes "ok s" "sound (db_bincode db) (view s)" "db_store db = vt"
    and "acceptable (ledger_of (db_bincode db) (view s)) a tx"
    and "posted (ledger_of (db_bincode db) (view s)) a tx = (ledger_of (db_bincode db) (view s))(a := x)"
  shows "\<exists>r s'. put_account db s a x = (r, s') \<and> ok s' \<and> posts (db_bincode db) (view s) a tx r (view s')"
  using put_account_led [OF assms(1-3), of a x] assms(4,5) unfolding posts_def by auto

lemma apply_transfer_posts:
  assumes s: "ok s" "sound (db_bincode db) (view s)" "db_store db = vt"
    and L: "L = ledger_of (db_bincode db) (view s)"
    and p: "tx_payload tx = Transfer t amount"
    and A: "finite A" "a \<in> A" "t \<in> A" "holdings A L \<le> U64_MAX" "tx_nonce tx < U64_MAX"
  shows "\<exists>r s'. apply_transfer db s a t amount (tx_fee tx) (tx_nonce tx) = (r, s') \<and> ok s'
    \<and> posts (db_bincode db) (view s) a tx r (view s')"
proof -
  let ?bc = "db_bincode db" and ?d = "amount + tx_fee tx"
  have bal: "ac_balance (L c) \<le> U64_MAX" if "c \<in> A" for c
    using holdings_ge [OF A(1) that, of L] A(4) by linarith
  have acc: "acceptable L a tx \<longleftrightarrow> ac_nonce (L a) = tx_nonce tx \<and> ?d \<le> ac_balance (L a)"
    by (simp add: acceptable_def p)
  note get_a = get_account_led [OF s, of a, folded L]
  show ?thesis
  proof (cases "acceptable L a tx")
    case False
    then have "\<exists>e. apply_transfer db s a t amount (tx_fee tx) (tx_nonce tx) = (Err e, s)"
      using bal [OF A(2)] unfolding acc
      by (cases "?d \<le> U64_MAX") (auto simp: apply_transfer_def get_a checked_add_u64_def)
    then show ?thesis using s(1) posts_refused [OF s(2)] False unfolding L by blast
  next
    case True
    then have n: "ac_nonce (L a) = tx_nonce tx" and d: "?d \<le> ac_balance (L a)" "?d \<le> U64_MAX"
      using bal [OF A(2)] unfolding acc by simp_all
    let ?x = "(L a)\<lparr>ac_balance := ac_balance (L a) - ?d, ac_nonce := Suc (ac_nonce (L a))\<rparr>"
    obtain s1 where s1: "put_account db s a ?x = (Ok (), s1)" "ok s1" "sound ?bc (view s1)"
      "only_accounts (view s) (view s1)" "ledger_of ?bc (view s1) = L(a := ?x)"
      using put_account_led [OF s, of a ?x] unfolding L by blast
    let ?y = "((L(a := ?x)) t)\<lparr>ac_balance := ac_balance ((L(a := ?x)) t) + amount\<rparr>"
    obtain s2 where s2: "put_account db s1 t ?y = (Ok (), s2)" "ok s2" "sound ?bc (view s2)"
      "only_accounts (view s1) (view s2)" "ledger_of ?bc (view s2) = (L(a := ?x))(t := ?y)"
      using put_account_led [OF s1(2,3) s(3), of t ?y] unfolding s1(5) by blast
    have "holdings A (L(a := ?x)) + ?d = holdings A L"
      using d by (intro holdings_debit [OF A(1,2)]) simp_all
    then have room: "ac_balance ((L(a := ?x)) t) + amount \<le> U64_MAX"
      using holdings_ge [OF A(1,3), of "L(a := ?x)"] A(4) by linarith
    have x: "(L a)\<lparr>ac_balance := sub_u64 (ac_balance (L a)) ?d, ac_nonce := add_u64 (ac_nonce (L a)) 1\<rparr> = ?x"
      using d bal [OF A(2)] n A(5) by (simp add: inc_u64)
    have "checked_add_u64 amount (tx_fee tx) = Some ?d"
      "checked_add_u64 (ac_balance ((L(a := ?x)) t)) amount = Some (ac_balance ((L(a := ?x)) t) + amount)"
      using d(2) room by simp_all
    note c = this
    have "apply_transfer db s a t amount (tx_fee tx) (tx_nonce tx) = (Ok (), s2)"
      unfolding apply_transfer_def get_a sum.case c(1) option.case Let_def x s1(1) prod.case
        get_account_led [OF s1(2,3) s(3), of t, unfolded s1(5)] c(2)
      using s2(1) d(1) n by (simp only: not_less [THEN iffD2] if_False simp_thms)
    moreover have "posted L a tx = (L(a := ?x))(t := ?y)" by (simp add: posted_simps(1) [OF p] Let_def)
    ultimately show ?thesis
      using s2(2,3,5) only_accounts_trans [OF s1(4) s2(4)] True unfolding posts_def L by auto
  qed
qed

end

context state_store
begin

lemma apply_stake_posts:
  assumes s: "ok s" "sound (db_bincode db) (view s)" "db_store db = vt"
    and L: "L = ledger_of (db_bincode db) (view s)"
    and p: "tx_payload tx = Stake amount"
    and A: "finite A" "a \<in> A" "holdings A L \<le> U64_MAX" "tx_nonce tx < U64_MAX"
  shows "\<exists>r s'. apply_stake db s a amount (tx_fee tx) (tx_nonce tx) = (r, s') \<and> ok s'
    \<and> posts (db_bincode db) (view s) a tx r (view s')"
proof -
  let ?d = "amount + tx_fee tx"
  have bal: "ac_balance (L a) + ac_staked (L a) \<le> U64_MAX"
    using holdings_ge [OF A(1,2), of L] A(3) by linarith
  have acc: "acceptable L a tx \<longleftrightarrow> ac_nonce (L a) = tx_nonce tx \<and> ?d \<le> ac_balance (L a)"
    by (simp add: acceptable_def p)
  note get_a = get_account_led [OF s, of a, folded L]
  show ?thesis
  proof (cases "acceptable L a tx")
    case False
    then have "\<exists>e. apply_stake db s a amount (tx_fee tx) (tx_nonce tx) = (Err e, s)"
      using bal unfolding acc
      by (cases "?d \<le> U64_MAX") (auto simp: apply_stake_def get_a checked_add_u64_def)
    then show ?thesis using s(1) posts_refused [OF s(2)] False unfolding L by blast
  next
    case True
    then have n: "ac_nonce (L a) = tx_nonce tx" and d: "?d \<le> ac_balance (L a)" unfolding acc by simp_all
    let ?x = "(L a)\<lparr>ac_balance := ac_balance (L a) - ?d, ac_staked := ac_staked (L a) + amount,
        ac_nonce := Suc (ac_nonce (L a))\<rparr>"
    have "apply_stake db s a amount (tx_fee tx) (tx_nonce tx) = put_account db s a ?x"
      using d bal n A(4) by (simp add: apply_stake_def get_a checked_add_u64_def Let_def inc_u64)
    then show ?thesis
      using put_posts [OF s, folded L, OF True, of ?x] by (simp add: posted_simps(2) [OF p] L)
  qed
qed

lemma apply_unstake_posts:
  assumes s: "ok s" "sound (db_bincode db) (view s)" "db_store db = vt"
    and L: "L = ledger_of (db_bincode db) (view s)"
    and p: "tx_payload tx = Unstake amount"
    and A: "finite A" "a \<in> A" "holdings A L \<le> U64_MAX" "tx_nonce tx < U64_MAX"
  shows "\<exists>r s'. apply_unstake db s a amount (tx_fee tx) (tx_nonce tx) = (r, s') \<and> ok s'
    \<and> posts (db_bincode db) (view s) a tx r (view s')"
proof -
  have bal: "ac_balance (L a) + ac_staked (L a) \<le> U64_MAX"
    using holdings_ge [OF A(1,2), of L] A(3) by linarith
  have acc: "acceptable L a tx \<longleftrightarrow> ac_nonce (L a) = tx_nonce tx \<and> tx_fee tx \<le> ac_balance (L a) \<and> amount \<le> ac_staked (L a)"
    by (simp add: acceptable_def p)
  note get_a = get_account_led [OF s, of a, folded L]
  show ?thesis
  proof (cases "acceptable L a tx")
    case False
    then have "\<exists>e. apply_unstake db s a amount (tx_fee tx) (tx_nonce tx) = (Err e, s)"
      unfolding acc by (auto simp: apply_unstake_def get_a)
    then show ?thesis using s(1) posts_refused [OF s(2)] False unfolding L by blast
  next
    case True
    then have c: "ac_nonce (L a) = tx_nonce tx" "tx_fee tx \<le> ac_balance (L a)" "amount \<le> ac_staked (L a)"
      unfolding acc by simp_all
    let ?x = "(L a)\<lparr>ac_balance := ac_balance (L a) - tx_fee tx + amount, ac_staked := ac_staked (L a) - amount,
        ac_nonce := Suc (ac_nonce (L a))\<rparr>"
    have "sub_u64 (ac_balance (L a)) (tx_fee tx) = ac_balance (L a) - tx_fee tx"
      "add_u64 (ac_balance (L a) - tx_fee tx) amount = ac_balance (L a) - tx_fee tx + amount"
      "sub_u64 (ac_staked (L a)) amount = ac_staked (L a) - amount"
      using bal c by simp_all
    then have "apply_unstake db s a amount (tx_fee tx) (tx_nonce tx) = put_account db s a ?x"
      using c A(4) by (simp add: apply_unstake_def get_a inc_u64)
    then show ?thesis
      using put_posts [OF s, folded L, OF True, of ?x] by (simp add: posted_simps(3) [OF p] L)
  qed
qed

lemma apply_fee_posts:
  assumes s: "ok s" "sound (db_bincode db) (view s)" "db_store db = vt"
    and L: "L = ledger_of (db_bincode db) (view s)"
    and p: "plain_payload (tx_payload tx)"
    and A: "finite A" "a \<in> A" "holdings A L \<le> U64_MAX" "tx_nonce tx < U64_MAX"
  shows "\<exists>r s'. apply_fee_and_nonce db s a (tx_fee tx) (tx_nonce tx) = (r, s') \<and> ok s'
    \<and> posts (db_bincode db) (view s) a tx r (view s')"
proof -
  have bal: "ac_balance (L a) \<le> U64_MAX" using holdings_ge [OF A(1,2), of L] A(3) by linarith
  note get_a = get_account_led [OF s, of a, folded L]
  show ?thesis
  proof (cases "acceptable L a tx")
    case False
    then have "\<exists>e. apply_fee_and_nonce db s a (tx_fee tx) (tx_nonce tx) = (Err e, s)"
      unfolding posted_plain(2) [OF p] by (auto simp: apply_fee_and_nonce_def get_a)
    then show ?thesis using s(1) posts_refused [OF s(2)] False unfolding L by blast
  next
    case True
    let ?x = "(L a)\<lparr>ac_balance := ac_balance (L a) - tx_fee tx, ac_nonce := Suc (ac_nonce (L a))\<rparr>"
    have "apply_fee_and_nonce db s a (tx_fee tx) (tx_nonce tx) = put_account db s a ?x"
      using True bal A(4) unfolding posted_plain(2) [OF p] by (simp add: apply_fee_and_nonce_def get_a inc_u64)
    then show ?thesis
      using put_posts [OF s, folded L, OF True, of ?x] by (simp add: posted_plain(1) [OF p] L)
  qed
qed

lemma apply_transaction_posts:
  assumes s: "ok s" "sound (db_bincode db) (view s)" "db_store db = vt"
    and sender: "address_from_pubkey valid_key sha256 (tx_sender_pubkey tx) = Ok a"
    and A: "finite A" "touches a tx \<subseteq> A" "holdings A (ledger_of (db_bincode db) (view s)) \<le> U64_MAX"
      "tx_nonce tx < U64_MAX"
  shows "\<exists>r s'. apply_transaction valid_key sha256 db s tx = (r, s') \<and> ok s'
    \<and> posts (db_bincode db) (view s) a tx r (view s')"
proof -
  have a: "a \<in> A" using A(2) by (simp add: touches_def)
  show ?thesis
  proof (cases "tx_payload tx")
    case (Transfer t amount)
    then show ?thesis
      using apply_transfer_posts [OF s refl Transfer A(1) a _ A(3,4)] A(2)
      by (simp add: apply_transaction_def sender touches_def)
  next
    case (Stake amount)
    then show ?thesis
      using apply_stake_posts [OF s refl Stake A(1) a A(3,4)] by (simp add: apply_transaction_def sender)
  next
    case (Unstake amount)
    then show ?thesis
      using apply_unstake_posts [OF s refl Unstake A(1) a A(3,4)] by (simp add: apply_transaction_def sender)
  qed (use apply_fee_posts [where tx = tx, OF s refl _ A(1) a A(3,4)] in
      \<open>simp_all add: apply_transaction_def sender plain_payload_def\<close>)
qed

end

section \<open>The transactions of a block\<close>

definition sender_of :: "(bytes \<Rightarrow> bytes) \<Rightarrow> Transaction \<Rightarrow> Address" where
  "sender_of sha256 tx = Address_from_public_key sha256 (tx_sender_pubkey tx)"

definition posted_all :: "(bytes \<Rightarrow> bytes) \<Rightarrow> ledger \<Rightarrow> Transaction list \<Rightarrow> ledger" where
  "posted_all sha256 L txs = foldl (\<lambda>L tx. posted L (sender_of sha256 tx) tx) L txs"

text \<open>The addresses of a block lie in \<open>A\<close> and its nonces do not reach the end of the range.\<close>
definition confined :: "(bytes \<Rightarrow> bytes) \<Rightarrow> Address set \<Rightarrow> Transaction list \<Rightarrow> bool" where
  "confined sha256 A txs \<longleftrightarrow> (\<forall>tx \<in> set txs. touches (sender_of sha256 tx) tx \<subseteq> A \<and> tx_nonce tx < U64_MAX)"

primrec acceptable_all :: "(bytes \<Rightarrow> bool) \<Rightarrow> (bytes \<Rightarrow> bytes) \<Rightarrow> ledger \<Rightarrow> Transaction list \<Rightarrow> bool" where
  "acceptable_all valid_key sha256 L [] = True"
| "acceptable_all valid_key sha256 L (tx # txs) \<longleftrightarrow>
     length (tx_sender_pubkey tx) = 32 \<and> valid_key (tx_sender_pubkey tx) \<and> acceptable L (sender_of sha256 tx) tx
     \<and> acceptable_all valid_key sha256 (posted L (sender_of sha256 tx) tx) txs"

lemma sender_known:
  "address_from_pubkey valid_key sha256 (tx_sender_pubkey tx) = Ok a \<longleftrightarrow>
     length (tx_sender_pubkey tx) = 32 \<and> valid_key (tx_sender_pubkey tx) \<and> a = sender_of sha256 tx"
  by (auto simp: address_from_pubkey_def sender_of_def)

lemma posted_all_Cons [simp]:
  "posted_all sha256 L [] = L"
  "posted_all sha256 L (tx # txs) = posted_all sha256 (posted L (sender_of sha256 tx) tx) txs"
  by (simp_all add: posted_all_def)

lemma acceptable_all_prefix:
  "acceptable_all valid_key sha256 L (txs @ txs') \<Longrightarrow> acceptable_all valid_key sha256 L txs"
  by (induction txs arbitrary: L) simp_all

lemma posted_all_holdings:
  "finite A \<Longrightarrow> confined sha256 A txs \<Longrightarrow> acceptable_all valid_key sha256 L txs \<Longrightarrow>
     holdings A (posted_all sha256 L txs) + sum_list (map tx_fee txs) = holdings A L"
proof (induction txs arbitrary: L)
  case (Cons tx txs)
  let ?L = "posted L (sender_of sha256 tx) tx"
  have "holdings A ?L + tx_fee tx = holdings A L"
    using Cons.prems by (intro posted_holdings) (simp_all add: confined_def)
  moreover have "holdings A (posted_all sha256 ?L txs) + sum_list (map tx_fee txs) = holdings A ?L"
    using Cons.prems by (intro Cons.IH) (simp_all add: confined_def)
  ultimately show ?case by simp
qed simp

context state_store
begin

lemma apply_all_posts:
  assumes "db_store db = vt" "finite A"
  shows "ok s \<Longrightarrow> sound (db_bincode db) (view s) \<Longrightarrow> confined sha256 A txs
    \<Longrightarrow> holdings A (ledger_of (db_bincode db) (view s)) \<le> U64_MAX
    \<Longrightarrow> \<exists>r s' k. try_each (apply_transaction valid_key sha256 db) s txs = (r, s') \<and> ok s'
      \<and> sound (db_bincode db) (view s') \<and> only_accounts (view s) (view s') \<and> k \<le> length txs
      \<and> acceptable_all valid_key sha256 (ledger_of (db_bincode db) (view s)) (take k txs)
      \<and> ledger_of (db_bincode db) (view s') = posted_all sha256 (ledger_of (db_bincode db) (view s)) (take k txs)
      \<and> (is_ok r \<longleftrightarrow> acceptable_all valid_key sha256 (ledger_of (db_bincode db) (view s)) txs)
      \<and> (if is_ok r then k = length txs
         else k < length txs \<and> \<not> acceptable_all valid_key sha256 (ledger_of (db_bincode db) (view s)) (take (Suc k) txs))"
proof (induction txs arbitrary: s)
  case Nil
  then show ?case by (simp add: only_accounts_refl)
next
  case (Cons tx txs)
  let ?bc = "db_bincode db" and ?a = "sender_of sha256 tx"
  let ?L = "ledger_of ?bc (view s)"
  show ?case
  proof (cases "address_from_pubkey valid_key sha256 (tx_sender_pubkey tx)")
    case (Inl e)
    then have "apply_transaction valid_key sha256 db s tx = (Err e, s)"
      "\<not> (length (tx_sender_pubkey tx) = 32 \<and> valid_key (tx_sender_pubkey tx))"
      by (auto simp: apply_transaction_def address_from_pubkey_def split: if_splits)
    then show ?thesis using Cons.prems(1,2) by (intro exI [of _ "Err e"] exI [of _ s] exI [of _ 0]) auto
  next
    case (Inr a)
    then have key: "length (tx_sender_pubkey tx) = 32" "valid_key (tx_sender_pubkey tx)" "a = ?a"
      using sender_known by blast+
    obtain r s1 where s1: "apply_transaction valid_key sha256 db s tx = (r, s1)" "ok s1"
      and p: "posts ?bc (view s) ?a tx r (view s1)"
      using apply_transaction_posts [OF Cons.prems(1,2) assms(1) Inr assms(2) _ Cons.prems(4)] Cons.prems(3)
      unfolding key(3) confined_def by auto
    show ?thesis
    proof (cases r)
      case (Inl e)
      then have "\<not> acceptable ?L ?a tx" "ledger_of ?bc (view s1) = ?L" "sound ?bc (view s1)"
        "only_accounts (view s) (view s1)" using p by (simp_all add: posts_def)
      then show ?thesis using s1 Inl
        by (intro exI [of _ "Err e"] exI [of _ s1] exI [of _ 0]) simp
    next
      case (Inr u)
      then have acc: "acceptable ?L ?a tx" and L1: "ledger_of ?bc (view s1) = posted ?L ?a tx"
        and v1: "sound ?bc (view s1)" "only_accounts (view s) (view s1)" using p by (simp_all add: posts_def)
      have w: "confined sha256 A txs" "touches ?a tx \<subseteq> A" using Cons.prems(3) by (simp_all add: confined_def)
      have h: "holdings A (ledger_of ?bc (view s1)) \<le> U64_MAX"
        using posted_holdings [OF assms(2) w(2) acc] Cons.prems(4) unfolding L1 by linarith
      obtain r' s2 k where IH: "try_each (apply_transaction valid_key sha256 db) s1 txs = (r', s2)" "ok s2"
        "sound ?bc (view s2)" "only_accounts (view s1) (view s2)" "k \<le> length txs"
        "acceptable_all valid_key sha256 (posted ?L ?a tx) (take k txs)"
        "ledger_of ?bc (view s2) = posted_all sha256 (posted ?L ?a tx) (take k txs)"
        "is_ok r' \<longleftrightarrow> acceptable_all valid_key sha256 (posted ?L ?a tx) txs"
        "if is_ok r' then k = length txs
         else k < length txs \<and> \<not> acceptable_all valid_key sha256 (posted ?L ?a tx) (take (Suc k) txs)"
        using Cons.IH [OF s1(2) v1(1) w(1) h] unfolding L1 by blast
      have "only_accounts (view s) (view s2)" by (rule only_accounts_trans [OF v1(2) IH(4)])
      then show ?thesis using IH s1(1) Inr key(1,2) acc
        by (intro exI [of _ r'] exI [of _ s2] exI [of _ "Suc k"]) (simp split: if_splits)
    qed
  qed
qed

end

section \<open>Blocks\<close>

definition encodable :: "(bytes \<Rightarrow> bytes) \<Rightarrow> Bincode \<Rightarrow> Block \<Rightarrow> BlockHash \<Rightarrow> bool" where
  "encodable sha256 bc block hash \<longleftrightarrow> header_hash sha256 bc (blk_header block) = Ok hash
     \<and> is_ok (enc (bc_block bc) block) \<and> list_all (\<lambda>tx. is_ok (enc (bc_transaction bc) tx)) (blk_transactions block)
     \<and> list_all (\<lambda>att. is_ok (enc (bc_attestation bc) att)) (blk_attestations block)"

text \<open>What follows the transactions when a block is applied.\<close>
definition commit_block ::
  "(bytes \<Rightarrow> bytes) \<Rightarrow> 's StateManager \<Rightarrow> 's \<Rightarrow> Block \<Rightarrow> (GratiaError, unit) result \<times> 's" where
  "commit_block sha256 m s block = (let db = stm_db m; height = bh_height (blk_header block) in
     and_then (put_block sha256 db s block) (\<lambda>_ s.
     and_then (try_each (put_transaction db) s (blk_transactions block)) (\<lambda>_ s.
     and_then (try_each (put_attestation db) s (blk_attestations block)) (\<lambda>_ s.
     and_then (compute_state_root sha256 db s, s) (\<lambda>state_root s.
     and_then (set_state_root db s state_root) (\<lambda>_ s.
     and_then (header_hash sha256 (db_bincode db) (blk_header block), s) (\<lambda>block_hash s.
     and_then (set_chain_tip db s block_hash) (\<lambda>_ s.
     and_then (set_block_height db s height) (\<lambda>_ s.
     and_then (should_prune db s (stm_pruning_policy m), s) (\<lambda>needed s.
       if needed
       then and_then (run_pruning_cycle db s (stm_pruning_policy m) height) (\<lambda>_ s. (Ok (), s))
       else (Ok (), s)))))))))))"

text \<open>The checks before the transactions.\<close>
definition follows :: "u64 \<Rightarrow> BlockHash option \<Rightarrow> Block \<Rightarrow> bool" where
  "follows current_height tip block \<longleftrightarrow> bh_height (blk_header block) = Suc current_height
     \<and> (0 < current_height \<longrightarrow> tip \<noteq> None \<longrightarrow> tip = Some (bh_parent_hash (blk_header block)))"

lemma apply_block_split:
  assumes "get_block_height (stm_db m) s = Ok n" "get_chain_tip (stm_db m) s = Ok tip" "n < U64_MAX"
  shows "follows n tip block \<Longrightarrow> apply_block valid_key sha256 m s block =
      and_then (try_each (apply_transaction valid_key sha256 (stm_db m)) s (blk_transactions block))
        (\<lambda>_ s. commit_block sha256 m s block)"
    and "\<not> follows n tip block \<Longrightarrow> \<exists>e. apply_block valid_key sha256 m s block = (Err e, s)"
  using assms
  by (auto simp: apply_block_def commit_block_def follows_def Let_def inc_u64 split: option.splits)

context state_store
begin

lemma put_each:
  assumes "cf \<in> set ALL_COLUMN_FAMILIES"
  shows "ok s \<Longrightarrow> \<forall>x \<in> set xs. \<forall>s. \<exists>k d. f s x = st_put vt s cf k d \<Longrightarrow>
    \<exists>s'. try_each f s xs = (Ok (), s') \<and> ok s' \<and> (\<forall>cf'. cf' \<noteq> cf \<longrightarrow> view s' cf' = view s cf')"
proof (induction xs arbitrary: s)
  case (Cons x xs)
  obtain k d where "f s x = st_put vt s cf k d" using Cons.prems(2) by (meson list.set_intros(1))
  then obtain s1 where s1: "f s x = (Ok (), s1)" "ok s1" "view s1 = put_in (view s) cf k (Some d)"
    using put [OF Cons.prems(1) assms] by metis
  then have other: "\<forall>cf'. cf' \<noteq> cf \<longrightarrow> view s1 cf' = view s cf'" by simp
  obtain s' where "try_each f s1 xs = (Ok (), s')" "ok s'" "\<forall>cf'. cf' \<noteq> cf \<longrightarrow> view s' cf' = view s1 cf'"
    using Cons.IH [OF s1(2)] Cons.prems(2) by auto
  then show ?case using s1(1) other by simp
qed simp

lemma get_block_cong:
  "ok s \<Longrightarrow> ok s' \<Longrightarrow> db_store db = vt \<Longrightarrow> view s' CF_BLOCKS = view s CF_BLOCKS \<Longrightarrow> get_block db s' hash = get_block db s hash"
  by (simp add: get_block_def get)

lemma put_block_frame:
  assumes "ok s" "db_store db = vt" "header_hash sha256 (db_bincode db) (blk_header block) = Ok hash"
    "is_ok (enc (bc_block (db_bincode db)) block)"
  shows "\<exists>s'. put_block sha256 db s block = (Ok (), s') \<and> ok s' \<and> (\<forall>cf. cf \<noteq> CF_BLOCKS \<longrightarrow> view s' cf = view s cf)
    \<and> (length (block_hash_bytes hash) = 32 \<longrightarrow> codec_at (bc_block (db_bincode db)) block \<longrightarrow> get_block db s' hash = Ok (Some block))"
proof -
  obtain b where b: "enc (bc_block (db_bincode db)) block = Ok b" using assms(4) by (auto simp: is_ok_iff)
  obtain s1 where s1: "st_put vt s CF_BLOCKS (block_hash_bytes hash) b = (Ok (), s1)" "ok s1"
    "view s1 = put_in (view s) CF_BLOCKS (block_hash_bytes hash) (Some b)"
    using put [OF assms(1) cf_known(1)] by blast
  obtain s2 where s2: "st_put vt s1 CF_BLOCKS (be_bytes 8 (bh_height (blk_header block))) (block_hash_bytes hash) = (Ok (), s2)"
    "ok s2" "view s2 = put_in (view s1) CF_BLOCKS (be_bytes 8 (bh_height (blk_header block))) (Some (block_hash_bytes hash))"
    using put [OF s1(2) cf_known(1)] by blast
  have "get_block db s2 hash = Ok (Some block)"
    if "length (block_hash_bytes hash) = 32" "codec_at (bc_block (db_bincode db)) block"
  proof -
    have "block_hash_bytes hash \<noteq> be_bytes 8 (bh_height (blk_header block))"
      using that(1) be_bytes_length [of 8 "bh_height (blk_header block)"] by auto
    then show ?thesis using that(2) b assms(2) s2(2)
      by (simp add: get_block_def get s2(3) s1(3) put_in_apply ser_result_def codec_at_def)
  qed
  then show ?thesis using b s1(1) s2(1,2) assms(2,3) unfolding put_block_def ser_result_def
    by (simp add: s2(3) s1(3))
qed

lemma state_root_frame:
  assumes "ok s" "ok s'" "db_store db = vt" "view s' CF_ACCOUNTS = view s CF_ACCOUNTS"
  shows "\<exists>rt. compute_state_root sha256 db s = Ok rt \<and> compute_state_root sha256 db s' = Ok rt"
  using iter [OF assms(1) cf_known(3)] iter_same [OF assms(1,2) cf_known(3)] assms(3,4)
  by (auto simp: compute_state_root_def Let_def)

end

text \<open>What the state column family says after a block.\<close>
definition at_block :: "contents \<Rightarrow> u64 \<Rightarrow> BlockHash \<Rightarrow> bytes \<Rightarrow> bool" where
  "at_block v height hash state_root \<longleftrightarrow> v CF_STATE STATE_KEY_BLOCK_HEIGHT = Some (be_bytes 8 height)
     \<and> v CF_STATE STATE_KEY_CHAIN_TIP = Some (block_hash_bytes hash)
     \<and> v CF_STATE STATE_KEY_STATE_ROOT = Some state_root"

context state_store
begin

lemma set_state_frame:
  assumes "ok s" "db_store db = vt"
  shows "\<exists>s'. and_then (set_state_root db s rt) (\<lambda>_ s. and_then (set_chain_tip db s hash) (\<lambda>_ s.
      and_then (set_block_height db s height) f)) = f () s' \<and> ok s'
    \<and> (\<forall>cf. cf \<noteq> CF_STATE \<longrightarrow> view s' cf = view s cf) \<and> at_block (view s') height hash rt"
proof -
  obtain s1 where s1: "set_state_root db s rt = (Ok (), s1)" "ok s1"
    "view s1 = put_in (view s) CF_STATE STATE_KEY_STATE_ROOT (Some rt)"
    using put [OF assms(1) cf_known(4)] assms(2) unfolding set_state_root_def by blast
  obtain s2 where s2: "set_chain_tip db s1 hash = (Ok (), s2)" "ok s2"
    "view s2 = put_in (view s1) CF_STATE STATE_KEY_CHAIN_TIP (Some (block_hash_bytes hash))"
    using put [OF s1(2) cf_known(4)] assms(2) unfolding set_chain_tip_def by blast
  obtain s3 where s3: "set_block_height db s2 height = (Ok (), s3)" "ok s3"
    "view s3 = put_in (view s2) CF_STATE STATE_KEY_BLOCK_HEIGHT (Some (be_bytes 8 height))"
    using put [OF s2(2) cf_known(4)] assms(2) unfolding set_block_height_def by blast
  show ?thesis
    using s1(1) s2(1) s3(1,2) by (intro exI [of _ s3]) (simp add: s1(3) s2(3) s3(3) at_block_def put_in_apply)
qed

lemma prune_if_needed:
  assumes "ok s" "db_store db = vt" "height \<le> U64_MAX"
  shows "\<exists>s'. and_then (should_prune db s policy, s) (\<lambda>needed s.
      if needed then and_then (run_pruning_cycle db s policy height) (\<lambda>_ s. (Ok (), s)) else (Ok (), s)) = (Ok (), s')
    \<and> ok s' \<and> view s' CF_ACCOUNTS = view s CF_ACCOUNTS \<and> view s' CF_STATE = view s CF_STATE
    \<and> (height \<le> pp_block_retention_count policy \<longrightarrow> view s' CF_BLOCKS = view s CF_BLOCKS)"
proof -
  obtain n where n: "st_estimate_size_bytes vt s = Ok n" using size [OF assms(1)] by blast
  obtain res s' where s': "run_pruning_cycle db s policy height = (Ok res, s')" "ok s'"
    "view s' CF_BLOCKS = without_blocks (view s) (indexed (view s) [0..<height - pp_block_retention_count policy]) CF_BLOCKS"
    "\<forall>cf. cf \<notin> {CF_BLOCKS, CF_TRANSACTIONS, CF_ATTESTATIONS} \<longrightarrow> view s' cf = view s cf"
    using pruning_cycle_frame [OF assms] by blast
  have "height \<le> pp_block_retention_count policy \<longrightarrow> view s' CF_BLOCKS = view s CF_BLOCKS"
    by (simp add: s'(3) without_blocks_def indexed_def)
  then show ?thesis
    using n s'(1,2,4) assms(1,2) by (cases "n > pp_max_db_size_bytes policy")
      (simp_all add: should_prune_def estimate_size_bytes_def)
qed

lemma commit_frame:
  assumes s: "ok s" "db_store (stm_db m) = vt"
    and e: "encodable sha256 (db_bincode (stm_db m)) block hash" "bh_height (blk_header block) \<le> U64_MAX"
  shows "\<exists>s' rt. commit_block sha256 m s block = (Ok (), s') \<and> ok s' \<and> view s' CF_ACCOUNTS = view s CF_ACCOUNTS
    \<and> at_block (view s') (bh_height (blk_header block)) hash rt \<and> compute_state_root sha256 (stm_db m) s' = Ok rt
    \<and> (length (block_hash_bytes hash) = 32 \<longrightarrow> codec_at (bc_block (db_bincode (stm_db m))) block
       \<longrightarrow> bh_height (blk_header block) \<le> pp_block_retention_count (stm_pruning_policy m)
       \<longrightarrow> get_block (stm_db m) s' hash = Ok (Some block))"
proof -
  let ?db = "stm_db m" and ?h = "bh_height (blk_header block)"
  have hh: "header_hash sha256 (db_bincode ?db) (blk_header block) = Ok hash" using e(1) by (simp add: encodable_def)
  obtain s1 where s1: "put_block sha256 ?db s block = (Ok (), s1)" "ok s1"
    "\<forall>cf. cf \<noteq> CF_BLOCKS \<longrightarrow> view s1 cf = view s cf"
    "length (block_hash_bytes hash) = 32 \<longrightarrow> codec_at (bc_block (db_bincode ?db)) block \<longrightarrow> get_block ?db s1 hash = Ok (Some block)"
    using put_block_frame [OF s hh] e(1) by (auto simp: encodable_def)
  have "\<exists>k d. put_transaction ?db s tx = st_put vt s CF_TRANSACTIONS k d"
    if tx: "tx \<in> set (blk_transactions block)" for tx s
  proof -
    have "is_ok (enc (bc_transaction (db_bincode ?db)) tx)" using e(1) tx by (auto simp: encodable_def list_all_iff)
    then obtain b where "enc (bc_transaction (db_bincode ?db)) tx = Ok b" by (auto simp: is_ok_iff)
    then have "put_transaction ?db s tx = st_put vt s CF_TRANSACTIONS (tx_hash_bytes (tx_hash tx)) b"
      by (simp add: put_transaction_def ser_result_def \<open>db_store ?db = vt\<close>)
    then show ?thesis by blast
  qed
  then obtain s2 where s2: "try_each (put_transaction ?db) s1 (blk_transactions block) = (Ok (), s2)" "ok s2"
    "\<forall>cf. cf \<noteq> CF_TRANSACTIONS \<longrightarrow> view s2 cf = view s1 cf"
    using put_each [OF cf_known(2) s1(2), of "blk_transactions block" "put_transaction ?db"] by blast
  have "\<exists>k d. put_attestation ?db s att = st_put vt s CF_ATTESTATIONS k d"
    if att: "att \<in> set (blk_attestations block)" for att s
  proof -
    have "is_ok (enc (bc_attestation (db_bincode ?db)) att)" using e(1) att by (auto simp: encodable_def list_all_iff)
    then obtain b where "enc (bc_attestation (db_bincode ?db)) att = Ok b" by (auto simp: is_ok_iff)
    then have "put_attestation ?db s att = st_put vt s CF_ATTESTATIONS (pol_nullifier att) b"
      by (simp add: put_attestation_def ser_result_def \<open>db_store ?db = vt\<close>)
    then show ?thesis by blast
  qed
  then obtain s3 where s3: "try_each (put_attestation ?db) s2 (blk_attestations block) = (Ok (), s3)" "ok s3"
    "\<forall>cf. cf \<noteq> CF_ATTESTATIONS \<longrightarrow> view s3 cf = view s2 cf"
    using put_each [OF cf_known(5) s2(2), of "blk_attestations block" "put_attestation ?db"] by blast
  obtain rt where rt: "compute_state_root sha256 ?db s3 = Ok rt"
    using state_root_frame [OF s3(2,2) s(2) refl] by blast
  let ?f = "\<lambda>(_ :: unit) s. and_then (should_prune ?db s (stm_pruning_policy m), s) (\<lambda>needed s.
      if needed then and_then (run_pruning_cycle ?db s (stm_pruning_policy m) ?h) (\<lambda>_ s. (Ok (), s)) else (Ok (), s))"
  obtain s4 where s4: "and_then (set_state_root ?db s3 rt) (\<lambda>_ s. and_then (set_chain_tip ?db s hash) (\<lambda>_ s.
      and_then (set_block_height ?db s ?h) ?f)) = ?f () s4" "ok s4"
    "\<forall>cf. cf \<noteq> CF_STATE \<longrightarrow> view s4 cf = view s3 cf" "at_block (view s4) ?h hash rt"
    using set_state_frame [OF s3(2) s(2), of rt hash ?h ?f] by blast
  obtain s5 where s5: "?f () s4 = (Ok (), s5)" "ok s5" "view s5 CF_ACCOUNTS = view s4 CF_ACCOUNTS"
    "view s5 CF_STATE = view s4 CF_STATE"
    "?h \<le> pp_block_retention_count (stm_pruning_policy m) \<longrightarrow> view s5 CF_BLOCKS = view s4 CF_BLOCKS"
    using prune_if_needed [OF s4(2) s(2) e(2)] by blast
  have acc: "view s5 CF_ACCOUNTS = view s3 CF_ACCOUNTS" "view s3 CF_ACCOUNTS = view s CF_ACCOUNTS"
    using s5(3) s4(3) s3(3) s2(3) s1(3) by simp_all
  have "commit_block sha256 m s block = (Ok (), s5)"
    unfolding commit_block_def Let_def s1(1) s2(1) s3(1) rt hh and_then_simps s4(1) s5(1) by (rule refl)
  moreover have "at_block (view s5) ?h hash rt" using s4(4) s5(4) by (simp add: at_block_def)
  moreover have "compute_state_root sha256 ?db s5 = Ok rt"
    using state_root_frame [OF s3(2) s5(2) s(2) acc(1), of sha256] rt by auto
  moreover have "get_block ?db s5 hash = get_block ?db s1 hash"
    if "?h \<le> pp_block_retention_count (stm_pruning_policy m)"
    using get_block_cong [OF s1(2) s5(2) s(2)] that s5(5) s4(3) s3(3) s2(3) by simp
  ultimately show ?thesis using s5(2) acc s1(4) by auto
qed

end

lemma ledger_of_cong: "v CF_ACCOUNTS = v' CF_ACCOUNTS \<Longrightarrow> ledger_of bc v = ledger_of bc v'"
  by (simp add: ledger_of_def fun_eq_iff)

lemma sound_cong: "v CF_ACCOUNTS = v' CF_ACCOUNTS \<Longrightarrow> sound bc v = sound bc v'"
  by (simp add: sound_def accounts_ok_def)

text \<open>The outcome of applying a block, with the ledger after it.\<close>
definition block_outcome ::
  "(bytes \<Rightarrow> bool) \<Rightarrow> (bytes \<Rightarrow> bytes) \<Rightarrow> ledger \<Rightarrow> u64 \<Rightarrow> BlockHash option \<Rightarrow> Block \<Rightarrow> bool \<Rightarrow> ledger \<Rightarrow> bool" where
  "block_outcome valid_key sha256 L n tip block success L' \<longleftrightarrow>
     (success \<longleftrightarrow> follows n tip block \<and> acceptable_all valid_key sha256 L (blk_transactions block))
     \<and> (\<exists>k \<le> length (blk_transactions block). L' = posted_all sha256 L (take k (blk_transactions block))
          \<and> acceptable_all valid_key sha256 L (take k (blk_transactions block))
          \<and> (if success then k = length (blk_transactions block)
             else if follows n tip block then k < length (blk_transactions block)
               \<and> \<not> acceptable_all valid_key sha256 L (take (Suc k) (blk_transactions block))
             else k = 0))"

context state_store
begin

lemma apply_block_outcome:
  assumes s: "ok s" "sound (db_bincode (stm_db m)) (view s)" "db_store (stm_db m) = vt"
    and n: "get_block_height (stm_db m) s = Ok n" "get_chain_tip (stm_db m) s = Ok tip" "n < U64_MAX"
    and A: "finite A" "confined sha256 A (blk_transactions block)"
      "holdings A (ledger_of (db_bincode (stm_db m)) (view s)) \<le> U64_MAX"
    and e: "encodable sha256 (db_bincode (stm_db m)) block hash"
  shows "\<exists>r s'. apply_block valid_key sha256 m s block = (r, s') \<and> ok s' \<and> sound (db_bincode (stm_db m)) (view s')
    \<and> block_outcome valid_key sha256 (ledger_of (db_bincode (stm_db m)) (view s)) n tip block (is_ok r)
        (ledger_of (db_bincode (stm_db m)) (view s'))
    \<and> (if is_ok r then \<exists>rt. at_block (view s') (Suc n) hash rt \<and> compute_state_root sha256 (stm_db m) s' = Ok rt
       else only_accounts (view s) (view s'))
    \<and> (is_ok r \<longrightarrow> length (block_hash_bytes hash) = 32 \<longrightarrow> codec_at (bc_block (db_bincode (stm_db m))) block
       \<longrightarrow> Suc n \<le> pp_block_retention_count (stm_pruning_policy m) \<longrightarrow> get_block (stm_db m) s' hash = Ok (Some block))"
proof -
  let ?db = "stm_db m" and ?txs = "blk_transactions block"
  let ?bc = "db_bincode ?db"
  let ?L = "ledger_of ?bc (view s)"
  show ?thesis
  proof (cases "follows n tip block")
    case False
    then obtain err where "apply_block valid_key sha256 m s block = (Err err, s)"
      using apply_block_split(2) [OF n] by blast
    then show ?thesis using s False by (simp add: block_outcome_def)
  next
    case True
    obtain r s1 k where s1: "try_each (apply_transaction valid_key sha256 ?db) s ?txs = (r, s1)" "ok s1"
      "sound ?bc (view s1)" "only_accounts (view s) (view s1)" "k \<le> length ?txs"
      "acceptable_all valid_key sha256 ?L (take k ?txs)"
      "ledger_of ?bc (view s1) = posted_all sha256 ?L (take k ?txs)"
      "is_ok r \<longleftrightarrow> acceptable_all valid_key sha256 ?L ?txs"
      "if is_ok r then k = length ?txs
       else k < length ?txs \<and> \<not> acceptable_all valid_key sha256 ?L (take (Suc k) ?txs)"
      using apply_all_posts [OF s(3) A(1) s(1,2) A(2,3), of valid_key] by blast
    have ap: "apply_block valid_key sha256 m s block = and_then (r, s1) (\<lambda>_ s. commit_block sha256 m s block)"
      using apply_block_split(1) [OF n True, of valid_key sha256] s1(1) by simp
    show ?thesis
    proof (cases r)
      case (Inl err)
      then have "apply_block valid_key sha256 m s block = (Err err, s1)" using ap by simp
      then show ?thesis using s1(2-9) Inl True unfolding block_outcome_def by (auto intro!: exI [of _ k])
    next
      case (Inr u)
      have h: "bh_height (blk_header block) = Suc n" "bh_height (blk_header block) \<le> U64_MAX"
        using True n(3) by (simp_all add: follows_def)
      obtain s2 rt where s2: "commit_block sha256 m s1 block = (Ok (), s2)" "ok s2"
        "view s2 CF_ACCOUNTS = view s1 CF_ACCOUNTS" "at_block (view s2) (Suc n) hash rt"
        "compute_state_root sha256 ?db s2 = Ok rt"
        "length (block_hash_bytes hash) = 32 \<longrightarrow> codec_at (bc_block (db_bincode (stm_db m))) block
          \<longrightarrow> Suc n \<le> pp_block_retention_count (stm_pruning_policy m) \<longrightarrow> get_block (stm_db m) s2 hash = Ok (Some block)"
        using commit_frame [OF s1(2) s(3) e h(2)] unfolding h(1) by blast
      have "apply_block valid_key sha256 m s block = (Ok (), s2)" using ap Inr s2(1) by simp
      moreover have "block_outcome valid_key sha256 ?L n tip block True (ledger_of ?bc (view s2))"
        using s1(6-9) Inr True unfolding block_outcome_def ledger_of_cong [of "view s2" "view s1", OF s2(3)]
        by (auto intro!: exI [of _ k])
      moreover have "sound ?bc (view s2)" using s1(3) sound_cong [of "view s2" "view s1", OF s2(3)] by simp
      ultimately show ?thesis using s2(2,4-6) by (intro exI [of _ "Ok ()"] exI [of _ s2]) auto
    qed
  qed
qed

end

section \<open>Reversal\<close>

context state_store
begin

lemma put_restores:
  assumes "ok s" "sound (db_bincode db) (view s)" "db_store db = vt"
    and "(ledger_of (db_bincode db) (view s))(a := x) = L"
  shows "\<exists>s'. put_account db s a x = (Ok (), s') \<and> ok s' \<and> sound (db_bincode db) (view s')
    \<and> only_accounts (view s) (view s') \<and> ledger_of (db_bincode db) (view s') = L"
  using put_account_led [OF assms(1-3), of a x] assms(4) by simp

lemma revert_transfer_restores:
  assumes s: "ok s" "sound (db_bincode db) (view s)" "db_store db = vt"
    and sender: "address_from_pubkey valid_key sha256 (tx_sender_pubkey tx) = Ok a"
    and p: "tx_payload tx = Transfer t amount"
    and L: "ledger_of (db_bincode db) (view s) = posted L a tx" "acceptable L a tx"
    and A: "finite A" "a \<in> A" "t \<in> A" "2 * holdings A L \<le> U64_MAX"
  shows "\<exists>s'. revert_transaction valid_key sha256 db s tx = (Ok (), s') \<and> ok s' \<and> sound (db_bincode db) (view s')
    \<and> only_accounts (view s) (view s') \<and> ledger_of (db_bincode db) (view s') = L"
proof -
  let ?bc = "db_bincode db" and ?d = "amount + tx_fee tx"
  let ?L' = "posted L a tx"
  have d: "?d \<le> ac_balance (L a)" using L(2) by (simp add: acceptable_def p)
  have bal: "2 * ac_balance (L c) \<le> U64_MAX" if "c \<in> A" for c
    using holdings_ge [OF A(1) that, of L] A(4) by linarith
  let ?b = "ac_balance (?L' a) + ?d"
  let ?x = "(?L' a)\<lparr>ac_balance := ?b, ac_nonce := ac_nonce (L a)\<rparr>"
  have post: "?L' a = (L a)\<lparr>ac_balance := ac_balance (L a) - ?d + (if t = a then amount else 0), ac_nonce := Suc (ac_nonce (L a))\<rparr>"
    by (simp add: posted_simps(1) [OF p] Let_def)
  have b: "?b = ac_balance (L a) + (if t = a then amount else 0)" using d by (simp add: post)
  have fits: "?b \<le> U64_MAX" "?d \<le> U64_MAX" using bal [OF A(2)] d unfolding b by auto
  obtain s1 where s1: "put_account db s a ?x = (Ok (), s1)" "ok s1" "sound ?bc (view s1)"
    "only_accounts (view s) (view s1)" "ledger_of ?bc (view s1) = ?L'(a := ?x)"
    using put_account_led [OF s, of a ?x] unfolding L(1) by blast
  let ?y = "((?L'(a := ?x)) t)\<lparr>ac_balance := ac_balance ((?L'(a := ?x)) t) - amount\<rparr>"
  have restored: "(?L'(a := ?x))(t := ?y) = L"
  proof
    fix c show "((?L'(a := ?x))(t := ?y)) c = L c"
    proof (cases "c = a \<and> a = t")
      case True
      then show ?thesis using b post by (cases "L a") (simp add: fun_upd_apply)
    next
      case False
      then show ?thesis using b post
        by (cases "L c") (auto simp: posted_simps(1) [OF p] Let_def fun_upd_apply)
    qed
  qed
  obtain s2 where s2: "put_account db s1 t ?y = (Ok (), s2)" "ok s2" "sound ?bc (view s2)"
    "only_accounts (view s1) (view s2)" "ledger_of ?bc (view s2) = L"
    using put_restores [OF s1(2,3) s(3), unfolded s1(5), OF restored] by blast
  have "add_u64 (ac_balance (?L' a)) (add_u64 amount (tx_fee tx)) = ?b" using fits by simp
  moreover have "checked_sub_u64 (ac_nonce (?L' a)) 1 = Some (ac_nonce (L a))"
    by (simp add: post checked_sub_u64_def)
  ultimately have "revert_transaction valid_key sha256 db s tx = (Ok (), s2)"
    using s1(1) s2(1) get_account_led [OF s, of a, unfolded L(1)]
      get_account_led [OF s1(2,3) s(3), of t, unfolded s1(5)]
    by (simp add: revert_transaction_def sender p Let_def)
  then show ?thesis using s2 only_accounts_trans [OF s1(4) s2(4)] by blast
qed

end

lemma acceptable_all_snoc:
  "acceptable_all valid_key sha256 L (txs @ [tx]) \<longleftrightarrow> acceptable_all valid_key sha256 L txs
     \<and> length (tx_sender_pubkey tx) = 32 \<and> valid_key (tx_sender_pubkey tx)
     \<and> acceptable (posted_all sha256 L txs) (sender_of sha256 tx) tx"
  by (induction txs arbitrary: L) auto

lemma posted_all_snoc [simp]:
  "posted_all sha256 L (txs @ [tx]) = posted (posted_all sha256 L txs) (sender_of sha256 tx) tx"
  by (simp add: posted_all_def)

context state_store
begin

lemma revert_transaction_restores:
  assumes s: "ok s" "sound (db_bincode db) (view s)" "db_store db = vt"
    and sender: "address_from_pubkey valid_key sha256 (tx_sender_pubkey tx) = Ok a"
    and L: "ledger_of (db_bincode db) (view s) = posted L a tx" "acceptable L a tx"
    and A: "finite A" "touches a tx \<subseteq> A" "2 * holdings A L \<le> U64_MAX" "tx_nonce tx < U64_MAX"
  shows "\<exists>s'. revert_transaction valid_key sha256 db s tx = (Ok (), s') \<and> ok s' \<and> sound (db_bincode db) (view s')
    \<and> only_accounts (view s) (view s') \<and> ledger_of (db_bincode db) (view s') = L"
proof -
  have a: "a \<in> A" using A(2) by (simp add: touches_def)
  have bal: "2 * (ac_balance (L a) + ac_staked (L a)) \<le> U64_MAX"
    using mult_le_mono2 [OF holdings_ge [OF A(1) a, of L], of 2] A(3) by (rule le_trans)
  have n: "ac_nonce (L a) < U64_MAX" using L(2) A(4) by (simp add: acceptable_def)
  note put_L = put_restores [OF s, unfolded L(1), where a = a and L = L]
  note get_a = get_account_led [OF s, of a, unfolded L(1)]
  note rv = revert_transaction_def sender get_a
  show ?thesis
  proof (cases "plain_payload (tx_payload tx)")
    case True
    have f: "tx_fee tx \<le> ac_balance (L a)" using L(2) posted_plain(2) [OF True] by simp
    have "revert_transaction valid_key sha256 db s tx = put_account db s a (L a)"
      using True f bal n by (cases "L a"; cases "tx_payload tx") (simp_all add: rv plain_payload_def posted_def Let_def)
    then show ?thesis using put_L [of "L a"] posted_plain(1) [OF True, of L a] by simp
  next
    case False
    then consider t amount where "tx_payload tx = Transfer t amount" | amount where "tx_payload tx = Stake amount"
      | amount where "tx_payload tx = Unstake amount"
      by (cases "tx_payload tx") (simp_all add: plain_payload_def)
    then show ?thesis
    proof cases
      case 1
      then show ?thesis using revert_transfer_restores [OF s sender 1 L A(1) a _ A(3)] A(2)
        by (simp add: touches_def)
    next
      case 2
      have f: "amount + tx_fee tx \<le> ac_balance (L a)" using L(2) by (simp add: acceptable_def 2)
      have "revert_transaction valid_key sha256 db s tx = put_account db s a (L a)"
        using f bal n by (cases "L a") (simp add: rv 2 posted_simps(2) [OF 2])
      then show ?thesis using put_L [of "L a"] posted_simps(2) [OF 2, of L a] by simp
    next
      case 3
      have f: "tx_fee tx \<le> ac_balance (L a)" "amount \<le> ac_staked (L a)" using L(2) by (simp_all add: acceptable_def 3)
      have "revert_transaction valid_key sha256 db s tx = put_account db s a (L a)"
        using f bal n by (cases "L a") (simp add: rv 3 posted_simps(3) [OF 3])
      then show ?thesis using put_L [of "L a"] posted_simps(3) [OF 3, of L a] by simp
    qed
  qed
qed

lemma revert_all_restores:
  assumes "db_store db = vt" "finite A" "2 * holdings A L \<le> U64_MAX"
  shows "confined sha256 A txs \<Longrightarrow> acceptable_all valid_key sha256 L txs \<Longrightarrow> ok s
    \<Longrightarrow> sound (db_bincode db) (view s) \<Longrightarrow> ledger_of (db_bincode db) (view s) = posted_all sha256 L txs
    \<Longrightarrow> \<exists>s'. try_each (revert_transaction valid_key sha256 db) s (rev txs) = (Ok (), s') \<and> ok s'
      \<and> sound (db_bincode db) (view s') \<and> only_accounts (view s) (view s') \<and> ledger_of (db_bincode db) (view s') = L"
proof (induction txs arbitrary: s rule: rev_induct)
  case Nil
  then show ?case by simp
next
  case (snoc tx txs)
  let ?a = "sender_of sha256 tx" and ?M = "posted_all sha256 L txs"
  have acc: "acceptable_all valid_key sha256 L txs" "acceptable ?M ?a tx"
    and sender: "address_from_pubkey valid_key sha256 (tx_sender_pubkey tx) = Ok ?a"
    using snoc.prems(2) unfolding acceptable_all_snoc sender_known by blast+
  have w: "confined sha256 A txs" "touches ?a tx \<subseteq> A" "tx_nonce tx < U64_MAX"
    using snoc.prems(1) by (simp_all add: confined_def)
  have "2 * holdings A ?M \<le> U64_MAX"
    using posted_all_holdings [OF assms(2) w(1) acc(1)] assms(3) by linarith
  then obtain s1 where s1: "revert_transaction valid_key sha256 db s tx = (Ok (), s1)" "ok s1"
    "sound (db_bincode db) (view s1)" "only_accounts (view s) (view s1)" "ledger_of (db_bincode db) (view s1) = ?M"
    using revert_transaction_restores [OF snoc.prems(3,4) assms(1) sender _ acc(2) assms(2) w(2) _ w(3)] snoc.prems(5)
    by auto
  obtain s2 where s2: "try_each (revert_transaction valid_key sha256 db) s1 (rev txs) = (Ok (), s2)" "ok s2"
    "sound (db_bincode db) (view s2)" "only_accounts (view s1) (view s2)" "ledger_of (db_bincode db) (view s2) = L"
    using snoc.IH [OF w(1) acc(1) s1(2,3,5)] by blast
  then show ?case using s1(1) only_accounts_trans [OF s1(4) s2(4)] by simp
qed

end

context state_store
begin

lemma chain_state_cong:
  assumes "ok s" "ok s'" "db_store db = vt" "view s' CF_STATE = view s CF_STATE"
  shows "get_block_height db s' = get_block_height db s" "get_chain_tip db s' = get_chain_tip db s"
  using assms by (simp_all add: get_block_height_def get_chain_tip_def get)

lemma delete_each:
  assumes "db_store db = vt"
  shows "ok s \<Longrightarrow> \<exists>s'. try_each (delete_transaction db) s hs = (Ok (), s') \<and> ok s'
    \<and> (\<forall>cf. cf \<noteq> CF_TRANSACTIONS \<longrightarrow> view s' cf = view s cf)
    \<and> (\<forall>k. view s' CF_TRANSACTIONS k = (if k \<in> tx_hash_bytes ` set hs then None else view s CF_TRANSACTIONS k))"
proof (induction hs arbitrary: s)
  case (Cons h hs)
  obtain s1 where s1: "delete_transaction db s h = (Ok (), s1)" "ok s1"
    "view s1 = put_in (view s) CF_TRANSACTIONS (tx_hash_bytes h) None"
    using delete [OF Cons.prems cf_known(2)] assms unfolding delete_transaction_def by blast
  obtain s2 where s2: "try_each (delete_transaction db) s1 hs = (Ok (), s2)" "ok s2"
    "\<forall>cf. cf \<noteq> CF_TRANSACTIONS \<longrightarrow> view s2 cf = view s1 cf"
    "\<forall>k. view s2 CF_TRANSACTIONS k = (if k \<in> tx_hash_bytes ` set hs then None else view s1 CF_TRANSACTIONS k)"
    using Cons.IH [OF s1(2)] by blast
  have "view s2 CF_TRANSACTIONS k = (if k \<in> tx_hash_bytes ` set (h # hs) then None else view s CF_TRANSACTIONS k)" for k
    using s2(4) by (simp add: s1(3) put_in_apply)
  moreover have "\<forall>cf. cf \<noteq> CF_TRANSACTIONS \<longrightarrow> view s2 cf = view s cf" using s2(3) by (simp add: s1(3))
  ultimately show ?case using s1(1) s2(1,2) by simp
qed simp

lemma delete_block_frame:
  assumes "ok s" "db_store db = vt" "get_block db s hash = Ok (Some block)"
  shows "\<exists>s'. delete_block db s hash = (Ok (), s') \<and> ok s' \<and> (\<forall>cf. cf \<noteq> CF_BLOCKS \<longrightarrow> view s' cf = view s cf)
    \<and> view s' CF_BLOCKS (block_hash_bytes hash) = None"
proof -
  obtain s1 where s1: "st_delete vt s CF_BLOCKS (be_bytes 8 (bh_height (blk_header block))) = (Ok (), s1)" "ok s1"
    "view s1 = put_in (view s) CF_BLOCKS (be_bytes 8 (bh_height (blk_header block))) None"
    using delete [OF assms(1) cf_known(1)] by blast
  obtain s2 where s2: "st_delete vt s1 CF_BLOCKS (block_hash_bytes hash) = (Ok (), s2)" "ok s2"
    "view s2 = put_in (view s1) CF_BLOCKS (block_hash_bytes hash) None"
    using delete [OF s1(2) cf_known(1)] by blast
  show ?thesis using s1(1) s2(1,2) assms(2,3)
    by (intro exI [of _ s2]) (simp add: delete_block_def s1(3) s2(3) put_in_apply)
qed

lemma at_block_read:
  assumes "ok s" "db_store db = vt" "at_block (view s) h hash rt" "h \<le> U64_MAX" "length (block_hash_bytes hash) = 32"
  shows "get_block_height db s = Ok h" "get_chain_tip db s = Ok (Some hash)"
    "length rt = 32 \<Longrightarrow> get_state_root db s = Ok rt"
  using assms by (simp_all add: at_block_def get_block_height_def get_chain_tip_def get_state_root_def get)

lemma revert_block_restores:
  assumes s: "ok s" "sound (db_bincode (stm_db m)) (view s)" "db_store (stm_db m) = vt"
    and at: "at_block (view s) (Suc n) hash rt" "n < U64_MAX" "length (block_hash_bytes hash) = 32"
    and b: "get_block (stm_db m) s hash = Ok (Some block)"
    and L: "ledger_of (db_bincode (stm_db m)) (view s) = posted_all sha256 L (blk_transactions block)"
      "acceptable_all valid_key sha256 L (blk_transactions block)"
    and A: "finite A" "confined sha256 A (blk_transactions block)" "2 * holdings A L \<le> U64_MAX"
  shows "\<exists>s' rt'. revert_block valid_key sha256 m s = (Ok (), s') \<and> ok s' \<and> sound (db_bincode (stm_db m)) (view s')
    \<and> ledger_of (db_bincode (stm_db m)) (view s') = L
    \<and> at_block (view s') n (bh_parent_hash (blk_header block)) rt' \<and> compute_state_root sha256 (stm_db m) s' = Ok rt'
    \<and> get_block (stm_db m) s' hash = Ok None
    \<and> (\<forall>tx \<in> set (blk_transactions block). get_transaction (stm_db m) s' (tx_hash tx) = Ok None)
    \<and> view s' CF_ATTESTATIONS = view s CF_ATTESTATIONS \<and> dom (view s CF_ACCOUNTS) \<subseteq> dom (view s' CF_ACCOUNTS)"
proof -
  let ?db = "stm_db m" and ?txs = "blk_transactions block" and ?parent = "bh_parent_hash (blk_header block)"
  note rd = at_block_read(1,2) [OF s(1,3) at(1) _ at(3)]
  obtain s1 where s1: "try_each (revert_transaction valid_key sha256 ?db) s (rev ?txs) = (Ok (), s1)" "ok s1"
    "sound (db_bincode ?db) (view s1)" "only_accounts (view s) (view s1)" "ledger_of (db_bincode ?db) (view s1) = L"
    using revert_all_restores [OF s(3) A(1,3,2) L(2) s(1,2) L(1)] by blast
  obtain s2 where s2: "try_each (delete_transaction ?db) s1 (map tx_hash ?txs) = (Ok (), s2)" "ok s2"
    "\<forall>cf. cf \<noteq> CF_TRANSACTIONS \<longrightarrow> view s2 cf = view s1 cf"
    "\<forall>k. view s2 CF_TRANSACTIONS k = (if k \<in> tx_hash_bytes ` set (map tx_hash ?txs) then None else view s1 CF_TRANSACTIONS k)"
    using delete_each [OF s(3) s1(2)] by blast
  have "get_block ?db s2 hash = Ok (Some block)"
    using b get_block_cong [OF s(1) s2(2) s(3)] s2(3) s1(4) by (simp add: only_accounts_def)
  then obtain s3 where s3: "delete_block ?db s2 hash = (Ok (), s3)" "ok s3"
    "\<forall>cf. cf \<noteq> CF_BLOCKS \<longrightarrow> view s3 cf = view s2 cf" "view s3 CF_BLOCKS (block_hash_bytes hash) = None"
    using delete_block_frame [OF s2(2) s(3)] by blast
  obtain s4 where s4: "set_chain_tip ?db s3 ?parent = (Ok (), s4)" "ok s4"
    "view s4 = put_in (view s3) CF_STATE STATE_KEY_CHAIN_TIP (Some (block_hash_bytes ?parent))"
    using put [OF s3(2) cf_known(4)] s(3) unfolding set_chain_tip_def by blast
  obtain s5 where s5: "set_block_height ?db s4 n = (Ok (), s5)" "ok s5"
    "view s5 = put_in (view s4) CF_STATE STATE_KEY_BLOCK_HEIGHT (Some (be_bytes 8 n))"
    using put [OF s4(2) cf_known(4)] s(3) unfolding set_block_height_def by blast
  obtain rt' where rt': "compute_state_root sha256 ?db s5 = Ok rt'"
    using state_root_frame [OF s5(2,2) s(3) refl] by blast
  obtain s6 where s6: "set_state_root ?db s5 rt' = (Ok (), s6)" "ok s6"
    "view s6 = put_in (view s5) CF_STATE STATE_KEY_STATE_ROOT (Some rt')"
    using put [OF s5(2) cf_known(4)] s(3) unfolding set_state_root_def by blast
  have v: "view s6 cf = view s3 cf" if "cf \<noteq> CF_STATE" for cf using that by (simp add: s4(3) s5(3) s6(3))
  have acc: "view s6 CF_ACCOUNTS = view s1 CF_ACCOUNTS" using s2(3) s3(3) by (simp add: v)
  have "revert_block valid_key sha256 m s = (Ok (), s6)"
    using s1(1) s2(1) s3(1) s4(1) s5(1) s6(1) rt' rd at(2) b by (simp add: revert_block_def)
  moreover have "at_block (view s6) n ?parent rt'" by (simp add: at_block_def s4(3) s5(3) s6(3) put_in_apply)
  moreover have "compute_state_root sha256 ?db s6 = Ok rt'"
    using state_root_frame [OF s5(2) s6(2) s(3), of sha256] rt' by (auto simp: s6(3))
  moreover have "get_block ?db s6 hash = Ok None" using s(3) s6(2) s3(4) by (simp add: get_block_def get v)
  moreover have "\<forall>tx \<in> set ?txs. get_transaction ?db s6 (tx_hash tx) = Ok None"
    using s(3) s6(2) s2(4) s3(3) by (simp add: get_transaction_def get v)
  moreover have "view s6 CF_ATTESTATIONS = view s CF_ATTESTATIONS"
    using s1(4) s2(3) s3(3) by (simp add: v only_accounts_def)
  moreover have "dom (view s CF_ACCOUNTS) \<subseteq> dom (view s6 CF_ACCOUNTS)"
    using s1(4) unfolding acc only_accounts_def by blast
  ultimately show ?thesis
    using s6(2) s1(3,5) ledger_of_cong [of "view s6" "view s1", OF acc] sound_cong [of "view s6" "view s1", OF acc]
    by auto
qed

end

end
