(* ===== verification/State_Properties.thy ===== *)
theory State_Properties
  imports Ledger
begin

text \<open>
  The properties of the state manager over the in-memory store: when a block is applied and what it
  does to the ledger, the money supply and the chain state; what a block that fails in the middle
  leaves behind; and what reverting a block restores and what it does not. A concrete encoding of
  accounts shows that the assumptions on \<^verbatim>\<open>bincode\<close> can be met.
\<close>

lemma next_level_length32:
  "\<forall>x. length (sha256 x) = 32 \<Longrightarrow> list_all (\<lambda>x. length x = 32) (next_level sha256 xs)"
  by (induction sha256 xs rule: next_level.induct) (simp_all add: hash_pair_def)

lemma root_of_length:
  "\<forall>x. length (sha256 x) = 32 \<Longrightarrow> list_all (\<lambda>x. length x = 32) xs \<Longrightarrow> length (root_of sha256 xs) = 32"
proof (induction sha256 xs rule: root_of.induct)
  case (1 sha256 xs)
  show ?case
  proof (cases "length xs > 1")
    case True
    then show ?thesis using 1 next_level_length32 by (simp add: root_of.simps [of sha256 xs])
  next
    case False
    then have "xs = [] \<or> (\<exists>x. xs = [x])" by (cases xs) auto
    then show ?thesis using 1(3) by (auto simp: zero_hash_def)
  qed
qed

lemma state_root_length:
  "\<forall>x. length (sha256 x) = 32 \<Longrightarrow> compute_state_root sha256 db s = Ok rt \<Longrightarrow> length rt = 32"
proof -
  assume len: "\<forall>x. length (sha256 x) = 32" and rt: "compute_state_root sha256 db s = Ok rt"
  then obtain m where m: "st_iter_cf (db_store db) s CF_ACCOUNTS = Ok m"
    by (cases "st_iter_cf (db_store db) s CF_ACCOUNTS") (simp_all add: compute_state_root_def)
  have "list_all (\<lambda>x. length x = 32) (map (\<lambda>(k, v). sha256 (k @ v)) m)"
    using len by (auto simp: list_all_iff)
  from root_of_length [OF len this] show ?thesis
    using rt len by (cases "m = []") (auto simp: compute_state_root_def m Let_def merkle_root_eq)
qed

text \<open>A manager over the in-memory store.\<close>
definition mem_manager :: "Bincode \<Rightarrow> PruningPolicy \<Rightarrow> InMemoryStore StateManager" where
  "mem_manager bc policy = with_pruning_policy \<lparr> db_store = in_memory, db_bincode = bc \<rparr> policy"

lemma mem_manager_simps [simp]:
  "db_store (stm_db (mem_manager bc policy)) = in_memory" "db_bincode (stm_db (mem_manager bc policy)) = bc"
  by (simp_all add: mem_manager_def with_pruning_policy_def)

text \<open>What a block and the state before it have to satisfy: the store is intact, the chain can grow,
  the money of the accounts involved fits 64 bits, and the block can be encoded.\<close>
definition ready :: "(bytes \<Rightarrow> bytes) \<Rightarrow> Bincode \<Rightarrow> PruningPolicy \<Rightarrow> InMemoryStore \<Rightarrow> u64 \<Rightarrow> BlockHash option
     \<Rightarrow> Address set \<Rightarrow> Block \<Rightarrow> BlockHash \<Rightarrow> bool" where
  "ready sha256 bc policy s n tip A block hash \<longleftrightarrow> mem_ok s \<and> sound bc (mem_view s)
     \<and> get_block_height (stm_db (mem_manager bc policy)) s = Ok n
     \<and> get_chain_tip (stm_db (mem_manager bc policy)) s = Ok tip \<and> n < U64_MAX
     \<and> finite A \<and> confined sha256 A (blk_transactions block) \<and> holdings A (ledger_of bc (mem_view s)) \<le> U64_MAX
     \<and> encodable sha256 bc block hash \<and> (\<forall>x. length (sha256 x) = 32)"

lemma ready_outcome:
  assumes "ready sha256 bc policy s n tip A block hash"
    and "apply_block valid_key sha256 (mem_manager bc policy) s block = (r, s')"
  shows "mem_ok s'" "sound bc (mem_view s')"
    "block_outcome valid_key sha256 (ledger_of bc (mem_view s)) n tip block (is_ok r) (ledger_of bc (mem_view s'))"
    "is_ok r \<Longrightarrow> \<exists>rt. at_block (mem_view s') (Suc n) hash rt
       \<and> compute_state_root sha256 (stm_db (mem_manager bc policy)) s' = Ok rt"
    "\<not> is_ok r \<Longrightarrow> only_accounts (mem_view s) (mem_view s')"
proof -
  let ?m = "mem_manager bc policy" and ?L = "\<lambda>s. ledger_of bc (mem_view s)"
  have "\<exists>r s'. apply_block valid_key sha256 ?m s block = (r, s') \<and> mem_ok s' \<and> sound bc (mem_view s')
      \<and> block_outcome valid_key sha256 (?L s) n tip block (is_ok r) (?L s')
      \<and> (if is_ok r then \<exists>rt. at_block (mem_view s') (Suc n) hash rt \<and> compute_state_root sha256 (stm_db ?m) s' = Ok rt
         else only_accounts (mem_view s) (mem_view s'))"
    using mem.apply_block_outcome [of s ?m n tip A sha256 block hash valid_key] assms(1)
    unfolding ready_def mem_manager_simps by blast
  then have *: "mem_ok s' \<and> sound bc (mem_view s') \<and> block_outcome valid_key sha256 (?L s) n tip block (is_ok r) (?L s')
      \<and> (if is_ok r then \<exists>rt. at_block (mem_view s') (Suc n) hash rt \<and> compute_state_root sha256 (stm_db ?m) s' = Ok rt
         else only_accounts (mem_view s) (mem_view s'))"
    unfolding assms(2) by blast
  then show "mem_ok s'" "sound bc (mem_view s')" "block_outcome valid_key sha256 (?L s) n tip block (is_ok r) (?L s')"
    by blast+
  show "is_ok r \<Longrightarrow> \<exists>rt. at_block (mem_view s') (Suc n) hash rt \<and> compute_state_root sha256 (stm_db ?m) s' = Ok rt"
    "\<not> is_ok r \<Longrightarrow> only_accounts (mem_view s) (mem_view s')"
    using * by simp_all
qed

lemma ready_hash: "ready sha256 bc policy s n tip A block hash \<Longrightarrow> length (block_hash_bytes hash) = 32"
  unfolding ready_def encodable_def header_hash_def by (auto split: sum.splits)

lemma block_outcome_D:
  assumes "block_outcome valid_key sha256 L n tip block ok L'"
  shows "ok \<longleftrightarrow> follows n tip block \<and> acceptable_all valid_key sha256 L (blk_transactions block)"
    and "ok \<Longrightarrow> L' = posted_all sha256 L (blk_transactions block)"
    and "\<not> ok \<Longrightarrow> follows n tip block \<Longrightarrow> \<exists>k < length (blk_transactions block).
      L' = posted_all sha256 L (take k (blk_transactions block))
      \<and> acceptable_all valid_key sha256 L (take k (blk_transactions block))
      \<and> \<not> acceptable_all valid_key sha256 L (take (Suc k) (blk_transactions block))"
proof -
  note * = assms [unfolded block_outcome_def]
  show "ok \<longleftrightarrow> follows n tip block \<and> acceptable_all valid_key sha256 L (blk_transactions block)"
    by (rule conjunct1 [OF *])
  from conjunct2 [OF *] obtain k where k: "L' = posted_all sha256 L (take k (blk_transactions block))"
    "acceptable_all valid_key sha256 L (take k (blk_transactions block))"
    "if ok then k = length (blk_transactions block)
     else if follows n tip block then k < length (blk_transactions block)
       \<and> \<not> acceptable_all valid_key sha256 L (take (Suc k) (blk_transactions block))
     else k = 0" by blast
  show "ok \<Longrightarrow> L' = posted_all sha256 L (blk_transactions block)" using k(1,3) by simp
  show "\<not> ok \<Longrightarrow> follows n tip block \<Longrightarrow> \<exists>k < length (blk_transactions block).
      L' = posted_all sha256 L (take k (blk_transactions block))
      \<and> acceptable_all valid_key sha256 L (take k (blk_transactions block))
      \<and> \<not> acceptable_all valid_key sha256 L (take (Suc k) (blk_transactions block))"
    using k by (intro exI [of _ k]) simp
qed

lemma ready_D:
  assumes "ready sha256 bc policy s n tip A block hash"
  shows "mem_ok s" "sound bc (mem_view s)" "get_block_height (stm_db (mem_manager bc policy)) s = Ok n"
    "get_chain_tip (stm_db (mem_manager bc policy)) s = Ok tip" "n < U64_MAX" "finite A"
    "confined sha256 A (blk_transactions block)" "holdings A (ledger_of bc (mem_view s)) \<le> U64_MAX"
    "encodable sha256 bc block hash" "\<forall>x. length (sha256 x) = 32"
  using assms by (simp_all add: ready_def)

lemma ready_revert:
  assumes "ready sha256 bc policy s n tip A block hash" "2 * holdings A (ledger_of bc (mem_view s)) \<le> U64_MAX"
    and "apply_block valid_key sha256 (mem_manager bc policy) s block = (Ok (), s1)"
    and "get_block (stm_db (mem_manager bc policy)) s1 hash = Ok (Some block)"
  shows "\<exists>s2 rt. revert_block valid_key sha256 (mem_manager bc policy) s1 = (Ok (), s2) \<and> mem_ok s2
    \<and> sound bc (mem_view s2) \<and> ledger_of bc (mem_view s2) = ledger_of bc (mem_view s)
    \<and> at_block (mem_view s2) n (bh_parent_hash (blk_header block)) rt
    \<and> get_block (stm_db (mem_manager bc policy)) s2 hash = Ok None
    \<and> (\<forall>tx \<in> set (blk_transactions block). get_transaction (stm_db (mem_manager bc policy)) s2 (tx_hash tx) = Ok None)
    \<and> mem_view s2 CF_ATTESTATIONS = mem_view s1 CF_ATTESTATIONS
    \<and> dom (mem_view s1 CF_ACCOUNTS) \<subseteq> dom (mem_view s2 CF_ACCOUNTS)"
proof -
  let ?m = "mem_manager bc policy"
  note rd = ready_D [OF assms(1)] and o = ready_outcome [OF assms(1,3)]
  note out = block_outcome_D [OF o(3), unfolded is_ok_simps]
  obtain rt where rt: "at_block (mem_view s1) (Suc n) hash rt" using o(4) by auto
  have "sound (db_bincode (stm_db ?m)) (mem_view s1)" "db_store (stm_db ?m) = in_memory"
    "ledger_of (db_bincode (stm_db ?m)) (mem_view s1) = posted_all sha256 (ledger_of bc (mem_view s)) (blk_transactions block)"
    "acceptable_all valid_key sha256 (ledger_of bc (mem_view s)) (blk_transactions block)"
    using o(2) out(1,2) by simp_all
  from mem.revert_block_restores [OF o(1) this(1,2) rt rd(5) ready_hash [OF assms(1)] assms(4) this(3,4) rd(6,7) assms(2)]
  show ?thesis unfolding mem_manager_simps by blast
qed

lemma ready_stored:
  assumes "ready sha256 bc policy s n tip A block hash"
    and "apply_block valid_key sha256 (mem_manager bc policy) s block = (Ok (), s')"
    and "codec_at (bc_block bc) block" "Suc n \<le> pp_block_retention_count policy"
  shows "get_block (stm_db (mem_manager bc policy)) s' hash = Ok (Some block)"
proof -
  let ?m = "mem_manager bc policy"
  have policy: "stm_pruning_policy ?m = policy" by (simp add: mem_manager_def with_pruning_policy_def)
  have "\<exists>r s'. apply_block valid_key sha256 ?m s block = (r, s')
      \<and> (is_ok r \<longrightarrow> get_block (stm_db ?m) s' hash = Ok (Some block))"
    using mem.apply_block_outcome [of s ?m n tip A sha256 block hash valid_key] assms(1,3,4) ready_hash [OF assms(1)]
    unfolding ready_def mem_manager_simps policy by blast
  then show ?thesis by (simp add: assms(2))
qed

section \<open>A concrete chain\<close>

definition account_codec :: "AccountState Codec" where
  "account_codec = \<lparr>
     enc = (\<lambda>a. Ok ([ac_balance a, ac_nonce a, ac_staked a, ac_overflow_stake a, of_bool (ac_pol_valid a),
        ac_pol_consecutive_days a]
        @ (case ac_last_pol_date a of None \<Rightarrow> [0, 0] | Some d \<Rightarrow> [if d < 0 then 2 else 1, nat \<bar>d\<bar>])
        @ (case ac_node_id a of None \<Rightarrow> [] | Some i \<Rightarrow> 1 # node_id_bytes i))),
     dec = (\<lambda>b. case b of
        x1 # x2 # x3 # x4 # x5 # x6 # d1 # d2 # i \<Rightarrow>
          Ok \<lparr> ac_balance = x1, ac_nonce = x2, ac_staked = x3, ac_overflow_stake = x4, ac_pol_valid = (x5 = 1),
               ac_pol_consecutive_days = x6,
               ac_last_pol_date = (if d1 = 0 then None else Some (if d1 = 2 then - int d2 else int d2)),
               ac_node_id = (case i of [] \<Rightarrow> None | _ # k \<Rightarrow> Some (NodeId k)) \<rparr>
      | _ \<Rightarrow> Err ''short'') \<rparr>"

lemma account_codec_ok: "codec_ok account_codec"
proof -
  have "codec_at account_codec a" for a
    by (cases a) (auto simp: codec_at_def account_codec_def split: option.splits)
  then show ?thesis by (simp add: codec_ok_def)
qed

definition pay_key :: bytes where "pay_key = replicate 32 5"
definition payer :: Address where "payer = Address_from_public_key pad_hash pay_key"
definition payee :: Address where "payee = Address (replicate 32 9)"

definition pay_tx :: "u64 \<Rightarrow> Lux \<Rightarrow> Transaction" where
  "pay_tx nonce amount = \<lparr> tx_hash = TxHash [nonce, amount], tx_payload = Transfer payee amount,
     tx_sender_pubkey = pay_key, tx_signature = [], tx_nonce = nonce, tx_chain_id = 1, tx_fee = 1, tx_timestamp = 0 \<rparr>"

definition pay_block :: "Transaction list \<Rightarrow> Block" where
  "pay_block txs = \<lparr> blk_header = \<lparr> bh_height = 1, bh_timestamp = 0, bh_parent_hash = BlockHash (replicate 32 0),
       bh_transactions_root = [], bh_state_root = [], bh_attestations_root = [], bh_producer = NodeId [],
       bh_vrf_proof = [], bh_active_miners = 1, bh_geographic_diversity = 1, bh_producer_pubkey = [] \<rparr>,
     blk_transactions = txs, blk_attestations = [], blk_validator_signatures = [] \<rparr>"

definition pay_bincode :: "Transaction list \<Rightarrow> Bincode" where
  "pay_bincode txs = \<lparr> bc_header = no_codec\<lparr>enc := (\<lambda>_. Ok [3])\<rparr>,
     bc_block = \<lparr> enc = (\<lambda>_. Ok [4]), dec = (\<lambda>_. Ok (pay_block txs)) \<rparr>,
     bc_transaction = no_codec\<lparr>enc := (\<lambda>_. Ok [5])\<rparr>, bc_account = account_codec, bc_attestation = no_codec \<rparr>"

definition pay_store :: "Transaction list \<Rightarrow> InMemoryStore" where
  "pay_store txs = snd (put_account (stm_db (mem_manager (pay_bincode txs) PruningPolicy_default)) InMemoryStore_new
     payer (AccountState_default\<lparr>ac_balance := 100\<rparr>))"

lemma payer_payee [simp]: "payer \<noteq> payee" "payee \<noteq> payer"
  by (simp_all add: payer_def payee_def Address_from_public_key_def pad_hash_def byte_string_def numeral_eq_Suc)

lemma pay_sender [simp]: "sender_of pad_hash (pay_tx n x) = payer"
  by (simp add: sender_of_def pay_tx_def payer_def)

lemma pay_store_facts:
  "mem_ok (pay_store txs)" "sound (pay_bincode txs) (mem_view (pay_store txs))"
  "ledger_of (pay_bincode txs) (mem_view (pay_store txs)) = (\<lambda>_. AccountState_default)(payer := AccountState_default\<lparr>ac_balance := 100\<rparr>)"
  "mem_view (pay_store txs) CF_STATE = (\<lambda>_. None)"
  "mem_view (pay_store txs) CF_ACCOUNTS (address_bytes payee) = None"
proof -
  let ?db = "stm_db (mem_manager (pay_bincode txs) PruningPolicy_default)"
  have "sound (pay_bincode txs) (mem_view InMemoryStore_new)"
    by (simp add: sound_def accounts_ok_def pay_bincode_def account_codec_ok)
  then obtain s' where s': "put_account ?db InMemoryStore_new payer (AccountState_default\<lparr>ac_balance := 100\<rparr>) = (Ok (), s')"
    "mem_ok s'" "sound (pay_bincode txs) (mem_view s')" "only_accounts (mem_view InMemoryStore_new) (mem_view s')"
    "ledger_of (pay_bincode txs) (mem_view s') = (ledger_of (pay_bincode txs) (mem_view InMemoryStore_new))
       (payer := AccountState_default\<lparr>ac_balance := 100\<rparr>)"
    using mem.put_account_led [OF mem_new(1), of ?db] by (auto simp del: mem_new)
  have s: "pay_store txs = s'" by (simp add: pay_store_def s'(1))
  show "mem_ok (pay_store txs)" "sound (pay_bincode txs) (mem_view (pay_store txs))" using s'(2,3) s by simp_all
  obtain b where b: "enc (bc_account (pay_bincode txs)) (AccountState_default\<lparr>ac_balance := 100\<rparr>) = Ok b"
    by (simp add: pay_bincode_def account_codec_def)
  have "\<exists>t. st_put in_memory InMemoryStore_new CF_ACCOUNTS (address_bytes payer) b = (Ok (), t) \<and> mem_ok t
      \<and> mem_view t = put_in (mem_view InMemoryStore_new) CF_ACCOUNTS (address_bytes payer) (Some b)"
    by (rule mem.put [OF mem_new(1) cf_known(3)])
  then show "mem_view (pay_store txs) CF_ACCOUNTS (address_bytes payee) = None"
    unfolding s using s'(1) by (auto simp: put_account_def b put_in_apply ser_result_def)
  show "mem_view (pay_store txs) CF_STATE = (\<lambda>_. None)"
    using s'(4) unfolding s by (simp add: only_accounts_def)
  show "ledger_of (pay_bincode txs) (mem_view (pay_store txs)) = (\<lambda>_. AccountState_default)(payer := AccountState_default\<lparr>ac_balance := 100\<rparr>)"
    unfolding s s'(5) by (simp add: ledger_of_def fun_eq_iff)
qed

definition pay_hash :: BlockHash where "pay_hash = BlockHash (pad_hash [3])"

lemma pay_confined: "set txs \<subseteq> range (\<lambda>x. pay_tx 0 x) \<Longrightarrow> confined pad_hash {payer, payee} txs"
  by (fastforce simp: confined_def touches_def pay_tx_def sender_of_def payer_def U64_MAX_def)

lemma pay_ready:
  assumes "confined pad_hash {payer, payee} txs"
  shows "ready pad_hash (pay_bincode txs) PruningPolicy_default (pay_store txs) 0 None {payer, payee} (pay_block txs) pay_hash"
    and "2 * holdings {payer, payee} (ledger_of (pay_bincode txs) (mem_view (pay_store txs))) \<le> U64_MAX"
proof -
  let ?db = "stm_db (mem_manager (pay_bincode txs) PruningPolicy_default)"
  have st: "st_get in_memory (pay_store txs) CF_STATE k = Ok None" for k
    using mem.get [OF pay_store_facts(1) cf_known(4)] by (simp add: pay_store_facts(4))
  have "holdings {payer, payee} (ledger_of (pay_bincode txs) (mem_view (pay_store txs))) = 100"
    unfolding pay_store_facts(3) by (simp add: holdings_def AccountState_default_def)
  moreover have "encodable pad_hash (pay_bincode txs) (pay_block txs) pay_hash"
    by (simp add: encodable_def header_hash_def pay_bincode_def pay_block_def pay_hash_def no_codec_def list_all_iff)
  ultimately show "ready pad_hash (pay_bincode txs) PruningPolicy_default (pay_store txs) 0 None {payer, payee} (pay_block txs) pay_hash"
    "2 * holdings {payer, payee} (ledger_of (pay_bincode txs) (mem_view (pay_store txs))) \<le> U64_MAX"
    using assms pay_store_facts(1,2) by (simp_all add: ready_def get_block_height_def get_chain_tip_def st pay_block_def U64_MAX_def)
qed

definition pay_run :: "Transaction list \<Rightarrow> (GratiaError, unit) result \<times> InMemoryStore" where
  "pay_run txs = apply_block (\<lambda>_. True) pad_hash (mem_manager (pay_bincode txs) PruningPolicy_default)
     (pay_store txs) (pay_block txs)"

lemma pay_acceptable:
  "acceptable_all (\<lambda>_. True) pad_hash (ledger_of (pay_bincode txs) (mem_view (pay_store txs))) [pay_tx 0 30]"
  "\<not> acceptable_all (\<lambda>_. True) pad_hash (ledger_of (pay_bincode txs) (mem_view (pay_store txs))) ([pay_tx 0 30] @ [pay_tx 0 30])"
  unfolding pay_store_facts(3)
  by (simp_all add: pay_sender) (simp_all add: pay_tx_def pay_key_def acceptable_def posted_def AccountState_default_def)

lemma pay_block_simps [simp]:
  "blk_transactions (pay_block txs) = txs" "follows 0 None (pay_block txs)"
  "bh_parent_hash (blk_header (pay_block txs)) = BlockHash (replicate 32 0)"
  by (simp_all add: pay_block_def follows_def)

lemma pay_holdings: "holdings {payer, payee} (ledger_of (pay_bincode txs) (mem_view (pay_store txs))) = 100"
  unfolding pay_store_facts(3) by (simp add: holdings_def AccountState_default_def)

lemma pay_fee [simp]: "tx_fee (pay_tx n x) = 1"
  by (simp add: pay_tx_def)

lemma pay_applied:
  obtains s1 where "pay_run [pay_tx 0 30] = (Ok (), s1)"
    "get_block (stm_db (mem_manager (pay_bincode [pay_tx 0 30]) PruningPolicy_default)) s1 pay_hash
       = Ok (Some (pay_block [pay_tx 0 30]))"
proof -
  let ?txs = "[pay_tx 0 30]"
  have rd: "ready pad_hash (pay_bincode ?txs) PruningPolicy_default (pay_store ?txs) 0 None {payer, payee} (pay_block ?txs) pay_hash"
    by (rule pay_ready(1) [OF pay_confined]) auto
  obtain r s1 where run: "pay_run ?txs = (r, s1)" by fastforce
  note run' = run [unfolded pay_run_def]
  have "is_ok r" using block_outcome_D(1) [OF ready_outcome(3) [OF rd run']] pay_acceptable(1) by simp
  then have r: "r = Ok ()" by (cases r) simp_all
  have "codec_at (bc_block (pay_bincode ?txs)) (pay_block ?txs)" "Suc 0 \<le> pp_block_retention_count PruningPolicy_default"
    by (simp_all add: codec_at_def pay_bincode_def PruningPolicy_default_def)
  from ready_stored [OF rd run' [unfolded r] this] that run r show ?thesis by simp
qed

section \<open>Properties\<close>

text \<open>C13: Applying a block. It succeeds exactly when the block has the next height and, above the first
  block, the tip as its parent, and every transaction in turn is signed by a valid key, has the nonce
  of its sender and is covered by the sender's balance or stake. Then each transaction is posted
  once, the money held shrinks by exactly the fees, and height, tip and state root are those of the
  block and of the new accounts.\<close>

theorem block_application_exact:
  assumes "ready sha256 bc policy s n tip A block hash"
    and "apply_block valid_key sha256 (mem_manager bc policy) s block = (r, s')"
    and "L = ledger_of bc (mem_view s)" "L' = ledger_of bc (mem_view s')"
    and "db = stm_db (mem_manager bc policy)"
  shows "(is_ok r \<longleftrightarrow> follows n tip block \<and> acceptable_all valid_key sha256 L (blk_transactions block))
    \<and> (is_ok r \<longrightarrow> L' = posted_all sha256 L (blk_transactions block)
         \<and> holdings A L' + sum_list (map tx_fee (blk_transactions block)) = holdings A L
         \<and> get_block_height db s' = Ok (Suc n) \<and> get_chain_tip db s' = Ok (Some hash)
         \<and> get_state_root db s' = compute_state_root sha256 db s')"
proof -
  note o = ready_outcome [OF assms(1,2)] and rd = ready_D [OF assms(1)]
  note out = block_outcome_D [OF o(3), folded assms(3,4)]
  have "holdings A L' + sum_list (map tx_fee (blk_transactions block)) = holdings A L" if "is_ok r"
    using out(1) that unfolding out(2) [OF that] by (intro posted_all_holdings [where valid_key = valid_key, OF rd(6,7)]) simp
  moreover have "get_block_height db s' = Ok (Suc n) \<and> get_chain_tip db s' = Ok (Some hash)
      \<and> get_state_root db s' = compute_state_root sha256 db s'" if ok: "is_ok r"
  proof -
    obtain rt where rt: "at_block (mem_view s') (Suc n) hash rt" "compute_state_root sha256 db s' = Ok rt"
      using o(4) [OF ok] unfolding assms(5) by blast
    have "db_store db = in_memory" "Suc n \<le> U64_MAX" using rd(5) assms(5) by simp_all
    from mem.at_block_read [OF o(1) this(1) rt(1) this(2) ready_hash [OF assms(1)]]
      state_root_length [OF rd(10) rt(2)] rt(2) show ?thesis by simp
  qed
  ultimately show ?thesis using out(1,2) by simp
qed

theorem block_application_exact_witness:
  "\<exists>s'. pay_run [pay_tx 0 30] = (Ok (), s')
    \<and> holdings {payer, payee} (ledger_of (pay_bincode [pay_tx 0 30]) (mem_view s')) = 99
    \<and> get_block_height (stm_db (mem_manager (pay_bincode [pay_tx 0 30]) PruningPolicy_default)) s' = Ok 1"
proof -
  let ?txs = "[pay_tx 0 30]"
  have rd: "ready pad_hash (pay_bincode ?txs) PruningPolicy_default (pay_store ?txs) 0 None {payer, payee} (pay_block ?txs) pay_hash"
    by (rule pay_ready(1) [OF pay_confined]) auto
  obtain s1 where run: "pay_run ?txs = (Ok (), s1)" by (rule pay_applied)
  have "holdings {payer, payee} (ledger_of (pay_bincode ?txs) (mem_view s1)) + sum_list (map tx_fee ?txs) = 100
      \<and> get_block_height (stm_db (mem_manager (pay_bincode ?txs) PruningPolicy_default)) s1 = Ok (Suc 0)"
    using conjunct2 [OF block_application_exact [OF rd run [unfolded pay_run_def] refl refl refl], rule_format, OF is_ok_simps(1)]
    unfolding pay_holdings pay_block_simps by blast
  with run show ?thesis by simp
qed

text \<open>C33: A block is not applied atomically. When a transaction in the middle is refused the block is
  refused, but the transactions before it stay posted: their fees are gone and their nonces used,
  while height and tip still are those of the parent.\<close>

theorem failed_block_leaves_prefix:
  assumes "ready sha256 bc policy s n tip A block hash"
    and "apply_block valid_key sha256 (mem_manager bc policy) s block = (r, s')"
    and "L = ledger_of bc (mem_view s)"
    and "follows n tip block" "blk_transactions block = before @ tx # after"
    and "acceptable_all valid_key sha256 L before" "\<not> acceptable_all valid_key sha256 L (before @ [tx])"
  shows "\<not> is_ok r \<and> ledger_of bc (mem_view s') = posted_all sha256 L before
    \<and> holdings A (ledger_of bc (mem_view s')) + sum_list (map tx_fee before) = holdings A L
    \<and> get_block_height (stm_db (mem_manager bc policy)) s' = Ok n
    \<and> get_chain_tip (stm_db (mem_manager bc policy)) s' = Ok tip"
proof -
  note o = ready_outcome [OF assms(1,2)] and rd = ready_D [OF assms(1)]
  note out = block_outcome_D [OF o(3), folded assms(3)]
  let ?acc = "acceptable_all valid_key sha256 L"
  have "\<not> ?acc (blk_transactions block)"
    using assms(5,7) acceptable_all_prefix [of valid_key sha256 L "before @ [tx]" after] by auto
  then have r: "\<not> is_ok r" using out(1) by simp
  then obtain k where k: "k < length (blk_transactions block)" "?acc (take k (blk_transactions block))"
    "\<not> ?acc (take (Suc k) (blk_transactions block))"
    "ledger_of bc (mem_view s') = posted_all sha256 L (take k (blk_transactions block))"
    using out(3) [OF r assms(4)] by blast
  have "\<not> length before < k"
  proof
    assume "length before < k"
    then have "take k (blk_transactions block) = (before @ [tx]) @ take (k - Suc (length before)) after"
      unfolding assms(5) by (simp add: take_Cons')
    then show False using k(2) assms(7) acceptable_all_prefix [of valid_key sha256 L "before @ [tx]"] by simp
  qed
  moreover have "\<not> k < length before"
  proof
    assume "k < length before"
    then have "before = take (Suc k) (blk_transactions block) @ drop (Suc k) before" unfolding assms(5) by simp
    then have "?acc (take (Suc k) (blk_transactions block) @ drop (Suc k) before)" using assms(6) by simp
    then show False using k(3) acceptable_all_prefix by blast
  qed
  ultimately have "k = length before" by simp
  then have L': "ledger_of bc (mem_view s') = posted_all sha256 L before" using k(4) assms(5) by simp
  have "confined sha256 A before" using rd(7) assms(5) by (simp add: confined_def)
  then have "holdings A (posted_all sha256 L before) + sum_list (map tx_fee before) = holdings A L"
    by (rule posted_all_holdings [OF rd(6) _ assms(6)])
  moreover have "mem_view s' CF_STATE = mem_view s CF_STATE" using o(5) [OF r] by (simp add: only_accounts_def)
  then have "get_block_height (stm_db (mem_manager bc policy)) s' = Ok n"
    "get_chain_tip (stm_db (mem_manager bc policy)) s' = Ok tip"
    using rd(1,3,4) o(1) mem.chain_state_cong [of s s' "stm_db (mem_manager bc policy)"] by simp_all
  ultimately show ?thesis using r L' by simp
qed

theorem failed_block_leaves_prefix_witness:
  "\<exists>r s'. pay_run [pay_tx 0 30, pay_tx 0 30] = (r, s') \<and> \<not> is_ok r
    \<and> holdings {payer, payee} (ledger_of (pay_bincode [pay_tx 0 30, pay_tx 0 30]) (mem_view s')) = 99
    \<and> get_block_height (stm_db (mem_manager (pay_bincode [pay_tx 0 30, pay_tx 0 30]) PruningPolicy_default)) s' = Ok 0"
proof -
  let ?txs = "[pay_tx 0 30, pay_tx 0 30]"
  have rd: "ready pad_hash (pay_bincode ?txs) PruningPolicy_default (pay_store ?txs) 0 None {payer, payee} (pay_block ?txs) pay_hash"
    by (rule pay_ready(1) [OF pay_confined]) auto
  obtain r s1 where run: "pay_run ?txs = (r, s1)" by fastforce
  have "blk_transactions (pay_block ?txs) = [pay_tx 0 30] @ pay_tx 0 30 # []" by simp
  from failed_block_leaves_prefix [OF rd run [unfolded pay_run_def] refl pay_block_simps(2) this pay_acceptable]
  have "holdings {payer, payee} (ledger_of (pay_bincode ?txs) (mem_view s1)) + sum_list (map tx_fee [pay_tx 0 30]) = 100
      \<and> \<not> is_ok r \<and> get_block_height (stm_db (mem_manager (pay_bincode ?txs) PruningPolicy_default)) s1 = Ok 0"
    unfolding pay_holdings by blast
  with run show ?thesis by simp
qed

text \<open>C14: Reverting undoes applying. If the tip block has been applied and is still stored, reverting it
  succeeds and puts every account back, with height and tip those of the parent; the block and its
  transactions are no longer found.\<close>

theorem revert_undoes_apply:
  assumes "ready sha256 bc policy s n tip A block hash" "2 * holdings A (ledger_of bc (mem_view s)) \<le> U64_MAX"
    and "apply_block valid_key sha256 (mem_manager bc policy) s block = (Ok (), s1)"
    and "get_block (stm_db (mem_manager bc policy)) s1 hash = Ok (Some block)"
    and "length (block_hash_bytes (bh_parent_hash (blk_header block))) = 32"
    and "db = stm_db (mem_manager bc policy)"
  shows "\<exists>s2. revert_block valid_key sha256 (mem_manager bc policy) s1 = (Ok (), s2) \<and> mem_ok s2
    \<and> ledger_of bc (mem_view s2) = ledger_of bc (mem_view s)
    \<and> get_block_height db s2 = get_block_height db s
    \<and> get_chain_tip db s2 = Ok (Some (bh_parent_hash (blk_header block)))
    \<and> get_block db s2 hash = Ok None
    \<and> (\<forall>tx \<in> set (blk_transactions block). get_transaction db s2 (tx_hash tx) = Ok None)"
proof -
  note rd = ready_D [OF assms(1)]
  obtain s2 rt where s2: "revert_block valid_key sha256 (mem_manager bc policy) s1 = (Ok (), s2)" "mem_ok s2"
    "ledger_of bc (mem_view s2) = ledger_of bc (mem_view s)"
    "at_block (mem_view s2) n (bh_parent_hash (blk_header block)) rt" "get_block db s2 hash = Ok None"
    "\<forall>tx \<in> set (blk_transactions block). get_transaction db s2 (tx_hash tx) = Ok None"
    using ready_revert [OF assms(1-4)] unfolding assms(6) by blast
  have "n \<le> U64_MAX" "db_store db = in_memory" using rd(5) assms(6) by simp_all
  from mem.at_block_read(1,2) [OF s2(2) this(2) s2(4) this(1) assms(5)] show ?thesis
    using s2 rd(3) unfolding assms(6) by simp
qed

theorem revert_undoes_apply_witness:
  "\<exists>s1 s2. pay_run [pay_tx 0 30] = (Ok (), s1)
    \<and> revert_block (\<lambda>_. True) pad_hash (mem_manager (pay_bincode [pay_tx 0 30]) PruningPolicy_default) s1 = (Ok (), s2)
    \<and> ledger_of (pay_bincode [pay_tx 0 30]) (mem_view s2)
      = ledger_of (pay_bincode [pay_tx 0 30]) (mem_view (pay_store [pay_tx 0 30]))"
proof -
  let ?txs = "[pay_tx 0 30]"
  have rd: "ready pad_hash (pay_bincode ?txs) PruningPolicy_default (pay_store ?txs) 0 None {payer, payee} (pay_block ?txs) pay_hash"
    "2 * holdings {payer, payee} (ledger_of (pay_bincode ?txs) (mem_view (pay_store ?txs))) \<le> U64_MAX"
    by (rule pay_ready [OF pay_confined]; auto)+
  obtain s1 where run: "pay_run ?txs = (Ok (), s1)"
    "get_block (stm_db (mem_manager (pay_bincode ?txs) PruningPolicy_default)) s1 pay_hash = Ok (Some (pay_block ?txs))"
    by (rule pay_applied)
  have "length (block_hash_bytes (bh_parent_hash (blk_header (pay_block ?txs)))) = 32" by simp
  from revert_undoes_apply [OF rd run(1) [unfolded pay_run_def] run(2) this refl] run(1) show ?thesis by blast
qed

text \<open>What reverting a block leaves behind. An account that the block created stays in the store as an
  empty entry, so the accounts, and with them the entries hashed into the state root, differ from
  those before the block; and the nullifiers of the block's attestations stay used.\<close>

theorem revert_leaves_traces:
  assumes "ready sha256 bc policy s n tip A block hash" "2 * holdings A (ledger_of bc (mem_view s)) \<le> U64_MAX"
    and "apply_block valid_key sha256 (mem_manager bc policy) s block = (Ok (), s1)"
    and "get_block (stm_db (mem_manager bc policy)) s1 hash = Ok (Some block)"
    and "mem_view s CF_ACCOUNTS (address_bytes t) = None"
      "posted_all sha256 (ledger_of bc (mem_view s)) (blk_transactions block) t \<noteq> AccountState_default"
    and "revert_block valid_key sha256 (mem_manager bc policy) s1 = (r, s2)"
  shows "get_account (stm_db (mem_manager bc policy)) s2 t = Ok AccountState_default
    \<and> mem_iter_cf s2 CF_ACCOUNTS \<noteq> mem_iter_cf s CF_ACCOUNTS
    \<and> has_nullifier (stm_db (mem_manager bc policy)) s2 k = has_nullifier (stm_db (mem_manager bc policy)) s1 k"
proof -
  let ?k = "address_bytes t" and ?db = "stm_db (mem_manager bc policy)"
  note rd = ready_D [OF assms(1)] and o = ready_outcome [OF assms(1,3)]
  obtain rt where s2: "mem_ok s2" "sound bc (mem_view s2)" "ledger_of bc (mem_view s2) = ledger_of bc (mem_view s)"
    "mem_view s2 CF_ATTESTATIONS = mem_view s1 CF_ATTESTATIONS"
    "dom (mem_view s1 CF_ACCOUNTS) \<subseteq> dom (mem_view s2 CF_ACCOUNTS)"
    using ready_revert [OF assms(1-4)] assms(7) by auto
  have "ledger_of bc (mem_view s1) t \<noteq> AccountState_default"
    using block_outcome_D(2) [OF o(3)] assms(6) by simp
  then have "?k \<in> dom (mem_view s1 CF_ACCOUNTS)" by (auto simp: ledger_of_def split: option.splits)
  then have entry: "mem_view s2 CF_ACCOUNTS ?k \<noteq> mem_view s CF_ACCOUNTS ?k" using s2(5) assms(5) by auto
  have "mem_iter_cf s2 CF_ACCOUNTS \<noteq> mem_iter_cf s CF_ACCOUNTS"
  proof
    assume "mem_iter_cf s2 CF_ACCOUNTS = mem_iter_cf s CF_ACCOUNTS"
    then have "mem_view s2 CF_ACCOUNTS = mem_view s CF_ACCOUNTS"
      using mem.iter [OF s2(1) cf_known(3)] mem.iter [OF rd(1) cf_known(3)] by (auto simp: in_memory_def)
    then show False using entry by simp
  qed
  moreover have "ledger_of bc (mem_view s2) t = AccountState_default"
    unfolding s2(3) by (simp add: ledger_of_def assms(5))
  then have "get_account ?db s2 t = Ok AccountState_default"
    using mem.get_account_led [OF s2(1), of ?db t] s2(2) by simp
  moreover have "has_nullifier ?db s2 k = has_nullifier ?db s1 k"
    using mem.get [OF s2(1) cf_known(5)] mem.get [OF o(1) cf_known(5)] s2(4) by (simp add: has_nullifier_def)
  ultimately show ?thesis by blast
qed

theorem revert_leaves_traces_witness:
  "\<exists>s1 s2. pay_run [pay_tx 0 30] = (Ok (), s1)
    \<and> revert_block (\<lambda>_. True) pad_hash (mem_manager (pay_bincode [pay_tx 0 30]) PruningPolicy_default) s1 = (Ok (), s2)
    \<and> mem_iter_cf s2 CF_ACCOUNTS \<noteq> mem_iter_cf (pay_store [pay_tx 0 30]) CF_ACCOUNTS"
proof -
  let ?txs = "[pay_tx 0 30]" and ?m = "mem_manager (pay_bincode [pay_tx 0 30]) PruningPolicy_default"
  have rd: "ready pad_hash (pay_bincode ?txs) PruningPolicy_default (pay_store ?txs) 0 None {payer, payee} (pay_block ?txs) pay_hash"
    "2 * holdings {payer, payee} (ledger_of (pay_bincode ?txs) (mem_view (pay_store ?txs))) \<le> U64_MAX"
    by (rule pay_ready [OF pay_confined]; auto)+
  obtain s1 where run: "pay_run ?txs = (Ok (), s1)"
    "get_block (stm_db ?m) s1 pay_hash = Ok (Some (pay_block ?txs))"
    by (rule pay_applied)
  obtain s2 where rev: "revert_block (\<lambda>_. True) pad_hash ?m s1 = (Ok (), s2)"
    using ready_revert [OF rd run(1) [unfolded pay_run_def] run(2)] by blast
  have "posted_all pad_hash (ledger_of (pay_bincode ?txs) (mem_view (pay_store ?txs))) (blk_transactions (pay_block ?txs)) payee
      \<noteq> AccountState_default"
    unfolding pay_store_facts(3) by (simp add: posted_all_def) (simp add: posted_def pay_tx_def AccountState_default_def)
  from revert_leaves_traces [OF rd run(1) [unfolded pay_run_def] run(2) pay_store_facts(5) this rev] run(1) rev
  show ?thesis by blast
qed

end
