(* ===== verification/Core_Crypto.thy ===== *)
theory Core_Crypto
  imports Merkle Storage
begin

text \<open>
  The cryptographic helpers of \<^verbatim>\<open>gratia-core/src/crypto.rs\<close>. The curve operations of
  \<^verbatim>\<open>ed25519_dalek\<close> are a record of functions; what the protocol relies on is \<open>ed25519_ok\<close>: a
  public key has 32 bytes and is a valid point, a signature has 64 bytes, and it verifies under the
  key that made it. The Merkle root computed here is shown to be the one of the tree of
  \<^verbatim>\<open>gratia-state\<close>.
\<close>

record Ed25519 =
  ed_public :: "bytes \<Rightarrow> bytes"
  ed_sign :: "bytes \<Rightarrow> bytes \<Rightarrow> bytes"
  ed_point :: "bytes \<Rightarrow> bool"
  ed_verify :: "bytes \<Rightarrow> bytes \<Rightarrow> bytes \<Rightarrow> bool"

definition ed25519_ok :: "Ed25519 \<Rightarrow> bool" where
  "ed25519_ok ed \<longleftrightarrow> (\<forall>k. length k = 32 \<longrightarrow> length (ed_public ed k) = 32 \<and> ed_point ed (ed_public ed k)
     \<and> (\<forall>m. length (ed_sign ed k m) = 64 \<and> ed_verify ed (ed_public ed k) m (ed_sign ed k m)))"

section \<open>Model\<close>

record Keypair =
  kp_signing_key :: bytes
  kp_verifying_key :: bytes

definition from_secret_key_bytes :: "Ed25519 \<Rightarrow> bytes \<Rightarrow> Keypair" where
  "from_secret_key_bytes ed secret = \<lparr> kp_signing_key = secret, kp_verifying_key = ed_public ed secret \<rparr>"

definition Keypair_generate :: "Ed25519 \<Rightarrow> bytes \<Rightarrow> Keypair" where
  "Keypair_generate ed entropy = \<lparr> kp_signing_key = entropy, kp_verifying_key = ed_public ed entropy \<rparr>"

definition kp_node_id :: "(bytes \<Rightarrow> bytes) \<Rightarrow> Keypair \<Rightarrow> NodeId" where
  "kp_node_id sha256 kp = NodeId_from_public_key sha256 (kp_verifying_key kp)"

definition kp_address :: "(bytes \<Rightarrow> bytes) \<Rightarrow> Keypair \<Rightarrow> Address" where
  "kp_address sha256 kp = Address_from_public_key sha256 (kp_verifying_key kp)"

definition kp_sign :: "Ed25519 \<Rightarrow> Keypair \<Rightarrow> bytes \<Rightarrow> bytes" where
  "kp_sign ed kp message = ed_sign ed (kp_signing_key kp) message"

definition kp_public_key_bytes :: "Keypair \<Rightarrow> bytes" where
  "kp_public_key_bytes kp = kp_verifying_key kp"

definition verify_signature :: "Ed25519 \<Rightarrow> bytes \<Rightarrow> bytes \<Rightarrow> bytes \<Rightarrow> (GratiaError, unit) result" where
  "verify_signature ed public_key_bytes message signature_bytes =
     (if length public_key_bytes \<noteq> 32 then Err GE_InvalidSignature
      else if \<not> ed_point ed public_key_bytes then Err GE_InvalidSignature
      else if length signature_bytes \<noteq> 64 then Err GE_InvalidSignature
      else if ed_verify ed public_key_bytes message signature_bytes then Ok ()
      else Err GE_InvalidSignature)"

definition sha256_multi :: "(bytes \<Rightarrow> bytes) \<Rightarrow> bytes list \<Rightarrow> bytes" where
  "sha256_multi sha256 segments = sha256 (concat segments)"

definition generate_blinded_id :: "(bytes \<Rightarrow> bytes) \<Rightarrow> NodeId \<Rightarrow> bytes \<Rightarrow> bytes" where
  "generate_blinded_id sha256 node_id daily_randomness =
     sha256_multi sha256 [byte_string ''gratia-blinded-id-v1:'', node_id_bytes node_id, daily_randomness]"

definition generate_nullifier :: "(bytes \<Rightarrow> bytes) \<Rightarrow> NodeId \<Rightarrow> u64 \<Rightarrow> bytes" where
  "generate_nullifier sha256 node_id epoch_number =
     sha256_multi sha256 [byte_string ''gratia-nullifier-v1:'', node_id_bytes node_id, be_bytes 8 epoch_number]"

fun core_next_level :: "(bytes \<Rightarrow> bytes) \<Rightarrow> bytes list \<Rightarrow> bytes list" where
  "core_next_level sha256 [] = []"
| "core_next_level sha256 [a] = [sha256_multi sha256 [a, a]]"
| "core_next_level sha256 (a # b # xs) = sha256_multi sha256 [a, b] # core_next_level sha256 xs"

lemma core_next_level_eq: "core_next_level sha256 xs = next_level sha256 xs"
  by (induction sha256 xs rule: core_next_level.induct) (simp_all add: sha256_multi_def hash_pair_def)

function core_merkle_loop :: "(bytes \<Rightarrow> bytes) \<Rightarrow> bytes list \<Rightarrow> bytes" where
  "core_merkle_loop sha256 current_level =
     (if length current_level > 1 then core_merkle_loop sha256 (core_next_level sha256 current_level)
      else current_level ! 0)"
  by pat_completeness auto
termination
  by (relation "measure (\<lambda>(_, l). length l)") (auto simp: core_next_level_eq next_level_length)

declare core_merkle_loop.simps [simp del]

definition core_merkle_root :: "(bytes \<Rightarrow> bytes) \<Rightarrow> bytes list \<Rightarrow> bytes" where
  "core_merkle_root sha256 hashes =
     (if hashes = [] then zero_hash
      else if length hashes = 1 then hashes ! 0
      else core_merkle_loop sha256 hashes)"

section \<open>Lemmas\<close>

lemma core_merkle_loop_eq: "xs \<noteq> [] \<Longrightarrow> core_merkle_loop sha256 xs = root_of sha256 xs"
proof (induction sha256 xs rule: core_merkle_loop.induct)
  case (1 sha256 xs)
  show ?case
  proof (cases "length xs > 1")
    case True
    then have "next_level sha256 xs \<noteq> []"
      using next_level_length [of sha256 xs] by (cases "next_level sha256 xs") auto
    then show ?thesis
      using 1 True by (simp add: core_merkle_loop.simps [of sha256 xs] root_of.simps [of sha256 xs] core_next_level_eq)
  next
    case False
    then obtain x where "xs = [x]" using 1(2) by (cases xs) auto
    then show ?thesis by (simp add: core_merkle_loop.simps root_of.simps)
  qed
qed

lemma verify_own_signature:
  "ed25519_ok ed \<Longrightarrow> length k = 32 \<Longrightarrow> verify_signature ed (ed_public ed k) m (ed_sign ed k m) = Ok ()"
  by (simp add: verify_signature_def ed25519_ok_def)

lemma keypair_signature_verifies:
  "ed25519_ok ed \<Longrightarrow> length k = 32 \<Longrightarrow>
     verify_signature ed (kp_public_key_bytes (from_secret_key_bytes ed k)) m (kp_sign ed (from_secret_key_bytes ed k) m) = Ok ()"
  by (simp add: kp_public_key_bytes_def from_secret_key_bytes_def kp_sign_def verify_own_signature)

lemma node_prefix_inj:
  assumes "length (node_id_bytes a) = 32" "length (node_id_bytes b) = 32"
  shows "p @ node_id_bytes a @ x = p @ node_id_bytes b @ y \<longleftrightarrow> a = b \<and> x = y"
  using assms by (auto simp: append_eq_append_conv intro: NodeId.expand)

definition nullifier_input :: "NodeId \<Rightarrow> u64 \<Rightarrow> bytes" where
  "nullifier_input n e = byte_string ''gratia-nullifier-v1:'' @ node_id_bytes n @ be_bytes 8 e"

definition blinded_input :: "NodeId \<Rightarrow> bytes \<Rightarrow> bytes" where
  "blinded_input n r = byte_string ''gratia-blinded-id-v1:'' @ node_id_bytes n @ r"

lemma nullifier_hash: "generate_nullifier sha256 n e = sha256 (nullifier_input n e)"
  "generate_blinded_id sha256 n r = sha256 (blinded_input n r)"
  by (simp_all add: generate_nullifier_def generate_blinded_id_def sha256_multi_def nullifier_input_def blinded_input_def)

text \<open>Nullifiers separate nodes and epochs, and never are blinded identifiers, unless SHA-256
  collides on the inputs concerned.\<close>
lemma nullifiers_separate:
  assumes "inj_on sha256 {nullifier_input a e, nullifier_input b f, blinded_input b r}"
    and "length (node_id_bytes a) = 32" "length (node_id_bytes b) = 32" "e \<le> U64_MAX" "f \<le> U64_MAX"
  shows "generate_nullifier sha256 a e = generate_nullifier sha256 b f \<longleftrightarrow> a = b \<and> e = f"
    and "generate_nullifier sha256 a e \<noteq> generate_blinded_id sha256 b r"
proof -
  have "be_bytes 8 e = be_bytes 8 f \<longleftrightarrow> e = f"
    using assms(4,5) le_bytes_inj [of e 8 f] by (simp add: be_bytes_def U64_MAX_def)
  then have "nullifier_input a e = nullifier_input b f \<longleftrightarrow> a = b \<and> e = f"
    unfolding nullifier_input_def node_prefix_inj [OF assms(2,3)] by simp
  then show "generate_nullifier sha256 a e = generate_nullifier sha256 b f \<longleftrightarrow> a = b \<and> e = f"
    unfolding nullifier_hash using inj_onD [OF assms(1), of "nullifier_input a e" "nullifier_input b f"] by blast
  have "nullifier_input a e \<noteq> blinded_input b r"
    by (simp add: nullifier_input_def blinded_input_def byte_string_def)
  then show "generate_nullifier sha256 a e \<noteq> generate_blinded_id sha256 b r"
    unfolding nullifier_hash using inj_onD [OF assms(1), of "nullifier_input a e" "blinded_input b r"] by blast
qed

section \<open>Properties\<close>

text \<open>The two Merkle roots of the code base agree. The loop of the core crate, which keeps only the
  current level, computes the root of the tree that the state crate builds level by level, for every
  list of hashes, the empty one included.\<close>

theorem merkle_roots_agree:
  "core_merkle_root sha256 hashes = merkle_root (merkle_build sha256 hashes)"
proof (cases "hashes = []")
  case True
  then show ?thesis by (simp add: core_merkle_root_def merkle_root_def merkle_build_def)
next
  case False
  show ?thesis
  proof (cases "length hashes = 1")
    case True
    then obtain x where "hashes = [x]" by (cases hashes) auto
    then show ?thesis by (simp add: core_merkle_root_def merkle_root_eq root_of.simps)
  next
    case len: False
    then show ?thesis using False by (simp add: core_merkle_root_def merkle_root_eq core_merkle_loop_eq)
  qed
qed

end
