(* ===== verification/Mempool.thy ===== *)
theory Mempool
  imports Core_Crypto "HOL-Library.Sublist"
begin

text \<open>
  The validated mempool of \<^verbatim>\<open>gratia-core/src/mempool.rs\<close>. The encoding of payloads by
  \<^verbatim>\<open>bincode\<close>, SHA-256, the curve and the hex encoder are the record \<open>Env\<close>. Over any sequence of calls
  the pool stays within its capacity, holds and hands out only authentic transactions, in the order
  of their arrival, and each at most once.
\<close>

record Env =
  env_ed :: Ed25519
  env_sha256 :: "bytes \<Rightarrow> bytes"
  env_payload :: "TransactionPayload \<Rightarrow> (string, bytes) result"
  env_hex :: "bytes \<Rightarrow> string"

definition timestamp_millis :: "datetime \<Rightarrow> i64" where
  "timestamp_millis t = t div 1000000"

section \<open>Model\<close>

datatype MempoolError = MP_InvalidSignature | MP_InvalidHash | MP_DuplicateTransaction | MP_MempoolFull

record ValidatedMempool =
  mp_pending :: "Transaction list"
  mp_seen_hashes :: "bytes hashset"
  mp_max_size :: usize

definition DEFAULT_MAX_SIZE :: usize where "DEFAULT_MAX_SIZE = 1000"

definition ValidatedMempool_new :: "usize \<Rightarrow> ValidatedMempool" where
  "ValidatedMempool_new max_size = \<lparr> mp_pending = [], mp_seen_hashes = [], mp_max_size = max_size \<rparr>"

definition ValidatedMempool_default :: ValidatedMempool where
  "ValidatedMempool_default = ValidatedMempool_new DEFAULT_MAX_SIZE"

definition compute_signable_bytes :: "Env \<Rightarrow> Transaction \<Rightarrow> (MempoolError, bytes) result" where
  "compute_signable_bytes env tx =
     (case env_payload env (tx_payload tx) of
        Err _ \<Rightarrow> Err MP_InvalidHash
      | Ok payload_bytes \<Rightarrow>
          Ok (payload_bytes @ le_bytes 8 (tx_nonce tx) @ le_bytes 4 (tx_chain_id tx) @ le_bytes 8 (tx_fee tx)
              @ i64_le_bytes (timestamp_millis (tx_timestamp tx))))"

definition mp_compute_tx_hash :: "Env \<Rightarrow> bytes \<Rightarrow> bytes \<Rightarrow> bytes \<Rightarrow> TxHash" where
  "mp_compute_tx_hash env sender_pubkey signable signature = TxHash (env_sha256 env (sender_pubkey @ signable @ signature))"

definition add_transaction ::
  "Env \<Rightarrow> ValidatedMempool \<Rightarrow> Transaction \<Rightarrow> (MempoolError, unit) result \<times> ValidatedMempool" where
  "add_transaction env mp tx =
     (if tx_hash_bytes (tx_hash tx) \<in> set (mp_seen_hashes mp) then (Err MP_DuplicateTransaction, mp)
      else if length (mp_pending mp) \<ge> mp_max_size mp then (Err MP_MempoolFull, mp)
      else case compute_signable_bytes env tx of
        Err e \<Rightarrow> (Err e, mp)
      | Ok signable \<Rightarrow>
          (let expected_hash = mp_compute_tx_hash env (tx_sender_pubkey tx) signable (tx_signature tx)
           in if tx_hash_bytes (tx_hash tx) \<noteq> tx_hash_bytes expected_hash then (Err MP_InvalidHash, mp)
              else case verify_signature (env_ed env) (tx_sender_pubkey tx) signable (tx_signature tx) of
                Err _ \<Rightarrow> (Err MP_InvalidSignature, mp)
              | Ok _ \<Rightarrow>
                  (Ok (), mp\<lparr>mp_seen_hashes := hs_insert (tx_hash_bytes (tx_hash tx)) (mp_seen_hashes mp),
                             mp_pending := mp_pending mp @ [tx]\<rparr>)))"

definition drain_for_block :: "ValidatedMempool \<Rightarrow> usize \<Rightarrow> Transaction list \<times> ValidatedMempool" where
  "drain_for_block mp max_txs =
     (let drain_count = min (length (mp_pending mp)) max_txs
      in (take drain_count (mp_pending mp), mp\<lparr>mp_pending := drop drain_count (mp_pending mp)\<rparr>))"

definition remove_confirmed :: "ValidatedMempool \<Rightarrow> bytes list \<Rightarrow> ValidatedMempool" where
  "remove_confirmed mp hashes =
     (if hashes = [] then mp
      else mp\<lparr>mp_pending := filter (\<lambda>tx. tx_hash_bytes (tx_hash tx) \<notin> set hashes) (mp_pending mp)\<rparr>)"

definition mp_len :: "ValidatedMempool \<Rightarrow> usize" where "mp_len mp = length (mp_pending mp)"
definition mp_is_empty :: "ValidatedMempool \<Rightarrow> bool" where "mp_is_empty mp = (mp_pending mp = [])"
definition mp_seen_count :: "ValidatedMempool \<Rightarrow> usize" where "mp_seen_count mp = length (mp_seen_hashes mp)"

section \<open>Authentic transactions\<close>

definition authentic :: "Env \<Rightarrow> Transaction \<Rightarrow> bool" where
  "authentic env tx \<longleftrightarrow> (case compute_signable_bytes env tx of
     Err _ \<Rightarrow> False
   | Ok signable \<Rightarrow> tx_hash tx = mp_compute_tx_hash env (tx_sender_pubkey tx) signable (tx_signature tx)
       \<and> verify_signature (env_ed env) (tx_sender_pubkey tx) signable (tx_signature tx) = Ok ())"

definition fresh :: "ValidatedMempool \<Rightarrow> Transaction \<Rightarrow> bool" where
  "fresh mp tx \<longleftrightarrow> tx_hash_bytes (tx_hash tx) \<notin> set (mp_seen_hashes mp) \<and> length (mp_pending mp) < mp_max_size mp"

definition admitted :: "ValidatedMempool \<Rightarrow> Transaction \<Rightarrow> ValidatedMempool" where
  "admitted mp tx = mp\<lparr>mp_seen_hashes := mp_seen_hashes mp @ [tx_hash_bytes (tx_hash tx)], mp_pending := mp_pending mp @ [tx]\<rparr>"

lemma tx_hash_eq_iff: "tx_hash_bytes a = tx_hash_bytes b \<longleftrightarrow> a = b"
  by (auto intro: TxHash.expand)

lemma add_transaction_ok:
  "fresh mp tx \<Longrightarrow> authentic env tx \<Longrightarrow> add_transaction env mp tx = (Ok (), admitted mp tx)"
  by (auto simp: add_transaction_def fresh_def authentic_def admitted_def hs_insert_new Let_def tx_hash_eq_iff
      split: sum.splits)

lemma add_transaction_refused:
  "\<not> (fresh mp tx \<and> authentic env tx) \<Longrightarrow> \<exists>e. add_transaction env mp tx = (Err e, mp)"
  by (auto simp: add_transaction_def fresh_def authentic_def Let_def tx_hash_eq_iff split: sum.splits)

lemma add_transaction_iff: "is_ok (fst (add_transaction env mp tx)) \<longleftrightarrow> fresh mp tx \<and> authentic env tx"
  using add_transaction_ok [of mp tx env] add_transaction_refused [of mp tx env] by fastforce

section \<open>Runs\<close>

text \<open>A run of the pool together with the transactions it admitted and those it handed out.\<close>

datatype mp_event = MP_Add Transaction | MP_Drain usize | MP_Confirm "bytes list"

type_synonym mp_run = "ValidatedMempool \<times> Transaction list \<times> Transaction list"

fun mp_step :: "Env \<Rightarrow> mp_run \<Rightarrow> mp_event \<Rightarrow> mp_run" where
  "mp_step env (mp, acc, out) (MP_Add tx) =
     (let (r, mp') = add_transaction env mp tx in (mp', if is_ok r then acc @ [tx] else acc, out))"
| "mp_step env (mp, acc, out) (MP_Drain n) = (let (txs, mp') = drain_for_block mp n in (mp', acc, out @ txs))"
| "mp_step env (mp, acc, out) (MP_Confirm hs) = (remove_confirmed mp hs, acc, out)"

definition mp_ok :: "Env \<Rightarrow> usize \<Rightarrow> mp_run \<Rightarrow> bool" where
  "mp_ok env n run = (case run of (mp, acc, out) \<Rightarrow>
     mp_max_size mp = n \<and> length (mp_pending mp) \<le> n \<and> list_all (authentic env) acc
     \<and> mp_seen_hashes mp = map (\<lambda>tx. tx_hash_bytes (tx_hash tx)) acc \<and> distinct (mp_seen_hashes mp)
     \<and> subseq (out @ mp_pending mp) acc)"

lemma mp_step_ok: "mp_ok env n run \<Longrightarrow> mp_ok env n (mp_step env run e)"
proof -
  assume ok: "mp_ok env n run"
  obtain mp acc out where run: "run = (mp, acc, out)" by (cases run) auto
  note inv = ok [unfolded run mp_ok_def prod.case]
  show ?thesis
  proof (cases e)
    case (MP_Add tx)
    show ?thesis
    proof (cases "fresh mp tx \<and> authentic env tx")
      case True
      then have "add_transaction env mp tx = (Ok (), admitted mp tx)" by (simp add: add_transaction_ok)
      moreover have "subseq ((out @ mp_pending mp) @ [tx]) (acc @ [tx])" using inv by (intro list_emb_append_mono) simp_all
      ultimately show ?thesis
        using inv True by (auto simp: run MP_Add mp_ok_def admitted_def fresh_def)
    next
      case False
      then show ?thesis using add_transaction_refused [OF False] inv by (auto simp: run MP_Add mp_ok_def)
    qed
  next
    case (MP_Drain k)
    then show ?thesis
      using inv by (auto simp: run mp_ok_def drain_for_block_def Let_def)
  next
    case (MP_Confirm hs)
    have "subseq (out @ filter P (mp_pending mp)) (out @ mp_pending mp)" for P
      by (intro list_emb_append_mono) simp_all
    then have "subseq (out @ filter P (mp_pending mp)) acc" for P
      using inv subseq_order.order_trans by blast
    then show ?thesis
      using inv by (auto simp: run MP_Confirm mp_ok_def remove_confirmed_def intro: le_trans [OF length_filter_le])
  qed
qed

interpretation pool: keeps_invariant "mp_step env" "\<lambda>_ _. True" "mp_ok env n" for env n
  by unfold_locales (rule mp_step_ok)

lemma mp_new_ok: "mp_ok env n (ValidatedMempool_new n, [], [])"
  by (simp add: mp_ok_def ValidatedMempool_new_def)

lemma subseq_set: "subseq xs ys \<Longrightarrow> set xs \<subseteq> set ys"
  by (auto dest: list_emb_set)

lemma subseq_distinct: "subseq xs ys \<Longrightarrow> distinct ys \<Longrightarrow> distinct xs"
  by (induction rule: list_emb.induct) (auto dest: subseq_set)

lemma subseq_distinct_map: "subseq xs ys \<Longrightarrow> distinct (map f ys) \<Longrightarrow> distinct (map f xs)"
  by (metis subseq_map subseq_distinct)

lemma subseq_list_all: "subseq xs ys \<Longrightarrow> list_all P ys \<Longrightarrow> list_all P xs"
  by (auto simp: list_all_iff dest: list_emb_set)

text \<open>Adding a list of authentic transactions with new, distinct hashes.\<close>
lemma add_all:
  assumes "list_all (authentic env) txs" "distinct (map tx_hash txs)"
    and "mp_pending mp = before" "set (mp_seen_hashes mp) \<inter> set (map (tx_hash_bytes \<circ> tx_hash) txs) = {}"
    and "length before + length txs \<le> mp_max_size mp"
  shows "mp_pending (foldl (\<lambda>mp tx. snd (add_transaction env mp tx)) mp txs) = before @ txs"
  using assms
proof (induction txs arbitrary: mp before)
  case (Cons tx txs)
  have fr: "fresh mp tx" using Cons.prems by (auto simp: fresh_def)
  then have add: "add_transaction env mp tx = (Ok (), admitted mp tx)" using Cons.prems(1) by (simp add: add_transaction_ok)
  have "set (mp_seen_hashes (admitted mp tx)) \<inter> set (map (tx_hash_bytes \<circ> tx_hash) txs) = {}"
    using Cons.prems(2,4) by (auto simp: admitted_def tx_hash_eq_iff)
  then have "mp_pending (foldl (\<lambda>mp tx. snd (add_transaction env mp tx)) (admitted mp tx) txs) = (before @ [tx]) @ txs"
    using Cons.prems by (intro Cons.IH) (auto simp: admitted_def)
  then show ?case by (simp add: add)
qed simp

section \<open>Properties\<close>

text \<open>C20: Whatever sequence of additions, drains and confirmations the mempool sees, it stays within its
  capacity; what it hands out to blocks and what it still holds are authentic transactions, in the
  order in which they were admitted, and no transaction hash occurs twice among them, so no
  transaction is ever handed out a second time.\<close>

theorem mempool_delivers_once:
  "case foldl (mp_step env) (ValidatedMempool_new n, [], []) es of (mp, admitted_txs, handed_out) \<Rightarrow>
     mp_len mp \<le> n \<and> list_all (authentic env) (handed_out @ mp_pending mp)
     \<and> subseq (handed_out @ mp_pending mp) admitted_txs \<and> distinct (map tx_hash (handed_out @ mp_pending mp))"
proof -
  obtain mp acc out where run: "foldl (mp_step env) (ValidatedMempool_new n, [], []) es = (mp, acc, out)" by (metis prod_cases3)
  have "guarded (\<lambda>_ _. True) (mp_step env) s es" for s by (induction es arbitrary: s) simp_all
  then have ok: "mp_ok env n (mp, acc, out)"
    using pool.run_inv [OF mp_new_ok, where es = es and n = n and env = env] unfolding run by simp
  then have "distinct (map tx_hash acc)"
    by (auto simp: mp_ok_def distinct_map inj_on_def)
  moreover have sub: "subseq (out @ mp_pending mp) acc" using ok by (simp add: mp_ok_def)
  ultimately have "distinct (map tx_hash (out @ mp_pending mp))" by (blast intro: subseq_distinct_map)
  moreover have "list_all (authentic env) (out @ mp_pending mp)"
    using ok sub by (intro subseq_list_all [OF sub]) (simp add: mp_ok_def)
  ultimately show ?thesis
    using ok sub unfolding run by (simp add: mp_ok_def mp_len_def)
qed

end
