(* ===== verification/Recovery.thy ===== *)
theory Recovery
  imports Storage
begin

text \<open>
  Wallet recovery, \<^verbatim>\<open>gratia-wallet/src/recovery.rs\<close>: the state machine of a recovery claim, the seed
  phrase, and the dead-man switch of an inheritance. The current time is an argument. A claim is
  verified only on evidence, the owner's rejection is final, and every claim that keeps receiving
  reports comes to an end. The word list of BIP39 belongs to an external crate and is left out.
\<close>

section \<open>Claims\<close>

datatype RejectionReason =
    OwnerRejected
  | InsufficientBehavioralMatch u32 u32
  | Expired

datatype RecoveryState =
    RS_NewClaim Address datetime
  | RS_Pending Address datetime u32 u32
  | RS_Verified Address datetime
  | RS_Rejected Address datetime RejectionReason

record RecoveryClaim =
  rc_wallet_address :: Address
  rc_state :: RecoveryState

definition RECOVERY_MATCH_THRESHOLD :: u32 where "RECOVERY_MATCH_THRESHOLD = 80"
definition MIN_RECOVERY_DAYS :: u32 where "MIN_RECOVERY_DAYS = 7"
definition MAX_RECOVERY_DAYS :: u32 where "MAX_RECOVERY_DAYS = 14"

definition RecoveryClaim_new :: "datetime \<Rightarrow> Address \<Rightarrow> Address \<Rightarrow> RecoveryClaim" where
  "RecoveryClaim_new now wallet_address claimant_address =
     \<lparr> rc_wallet_address = wallet_address, rc_state = RS_NewClaim claimant_address now \<rparr>"

definition update_behavioral_match ::
  "datetime \<Rightarrow> RecoveryClaim \<Rightarrow> u32 \<Rightarrow> u32 \<Rightarrow> (GratiaError, unit) result \<times> RecoveryClaim" where
  "update_behavioral_match now self new_confidence days_collected =
     (let new_confidence = min new_confidence 100 in
      case rc_state self of
        RS_NewClaim claimant_address claimed_at \<Rightarrow>
          (Ok (), self\<lparr>rc_state := RS_Pending claimant_address claimed_at new_confidence days_collected\<rparr>)
      | RS_Pending claimant_address claimed_at _ prev_days \<Rightarrow>
          if days_collected < prev_days then
            (Err (GE_Other (''days_collected must be monotonically increasing: '' @ show_nat days_collected
               @ '' < '' @ show_nat prev_days)), self)
          else if new_confidence \<ge> RECOVERY_MATCH_THRESHOLD \<and> days_collected \<ge> MIN_RECOVERY_DAYS then
            (Ok (), self\<lparr>rc_state := RS_Verified claimant_address now\<rparr>)
          else if days_collected \<ge> MAX_RECOVERY_DAYS then
            (Ok (), self\<lparr>rc_state := RS_Rejected claimant_address now
               (InsufficientBehavioralMatch new_confidence RECOVERY_MATCH_THRESHOLD)\<rparr>)
          else
            (Ok (), self\<lparr>rc_state := RS_Pending claimant_address claimed_at new_confidence days_collected\<rparr>)
      | RS_Verified _ _ \<Rightarrow> (Err (GE_Other ''cannot update a finalized recovery claim''), self)
      | RS_Rejected _ _ _ \<Rightarrow> (Err (GE_Other ''cannot update a finalized recovery claim''), self))"

definition owner_reject :: "datetime \<Rightarrow> RecoveryClaim \<Rightarrow> (GratiaError, unit) result \<times> RecoveryClaim" where
  "owner_reject now self =
     (case rc_state self of
        RS_NewClaim claimant _ \<Rightarrow> (Ok (), self\<lparr>rc_state := RS_Rejected claimant now OwnerRejected\<rparr>)
      | RS_Pending claimant _ _ _ \<Rightarrow> (Ok (), self\<lparr>rc_state := RS_Rejected claimant now OwnerRejected\<rparr>)
      | RS_Verified _ _ \<Rightarrow> (Err (GE_Other ''cannot reject an already-verified claim''), self)
      | RS_Rejected _ _ _ \<Rightarrow> (Err (GE_Other ''claim is already rejected''), self))"

definition is_finalized :: "RecoveryClaim \<Rightarrow> bool" where
  "is_finalized self = (case rc_state self of RS_Verified _ _ \<Rightarrow> True | RS_Rejected _ _ _ \<Rightarrow> True | _ \<Rightarrow> False)"

definition wallet_is_frozen :: "RecoveryClaim \<Rightarrow> bool" where
  "wallet_is_frozen self = (case rc_state self of RS_NewClaim _ _ \<Rightarrow> True | RS_Pending _ _ _ _ \<Rightarrow> True | _ \<Rightarrow> False)"

section \<open>Seed phrase\<close>

record SeedPhrase =
  sp_entropy :: bytes

definition SeedPhrase_from_secret_key :: "bytes \<Rightarrow> (GratiaError, SeedPhrase) result" where
  "SeedPhrase_from_secret_key secret_bytes =
     (if length secret_bytes \<noteq> 32 then Err (GE_Other ''secret key must be exactly 32 bytes'')
      else Ok \<lparr> sp_entropy = secret_bytes \<rparr>)"

definition to_secret_key_bytes :: "SeedPhrase \<Rightarrow> bytes" where
  "to_secret_key_bytes self = sp_entropy self"

text \<open>The hexadecimal codec of the \<^verbatim>\<open>hex\<close> crate is an argument.\<close>
definition to_hex :: "(bytes \<Rightarrow> string) \<Rightarrow> SeedPhrase \<Rightarrow> string" where
  "to_hex hex_encode self = hex_encode (sp_entropy self)"

definition from_hex :: "(string \<Rightarrow> (string, bytes) result) \<Rightarrow> string \<Rightarrow> (GratiaError, SeedPhrase) result" where
  "from_hex hex_decode hex_str =
     (case hex_decode hex_str of
        Err e \<Rightarrow> Err (GE_Other (''invalid hex seed phrase: '' @ e))
      | Ok bytes \<Rightarrow> SeedPhrase_from_secret_key bytes)"

section \<open>Inheritance\<close>

record InheritanceConfig =
  ih_beneficiary :: Address
  ih_designated_at :: datetime
  ih_timeout_days :: u32
  ih_last_proof_of_life :: datetime

definition DEFAULT_INHERITANCE_TIMEOUT_DAYS :: u32 where "DEFAULT_INHERITANCE_TIMEOUT_DAYS = 365"

definition duration_days :: "i64 \<Rightarrow> timedelta" where
  "duration_days d = d * 86400 * NANOS_PER_SEC"

definition num_days :: "timedelta \<Rightarrow> i64" where
  "num_days d = trunc_div (num_seconds d) 86400"

definition InheritanceConfig_new :: "datetime \<Rightarrow> Address \<Rightarrow> InheritanceConfig" where
  "InheritanceConfig_new now beneficiary =
     \<lparr> ih_beneficiary = beneficiary, ih_designated_at = now,
       ih_timeout_days = DEFAULT_INHERITANCE_TIMEOUT_DAYS, ih_last_proof_of_life = now \<rparr>"

definition with_timeout :: "datetime \<Rightarrow> Address \<Rightarrow> u32 \<Rightarrow> (GratiaError, InheritanceConfig) result" where
  "with_timeout now beneficiary timeout_days =
     (if timeout_days < 30 then Err (GE_Other ''inheritance timeout must be at least 30 days'')
      else Ok ((InheritanceConfig_new now beneficiary)\<lparr>ih_timeout_days := timeout_days\<rparr>))"

definition record_proof_of_life :: "datetime \<Rightarrow> InheritanceConfig \<Rightarrow> InheritanceConfig" where
  "record_proof_of_life now self = self\<lparr>ih_last_proof_of_life := now\<rparr>"

definition is_triggered :: "datetime \<Rightarrow> InheritanceConfig \<Rightarrow> bool" where
  "is_triggered now self =
     (let deadline = ih_last_proof_of_life self + duration_days (int (ih_timeout_days self)) in now > deadline)"

definition days_remaining :: "datetime \<Rightarrow> InheritanceConfig \<Rightarrow> u32" where
  "days_remaining now self =
     (let deadline = ih_last_proof_of_life self + duration_days (int (ih_timeout_days self));
          remaining = deadline - now
      in if num_days remaining < 0 then 0 else as_u32 (nat (num_days remaining)))"

section \<open>The life of a claim\<close>

text \<open>Events of a claim: a daily report with a confidence and a number of days, and the owner's
  rejection, each at a time.\<close>
datatype claim_event = Report u32 u32 datetime | Reject datetime

fun claim_step :: "RecoveryClaim \<Rightarrow> claim_event \<Rightarrow> RecoveryClaim" where
  "claim_step cl (Report conf days now) = snd (update_behavioral_match now cl conf days)"
| "claim_step cl (Reject now) = snd (owner_reject now cl)"

text \<open>The documented flow of states.\<close>
inductive claim_flow :: "RecoveryState \<Rightarrow> RecoveryState \<Rightarrow> bool" where
  same: "claim_flow st st"
| collect: "c \<le> 100 \<Longrightarrow> claim_flow (RS_NewClaim a t) (RS_Pending a t c d)"
| report: "d \<le> d' \<Longrightarrow> d' < 14 \<Longrightarrow> c' \<le> 100 \<Longrightarrow> claim_flow (RS_Pending a t c d) (RS_Pending a t c' d')"
| verify: "d \<le> d' \<Longrightarrow> 7 \<le> d' \<Longrightarrow> claim_flow (RS_Pending a t c d) (RS_Verified a now)"
| fail: "d \<le> d' \<Longrightarrow> 14 \<le> d' \<Longrightarrow> c' < 80 \<Longrightarrow>
    claim_flow (RS_Pending a t c d) (RS_Rejected a now (InsufficientBehavioralMatch c' 80))"
| reject_new: "claim_flow (RS_NewClaim a t) (RS_Rejected a now OwnerRejected)"
| reject_pending: "claim_flow (RS_Pending a t c d) (RS_Rejected a now OwnerRejected)"

lemmas claim_defs = update_behavioral_match_def owner_reject_def RECOVERY_MATCH_THRESHOLD_def
  MIN_RECOVERY_DAYS_def MAX_RECOVERY_DAYS_def Let_def

lemma claim_step_flow: "claim_flow (rc_state cl) (rc_state (claim_step cl e))"
proof (cases e)
  case (Report conf days now)
  then show ?thesis
    by (cases "rc_state cl") (auto simp: claim_defs not_less min_def intro: claim_flow.intros)
next
  case (Reject now)
  then show ?thesis
    by (cases "rc_state cl") (auto simp: claim_defs intro: claim_flow.intros)
qed

lemma claim_run_flow: "claim_flow\<^sup>*\<^sup>* (rc_state cl) (rc_state (foldl claim_step cl es))"
proof (induction es rule: rev_induct)
  case (snoc e es)
  then show ?case using claim_step_flow by (simp add: rtranclp.rtrancl_into_rtrancl)
qed simp

lemma verified_step:
  assumes "rc_state (claim_step cl e) = RS_Verified a t" "\<not> is_finalized cl"
  obtains t0 c0 d0 conf days where "rc_state cl = RS_Pending a t0 c0 d0" "e = Report conf days t" "80 \<le> conf" "7 \<le> days"
  using assms by (cases e; cases "rc_state cl") (auto simp: claim_defs is_finalized_def split: if_splits)

lemma claim_final: "is_finalized cl \<Longrightarrow> foldl claim_step cl es = cl"
proof (induction es)
  case (Cons e es)
  then have "claim_step cl e = cl"
    by (cases e; cases "rc_state cl") (simp_all add: is_finalized_def claim_defs)
  then show ?case using Cons by simp
qed simp

lemma claim_open_run:
  assumes "cl = foldl claim_step (RecoveryClaim_new now w c) es"
  shows "(\<forall>a t. rc_state cl = RS_NewClaim a t \<longrightarrow> a = c \<and> es = [])
    \<and> (\<forall>a t conf d. rc_state cl = RS_Pending a t conf d \<longrightarrow> a = c
         \<and> es \<noteq> [] \<and> list_all (\<lambda>e. \<exists>x y z. e = Report x y z) es)"
  using assms
proof (induction es arbitrary: cl rule: rev_induct)
  case Nil
  then show ?case by (simp add: RecoveryClaim_new_def)
next
  case (snoc e es)
  let ?c = "foldl claim_step (RecoveryClaim_new now w c) es"
  have cl: "cl = claim_step ?c e" using snoc.prems by simp
  show ?case
    using snoc.IH [OF refl] unfolding cl
    by (cases e; cases "rc_state ?c") (auto simp: claim_defs split: if_splits)
qed

section \<open>Properties\<close>

text \<open>C21: When a wallet changes hands. A claim is verified only for the claimant who made it, after an
  earlier report, by a report of at least 80 percent confidence over at least 7 days at the time
  recorded, and only if the owner had not rejected it; and as long as the wallet is frozen the
  owner's rejection ends the claim for good, whatever arrives later. The states follow the documented
  flow.\<close>

theorem recovery_only_on_evidence:
  assumes "cl = foldl claim_step (RecoveryClaim_new now w c) es"
  shows "(rc_state cl = RS_Verified a t \<longrightarrow> a = c \<and> (\<exists>before conf days after.
      es = before @ Report conf days t # after \<and> before \<noteq> [] \<and> 80 \<le> conf \<and> 7 \<le> days
      \<and> list_all (\<lambda>e. \<exists>x y z. e = Report x y z) before))
    \<and> (wallet_is_frozen cl \<longrightarrow> (\<exists>b. rc_state (foldl claim_step cl (Reject u # later)) = RS_Rejected b u OwnerRejected))
    \<and> claim_flow\<^sup>*\<^sup>* (RS_NewClaim c now) (rc_state cl)"
proof (intro conjI)
  show "rc_state cl = RS_Verified a t \<longrightarrow> a = c \<and> (\<exists>before conf days after.
      es = before @ Report conf days t # after \<and> before \<noteq> [] \<and> 80 \<le> conf \<and> 7 \<le> days
      \<and> list_all (\<lambda>e. \<exists>x y z. e = Report x y z) before)"
    using assms
  proof (induction es arbitrary: cl rule: rev_induct)
    case Nil
    then show ?case by (simp add: RecoveryClaim_new_def)
  next
    case (snoc e es)
    let ?c = "foldl claim_step (RecoveryClaim_new now w c) es"
    have cl: "cl = claim_step ?c e" using snoc.prems by simp
    note pre = claim_open_run [OF refl, of now w c es]
    show ?case
    proof (cases "is_finalized ?c")
      case True
      then have "cl = ?c" using claim_final [OF True, of "[e]"] cl by simp
      show ?thesis
      proof
        assume "rc_state cl = RS_Verified a t"
        then obtain before conf days after where "a = c" "es = before @ Report conf days t # after" "before \<noteq> []"
          "80 \<le> conf" "7 \<le> days" "list_all (\<lambda>e. \<exists>x y z. e = Report x y z) before"
          using snoc.IH [OF refl] \<open>cl = ?c\<close> by auto
        then show "a = c \<and> (\<exists>before conf days after. es @ [e] = before @ Report conf days t # after \<and> before \<noteq> []
            \<and> 80 \<le> conf \<and> 7 \<le> days \<and> list_all (\<lambda>e. \<exists>x y z. e = Report x y z) before)"
          by (intro conjI exI [of _ before] exI [of _ conf] exI [of _ days] exI [of _ "after @ [e]"]) simp_all
      qed
    next
      case False
      show ?thesis
      proof
        assume "rc_state cl = RS_Verified a t"
        then obtain t0 c0 d0 conf days where "rc_state ?c = RS_Pending a t0 c0 d0" "e = Report conf days t" "80 \<le> conf" "7 \<le> days"
          using verified_step [OF _ False, of e a t] cl by metis
        then show "a = c \<and> (\<exists>before conf days after. es @ [e] = before @ Report conf days t # after \<and> before \<noteq> []
            \<and> 80 \<le> conf \<and> 7 \<le> days \<and> list_all (\<lambda>e. \<exists>x y z. e = Report x y z) before)"
          using pre by (intro conjI exI [of _ es] exI [of _ conf] exI [of _ days] exI [of _ "[]"]) simp_all
      qed
    qed
  qed
  show "wallet_is_frozen cl \<longrightarrow> (\<exists>b. rc_state (foldl claim_step cl (Reject u # later)) = RS_Rejected b u OwnerRejected)"
  proof
    assume "wallet_is_frozen cl"
    then obtain b where b: "rc_state (claim_step cl (Reject u)) = RS_Rejected b u OwnerRejected"
      by (cases "rc_state cl") (simp_all add: wallet_is_frozen_def owner_reject_def)
    then have "is_finalized (claim_step cl (Reject u))" by (simp add: is_finalized_def)
    from claim_final [OF this] b show "\<exists>b. rc_state (foldl claim_step cl (Reject u # later)) = RS_Rejected b u OwnerRejected"
      by simp
  qed
  show "claim_flow\<^sup>*\<^sup>* (RS_NewClaim c now) (rc_state cl)"
    using claim_run_flow [of "RecoveryClaim_new now w c" es] by (simp add: assms RecoveryClaim_new_def)
qed

theorem recovery_only_on_evidence_witness:
  "\<exists>before conf days after. [Report 90 3 0, Report 90 8 5] = before @ Report conf days 5 # after \<and> before \<noteq> [] \<and> 7 \<le> days"
proof -
  have "rc_state (foldl claim_step (RecoveryClaim_new 0 (Address [2]) (Address [1])) [Report 90 3 0, Report 90 8 5])
      = RS_Verified (Address [1]) 5"
    by (simp add: claim_defs RecoveryClaim_new_def)
  with conjunct1 [OF recovery_only_on_evidence [OF refl, of 0 "Address [2]" "Address [1]" "[Report 90 3 0, Report 90 8 5]"
      "Address [1]" 5 0 "[]"]] show ?thesis by blast
qed

text \<open>Reports with a growing number of days: after \<open>k\<close> more of them the claim is final or has
  collected at least \<open>k\<close> days more.\<close>
lemma reports_progress:
  assumes "rc_state cl = RS_Pending a t0 c0 d" "sorted_wrt (<) (d # map fst reports)" "14 \<le> d + length reports" "d < 14"
  shows "is_finalized (foldl claim_step cl (map (\<lambda>(days, conf, t). Report conf days t) reports))"
  using assms
proof (induction reports arbitrary: cl c0 d)
  case (Cons r reports)
  obtain days conf t where r: "r = (days, conf, t)" by (cases r)
  let ?c = "claim_step cl (Report conf days t)"
  have days: "d < days" "sorted_wrt (<) (days # map fst reports)" using Cons.prems(2) r by auto
  show ?case
  proof (cases "is_finalized ?c")
    case True
    then show ?thesis by (simp add: r claim_final del: claim_step.simps)
  next
    case False
    then have "rc_state ?c = RS_Pending a t0 (min conf 100) days" "days < 14"
      using Cons.prems(1) days(1) by (auto simp: claim_defs is_finalized_def split: if_splits)
    from Cons.IH [OF this(1) days(2) _ this(2)] show ?thesis
      using Cons.prems(3) days(1) by (simp add: r del: claim_step.simps)
  qed
qed simp

text \<open>Every claim comes to an end. A claim that receives reports with a growing number of collected
  days is verified or rejected after at most fifteen of them, whatever the confidences are.\<close>

theorem recovery_terminates:
  assumes "sorted_wrt (<) (map fst reports)" "15 \<le> length reports"
  shows "is_finalized (foldl claim_step (RecoveryClaim_new now w c) (map (\<lambda>(days, conf, t). Report conf days t) reports))"
proof -
  obtain d conf t rest where r: "reports = (d, conf, t) # rest" using assms(2) by (cases reports) auto
  let ?cl = "claim_step (RecoveryClaim_new now w c) (Report conf d t)"
  have st: "rc_state ?cl = RS_Pending c now (min conf 100) d" by (simp add: claim_defs RecoveryClaim_new_def)
  have "is_finalized (foldl claim_step ?cl (map (\<lambda>(days, conf, t). Report conf days t) rest))"
  proof (cases "d < 14")
    case True
    then show ?thesis using assms r by (intro reports_progress [OF st]) auto
  next
    case False
    obtain d' conf' t' rest' where r': "rest = (d', conf', t') # rest'" using assms(2) r by (cases rest) auto
    have "d < d'" using assms(1) r r' by simp
    then have "is_finalized (claim_step ?cl (Report conf' d' t'))"
      using False st by (auto simp: claim_defs is_finalized_def)
    then show ?thesis by (simp add: r' claim_final del: claim_step.simps)
  qed
  then show ?thesis by (simp add: r del: claim_step.simps)
qed

theorem recovery_terminates_witness:
  "is_finalized (foldl claim_step (RecoveryClaim_new 0 (Address [2]) (Address [1]))
     (map (\<lambda>(days, conf, t). Report conf days t) (map (\<lambda>d. (d, 50, int d)) [0..<15])))"
  by (rule recovery_terminates) (simp_all add: comp_def strict_sorted_iff)

end
