(* ===== verification/Wallet.thy ===== *)
theory Wallet
  imports Mempool Recovery
begin

text \<open>
  The wallet: \<^verbatim>\<open>gratia-wallet/src/keystore.rs\<close> (the trait as a record of operations, and the software
  keystore), \<^verbatim>\<open>transactions.rs\<close> (building, signing and verifying transactions) and \<^verbatim>\<open>lib.rs\<close> (the wallet
  manager). Randomness and the clock are arguments. The keystore that encrypts a file, and the copy of
  the balance on disk, are file operations and left out.
\<close>

section \<open>Keystores\<close>

record 'k Keystore =
  ks_generate_keypair :: "bytes \<Rightarrow> 'k \<Rightarrow> (GratiaError, bytes) result \<times> 'k"
  ks_sign :: "'k \<Rightarrow> bytes \<Rightarrow> (GratiaError, bytes) result"
  ks_public_key_bytes :: "'k \<Rightarrow> (GratiaError, bytes) result"
  ks_has_keypair :: "'k \<Rightarrow> bool"
  ks_export_secret_key :: "'k \<Rightarrow> (GratiaError, bytes) result"
  ks_import_secret_key :: "'k \<Rightarrow> bytes \<Rightarrow> (GratiaError, bytes) result \<times> 'k"

definition address_from_pubkey_bytes :: "Env \<Rightarrow> bytes \<Rightarrow> (GratiaError, Address) result" where
  "address_from_pubkey_bytes env pubkey =
     (if length pubkey \<noteq> 32 then Err GE_InvalidSignature
      else if \<not> ed_point (env_ed env) pubkey then Err GE_InvalidSignature
      else Ok (Address_from_public_key (env_sha256 env) pubkey))"

definition node_id_from_pubkey_bytes :: "Env \<Rightarrow> bytes \<Rightarrow> (GratiaError, NodeId) result" where
  "node_id_from_pubkey_bytes env pubkey =
     (if length pubkey \<noteq> 32 then Err GE_InvalidSignature
      else if \<not> ed_point (env_ed env) pubkey then Err GE_InvalidSignature
      else Ok (NodeId_from_public_key (env_sha256 env) pubkey))"

record SoftwareKeystore =
  sk_signing_key :: "bytes option"

definition SoftwareKeystore_new :: SoftwareKeystore where
  "SoftwareKeystore_new = \<lparr> sk_signing_key = None \<rparr>"

definition sk_generate_keypair ::
  "Ed25519 \<Rightarrow> bytes \<Rightarrow> SoftwareKeystore \<Rightarrow> (GratiaError, bytes) result \<times> SoftwareKeystore" where
  "sk_generate_keypair ed entropy self =
     (let pubkey = ed_public ed entropy in (Ok pubkey, self\<lparr>sk_signing_key := Some entropy\<rparr>))"

definition sk_sign :: "Ed25519 \<Rightarrow> SoftwareKeystore \<Rightarrow> bytes \<Rightarrow> (GratiaError, bytes) result" where
  "sk_sign ed self message =
     (case sk_signing_key self of None \<Rightarrow> Err GE_WalletLocked | Some key \<Rightarrow> Ok (ed_sign ed key message))"

definition sk_public_key_bytes :: "Ed25519 \<Rightarrow> SoftwareKeystore \<Rightarrow> (GratiaError, bytes) result" where
  "sk_public_key_bytes ed self =
     (case sk_signing_key self of None \<Rightarrow> Err GE_WalletLocked | Some key \<Rightarrow> Ok (ed_public ed key))"

definition sk_has_keypair :: "SoftwareKeystore \<Rightarrow> bool" where
  "sk_has_keypair self = (sk_signing_key self \<noteq> None)"

definition sk_export_secret_key :: "SoftwareKeystore \<Rightarrow> (GratiaError, bytes) result" where
  "sk_export_secret_key self =
     (case sk_signing_key self of None \<Rightarrow> Err GE_WalletLocked | Some key \<Rightarrow> Ok key)"

definition sk_import_secret_key ::
  "Ed25519 \<Rightarrow> SoftwareKeystore \<Rightarrow> bytes \<Rightarrow> (GratiaError, bytes) result \<times> SoftwareKeystore" where
  "sk_import_secret_key ed self secret =
     (if length secret \<noteq> 32 then (Err (GE_Other ''secret key must be exactly 32 bytes''), self)
      else (Ok (ed_public ed secret), self\<lparr>sk_signing_key := Some secret\<rparr>))"

definition software_keystore :: "Ed25519 \<Rightarrow> SoftwareKeystore Keystore" where
  "software_keystore ed = \<lparr> ks_generate_keypair = sk_generate_keypair ed, ks_sign = sk_sign ed,
     ks_public_key_bytes = sk_public_key_bytes ed, ks_has_keypair = sk_has_keypair,
     ks_export_secret_key = sk_export_secret_key, ks_import_secret_key = sk_import_secret_key ed \<rparr>"

section \<open>Transactions\<close>

record 'k TransactionBuilder =
  tb_keystore :: 'k
  tb_nonce :: u64
  tb_fee :: Lux
  tb_chain_id :: u32

definition DEFAULT_CHAIN_ID :: u32 where "DEFAULT_CHAIN_ID = 2"

definition TransactionBuilder_new :: "'k \<Rightarrow> u64 \<Rightarrow> Lux \<Rightarrow> 'k TransactionBuilder" where
  "TransactionBuilder_new keystore nonce fee =
     \<lparr> tb_keystore = keystore, tb_nonce = nonce, tb_fee = fee, tb_chain_id = DEFAULT_CHAIN_ID \<rparr>"

definition with_chain_id :: "'k \<Rightarrow> u64 \<Rightarrow> Lux \<Rightarrow> u32 \<Rightarrow> 'k TransactionBuilder" where
  "with_chain_id keystore nonce fee chain =
     \<lparr> tb_keystore = keystore, tb_nonce = nonce, tb_fee = fee, tb_chain_id = chain \<rparr>"

definition signable_bytes ::
  "Env \<Rightarrow> TransactionPayload \<Rightarrow> u64 \<Rightarrow> u32 \<Rightarrow> Lux \<Rightarrow> datetime \<Rightarrow> (GratiaError, bytes) result" where
  "signable_bytes env payload nonce chain fee tstamp =
     (case env_payload env payload of
        Err e \<Rightarrow> Err (GE_SerializationError e)
      | Ok payload_bytes \<Rightarrow>
          Ok (payload_bytes @ le_bytes 8 nonce @ le_bytes 4 chain @ le_bytes 8 fee
              @ i64_le_bytes (timestamp_millis tstamp)))"

definition compute_tx_hash :: "Env \<Rightarrow> bytes \<Rightarrow> bytes \<Rightarrow> bytes \<Rightarrow> TxHash" where
  "compute_tx_hash env sender_pubkey signable signature = TxHash (env_sha256 env (sender_pubkey @ signable @ signature))"

definition build_and_sign ::
  "Env \<Rightarrow> 'k Keystore \<Rightarrow> datetime \<Rightarrow> 'k TransactionBuilder \<Rightarrow> TransactionPayload \<Rightarrow> (GratiaError, Transaction) result" where
  "build_and_sign env ks now self payload =
     (case ks_public_key_bytes ks (tb_keystore self) of
        Err e \<Rightarrow> Err e
      | Ok sender_pubkey \<Rightarrow>
          (case signable_bytes env payload (tb_nonce self) (tb_chain_id self) (tb_fee self) now of
             Err e \<Rightarrow> Err e
           | Ok signable \<Rightarrow>
               (case ks_sign ks (tb_keystore self) signable of
                  Err e \<Rightarrow> Err e
                | Ok signature \<Rightarrow>
                    Ok \<lparr> tx_hash = compute_tx_hash env sender_pubkey signable signature, tx_payload = payload,
                         tx_sender_pubkey = sender_pubkey, tx_signature = signature, tx_nonce = tb_nonce self,
                         tx_chain_id = tb_chain_id self, tx_fee = tb_fee self, tx_timestamp = now \<rparr>)))"

definition build_transfer ::
  "Env \<Rightarrow> 'k Keystore \<Rightarrow> datetime \<Rightarrow> 'k TransactionBuilder \<Rightarrow> Address \<Rightarrow> Lux \<Rightarrow> (GratiaError, Transaction) result" where
  "build_transfer env ks now self to_addr amount = build_and_sign env ks now self (Transfer to_addr amount)"

definition build_stake ::
  "Env \<Rightarrow> 'k Keystore \<Rightarrow> datetime \<Rightarrow> 'k TransactionBuilder \<Rightarrow> Lux \<Rightarrow> (GratiaError, Transaction) result" where
  "build_stake env ks now self amount = build_and_sign env ks now self (Stake amount)"

definition build_unstake ::
  "Env \<Rightarrow> 'k Keystore \<Rightarrow> datetime \<Rightarrow> 'k TransactionBuilder \<Rightarrow> Lux \<Rightarrow> (GratiaError, Transaction) result" where
  "build_unstake env ks now self amount = build_and_sign env ks now self (Unstake amount)"

definition verify_transaction :: "Env \<Rightarrow> Transaction \<Rightarrow> (GratiaError, unit) result" where
  "verify_transaction env tx =
     (case signable_bytes env (tx_payload tx) (tx_nonce tx) (tx_chain_id tx) (tx_fee tx) (tx_timestamp tx) of
        Err e \<Rightarrow> Err e
      | Ok signable \<Rightarrow>
          (case verify_signature (env_ed env) (tx_sender_pubkey tx) signable (tx_signature tx) of
             Err e \<Rightarrow> Err e
           | Ok _ \<Rightarrow>
               if tx_hash_bytes (tx_hash tx)
                  \<noteq> tx_hash_bytes (compute_tx_hash env (tx_sender_pubkey tx) signable (tx_signature tx))
               then Err (GE_BlockValidationFailed ''transaction hash mismatch'') else Ok ()))"

definition sender_address :: "Env \<Rightarrow> Transaction \<Rightarrow> (GratiaError, Address) result" where
  "sender_address env tx = address_from_pubkey_bytes env (tx_sender_pubkey tx)"

section \<open>The wallet manager\<close>

datatype TransactionDirection = TD_Sent | TD_Received
datatype TransactionStatus = TS_Pending | TS_Confirmed | TS_Failed

record TransactionRecord =
  tr_hash :: string
  tr_direction :: TransactionDirection
  tr_amount :: Lux
  tr_counterparty :: "Address option"
  tr_timestamp :: datetime
  tr_status :: TransactionStatus

record 'k WalletManager =
  wm_keystore :: 'k
  wm_nonce :: u64
  wm_balance :: Lux
  wm_data_dir :: "string option"
  wm_history :: "TransactionRecord list"
  wm_active_recovery :: "RecoveryClaim option"
  wm_inheritance :: "InheritanceConfig option"

definition with_keystore :: "'k \<Rightarrow> 'k WalletManager" where
  "with_keystore keystore = \<lparr> wm_keystore = keystore, wm_nonce = 0, wm_balance = 0, wm_data_dir = None,
     wm_history = [], wm_active_recovery = None, wm_inheritance = None \<rparr>"

definition new_software :: "SoftwareKeystore WalletManager" where
  "new_software = \<lparr> wm_keystore = SoftwareKeystore_new, wm_nonce = 0, wm_balance = 0, wm_data_dir = None,
     wm_history = [], wm_active_recovery = None, wm_inheritance = None \<rparr>"

definition create_wallet ::
  "Env \<Rightarrow> 'k Keystore \<Rightarrow> bytes \<Rightarrow> 'k WalletManager \<Rightarrow> (GratiaError, Address) result \<times> 'k WalletManager" where
  "create_wallet env ks entropy self =
     (if ks_has_keypair ks (wm_keystore self) then
        (Err (GE_Other (''wallet already exists '' @ [CHR 0xE2, CHR 0x80, CHR 0x94] @ '' use recovery to change devices'')), self)
      else case ks_generate_keypair ks entropy (wm_keystore self) of
        (Err e, k) \<Rightarrow> (Err e, self\<lparr>wm_keystore := k\<rparr>)
      | (Ok pubkey, k) \<Rightarrow> (address_from_pubkey_bytes env pubkey, self\<lparr>wm_keystore := k\<rparr>))"

definition wm_address :: "Env \<Rightarrow> 'k Keystore \<Rightarrow> 'k WalletManager \<Rightarrow> (GratiaError, Address) result" where
  "wm_address env ks self =
     (case ks_public_key_bytes ks (wm_keystore self) of
        Err e \<Rightarrow> Err e | Ok pubkey \<Rightarrow> address_from_pubkey_bytes env pubkey)"

definition wm_node_id :: "Env \<Rightarrow> 'k Keystore \<Rightarrow> 'k WalletManager \<Rightarrow> (GratiaError, NodeId) result" where
  "wm_node_id env ks self =
     (case ks_public_key_bytes ks (wm_keystore self) of
        Err e \<Rightarrow> Err e | Ok pubkey \<Rightarrow> node_id_from_pubkey_bytes env pubkey)"

definition set_nonce :: "'k WalletManager \<Rightarrow> u64 \<Rightarrow> 'k WalletManager" where
  "set_nonce self nonce = self\<lparr>wm_nonce := nonce\<rparr>"

definition sync_balance :: "'k WalletManager \<Rightarrow> Lux \<Rightarrow> 'k WalletManager" where
  "sync_balance self confirmed_balance = self\<lparr>wm_balance := confirmed_balance\<rparr>"

definition sync_nonce :: "'k WalletManager \<Rightarrow> u64 \<Rightarrow> 'k WalletManager" where
  "sync_nonce self confirmed_nonce = self\<lparr>wm_nonce := confirmed_nonce\<rparr>"

definition is_frozen :: "'k WalletManager \<Rightarrow> bool" where
  "is_frozen self = (case wm_active_recovery self of None \<Rightarrow> False | Some r \<Rightarrow> wallet_is_frozen r)"

definition check_not_frozen :: "'k WalletManager \<Rightarrow> (GratiaError, unit) result" where
  "check_not_frozen self = (if is_frozen self then Err GE_RecoveryClaimPending else Ok ())"

text \<open>What every send does once its transaction is built: the cost leaves the cached balance, the
  nonce advances and the history gets an entry.\<close>
definition sent_record :: "Env \<Rightarrow> Transaction \<Rightarrow> Lux \<Rightarrow> Address option \<Rightarrow> TransactionRecord" where
  "sent_record env tx amount counterparty =
     \<lparr> tr_hash = env_hex env (tx_hash_bytes (tx_hash tx)), tr_direction = TD_Sent, tr_amount = amount,
       tr_counterparty = counterparty, tr_timestamp = tx_timestamp tx, tr_status = TS_Confirmed \<rparr>"

definition send_transfer ::
  "Env \<Rightarrow> 'k Keystore \<Rightarrow> datetime \<Rightarrow> 'k WalletManager \<Rightarrow> Address \<Rightarrow> Lux \<Rightarrow> Lux
     \<Rightarrow> (GratiaError, Transaction) result \<times> 'k WalletManager" where
  "send_transfer env ks now self to_addr amount fee =
     (case check_not_frozen self of
        Err e \<Rightarrow> (Err e, self)
      | Ok _ \<Rightarrow>
          if amount = 0 then (Err (GE_Other ''Transfer amount cannot be zero''), self)
          else case checked_add_u64 amount fee of
            None \<Rightarrow> (Err (GE_Other ''amount + fee overflow''), self)
          | Some total_cost \<Rightarrow>
              if wm_balance self < total_cost then (Err (GE_InsufficientBalance (wm_balance self) total_cost), self)
              else case build_transfer env ks now (TransactionBuilder_new (wm_keystore self) (wm_nonce self) fee) to_addr amount of
                Err e \<Rightarrow> (Err e, self)
              | Ok tx \<Rightarrow>
                  (Ok tx, self\<lparr>wm_balance := sub_u64 (wm_balance self) total_cost, wm_nonce := add_u64 (wm_nonce self) 1,
                     wm_history := wm_history self @ [sent_record env tx amount (Some to_addr)]\<rparr>))"

definition send_stake ::
  "Env \<Rightarrow> 'k Keystore \<Rightarrow> datetime \<Rightarrow> 'k WalletManager \<Rightarrow> Lux \<Rightarrow> Lux
     \<Rightarrow> (GratiaError, Transaction) result \<times> 'k WalletManager" where
  "send_stake env ks now self amount fee =
     (case check_not_frozen self of
        Err e \<Rightarrow> (Err e, self)
      | Ok _ \<Rightarrow>
          case checked_add_u64 amount fee of
            None \<Rightarrow> (Err (GE_Other ''amount + fee overflow''), self)
          | Some total_cost \<Rightarrow>
              if wm_balance self < total_cost then (Err (GE_InsufficientBalance (wm_balance self) total_cost), self)
              else case build_stake env ks now (TransactionBuilder_new (wm_keystore self) (wm_nonce self) fee) amount of
                Err e \<Rightarrow> (Err e, self)
              | Ok tx \<Rightarrow>
                  (Ok tx, self\<lparr>wm_balance := sub_u64 (wm_balance self) total_cost, wm_nonce := add_u64 (wm_nonce self) 1,
                     wm_history := wm_history self @ [sent_record env tx amount None]\<rparr>))"

definition send_unstake ::
  "Env \<Rightarrow> 'k Keystore \<Rightarrow> datetime \<Rightarrow> 'k WalletManager \<Rightarrow> Lux \<Rightarrow> Lux
     \<Rightarrow> (GratiaError, Transaction) result \<times> 'k WalletManager" where
  "send_unstake env ks now self amount fee =
     (case check_not_frozen self of
        Err e \<Rightarrow> (Err e, self)
      | Ok _ \<Rightarrow>
          if wm_balance self < fee then (Err (GE_InsufficientBalance (wm_balance self) fee), self)
          else case build_unstake env ks now (TransactionBuilder_new (wm_keystore self) (wm_nonce self) fee) amount of
            Err e \<Rightarrow> (Err e, self)
          | Ok tx \<Rightarrow>
              (Ok tx, self\<lparr>wm_balance := sub_u64 (wm_balance self) fee, wm_nonce := add_u64 (wm_nonce self) 1,
                 wm_history := wm_history self @ [sent_record env tx amount None]\<rparr>))"

definition sign_transaction ::
  "Env \<Rightarrow> 'k Keystore \<Rightarrow> datetime \<Rightarrow> 'k WalletManager \<Rightarrow> TransactionPayload \<Rightarrow> Lux
     \<Rightarrow> (GratiaError, Transaction) result \<times> 'k WalletManager" where
  "sign_transaction env ks now self payload fee =
     (case check_not_frozen self of
        Err e \<Rightarrow> (Err e, self)
      | Ok _ \<Rightarrow>
          case build_and_sign env ks now (TransactionBuilder_new (wm_keystore self) (wm_nonce self) fee) payload of
            Err e \<Rightarrow> (Err e, self)
          | Ok tx \<Rightarrow> (Ok tx, self\<lparr>wm_nonce := add_u64 (wm_nonce self) 1\<rparr>))"

definition record_incoming_transfer ::
  "'k WalletManager \<Rightarrow> string \<Rightarrow> Address \<Rightarrow> Lux \<Rightarrow> datetime \<Rightarrow> 'k WalletManager" where
  "record_incoming_transfer self hash_hex from_addr amount tstamp =
     (if list_ex (\<lambda>r. tr_hash r = hash_hex) (wm_history self) then self
      else self\<lparr>wm_history := wm_history self @ [\<lparr> tr_hash = hash_hex, tr_direction = TD_Received, tr_amount = amount,
             tr_counterparty = Some from_addr, tr_timestamp = tstamp, tr_status = TS_Confirmed \<rparr>]\<rparr>)"

definition set_recovery_claim :: "'k WalletManager \<Rightarrow> RecoveryClaim \<Rightarrow> 'k WalletManager" where
  "set_recovery_claim self claim = self\<lparr>wm_active_recovery := Some claim\<rparr>"

definition reject_recovery_claim :: "datetime \<Rightarrow> 'k WalletManager \<Rightarrow> (GratiaError, unit) result \<times> 'k WalletManager" where
  "reject_recovery_claim now self =
     (case wm_active_recovery self of
        None \<Rightarrow> (Err (GE_Other ''no active recovery claim to reject''), self)
      | Some claim \<Rightarrow> (case owner_reject now claim of (r, claim) \<Rightarrow> (r, self\<lparr>wm_active_recovery := Some claim\<rparr>)))"

definition export_seed_phrase :: "'k Keystore \<Rightarrow> 'k WalletManager \<Rightarrow> (GratiaError, SeedPhrase) result" where
  "export_seed_phrase ks self =
     (case ks_export_secret_key ks (wm_keystore self) of
        Err e \<Rightarrow> Err e | Ok secret \<Rightarrow> SeedPhrase_from_secret_key secret)"

definition import_seed_phrase ::
  "Env \<Rightarrow> 'k Keystore \<Rightarrow> 'k WalletManager \<Rightarrow> SeedPhrase \<Rightarrow> (GratiaError, Address) result \<times> 'k WalletManager" where
  "import_seed_phrase env ks self phrase =
     (case ks_import_secret_key ks (wm_keystore self) (to_secret_key_bytes phrase) of
        (Err e, k) \<Rightarrow> (Err e, self\<lparr>wm_keystore := k\<rparr>)
      | (Ok pubkey, k) \<Rightarrow> (address_from_pubkey_bytes env pubkey, self\<lparr>wm_keystore := k\<rparr>))"

definition set_inheritance :: "datetime \<Rightarrow> 'k WalletManager \<Rightarrow> Address \<Rightarrow> (GratiaError, unit) result \<times> 'k WalletManager" where
  "set_inheritance now self beneficiary = (Ok (), self\<lparr>wm_inheritance := Some (InheritanceConfig_new now beneficiary)\<rparr>)"

definition set_inheritance_with_timeout ::
  "datetime \<Rightarrow> 'k WalletManager \<Rightarrow> Address \<Rightarrow> u32 \<Rightarrow> (GratiaError, unit) result \<times> 'k WalletManager" where
  "set_inheritance_with_timeout now self beneficiary timeout_days =
     (case with_timeout now beneficiary timeout_days of
        Err e \<Rightarrow> (Err e, self)
      | Ok config \<Rightarrow> (Ok (), self\<lparr>wm_inheritance := Some config\<rparr>))"

definition clear_inheritance :: "'k WalletManager \<Rightarrow> 'k WalletManager" where
  "clear_inheritance self = self\<lparr>wm_inheritance := None\<rparr>"

definition signing_key_bytes :: "'k Keystore \<Rightarrow> 'k WalletManager \<Rightarrow> (GratiaError, bytes) result" where
  "signing_key_bytes ks self =
     (case ks_export_secret_key ks (wm_keystore self) of
        Err e \<Rightarrow> Err e
      | Ok bytes \<Rightarrow> if length bytes \<noteq> 32 then Err (GE_Other ''signing key is not 32 bytes'') else Ok bytes)"

definition wm_record_proof_of_life :: "datetime \<Rightarrow> 'k WalletManager \<Rightarrow> 'k WalletManager" where
  "wm_record_proof_of_life now self =
     (case wm_inheritance self of
        None \<Rightarrow> self
      | Some config \<Rightarrow> self\<lparr>wm_inheritance := Some (record_proof_of_life now config)\<rparr>)"

end
