(* ===== verification/Wallet_Runs.thy ===== *)
theory Wallet_Runs
  imports Wallet State_Properties
begin

text \<open>
  What the wallet promises the rest of the node. The contract of a keystore is a locale, met by the
  software keystore. Over any sequence of payments the wallet produces authentic transactions with
  consecutive nonces; signed bytes determine what was signed; and the payments of a wallet that is in
  step with the ledger pass the mempool and are applied by the state manager.
\<close>

section \<open>The contract of a keystore\<close>

locale signing_keystore =
  fixes vt :: "Ed25519 \<Rightarrow> 'k Keystore" and intact :: "'k \<Rightarrow> bool"
  assumes signs: "ed25519_ok ed \<Longrightarrow> intact k \<Longrightarrow> ks_public_key_bytes (vt ed) k = Ok pk \<Longrightarrow>
      length pk = 32 \<and> ed_point ed pk \<and> (\<exists>sig. ks_sign (vt ed) k m = Ok sig \<and> verify_signature ed pk m sig = Ok ())"
    and has_key: "ks_has_keypair (vt ed) k \<longleftrightarrow> (\<exists>pk. ks_public_key_bytes (vt ed) k = Ok pk)"
    and generates: "length entropy = 32 \<Longrightarrow> \<exists>pk k'. ks_generate_keypair (vt ed) entropy k = (Ok pk, k') \<and> intact k'
      \<and> ks_public_key_bytes (vt ed) k' = Ok pk"
    and backup: "intact k \<Longrightarrow> ks_export_secret_key (vt ed) k = Ok secret \<Longrightarrow> length secret = 32 \<and>
      (\<exists>pk k'. ks_import_secret_key (vt ed) other secret = (Ok pk, k') \<and> intact k' \<and> ks_public_key_bytes (vt ed) k = Ok pk
        \<and> ks_public_key_bytes (vt ed) k' = Ok pk)"
begin

lemma build_authentic:
  assumes "ed25519_ok (env_ed env)" "intact (tb_keystore b)"
    and "ks_public_key_bytes (vt (env_ed env)) (tb_keystore b) = Ok pk" "env_payload env p = Ok pb"
  shows "\<exists>tx. build_and_sign env (vt (env_ed env)) now b p = Ok tx \<and> authentic env tx \<and> tx_sender_pubkey tx = pk
    \<and> tx_payload tx = p \<and> tx_nonce tx = tb_nonce b \<and> tx_fee tx = tb_fee b \<and> tx_chain_id tx = tb_chain_id b
    \<and> tx_timestamp tx = now"
proof -
  let ?m = "pb @ le_bytes 8 (tb_nonce b) @ le_bytes 4 (tb_chain_id b) @ le_bytes 8 (tb_fee b)
      @ i64_le_bytes (timestamp_millis now)"
  obtain sg where "ks_sign (vt (env_ed env)) (tb_keystore b) ?m = Ok sg" "verify_signature (env_ed env) pk ?m sg = Ok ()"
    using signs [OF assms(1-3), of ?m] by blast
  then show ?thesis
    using assms(3,4) by (simp add: build_and_sign_def signable_bytes_def authentic_def compute_signable_bytes_def
        compute_tx_hash_def mp_compute_tx_hash_def)
qed

lemma build_refused:
  "env_payload env p = Err e \<Longrightarrow> \<exists>e'. build_and_sign env (vt (env_ed env)) now b p = Err e'"
  "ks_public_key_bytes (vt (env_ed env)) (tb_keystore b) = Err x \<Longrightarrow> \<exists>e'. build_and_sign env (vt (env_ed env)) now b p = Err e'"
  by (auto simp: build_and_sign_def signable_bytes_def split: sum.splits)

text \<open>A built transaction, whatever the keystore and the encoder do.\<close>
lemma build_cases:
  assumes "ed25519_ok (env_ed env)" "intact (tb_keystore b)" "build_and_sign env (vt (env_ed env)) now b p = r"
  shows "(\<exists>e. r = Err e) \<or> (\<exists>tx pk. r = Ok tx \<and> authentic env tx \<and> tx_sender_pubkey tx = pk
    \<and> ks_public_key_bytes (vt (env_ed env)) (tb_keystore b) = Ok pk \<and> tx_payload tx = p \<and> tx_nonce tx = tb_nonce b
    \<and> tx_fee tx = tb_fee b)"
proof (cases "ks_public_key_bytes (vt (env_ed env)) (tb_keystore b)")
  case (Inl e)
  then show ?thesis using build_refused(2) [OF Inl] assms(3) by metis
next
  case pk: (Inr pk)
  show ?thesis
  proof (cases "env_payload env p")
    case (Inl e)
    then show ?thesis using build_refused(1) [OF Inl] assms(3) by metis
  next
    case (Inr pb)
    from build_authentic [OF assms(1,2) pk Inr] assms(3) pk show ?thesis by metis
  qed
qed

text \<open>Exporting the seed phrase of one wallet and importing it into another gives the same
  address.\<close>
lemma seed_phrase_backup:
  assumes "ed25519_ok (env_ed env)" "intact (wm_keystore w)"
    and "export_seed_phrase (vt (env_ed env)) w = Ok phrase"
  shows "\<exists>w'. import_seed_phrase env (vt (env_ed env)) v phrase = (wm_address env (vt (env_ed env)) w, w')
    \<and> wm_address env (vt (env_ed env)) w' = wm_address env (vt (env_ed env)) w
    \<and> (\<exists>a. wm_address env (vt (env_ed env)) w = Ok a)"
proof -
  obtain secret where secret: "ks_export_secret_key (vt (env_ed env)) (wm_keystore w) = Ok secret" "sp_entropy phrase = secret"
    using assms(3) by (auto simp: export_seed_phrase_def SeedPhrase_from_secret_key_def split: sum.splits if_splits)
  obtain pk k' where k': "ks_import_secret_key (vt (env_ed env)) (wm_keystore v) secret = (Ok pk, k')" "intact k'"
    "ks_public_key_bytes (vt (env_ed env)) (wm_keystore w) = Ok pk" "ks_public_key_bytes (vt (env_ed env)) k' = Ok pk"
    using backup [OF assms(2) secret(1), of "wm_keystore v"] by blast
  have "length pk = 32" "ed_point (env_ed env) pk" using signs [OF assms(1,2) k'(3)] by blast+
  then show ?thesis
    using k' secret(2) by (simp add: import_seed_phrase_def to_secret_key_bytes_def wm_address_def address_from_pubkey_bytes_def)
qed

end

definition sk_intact :: "SoftwareKeystore \<Rightarrow> bool" where
  "sk_intact k = (case sk_signing_key k of None \<Rightarrow> True | Some s \<Rightarrow> length s = 32)"

interpretation soft: signing_keystore software_keystore sk_intact
proof
  fix ed k pk m
  assume "ed25519_ok ed" "sk_intact k" "ks_public_key_bytes (software_keystore ed) k = Ok pk"
  then show "length pk = 32 \<and> ed_point ed pk \<and>
      (\<exists>sig. ks_sign (software_keystore ed) k m = Ok sig \<and> verify_signature ed pk m sig = Ok ())"
    by (auto simp: software_keystore_def sk_public_key_bytes_def sk_sign_def sk_intact_def verify_own_signature
        ed25519_ok_def split: option.splits)
qed (auto simp: software_keystore_def sk_public_key_bytes_def sk_has_keypair_def sk_generate_keypair_def sk_intact_def
    sk_export_secret_key_def sk_import_secret_key_def Let_def split: option.splits)

section \<open>Payments\<close>

datatype payment = PayTransfer Address Lux Lux datetime | PayStake Lux Lux datetime | PayUnstake Lux Lux datetime

fun send_payment :: "Env \<Rightarrow> 'k Keystore \<Rightarrow> 'k WalletManager \<Rightarrow> payment \<Rightarrow> (GratiaError, Transaction) result \<times> 'k WalletManager" where
  "send_payment env ks w (PayTransfer to_addr amount fee now) = send_transfer env ks now w to_addr amount fee"
| "send_payment env ks w (PayStake amount fee now) = send_stake env ks now w amount fee"
| "send_payment env ks w (PayUnstake amount fee now) = send_unstake env ks now w amount fee"

text \<open>The transactions a sequence of payments yields; a refused payment yields none.\<close>
primrec send_all :: "Env \<Rightarrow> 'k Keystore \<Rightarrow> 'k WalletManager \<Rightarrow> payment list \<Rightarrow> Transaction list \<times> 'k WalletManager" where
  "send_all env ks w [] = ([], w)"
| "send_all env ks w (p # ps) = (case send_payment env ks w p of
     (Err _, w) \<Rightarrow> send_all env ks w ps
   | (Ok tx, w) \<Rightarrow> (case send_all env ks w ps of (txs, w) \<Rightarrow> (tx # txs, w)))"

definition payment_cost :: "Transaction \<Rightarrow> nat" where
  "payment_cost tx = (case tx_payload tx of Transfer _ amount \<Rightarrow> amount + tx_fee tx | Stake amount \<Rightarrow> amount + tx_fee tx
     | _ \<Rightarrow> tx_fee tx)"

definition spends :: "TransactionPayload \<Rightarrow> bool" where
  "spends p = (case p of Transfer _ _ \<Rightarrow> True | Stake _ \<Rightarrow> True | _ \<Rightarrow> False)"

definition is_spend :: "payment \<Rightarrow> bool" where
  "is_spend p = (case p of PayUnstake _ _ _ \<Rightarrow> False | _ \<Rightarrow> True)"

text \<open>What a successful payment \<open>tx\<close> makes of the wallet.\<close>
definition paid :: "'k WalletManager \<Rightarrow> Transaction \<Rightarrow> 'k WalletManager \<Rightarrow> bool" where
  "paid w tx w' \<longleftrightarrow> \<not> is_frozen w \<and> tx_nonce tx = wm_nonce w \<and> payment_cost tx \<le> wm_balance w
     \<and> wm_balance w' = sub_u64 (wm_balance w) (payment_cost tx) \<and> wm_nonce w' = add_u64 (wm_nonce w) 1
     \<and> wm_keystore w' = wm_keystore w \<and> wm_active_recovery w' = wm_active_recovery w"

context signing_keystore
begin

lemma send_payment_cases:
  assumes "ed25519_ok (env_ed env)" "intact (wm_keystore w)"
    and "send_payment env (vt (env_ed env)) w p = (r, w')"
  shows "(w' = w \<and> (\<exists>e. r = Err e)) \<or> (\<exists>tx. r = Ok tx \<and> authentic env tx \<and> paid w tx w'
    \<and> ks_public_key_bytes (vt (env_ed env)) (wm_keystore w) = Ok (tx_sender_pubkey tx) \<and> (is_spend p \<longrightarrow> spends (tx_payload tx)))"
proof -
  have b: "(\<exists>e. build_and_sign env (vt (env_ed env)) now (TransactionBuilder_new (wm_keystore w) (wm_nonce w) fee) q = Err e)
      \<or> (\<exists>tx. build_and_sign env (vt (env_ed env)) now (TransactionBuilder_new (wm_keystore w) (wm_nonce w) fee) q = Ok tx
        \<and> authentic env tx \<and> ks_public_key_bytes (vt (env_ed env)) (wm_keystore w) = Ok (tx_sender_pubkey tx)
        \<and> tx_payload tx = q \<and> tx_nonce tx = wm_nonce w \<and> tx_fee tx = fee)" for now fee q
    using build_cases [OF assms(1) _ refl, of "TransactionBuilder_new (wm_keystore w) (wm_nonce w) fee" now q] assms(2)
    by (auto simp: TransactionBuilder_new_def)
  show ?thesis
  proof (cases p)
    case (PayTransfer to_addr amount fee now)
    from b [of now fee "Transfer to_addr amount"] show ?thesis
    proof (elim disjE exE conjE, goal_cases)
      case (1 e)
      show ?case using assms(3) PayTransfer
        by (auto simp: 1 send_transfer_def check_not_frozen_def build_transfer_def split: if_splits option.splits)
    next
      case (2 tx)
      show ?case using assms(3) PayTransfer
        by (auto simp: 2 send_transfer_def check_not_frozen_def build_transfer_def paid_def payment_cost_def spends_def is_spend_def
            is_frozen_def split: if_splits option.splits)
    qed
  next
    case (PayStake amount fee now)
    from b [of now fee "Stake amount"] show ?thesis
    proof (elim disjE exE conjE, goal_cases)
      case (1 e)
      show ?case using assms(3) PayStake
        by (auto simp: 1 send_stake_def check_not_frozen_def build_stake_def split: if_splits option.splits)
    next
      case (2 tx)
      show ?case using assms(3) PayStake
        by (auto simp: 2 send_stake_def check_not_frozen_def build_stake_def paid_def payment_cost_def spends_def is_spend_def
            is_frozen_def split: if_splits option.splits)
    qed
  next
    case (PayUnstake amount fee now)
    from b [of now fee "Unstake amount"] show ?thesis
    proof (elim disjE exE conjE, goal_cases)
      case (1 e)
      show ?case using assms(3) PayUnstake
        by (auto simp: 1 send_unstake_def check_not_frozen_def build_unstake_def split: if_splits option.splits)
    next
      case (2 tx)
      show ?case using assms(3) PayUnstake
        by (auto simp: 2 send_unstake_def check_not_frozen_def build_unstake_def paid_def payment_cost_def spends_def is_spend_def
            is_frozen_def split: if_splits option.splits)
    qed
  qed
qed

lemma send_all_run:
  assumes "ed25519_ok (env_ed env)" "intact (wm_keystore w)" "send_all env (vt (env_ed env)) w ps = (txs, w')"
    and "wm_nonce w + length ps \<le> U64_MAX" "wm_balance w \<le> U64_MAX"
  shows "list_all (\<lambda>tx. authentic env tx \<and> ks_public_key_bytes (vt (env_ed env)) (wm_keystore w) = Ok (tx_sender_pubkey tx)) txs
    \<and> map tx_nonce txs = [wm_nonce w..<wm_nonce w + length txs] \<and> wm_nonce w' = wm_nonce w + length txs
    \<and> wm_balance w' + sum_list (map payment_cost txs) = wm_balance w \<and> wm_keystore w' = wm_keystore w
    \<and> (is_frozen w \<longrightarrow> txs = [])"
  using assms(2-5)
proof (induction ps arbitrary: w txs)
  case Nil
  then show ?case by simp
next
  case (Cons p ps)
  obtain r w1 where s: "send_payment env (vt (env_ed env)) w p = (r, w1)" by fastforce
  from send_payment_cases [OF assms(1) Cons.prems(1) s] show ?case
  proof (elim disjE exE conjE)
    fix e assume "w1 = w" "r = Err e"
    then have "send_all env (vt (env_ed env)) w ps = (txs, w')" using Cons.prems(2) s by simp
    from Cons.IH [OF Cons.prems(1) this] Cons.prems(3,4) show ?thesis by simp
  next
    fix tx assume tx: "r = Ok tx" "authentic env tx" "paid w tx w1"
      "ks_public_key_bytes (vt (env_ed env)) (wm_keystore w) = Ok (tx_sender_pubkey tx)"
    obtain txs' where txs': "send_all env (vt (env_ed env)) w1 ps = (txs', w')" "txs = tx # txs'"
      using Cons.prems(2) s tx(1) by (auto split: prod.splits)
    have w1: "wm_keystore w1 = wm_keystore w" "wm_nonce w1 = Suc (wm_nonce w)" "wm_balance w1 + payment_cost tx = wm_balance w"
      "tx_nonce tx = wm_nonce w" "\<not> is_frozen w"
      using tx(3) Cons.prems(3,4) by (auto simp: paid_def)
    have "intact (wm_keystore w1)" "wm_nonce w1 + length ps \<le> U64_MAX" "wm_balance w1 \<le> U64_MAX"
      using Cons.prems w1 by simp_all
    note IH = Cons.IH [OF this(1) txs'(1) this(2,3)]
    have "[wm_nonce w..<wm_nonce w + length txs] = wm_nonce w # [Suc (wm_nonce w)..<Suc (wm_nonce w) + length txs']"
      by (simp add: txs'(2) upt_conv_Cons del: upt_Suc)
    with IH show ?thesis
      using w1 tx(2,4) by (simp add: txs'(2) del: upt_Suc)
  qed
qed

lemma send_all_clears:
  assumes "ed25519_ok (env_ed env)" "intact (wm_keystore w)" "send_all env (vt (env_ed env)) w ps = (txs, w')"
    and "wm_nonce w + length ps \<le> U64_MAX" "wm_balance w \<le> U64_MAX" "list_all is_spend ps"
    and "wm_address env (vt (env_ed env)) w = Ok a" "wm_balance w \<le> ac_balance (L a)" "wm_nonce w = ac_nonce (L a)"
  shows "acceptable_all (ed_point (env_ed env)) (env_sha256 env) L txs"
  using assms(2-9)
proof (induction ps arbitrary: w txs L)
  case Nil
  then show ?case by simp
next
  case (Cons p ps)
  obtain r w1 where s: "send_payment env (vt (env_ed env)) w p = (r, w1)" by fastforce
  from send_payment_cases [OF assms(1) Cons.prems(1) s] show ?case
  proof (elim disjE exE conjE)
    fix e assume "w1 = w" "r = Err e"
    then have "send_all env (vt (env_ed env)) w ps = (txs, w')" using Cons.prems(2) s by simp
    from Cons.IH [OF Cons.prems(1) this] Cons.prems show ?thesis by simp
  next
    fix tx assume tx: "r = Ok tx" "authentic env tx" "paid w tx w1"
      "ks_public_key_bytes (vt (env_ed env)) (wm_keystore w) = Ok (tx_sender_pubkey tx)" "is_spend p \<longrightarrow> spends (tx_payload tx)"
    obtain txs' where txs': "send_all env (vt (env_ed env)) w1 ps = (txs', w')" "txs = tx # txs'"
      using Cons.prems(2) s tx(1) by (auto split: prod.splits)
    have sp: "spends (tx_payload tx)" using tx(5) Cons.prems(5) by simp
    have pk: "length (tx_sender_pubkey tx) = 32" "ed_point (env_ed env) (tx_sender_pubkey tx)"
      using signs [OF assms(1) Cons.prems(1) tx(4)] by blast+
    then have a: "sender_of (env_sha256 env) tx = a"
      using Cons.prems(6) tx(4) by (simp add: wm_address_def address_from_pubkey_bytes_def sender_of_def)
    have w1: "wm_keystore w1 = wm_keystore w" "wm_nonce w1 = Suc (wm_nonce w)" "wm_balance w1 = wm_balance w - payment_cost tx"
      "tx_nonce tx = wm_nonce w" "payment_cost tx \<le> wm_balance w"
      using tx(3) Cons.prems(3,4) by (auto simp: paid_def)
    have acc: "acceptable L a tx"
      using sp w1 Cons.prems(7,8) by (auto simp: acceptable_def payment_cost_def spends_def split: TransactionPayload.splits)
    let ?L = "posted L a tx"
    have "wm_balance w1 \<le> ac_balance (?L a)" "wm_nonce w1 = ac_nonce (?L a)"
      using sp w1 Cons.prems(7,8)
      by (auto simp: posted_def payment_cost_def spends_def Let_def split: TransactionPayload.splits)
    moreover have "wm_address env (vt (env_ed env)) w1 = Ok a" using Cons.prems(6) w1(1) by (simp add: wm_address_def)
    ultimately have "acceptable_all (ed_point (env_ed env)) (env_sha256 env) ?L txs'"
      using Cons.prems(1,3-5) w1 by (intro Cons.IH [OF _ txs'(1)]) simp_all
    then show ?thesis using acc pk by (simp add: txs'(2) a)
  qed
qed

end

section \<open>Signed bytes\<close>

lemma append_tail_eq:
  assumes "length b = length d"
  shows "a @ b = c @ d \<longleftrightarrow> a = c \<and> b = d"
  using assms by (auto simp: append_eq_append_conv)

lemma i64_le_bytes_inj:
  assumes "- (2 ^ 63) \<le> x" "x < 2 ^ 63" "- (2 ^ 63) \<le> y" "y < 2 ^ 63"
  shows "i64_le_bytes x = i64_le_bytes y \<longleftrightarrow> x = y"
proof
  assume eq: "i64_le_bytes x = i64_le_bytes y"
  have "nat (z mod 18446744073709551616) < 256 ^ 8" for z :: int
    by (simp add: nat_less_iff)
  then have "nat (x mod 18446744073709551616) = nat (y mod 18446744073709551616)"
    using eq by (simp add: i64_le_bytes_def le_bytes_inj)
  then have "x mod 18446744073709551616 = y mod 18446744073709551616" by simp
  then have "(x - y) mod 18446744073709551616 = 0" by (simp add: mod_diff_eq [symmetric])
  then have dvd: "18446744073709551616 dvd x - y" by (simp add: mod_eq_0_iff_dvd)
  show "x = y"
  proof (rule ccontr)
    assume "x \<noteq> y"
    then have "18446744073709551616 \<le> \<bar>x - y\<bar>" using dvd_imp_le_int [OF _ dvd] by simp
    then show False using assms by (simp add: abs_if split: if_splits)
  qed
qed simp

section \<open>A concrete wallet\<close>

definition toy_ed :: Ed25519 where
  "toy_ed = \<lparr> ed_public = (\<lambda>k. k), ed_sign = (\<lambda>k m. replicate 64 0), ed_point = (\<lambda>_. True), ed_verify = (\<lambda>_ _ _. True) \<rparr>"

lemma toy_ed_ok: "ed25519_ok toy_ed"
  by (simp add: ed25519_ok_def toy_ed_def)

definition toy_env :: Env where
  "toy_env = \<lparr> env_ed = toy_ed, env_sha256 = pad_hash,
     env_payload = (\<lambda>p. case p of Transfer a x \<Rightarrow> Ok (address_bytes a @ le_bytes 8 x) | _ \<Rightarrow> Err ''unsupported''),
     env_hex = (\<lambda>_. []) \<rparr>"

definition toy_wallet :: "SoftwareKeystore WalletManager" where
  "toy_wallet = (with_keystore \<lparr> sk_signing_key = Some pay_key \<rparr>)\<lparr>wm_balance := 100\<rparr>"

lemma toy_simps [simp]:
  "env_ed toy_env = toy_ed" "env_sha256 toy_env = pad_hash" "wm_nonce toy_wallet = 0" "wm_balance toy_wallet = 100"
  "sk_intact (wm_keystore toy_wallet)" "wm_active_recovery toy_wallet = None"
  by (simp_all add: toy_env_def toy_wallet_def with_keystore_def sk_intact_def pay_key_def)

lemma toy_address: "wm_address toy_env (software_keystore toy_ed) toy_wallet = Ok payer"
  by (simp add: wm_address_def software_keystore_def sk_public_key_bytes_def toy_wallet_def with_keystore_def
      address_from_pubkey_bytes_def toy_ed_def payer_def pay_key_def toy_env_def)

lemma toy_sends:
  "\<exists>tx w'. send_all toy_env (software_keystore toy_ed) toy_wallet [PayTransfer payee 30 1 0] = ([tx], w')
    \<and> tx_payload tx = Transfer payee 30 \<and> tx_nonce tx = 0 \<and> tx_sender_pubkey tx = pay_key"
  by (simp add: send_transfer_def check_not_frozen_def is_frozen_def checked_add_u64_def U64_MAX_def build_transfer_def
      build_and_sign_def TransactionBuilder_new_def software_keystore_def sk_public_key_bytes_def sk_sign_def
      signable_bytes_def toy_wallet_def with_keystore_def toy_ed_def toy_env_def)

section \<open>Properties\<close>

text \<open>C18: From the wallet to the ledger. Let a wallet that is in step with the ledger, in balance and
  nonce, make any sequence of transfers and stakes. If the resulting transactions, whose hashes do
  not collide, fit into a new mempool, then a block takes them from there unchanged and in order, and
  the state manager applies the block.\<close>

theorem payments_reach_the_ledger:
  assumes "ed25519_ok (env_ed env)" "sk_intact (wm_keystore w)"
    and "send_all env (software_keystore (env_ed env)) w ps = (txs, w')" "list_all is_spend ps"
    and "wm_nonce w + length ps \<le> U64_MAX" "wm_balance w \<le> U64_MAX"
    and "wm_address env (software_keystore (env_ed env)) w = Ok a"
    and "wm_balance w = ac_balance (ledger_of bc (mem_view s) a)" "wm_nonce w = ac_nonce (ledger_of bc (mem_view s) a)"
    and "distinct (map tx_hash txs)" "length txs \<le> k"
    and "pool = foldl (\<lambda>mp tx. snd (add_transaction env mp tx)) (ValidatedMempool_new k) txs"
    and "blk_transactions block = fst (drain_for_block pool (length txs))"
    and "ready (env_sha256 env) bc policy s n tip A block hash" "follows n tip block"
  shows "blk_transactions block = txs
    \<and> is_ok (fst (apply_block (ed_point (env_ed env)) (env_sha256 env) (mem_manager bc policy) s block))"
proof -
  have "list_all (authentic env) txs"
    using soft.send_all_run [OF assms(1,2,3,5,6)] by (auto simp: list_all_iff)
  then have "mp_pending pool = [] @ txs"
    unfolding assms(12) using assms(10,11) by (intro add_all) (simp_all add: ValidatedMempool_new_def)
  then have block: "blk_transactions block = txs" using assms(13) by (simp add: drain_for_block_def)
  have "acceptable_all (ed_point (env_ed env)) (env_sha256 env) (ledger_of bc (mem_view s)) txs"
    using assms(8,9) by (intro soft.send_all_clears [OF assms(1,2,3,5,6,4,7)]) simp_all
  moreover obtain r s' where run: "apply_block (ed_point (env_ed env)) (env_sha256 env) (mem_manager bc policy) s block = (r, s')"
    by fastforce
  ultimately show ?thesis
    using block_outcome_D(1) [OF ready_outcome(3) [OF assms(14) run]] assms(15) block by simp
qed

theorem payments_reach_the_ledger_witness:
  "\<exists>txs w' block. send_all toy_env (software_keystore toy_ed) toy_wallet [PayTransfer payee 30 1 0] = (txs, w')
    \<and> length txs = 1 \<and> blk_transactions block = txs
    \<and> is_ok (fst (apply_block (ed_point toy_ed) pad_hash (mem_manager (pay_bincode txs) PruningPolicy_default) (pay_store txs) block))"
proof -
  obtain tx w' where tx: "send_all toy_env (software_keystore toy_ed) toy_wallet [PayTransfer payee 30 1 0] = ([tx], w')"
    "tx_payload tx = Transfer payee 30" "tx_nonce tx = 0" "tx_sender_pubkey tx = pay_key"
    using toy_sends by blast
  let ?pool = "foldl (\<lambda>mp tx. snd (add_transaction toy_env mp tx)) (ValidatedMempool_new 5) [tx]"
  have "authentic toy_env tx"
    using soft.send_all_run [of toy_env toy_wallet "[PayTransfer payee 30 1 0]" "[tx]" w'] tx(1) toy_ed_ok
    by (simp add: U64_MAX_def del: send_all.simps)
  then have pool: "mp_pending ?pool = [] @ [tx]"
    by (intro add_all) (simp_all add: ValidatedMempool_new_def)
  have block: "blk_transactions (pay_block [tx]) = fst (drain_for_block ?pool (length [tx]))"
    using pool by (simp add: drain_for_block_def)
  have "confined pad_hash {payer, payee} [tx]"
    using tx by (simp add: confined_def touches_def sender_of_def payer_def U64_MAX_def)
  note rd = pay_ready(1) [OF this]
  have L: "wm_balance toy_wallet = ac_balance (ledger_of (pay_bincode [tx]) (mem_view (pay_store [tx])) payer)"
    "wm_nonce toy_wallet = ac_nonce (ledger_of (pay_bincode [tx]) (mem_view (pay_store [tx])) payer)"
    unfolding pay_store_facts(3) by (simp_all add: AccountState_default_def)
  have w: "ed25519_ok (env_ed toy_env)" "sk_intact (wm_keystore toy_wallet)"
    "send_all toy_env (software_keystore (env_ed toy_env)) toy_wallet [PayTransfer payee 30 1 0] = ([tx], w')"
    "list_all is_spend [PayTransfer payee 30 1 0]" "wm_nonce toy_wallet + length [PayTransfer payee 30 1 0] \<le> U64_MAX"
    "wm_balance toy_wallet \<le> U64_MAX" "wm_address toy_env (software_keystore (env_ed toy_env)) toy_wallet = Ok payer"
    "distinct (map tx_hash [tx])" "length [tx] \<le> 5"
    using toy_ed_ok tx(1) toy_address by (simp_all add: is_spend_def U64_MAX_def del: send_all.simps)
  note payments_reach_the_ledger [OF w(1-7) L w(8,9) refl block, unfolded toy_simps, OF rd pay_block_simps(2)]
  then show ?thesis
    using tx(1) by (intro exI [of _ "[tx]"] exI [of _ w'] exI [of _ "pay_block [tx]"]) (simp del: send_all.simps)
qed

text \<open>C19: The transactions of a wallet. Whatever sequence of payments is attempted, every transaction the
  wallet returns is accepted by the verifier, comes from the wallet's address, and carries the next
  nonce; exactly the costs leave the cached balance, which never goes below zero; and a frozen wallet
  signs nothing.\<close>

theorem wallet_sends_authentic:
  assumes "ed25519_ok (env_ed env)" "sk_intact (wm_keystore w)" "ks = software_keystore (env_ed env)"
    and "send_all env ks w ps = (txs, w')" "wm_nonce w + length ps \<le> U64_MAX" "wm_balance w \<le> U64_MAX"
  shows "list_all (\<lambda>tx. verify_transaction env tx = Ok () \<and> sender_address env tx = wm_address env ks w) txs
    \<and> map tx_nonce txs = [wm_nonce w..<wm_nonce w + length txs] \<and> wm_nonce w' = wm_nonce w + length txs
    \<and> wm_balance w' + sum_list (map payment_cost txs) = wm_balance w \<and> (is_frozen w \<longrightarrow> txs = [])"
proof -
  note run = soft.send_all_run [OF assms(1,2) assms(4) [unfolded assms(3)] assms(5,6)]
  have "verify_transaction env tx = Ok ()" if "authentic env tx" for tx
    using that by (auto simp: authentic_def verify_transaction_def compute_signable_bytes_def signable_bytes_def
        mp_compute_tx_hash_def compute_tx_hash_def split: sum.splits)
  moreover have "sender_address env tx = wm_address env ks w"
    if "ks_public_key_bytes (software_keystore (env_ed env)) (wm_keystore w) = Ok (tx_sender_pubkey tx)" for tx
    using that by (simp add: sender_address_def wm_address_def assms(3))
  ultimately show ?thesis using run by (simp add: list_all_iff)
qed

theorem wallet_sends_authentic_witness:
  "\<exists>tx w'. send_all toy_env (software_keystore toy_ed) toy_wallet [PayTransfer payee 30 1 0] = ([tx], w')
    \<and> verify_transaction toy_env tx = Ok () \<and> wm_nonce w' = 1"
proof -
  obtain tx w' where tx: "send_all toy_env (software_keystore toy_ed) toy_wallet [PayTransfer payee 30 1 0] = ([tx], w')"
    using toy_sends by blast
  have "list_all (\<lambda>tx. verify_transaction toy_env tx = Ok () \<and> sender_address toy_env tx
        = wm_address toy_env (software_keystore toy_ed) toy_wallet) [tx] \<and> map tx_nonce [tx]
        = [wm_nonce toy_wallet..<wm_nonce toy_wallet + length [tx]] \<and> wm_nonce w' = wm_nonce toy_wallet + length [tx]
    \<and> wm_balance w' + sum_list (map payment_cost [tx]) = wm_balance toy_wallet \<and> (is_frozen toy_wallet \<longrightarrow> [tx] = [])"
    by (rule wallet_sends_authentic [where ps = "[PayTransfer payee 30 1 0]"])
      (use toy_ed_ok tx in \<open>simp_all add: U64_MAX_def del: send_all.simps\<close>)
  then show ?thesis using tx by auto
qed

text \<open>A signature fixes everything it should. Two lists of signed bytes agree only if payload, nonce,
  chain, fee and the millisecond of the timestamp agree, so a transaction signed for one chain or one
  nonce is never valid for another.\<close>

theorem signed_bytes_determine_content:
  assumes "signable_bytes env p n c f t = Ok m" "signable_bytes env p' n' c' f' t' = Ok m"
    and "inj_on (env_payload env) {p, p'}" "n \<le> U64_MAX" "n' \<le> U64_MAX" "c \<le> U32_MAX" "c' \<le> U32_MAX"
      "f \<le> U64_MAX" "f' \<le> U64_MAX"
    and "\<bar>timestamp_millis t\<bar> < 2 ^ 63" "\<bar>timestamp_millis t'\<bar> < 2 ^ 63"
  shows "p = p' \<and> n = n' \<and> c = c' \<and> f = f' \<and> timestamp_millis t = timestamp_millis t'"
proof -
  obtain b where b: "env_payload env p = Ok b" using assms(1) by (auto simp: signable_bytes_def split: sum.splits)
  obtain b' where b': "env_payload env p' = Ok b'" using assms(2) by (auto simp: signable_bytes_def split: sum.splits)
  have "m = (((b @ le_bytes 8 n) @ le_bytes 4 c) @ le_bytes 8 f) @ i64_le_bytes (timestamp_millis t)"
    using assms(1) by (simp add: signable_bytes_def b)
  moreover have "m = (((b' @ le_bytes 8 n') @ le_bytes 4 c') @ le_bytes 8 f') @ i64_le_bytes (timestamp_millis t')"
    using assms(2) by (simp add: signable_bytes_def b')
  ultimately have "(((b @ le_bytes 8 n) @ le_bytes 4 c) @ le_bytes 8 f) @ i64_le_bytes (timestamp_millis t)
      = (((b' @ le_bytes 8 n') @ le_bytes 4 c') @ le_bytes 8 f') @ i64_le_bytes (timestamp_millis t')"
    by (rule trans [OF sym])
  then have eq: "b = b' \<and> le_bytes 8 n = le_bytes 8 n' \<and> le_bytes 4 c = le_bytes 4 c' \<and> le_bytes 8 f = le_bytes 8 f'
      \<and> i64_le_bytes (timestamp_millis t) = i64_le_bytes (timestamp_millis t')"
    by (simp only: append_tail_eq length_le_bytes length_i64_le_bytes)
  have "p = p'" using inj_onD [OF assms(3), of p p'] b b' conjunct1 [OF eq] by simp
  moreover have u64: "x = y" if "le_bytes 8 x = le_bytes 8 y" "x \<le> U64_MAX" "y \<le> U64_MAX" for x y
    using that by (intro iffD1 [OF le_bytes_inj [of x 8 y]]) (simp_all add: U64_MAX_def)
  have "n = n'" "f = f'" using eq assms(4,5,8,9) u64 by blast+
  moreover have "c = c'"
    using eq assms(6,7) by (intro iffD1 [OF le_bytes_inj [of c 4 c']]) (simp_all add: U32_MAX_def)
  moreover have "timestamp_millis t = timestamp_millis t'"
    using conjunct2 [OF conjunct2 [OF conjunct2 [OF conjunct2 [OF eq]]]] assms(10,11)
    by (intro iffD1 [OF i64_le_bytes_inj]) linarith+
  ultimately show ?thesis by simp
qed

theorem signed_bytes_determine_content_witness:
  "\<exists>m. signable_bytes toy_env (Transfer payee 1) 7 2 1 5 = Ok m \<and> m \<noteq> []
    \<and> (Transfer payee 1 = Transfer payee 1 \<and> (7::nat) = 7 \<and> (2::nat) = 2 \<and> (1::nat) = 1 \<and> timestamp_millis 5 = timestamp_millis 9)"
proof -
  obtain m where m: "signable_bytes toy_env (Transfer payee 1) 7 2 1 5 = Ok m" "m \<noteq> []"
    by (simp add: signable_bytes_def toy_env_def payee_def)
  then have m': "signable_bytes toy_env (Transfer payee 1) 7 2 1 9 = Ok m"
    by (simp add: signable_bytes_def toy_env_def timestamp_millis_def)
  from signed_bytes_determine_content [OF m(1) m'] m show ?thesis
    by (simp add: U64_MAX_def U32_MAX_def timestamp_millis_def)
qed

text \<open>A verified recovery claim does not freeze the wallet it took over: the device that lost the claim
  can go on paying.\<close>
lemma verified_claim_leaves_wallet_usable:
  "rc_state claim = RS_Verified a t \<Longrightarrow> check_not_frozen (set_recovery_claim w claim) = Ok ()"
  by (simp add: check_not_frozen_def is_frozen_def set_recovery_claim_def wallet_is_frozen_def)

end
