(* ===== verification/Nfc.thy ===== *)
theory Nfc
  imports Wallet
begin

text \<open>
  Tap-to-pay sessions, \<^verbatim>\<open>gratia-wallet/src/nfc.rs\<close>. The nonce drawn by the receiver and the clock are
  arguments, \<^verbatim>\<open>bincode\<close> is a codec. A handshake inside the time limit succeeds and hands over the
  transaction; what the receiver does not check is stated too.
\<close>

section \<open>Model\<close>

definition DEFAULT_NFC_ZERO_FEE_THRESHOLD :: Lux where "DEFAULT_NFC_ZERO_FEE_THRESHOLD = 10000000"
definition NFC_SESSION_TIMEOUT_SECS :: u64 where "NFC_SESSION_TIMEOUT_SECS = 30"
definition NFC_PROTOCOL_VERSION :: u8 where "NFC_PROTOCOL_VERSION = 1"

datatype NfcSessionMessage =
    PaymentRequest u8 Address "Lux option" "string option" bytes datetime
  | PaymentConfirmation u8 Transaction bytes
  | PaymentAcknowledgment u8 TxHash bool

datatype NfcRole = NR_Sender | NR_Receiver

datatype NfcSessionState = NS_AwaitingRequest | NS_PendingConfirmation | NS_TransactionSent | NS_Completed | NS_Failed

record NfcSession =
  nf_role :: NfcRole
  nf_session_nonce :: bytes
  nf_created_at :: datetime
  nf_state :: NfcSessionState
  nf_transaction :: "Transaction option"
  nf_requested_amount :: "Lux option"
  nf_label :: "string option"

definition new_receiver :: "bytes \<Rightarrow> datetime \<Rightarrow> Lux option \<Rightarrow> string option \<Rightarrow> NfcSession" where
  "new_receiver nonce now amount lbl =
     \<lparr> nf_role = NR_Receiver, nf_session_nonce = nonce, nf_created_at = now, nf_state = NS_AwaitingRequest,
       nf_transaction = None, nf_requested_amount = amount, nf_label = lbl \<rparr>"

definition nfc_is_expired :: "datetime \<Rightarrow> NfcSession \<Rightarrow> bool" where
  "nfc_is_expired now self = (now - nf_created_at self > duration_seconds (int NFC_SESSION_TIMEOUT_SECS))"

definition create_payment_request :: "datetime \<Rightarrow> NfcSession \<Rightarrow> Address \<Rightarrow> (GratiaError, NfcSessionMessage) result" where
  "create_payment_request now self receiver_address =
     (if nf_role self \<noteq> NR_Receiver then Err (GE_Other ''only the receiver can create a payment request'')
      else if nfc_is_expired now self then Err (GE_Other ''NFC session has expired'')
      else Ok (PaymentRequest NFC_PROTOCOL_VERSION receiver_address (nf_requested_amount self) (nf_label self)
                 (nf_session_nonce self) (nf_created_at self)))"

definition nfc_version_error :: "u8 \<Rightarrow> GratiaError" where
  "nfc_version_error version = GE_Other (''unsupported NFC protocol version: '' @ show_nat version @ '' (expected ''
     @ show_nat NFC_PROTOCOL_VERSION @ '')'')"

definition receive_payment_request :: "datetime \<Rightarrow> NfcSessionMessage \<Rightarrow> (GratiaError, NfcSession) result" where
  "receive_payment_request now request =
     (case request of
        PaymentRequest version _ amount lbl nonce sent_at \<Rightarrow>
          if version \<noteq> NFC_PROTOCOL_VERSION then Err (nfc_version_error version)
          else if now - sent_at > duration_seconds (int NFC_SESSION_TIMEOUT_SECS)
          then Err (GE_Other ''NFC payment request has expired'')
          else Ok \<lparr> nf_role = NR_Sender, nf_session_nonce = nonce, nf_created_at = now,
                     nf_state = NS_PendingConfirmation, nf_transaction = None,
                     nf_requested_amount = amount, nf_label = lbl \<rparr>
      | _ \<Rightarrow> Err (GE_Other ''expected PaymentRequest message''))"

definition is_zero_fee :: "Lux \<Rightarrow> Lux \<Rightarrow> bool" where
  "is_zero_fee amount threshold = (amount \<le> threshold)"

definition nfc_calculate_fee :: "Lux \<Rightarrow> Lux \<Rightarrow> Lux \<Rightarrow> Lux" where
  "nfc_calculate_fee amount zero_fee_threshold standard_fee =
     (if is_zero_fee amount zero_fee_threshold then 0 else standard_fee)"

definition validate_confirmation :: "datetime \<Rightarrow> NfcSession \<Rightarrow> NfcSessionMessage \<Rightarrow> (GratiaError, Transaction) result" where
  "validate_confirmation now self confirmation =
     (if nf_role self \<noteq> NR_Receiver then Err (GE_Other ''only the receiver can validate a confirmation'')
      else if nfc_is_expired now self then Err (GE_Other ''NFC session has expired'')
      else case confirmation of
        PaymentConfirmation version tx nonce \<Rightarrow>
          if version \<noteq> NFC_PROTOCOL_VERSION then Err (nfc_version_error version)
          else if nonce \<noteq> nf_session_nonce self
          then Err (GE_Other ''session nonce mismatch: confirmation does not match this payment request'')
          else Ok tx
      | _ \<Rightarrow> Err (GE_Other ''expected PaymentConfirmation message''))"

definition serialize_nfc_message :: "NfcSessionMessage Codec \<Rightarrow> NfcSessionMessage \<Rightarrow> (GratiaError, bytes) result" where
  "serialize_nfc_message bc msg = ser_result (enc bc msg)"

definition deserialize_nfc_message :: "NfcSessionMessage Codec \<Rightarrow> bytes \<Rightarrow> (GratiaError, NfcSessionMessage) result" where
  "deserialize_nfc_message bc b = ser_result (dec bc b)"

section \<open>Lemmas\<close>

text \<open>The handshake: a confirmation is validated exactly when it carries the session's nonce and the
  current version and arrives in time.\<close>
lemma validate_confirmation_iff:
  "validate_confirmation now self m = Ok tx \<longleftrightarrow> nf_role self = NR_Receiver \<and> \<not> nfc_is_expired now self
     \<and> m = PaymentConfirmation NFC_PROTOCOL_VERSION tx (nf_session_nonce self)"
  by (auto simp: validate_confirmation_def split: NfcSessionMessage.splits)

lemma nfc_handshake:
  assumes "create_payment_request t1 (new_receiver nonce t0 amount lbl) a = Ok req"
    and "receive_payment_request t2 req = Ok s"
  shows "nf_session_nonce s = nonce" "nf_requested_amount s = amount" "nf_role s = NR_Sender"
    "t2 - t0 \<le> duration_seconds 30"
    "t3 - t0 \<le> duration_seconds 30 \<Longrightarrow>
       validate_confirmation t3 (new_receiver nonce t0 amount lbl) (PaymentConfirmation NFC_PROTOCOL_VERSION tx (nf_session_nonce s)) = Ok tx"
  using assms
  by (auto simp: create_payment_request_def receive_payment_request_def new_receiver_def validate_confirmation_iff
      nfc_is_expired_def NFC_SESSION_TIMEOUT_SECS_def split: if_splits)

text \<open>The receiver checks neither payee nor amount nor signature of the transaction handed over.\<close>
lemma confirmation_payee_unchecked:
  "t1 - t0 \<le> duration_seconds 30 \<Longrightarrow>
     validate_confirmation t1 (new_receiver nonce t0 (Some amount) lbl) (PaymentConfirmation NFC_PROTOCOL_VERSION tx nonce) = Ok tx"
  by (simp add: validate_confirmation_iff new_receiver_def nfc_is_expired_def NFC_SESSION_TIMEOUT_SECS_def)

lemma nfc_message_roundtrip:
  "codec_at bc msg \<Longrightarrow> \<exists>b. serialize_nfc_message bc msg = Ok b \<and> deserialize_nfc_message bc b = Ok msg"
  by (auto simp: codec_at_def serialize_nfc_message_def deserialize_nfc_message_def ser_result_def)

end
