(* ===== verification/Sharding.thy ===== *)
theory Sharding
  imports Storage
begin

text \<open>
  The shard manager of \<^verbatim>\<open>gratia-state/src/sharding.rs\<close>. The band of a location is floating-point
  arithmetic and an argument; everything after it, the clamping included, is modelled. A manager is
  well formed when it has one state per active shard; every operation keeps that, and every address
  and location is assigned to a shard that exists.
\<close>

section \<open>Model\<close>

definition MAX_SHARDS :: u16 where "MAX_SHARDS = 20"
definition DEFAULT_ACTIVE_SHARDS :: u16 where "DEFAULT_ACTIVE_SHARDS = 4"
definition SHARDING_ACTIVATION_THRESHOLD :: u64 where "SHARDING_ACTIVATION_THRESHOLD = 10000"
definition CROSS_SHARD_COMMITTEE_PCT :: u8 where "CROSS_SHARD_COMMITTEE_PCT = 20"

record ShardConfig =
  shc_active_shards :: u16
  shc_min_nodes_per_shard :: u32
  shc_split_multiplier :: u32
  shc_split_persistence_days :: u32
  shc_split_throughput_threshold_pct :: u8
  shc_merge_persistence_days :: u32

definition ShardConfig_default :: ShardConfig where
  "ShardConfig_default = \<lparr> shc_active_shards = DEFAULT_ACTIVE_SHARDS, shc_min_nodes_per_shard = 50,
     shc_split_multiplier = 5, shc_split_persistence_days = 30, shc_split_throughput_threshold_pct = 70,
     shc_merge_persistence_days = 7 \<rparr>"

datatype ShardHealth = SH_Healthy | SH_Warning | SH_Critical

record ShardHealthMetrics =
  shm_health :: ShardHealth
  shm_finality_rate :: f64
  shm_max_validator_concentration :: f64
  shm_weekly_churn_rate :: f64
  shm_days_below_minimum :: u32
  shm_days_above_split :: u32

definition ShardHealthMetrics_default :: ShardHealthMetrics where
  "ShardHealthMetrics_default = \<lparr> shm_health = SH_Healthy, shm_finality_rate = 1, shm_max_validator_concentration = 0,
     shm_weekly_churn_rate = 0, shm_days_below_minimum = 0, shm_days_above_split = 0 \<rparr>"

record ShardState =
  shs_shard_id :: ShardId
  shs_block_height :: u64
  shs_state_root :: bytes
  shs_active_nodes :: u64
  shs_center :: "GeoLocation option"
  shs_health_metrics :: ShardHealthMetrics

definition ShardState_new :: "ShardId \<Rightarrow> ShardState" where
  "ShardState_new shard = \<lparr> shs_shard_id = shard, shs_block_height = 0, shs_state_root = replicate 32 0,
     shs_active_nodes = 0, shs_center = None, shs_health_metrics = ShardHealthMetrics_default \<rparr>"

record CrossShardReceipt =
  csr_tx_hash :: bytes
  csr_source_shard :: ShardId
  csr_dest_shard :: ShardId
  csr_inclusion_proof :: bytes
  csr_source_block_height :: u64

record ShardManager =
  sm_config :: ShardConfig
  sm_shard_states :: "ShardState list"

text \<open>\<^verbatim>\<open>new\<close> panics without an active shard.\<close>
definition ShardManager_new :: "ShardConfig \<Rightarrow> ShardManager option" where
  "ShardManager_new config =
     (if shc_active_shards config > 0
      then Some \<lparr> sm_config = config, sm_shard_states = map (\<lambda>i. ShardState_new (ShardId i)) [0..<shc_active_shards config] \<rparr>
      else None)"

definition active_shard_count :: "ShardManager \<Rightarrow> u16" where
  "active_shard_count self = shc_active_shards (sm_config self)"

primrec shard_index :: "ShardId \<Rightarrow> u16" where
  "shard_index (ShardId i) = i"

text \<open>The argument \<open>band\<close> computes \<^verbatim>\<open>(normalized_lon / band_width) as u16\<close>.\<close>
definition shard_from_location :: "(GeoLocation \<Rightarrow> u16 \<Rightarrow> u16) \<Rightarrow> ShardManager \<Rightarrow> GeoLocation \<Rightarrow> ShardId" where
  "shard_from_location band self location =
     (let index = band location (shc_active_shards (sm_config self))
      in ShardId (min index (shc_active_shards (sm_config self) - 1)))"

text \<open>An address has 32 bytes, so the two indices are in range.\<close>
definition shard_from_address :: "ShardManager \<Rightarrow> Address \<Rightarrow> ShardId" where
  "shard_from_address self address =
     (let hash_val = of_be_bytes [address_bytes address ! 0, address_bytes address ! 1]
      in ShardId (hash_val mod shc_active_shards (sm_config self)))"

definition assign_shard ::
  "(GeoLocation \<Rightarrow> u16 \<Rightarrow> u16) \<Rightarrow> ShardManager \<Rightarrow> GeoLocation option \<Rightarrow> Address \<Rightarrow> ShardId" where
  "assign_shard band self location fallback_address =
     (case location of
        Some loc \<Rightarrow> shard_from_location band self loc
      | None \<Rightarrow> shard_from_address self fallback_address)"

definition shard_for_transaction ::
  "(GeoLocation \<Rightarrow> u16 \<Rightarrow> u16) \<Rightarrow> ShardManager \<Rightarrow> GeoLocation option \<Rightarrow> Address \<Rightarrow> ShardId" where
  "shard_for_transaction band self sender_location sender_addr = assign_shard band self sender_location sender_addr"

definition cross_shard_routing ::
  "(GeoLocation \<Rightarrow> u16 \<Rightarrow> u16) \<Rightarrow> ShardManager \<Rightarrow> GeoLocation option \<Rightarrow> Address \<Rightarrow> GeoLocation option \<Rightarrow> Address
     \<Rightarrow> (ShardId \<times> ShardId) option" where
  "cross_shard_routing band self sender_location sender_addr recipient_location recipient_addr =
     (let source = assign_shard band self sender_location sender_addr;
          dest = assign_shard band self recipient_location recipient_addr
      in if source = dest then None else Some (source, dest))"

definition get_shard_state :: "ShardManager \<Rightarrow> ShardId \<Rightarrow> (GratiaError, ShardState) result" where
  "get_shard_state self shard =
     (if shard_index shard < length (sm_shard_states self) then Ok (sm_shard_states self ! shard_index shard)
      else Err (GE_ShardNotAvailable (shard_index shard)))"

text \<open>\<^verbatim>\<open>get_shard_state_mut\<close> with the change its caller makes through the reference.\<close>
definition get_shard_state_mut ::
  "ShardManager \<Rightarrow> ShardId \<Rightarrow> (ShardState \<Rightarrow> ShardState) \<Rightarrow> (GratiaError, unit) result \<times> ShardManager" where
  "get_shard_state_mut self shard change =
     (if shard_index shard < length (sm_shard_states self)
      then (Ok (), self\<lparr>sm_shard_states := (sm_shard_states self)[shard_index shard := change (sm_shard_states self ! shard_index shard)]\<rparr>)
      else (Err (GE_ShardNotAvailable (shard_index shard)), self))"

definition update_shard :: "ShardManager \<Rightarrow> ShardId \<Rightarrow> u64 \<Rightarrow> bytes \<Rightarrow> (GratiaError, unit) result \<times> ShardManager" where
  "update_shard self shard new_height new_state_root =
     get_shard_state_mut self shard (\<lambda>state. state\<lparr>shs_block_height := new_height, shs_state_root := new_state_root\<rparr>)"

definition set_active_nodes :: "ShardManager \<Rightarrow> ShardId \<Rightarrow> u64 \<Rightarrow> (GratiaError, unit) result \<times> ShardManager" where
  "set_active_nodes self shard count =
     get_shard_state_mut self shard (\<lambda>state. state\<lparr>shs_active_nodes := count\<rparr>)"

definition is_shard_healthy :: "ShardManager \<Rightarrow> ShardId \<Rightarrow> (GratiaError, bool) result" where
  "is_shard_healthy self shard =
     map_sum id (\<lambda>state. shs_active_nodes state \<ge> shc_min_nodes_per_shard (sm_config self)) (get_shard_state self shard)"

definition evaluate_shard_health :: "ShardManager \<Rightarrow> ShardId \<Rightarrow> (GratiaError, ShardHealth) result" where
  "evaluate_shard_health self shard =
     map_sum id (\<lambda>state. let minimum = shc_min_nodes_per_shard (sm_config self) in
        if shs_active_nodes state < minimum then SH_Critical
        else if shs_active_nodes state < mul_u64 minimum 2 then SH_Warning else SH_Healthy) (get_shard_state self shard)"

definition should_split :: "ShardManager \<Rightarrow> ShardId \<Rightarrow> (GratiaError, bool) result" where
  "should_split self shard =
     map_sum id (\<lambda>state.
        let threshold = mul_u64 (shc_min_nodes_per_shard (sm_config self)) (shc_split_multiplier (sm_config self)) in
        shs_active_nodes state > threshold \<and> shc_active_shards (sm_config self) < MAX_SHARDS
        \<and> shm_days_above_split (shs_health_metrics state) \<ge> shc_split_persistence_days (sm_config self)) (get_shard_state self shard)"

definition should_merge :: "ShardManager \<Rightarrow> ShardId \<Rightarrow> (GratiaError, bool) result" where
  "should_merge self shard =
     map_sum id (\<lambda>state.
        shs_active_nodes state < shc_min_nodes_per_shard (sm_config self)
        \<and> shm_days_below_minimum (shs_health_metrics state) \<ge> shc_merge_persistence_days (sm_config self)
        \<and> shc_active_shards (sm_config self) > 1) (get_shard_state self shard)"

definition should_activate_sharding :: "ShardManager \<Rightarrow> u64 \<Rightarrow> bool" where
  "should_activate_sharding self total_network_nodes =
     (total_network_nodes \<ge> SHARDING_ACTIVATION_THRESHOLD \<and> shc_active_shards (sm_config self) \<le> 1)"

definition cross_shard_validator_count :: "usize \<Rightarrow> usize" where
  "cross_shard_validator_count committee_size = add_u64 (mul_u64 committee_size CROSS_SHARD_COMMITTEE_PCT) 99 div 100"

section \<open>Well-formed managers\<close>

definition sharding_ok :: "ShardManager \<Rightarrow> bool" where
  "sharding_ok self \<longleftrightarrow> 0 < active_shard_count self
     \<and> map shs_shard_id (sm_shard_states self) = map ShardId [0..<active_shard_count self]"

lemma sharding_new_ok: "ShardManager_new config = Some m \<Longrightarrow> sharding_ok m"
  by (auto simp: ShardManager_new_def sharding_ok_def active_shard_count_def ShardState_new_def split: if_splits)

lemma sharding_ok_length: "sharding_ok m \<Longrightarrow> length (sm_shard_states m) = active_shard_count m"
  by (metis sharding_ok_def diff_zero length_map length_upt)

lemma shard_change_ok:
  assumes "sharding_ok m" "\<And>s. shs_shard_id (f s) = shs_shard_id s"
  shows "sharding_ok (snd (get_shard_state_mut m shard f))"
proof -
  have "map shs_shard_id ((sm_shard_states m)[i := f (sm_shard_states m ! i)]) = map shs_shard_id (sm_shard_states m)" for i
    using assms(2) by (metis list_update_id map_update)
  then show ?thesis
    using assms(1) by (simp add: get_shard_state_mut_def sharding_ok_def active_shard_count_def)
qed

datatype shard_event = SE_Update ShardId u64 bytes | SE_Nodes ShardId u64

fun shard_step :: "ShardManager \<Rightarrow> shard_event \<Rightarrow> ShardManager" where
  "shard_step m (SE_Update i h r) = snd (update_shard m i h r)"
| "shard_step m (SE_Nodes i n) = snd (set_active_nodes m i n)"

interpretation shards: keeps_invariant shard_step "\<lambda>_ _. True" sharding_ok
proof
  fix m e
  assume "sharding_ok m"
  then show "sharding_ok (shard_step m e)"
    by (cases e) (auto simp: update_shard_def set_active_nodes_def intro: shard_change_ok)
qed

lemma shard_step_count: "active_shard_count (shard_step m e) = active_shard_count m"
  by (cases e) (auto simp: active_shard_count_def update_shard_def set_active_nodes_def get_shard_state_mut_def)

lemma shard_run_count: "active_shard_count (foldl shard_step m es) = active_shard_count m"
  by (induction es arbitrary: m) (simp_all add: shard_step_count)

lemma assign_shard_bound: "0 < active_shard_count m \<Longrightarrow> shard_index (assign_shard band m loc a) < active_shard_count m"
  by (auto simp: assign_shard_def shard_from_location_def shard_from_address_def active_shard_count_def Let_def
      split: option.splits)

section \<open>Properties\<close>

text \<open>Every assignment is to a shard that exists. After any sequence of updates a manager built from a
  configuration has one state per active shard, under its own number, and whatever an address or a
  location is assigned to, or a transaction is routed between, can be looked up and updated.\<close>

theorem assignments_exist:
  assumes "ShardManager_new config = Some m0" "m = foldl shard_step m0 es"
  shows "length (sm_shard_states m) = shc_active_shards config
    \<and> (\<exists>st. get_shard_state m (assign_shard band m loc a) = Ok st \<and> shs_shard_id st = assign_shard band m loc a)
    \<and> is_ok (fst (update_shard m (assign_shard band m loc a) h r))
    \<and> (cross_shard_routing band m loc a loc' a' = Some (src, dst) \<longrightarrow>
         src \<noteq> dst \<and> is_ok (get_shard_state m src) \<and> is_ok (get_shard_state m dst))"
proof -
  have "guarded (\<lambda>_ _. True) shard_step s es" for s by (induction es arbitrary: s) simp_all
  then have ok: "sharding_ok m" using shards.run_inv [OF sharding_new_ok [OF assms(1)]] assms(2) by simp
  have c: "active_shard_count m = shc_active_shards config"
    unfolding assms(2) shard_run_count
    using assms(1) by (auto simp: ShardManager_new_def active_shard_count_def split: if_splits)
  have len: "length (sm_shard_states m) = active_shard_count m" by (rule sharding_ok_length [OF ok])
  have i: "shard_index (assign_shard band m l b) < length (sm_shard_states m)" for l b
    unfolding len using ok by (intro assign_shard_bound) (simp add: sharding_ok_def)
  have "shs_shard_id (sm_shard_states m ! j) = ShardId j" if "j < length (sm_shard_states m)" for j
    using ok that len by (metis add_0 diff_zero length_upt nth_map nth_upt sharding_ok_def)
  then have "shs_shard_id (sm_shard_states m ! shard_index x) = x" if "shard_index x < length (sm_shard_states m)" for x
    using that by (cases x) simp
  then show ?thesis
    using i c len by (auto simp: get_shard_state_def update_shard_def get_shard_state_mut_def cross_shard_routing_def Let_def
        split: if_splits)
qed

theorem assignments_exist_witness:
  "\<exists>m. ShardManager_new ShardConfig_default = Some m \<and> length (sm_shard_states m) = 4
    \<and> is_ok (fst (update_shard m (assign_shard (\<lambda>_ _. 9) m None (Address (replicate 32 7))) 1 []))"
proof -
  obtain m where m: "ShardManager_new ShardConfig_default = Some m"
    by (simp add: ShardManager_new_def ShardConfig_default_def DEFAULT_ACTIVE_SHARDS_def)
  from assignments_exist [OF m, of m "[]" "\<lambda>_ _. 9" None "Address (replicate 32 7)" 1 "[]"] m show ?thesis
    by (simp add: ShardConfig_default_def DEFAULT_ACTIVE_SHARDS_def)
qed

text \<open>The share of validators from other shards is a fifth of the committee, rounded up, and never more
  than the committee.\<close>
lemma cross_shard_share:
  assumes "n \<le> 1000000"
  shows "5 * cross_shard_validator_count n \<ge> n" "5 * cross_shard_validator_count n < n + 5"
    "cross_shard_validator_count n \<le> n"
proof -
  have "cross_shard_validator_count n = (n * 20 + 99) div 100"
    using assms by (simp add: cross_shard_validator_count_def CROSS_SHARD_COMMITTEE_PCT_def U64_MAX_def)
  then show "5 * cross_shard_validator_count n \<ge> n" "5 * cross_shard_validator_count n < n + 5"
    "cross_shard_validator_count n \<le> n" by linarith+
qed

end
