(* ===== verification/Vrf.thy ===== *)
theory Vrf
  imports Core_Crypto
begin

text \<open>
  The verifiable random function of \<^verbatim>\<open>gratia-consensus/src/vrf.rs\<close>. The Ristretto group, its scalars
  and SHA-512 belong to external crates: they are the record \<open>Ristretto\<close>, and \<open>ristretto_ok\<close> lists
  what is used of them. Proofs are complete and their serialized form is read back exactly.
\<close>

section \<open>The group\<close>

record ('p, 's) Ristretto =
  g_base :: 'p
  g_smul :: "'s \<Rightarrow> 'p \<Rightarrow> 'p"
  g_add :: "'p \<Rightarrow> 'p \<Rightarrow> 'p"
  g_compress :: "'p \<Rightarrow> bytes"
  g_decompress :: "bytes \<Rightarrow> 'p option"
  g_uniform :: "bytes \<Rightarrow> 'p"
  s_wide :: "bytes \<Rightarrow> 's"
  s_canonical :: "bytes \<Rightarrow> 's option"
  s_bytes :: "'s \<Rightarrow> bytes"
  s_mul :: "'s \<Rightarrow> 's \<Rightarrow> 's"
  s_sub :: "'s \<Rightarrow> 's \<Rightarrow> 's"
  g_sha512 :: "bytes \<Rightarrow> bytes"

text \<open>Points and scalars survive their encodings, which have 32 bytes; scalars act on the group as a
  module, stated as the one equation the proof system needs.\<close>
definition ristretto_ok :: "('p, 's) Ristretto \<Rightarrow> bool" where
  "ristretto_ok g \<longleftrightarrow> (\<forall>p. length (g_compress g p) = 32 \<and> g_decompress g (g_compress g p) = Some p)
     \<and> (\<forall>s. length (s_bytes g s) = 32 \<and> s_canonical g (s_bytes g s) = Some s)
     \<and> (\<forall>k c x p. g_add g (g_smul g (s_sub g k (s_mul g c x)) p) (g_smul g c (g_smul g x p)) = g_smul g k p)"

section \<open>Model\<close>

definition VRF_HASH_TO_POINT_DOMAIN :: bytes where "VRF_HASH_TO_POINT_DOMAIN = byte_string ''gratia-vrf-h2c-v1''"
definition VRF_CHALLENGE_DOMAIN :: bytes where "VRF_CHALLENGE_DOMAIN = byte_string ''gratia-vrf-challenge-v1''"
definition VRF_OUTPUT_DOMAIN :: bytes where "VRF_OUTPUT_DOMAIN = byte_string ''gratia-vrf-output-v1''"
definition VRF_PROOF_SIZE :: usize where "VRF_PROOF_SIZE = 96"

record VrfProof =
  vp_output :: bytes
  vp_proof_bytes :: bytes

record 's VrfSecretKey =
  vsk_scalar :: 's

datatype VrfPublicKey = VrfPublicKey (vpk_bytes: bytes)

definition VrfSecretKey_generate :: "('p, 's) Ristretto \<Rightarrow> bytes \<Rightarrow> 's VrfSecretKey" where
  "VrfSecretKey_generate g key_bytes = \<lparr> vsk_scalar = s_wide g key_bytes \<rparr>"

definition from_ed25519_bytes :: "('p, 's) Ristretto \<Rightarrow> bytes \<Rightarrow> 's VrfSecretKey" where
  "from_ed25519_bytes g signing_key_bytes =
     \<lparr> vsk_scalar = s_wide g (g_sha512 g (byte_string ''gratia-vrf-keygen-v1:'' @ signing_key_bytes)) \<rparr>"

definition vrf_public_key :: "('p, 's) Ristretto \<Rightarrow> 's VrfSecretKey \<Rightarrow> VrfPublicKey" where
  "vrf_public_key g sk = VrfPublicKey (g_compress g (g_smul g (vsk_scalar sk) (g_base g)))"

definition from_slice_decompress :: "('p, 's) Ristretto \<Rightarrow> bytes \<Rightarrow> (GratiaError, 'p) result" where
  "from_slice_decompress g b =
     (if length b \<noteq> 32 then Err GE_InvalidVrfProof
      else case g_decompress g b of None \<Rightarrow> Err GE_InvalidVrfProof | Some p \<Rightarrow> Ok p)"

definition to_point :: "('p, 's) Ristretto \<Rightarrow> VrfPublicKey \<Rightarrow> (GratiaError, 'p) result" where
  "to_point g pk = from_slice_decompress g (vpk_bytes pk)"

definition hash_to_point :: "('p, 's) Ristretto \<Rightarrow> bytes \<Rightarrow> 'p" where
  "hash_to_point g input = g_uniform g (g_sha512 g (VRF_HASH_TO_POINT_DOMAIN @ input))"

definition compute_challenge :: "('p, 's) Ristretto \<Rightarrow> 'p \<Rightarrow> 'p \<Rightarrow> 'p \<Rightarrow> 'p \<Rightarrow> 'p \<Rightarrow> 's" where
  "compute_challenge g public_key h gamma u v =
     s_wide g (g_sha512 g (VRF_CHALLENGE_DOMAIN @ g_compress g public_key @ g_compress g h @ g_compress g gamma
       @ g_compress g u @ g_compress g v))"

definition gamma_to_output :: "('p, 's) Ristretto \<Rightarrow> 'p \<Rightarrow> bytes" where
  "gamma_to_output g gamma = take 32 (g_sha512 g (VRF_OUTPUT_DOMAIN @ g_compress g gamma))"

definition generate_vrf_proof :: "('p, 's) Ristretto \<Rightarrow> 's VrfSecretKey \<Rightarrow> bytes \<Rightarrow> VrfProof" where
  "generate_vrf_proof g secret_key input =
     (let public_key_point = g_smul g (vsk_scalar secret_key) (g_base g);
          h = hash_to_point g input;
          gamma = g_smul g (vsk_scalar secret_key) h;
          k = s_wide g (g_sha512 g (byte_string ''gratia-vrf-nonce-v1:'' @ s_bytes g (vsk_scalar secret_key) @ input));
          u = g_smul g k (g_base g);
          v = g_smul g k h;
          c = compute_challenge g public_key_point h gamma u v;
          s = s_sub g k (s_mul g c (vsk_scalar secret_key))
      in \<lparr> vp_output = gamma_to_output g gamma,
           vp_proof_bytes = g_compress g gamma @ s_bytes g c @ s_bytes g s \<rparr>)"

definition canonical_scalar :: "('p, 's) Ristretto \<Rightarrow> bytes \<Rightarrow> (GratiaError, 's) result" where
  "canonical_scalar g b = (case s_canonical g b of None \<Rightarrow> Err GE_InvalidVrfProof | Some s \<Rightarrow> Ok s)"

definition verify_vrf_proof :: "('p, 's) Ristretto \<Rightarrow> VrfPublicKey \<Rightarrow> bytes \<Rightarrow> VrfProof \<Rightarrow> (GratiaError, bytes) result" where
  "verify_vrf_proof g public_key input proof =
     (if length (vp_proof_bytes proof) \<noteq> VRF_PROOF_SIZE then Err GE_InvalidVrfProof
      else case from_slice_decompress g (take 32 (vp_proof_bytes proof)) of
        Err e \<Rightarrow> Err e
      | Ok gamma \<Rightarrow>
     (case canonical_scalar g (take 32 (drop 32 (vp_proof_bytes proof))) of
        Err e \<Rightarrow> Err e
      | Ok c \<Rightarrow>
     (case canonical_scalar g (take 32 (drop 64 (vp_proof_bytes proof))) of
        Err e \<Rightarrow> Err e
      | Ok s \<Rightarrow>
     (case to_point g public_key of
        Err e \<Rightarrow> Err e
      | Ok public_key_point \<Rightarrow>
          (let h = hash_to_point g input;
               u = g_add g (g_smul g s (g_base g)) (g_smul g c public_key_point);
               v = g_add g (g_smul g s h) (g_smul g c gamma);
               c_prime = compute_challenge g public_key_point h gamma u v;
               expected_output = gamma_to_output g gamma
           in if c \<noteq> c_prime then Err GE_InvalidVrfProof
              else if vp_output proof \<noteq> expected_output then Err GE_InvalidVrfProof
              else Ok expected_output)))))"

definition vrf_output_to_selection :: "bytes \<Rightarrow> u8 \<Rightarrow> u64" where
  "vrf_output_to_selection vrf_output presence_score =
     (let score = min (max presence_score 40) 100;
          raw = of_le_bytes (take 8 vrf_output)
      in raw div score)"

definition build_vrf_input :: "bytes \<Rightarrow> u64 \<Rightarrow> bytes" where
  "build_vrf_input previous_block_hash slot_number = previous_block_hash @ be_bytes 8 slot_number"

section \<open>Lemmas\<close>

text \<open>Whatever the group does, an accepted proof carries the output it is accepted for.\<close>
lemma verified_output: "verify_vrf_proof g pk input proof = Ok out \<Longrightarrow> vp_output proof = out"
  by (auto simp: verify_vrf_proof_def Let_def split: sum.splits if_splits)

lemma verify_proof_parts:
  assumes "ristretto_ok g" "vp_proof_bytes proof = g_compress g gamma @ s_bytes g c @ s_bytes g s"
  shows "verify_vrf_proof g (vrf_public_key g sk) input proof =
    (let h = hash_to_point g input; pkp = g_smul g (vsk_scalar sk) (g_base g);
         u = g_add g (g_smul g s (g_base g)) (g_smul g c pkp); v = g_add g (g_smul g s h) (g_smul g c gamma)
     in if c \<noteq> compute_challenge g pkp h gamma u v then Err GE_InvalidVrfProof
        else if vp_output proof \<noteq> gamma_to_output g gamma then Err GE_InvalidVrfProof
        else Ok (gamma_to_output g gamma))"
  using assms
  by (simp add: verify_vrf_proof_def VRF_PROOF_SIZE_def from_slice_decompress_def canonical_scalar_def to_point_def
      vrf_public_key_def ristretto_ok_def Let_def)

lemma selection_prefers_presence:
  "a \<le> b \<Longrightarrow> vrf_output_to_selection out b \<le> vrf_output_to_selection out a"
  by (simp add: vrf_output_to_selection_def div_le_mono2)

text \<open>The integers as a group, to see that the assumptions can be met.\<close>
definition int_bytes :: "int \<Rightarrow> bytes" where
  "int_bytes i = (if i < 0 then 1 else 0) # nat \<bar>i\<bar> # replicate 30 0"

definition int_of_bytes :: "bytes \<Rightarrow> int option" where
  "int_of_bytes b = (case b of s # n # _ \<Rightarrow> Some (if s = 1 then - int n else int n) | _ \<Rightarrow> None)"

definition int_group :: "(int, int) Ristretto" where
  "int_group = \<lparr> g_base = 1, g_smul = (*), g_add = (+), g_compress = int_bytes, g_decompress = int_of_bytes,
     g_uniform = (\<lambda>b. int (of_le_bytes (take 8 b))), s_wide = (\<lambda>b. int (of_le_bytes (take 8 b))),
     s_canonical = int_of_bytes, s_bytes = int_bytes, s_mul = (*), s_sub = (-), g_sha512 = (\<lambda>b. take 64 (b @ replicate 64 0)) \<rparr>"

lemma int_group_ok: "ristretto_ok int_group"
  by (auto simp: ristretto_ok_def int_group_def int_bytes_def int_of_bytes_def algebra_simps)

section \<open>Properties\<close>

text \<open>Completeness of the verifiable random function. The proof generated with a secret key for an input
  verifies under the public key of that secret key and for that input, and yields the output that was
  generated; and no proof verifies for another output than the one it carries.\<close>

theorem vrf_proof_verifies:
  assumes "ristretto_ok g"
  shows "verify_vrf_proof g (vrf_public_key g sk) input (generate_vrf_proof g sk input)
      = Ok (vp_output (generate_vrf_proof g sk input))
    \<and> (verify_vrf_proof g pk input' proof = Ok out \<longrightarrow> vp_output proof = out)"
proof -
  let ?x = "vsk_scalar sk"
  have "g_add g (g_smul g (s_sub g k (s_mul g c x)) p) (g_smul g c (g_smul g x p)) = g_smul g k p" for k c x p
    using assms by (simp add: ristretto_ok_def)
  then show ?thesis
    by (auto simp: verify_proof_parts [OF assms] generate_vrf_proof_def Let_def dest: verified_output)
qed

theorem vrf_proof_verifies_witness:
  "verify_vrf_proof int_group (vrf_public_key int_group \<lparr> vsk_scalar = 7 \<rparr>) [1, 2]
     (generate_vrf_proof int_group \<lparr> vsk_scalar = 7 \<rparr> [1, 2])
   = Ok (vp_output (generate_vrf_proof int_group \<lparr> vsk_scalar = 7 \<rparr> [1, 2]))"
  using vrf_proof_verifies [OF int_group_ok] by blast

end
