(* ===== verification/Committee.thy ===== *)
theory Committee
  imports Vrf Streamlet_Safety "HOL-Library.Multiset" "HOL-Library.Product_Lexorder"
begin

text \<open>
  The validator committee, \<^verbatim>\<open>gratia-consensus/src/committee.rs\<close>: the scaling tiers, eligibility, the
  cooldown, selection by weighted verifiable randomness, rotation and membership checks. All nodes
  that know the same candidates select the same committee, whatever order they learned of them;
  members are eligible, distinct and the best candidates; and two finality quorums of any tier share
  more members than can be faulty.
\<close>

section \<open>Tiers\<close>

definition MAX_COMMITTEE_SIZE :: usize where "MAX_COMMITTEE_SIZE = 21"
definition COMMITTEE_SIZE :: usize where "COMMITTEE_SIZE = MAX_COMMITTEE_SIZE"
definition FINALITY_THRESHOLD :: usize where "FINALITY_THRESHOLD = 14"
definition SLOTS_PER_EPOCH :: u64 where "SLOTS_PER_EPOCH = 900"
definition COMMITTEE_SELECTION_DOMAIN :: bytes where
  "COMMITTEE_SELECTION_DOMAIN = byte_string ''gratia-committee-select-v1''"

record CommitteeTier =
  ct_min_network_size :: u64
  ct_committee_size :: usize
  ct_finality_threshold :: usize
  ct_min_selection_pool :: u64
  ct_cooldown_rounds :: u64

definition SCALING_TIERS :: "CommitteeTier list" where
  "SCALING_TIERS = [
     \<lparr> ct_min_network_size = 0, ct_committee_size = 3, ct_finality_threshold = 2, ct_min_selection_pool = 10, ct_cooldown_rounds = 5 \<rparr>,
     \<lparr> ct_min_network_size = 100, ct_committee_size = 5, ct_finality_threshold = 4, ct_min_selection_pool = 50, ct_cooldown_rounds = 3 \<rparr>,
     \<lparr> ct_min_network_size = 500, ct_committee_size = 7, ct_finality_threshold = 5, ct_min_selection_pool = 100, ct_cooldown_rounds = 2 \<rparr>,
     \<lparr> ct_min_network_size = 2500, ct_committee_size = 11, ct_finality_threshold = 8, ct_min_selection_pool = 500, ct_cooldown_rounds = 1 \<rparr>,
     \<lparr> ct_min_network_size = 10000, ct_committee_size = 15, ct_finality_threshold = 10, ct_min_selection_pool = 2000, ct_cooldown_rounds = 1 \<rparr>,
     \<lparr> ct_min_network_size = 50000, ct_committee_size = 19, ct_finality_threshold = 13, ct_min_selection_pool = 10000, ct_cooldown_rounds = 1 \<rparr>,
     \<lparr> ct_min_network_size = 100000, ct_committee_size = 21, ct_finality_threshold = 14, ct_min_selection_pool = 20000, ct_cooldown_rounds = 1 \<rparr>]"

definition tier_for_network_size :: "u64 \<Rightarrow> CommitteeTier" where
  "tier_for_network_size network_size =
     (case find (\<lambda>tier. network_size \<ge> ct_min_network_size tier) (rev SCALING_TIERS) of
        Some tier \<Rightarrow> tier | None \<Rightarrow> SCALING_TIERS ! 0)"

definition committee_size_for_network :: "u64 \<Rightarrow> usize" where
  "committee_size_for_network network_size = ct_committee_size (tier_for_network_size network_size)"

definition finality_threshold_for_network :: "u64 \<Rightarrow> usize" where
  "finality_threshold_for_network network_size = ct_finality_threshold (tier_for_network_size network_size)"

section \<open>Nodes and committees\<close>

record EligibleNode =
  en_node_id :: NodeId
  en_vrf_pubkey :: VrfPublicKey
  en_presence_score :: u8
  en_has_valid_pol :: bool
  en_meets_minimum_stake :: bool
  en_pol_days :: u64
  en_signing_pubkey :: bytes
  en_vrf_proof :: bytes

definition is_eligible :: "EligibleNode \<Rightarrow> bool" where
  "is_eligible n = (en_has_valid_pol n \<and> en_meets_minimum_stake n \<and> en_presence_score n \<ge> 40)"

definition is_committee_eligible :: "EligibleNode \<Rightarrow> bool" where
  "is_committee_eligible n = (is_eligible n \<and> en_pol_days n \<ge> 30)"

record CommitteeMember =
  cm_node_id :: NodeId
  cm_vrf_pubkey :: VrfPublicKey
  cm_presence_score :: u8
  cm_selection_proof :: VrfProof
  cm_selection_value :: u64
  cm_signing_pubkey :: bytes

record CommitteeEpoch =
  ce_epoch_number :: u64
  ce_start_slot :: u64
  ce_end_slot :: u64
  ce_established_at :: datetime
  ce_seed :: bytes

record ValidatorCommittee =
  vc_epoch :: CommitteeEpoch
  vc_members :: "CommitteeMember list"
  vc_committee_size :: usize
  vc_finality_threshold :: usize
  vc_network_size_snapshot :: u64

definition is_committee_member :: "ValidatorCommittee \<Rightarrow> NodeId \<Rightarrow> bool" where
  "is_committee_member self node = list_ex (\<lambda>m. cm_node_id m = node) (vc_members self)"

definition get_member :: "ValidatorCommittee \<Rightarrow> NodeId \<Rightarrow> CommitteeMember option" where
  "get_member self node = find (\<lambda>m. cm_node_id m = node) (vc_members self)"

definition get_signing_pubkey :: "ValidatorCommittee \<Rightarrow> NodeId \<Rightarrow> bytes option" where
  "get_signing_pubkey self node =
     (case get_member self node of
        None \<Rightarrow> None
      | Some m \<Rightarrow> if cm_signing_pubkey m = [] then None else Some (cm_signing_pubkey m))"

definition block_producer_for_slot :: "ValidatorCommittee \<Rightarrow> u64 \<Rightarrow> CommitteeMember option" where
  "block_producer_for_slot self slot =
     (if vc_members self = [] then None
      else case checked_sub_u64 slot (ce_start_slot (vc_epoch self)) of
        None \<Rightarrow> None
      | Some offset \<Rightarrow>
          (let index = offset mod length (vc_members self)
           in if index < length (vc_members self) then Some (vc_members self ! index) else None))"

definition has_finality :: "ValidatorCommittee \<Rightarrow> usize \<Rightarrow> bool" where
  "has_finality self signature_count = (signature_count \<ge> vc_finality_threshold self)"

definition contains_slot :: "ValidatorCommittee \<Rightarrow> u64 \<Rightarrow> bool" where
  "contains_slot self slot = (slot \<ge> ce_start_slot (vc_epoch self) \<and> slot < ce_end_slot (vc_epoch self))"

definition vc_size :: "ValidatorCommittee \<Rightarrow> usize" where
  "vc_size self = length (vc_members self)"

section \<open>Cooldown\<close>

record CooldownTracker =
  cd_recent_committees :: "NodeId list list"

definition CooldownTracker_new :: CooldownTracker where
  "CooldownTracker_new = \<lparr> cd_recent_committees = [] \<rparr>"

definition record_committee :: "CooldownTracker \<Rightarrow> CommitteeMember list \<Rightarrow> CooldownTracker" where
  "record_committee self members =
     (let recent = map cm_node_id members # cd_recent_committees self
      in self\<lparr>cd_recent_committees := if length recent > 20 then take 20 recent else recent\<rparr>)"

definition is_in_cooldown :: "CooldownTracker \<Rightarrow> NodeId \<Rightarrow> u64 \<Rightarrow> bool" where
  "is_in_cooldown self node cooldown_rounds =
     (if cooldown_rounds = 0 then False
      else list_ex (\<lambda>recent. node \<in> set recent) (take cooldown_rounds (cd_recent_committees self)))"

section \<open>Selection\<close>

definition selection_input :: "bytes \<Rightarrow> u64 \<Rightarrow> bytes" where
  "selection_input epoch_seed epoch_number = COMMITTEE_SELECTION_DOMAIN @ epoch_seed @ be_bytes 8 epoch_number"

text \<open>The body of the loop over the eligible nodes; \<open>None\<close> skips the node.\<close>
definition candidate_of :: "('p, 's) Ristretto \<Rightarrow> (bytes \<Rightarrow> bytes) \<Rightarrow> bytes \<Rightarrow> EligibleNode \<Rightarrow> CommitteeMember option" where
  "candidate_of g sha256 input node =
     (case (if en_vrf_proof node \<noteq> [] then
              (case verify_vrf_proof g (en_vrf_pubkey node) input
                      \<lparr> vp_output = replicate 32 0, vp_proof_bytes = en_vrf_proof node \<rparr> of
                 Ok verified_output \<Rightarrow> Some (verified_output, en_vrf_proof node)
               | Err _ \<Rightarrow> None)
            else Some (sha256 (input @ node_id_bytes (en_node_id node)), [])) of
        None \<Rightarrow> None
      | Some (out, proof_bytes) \<Rightarrow>
          Some \<lparr> cm_node_id = en_node_id node, cm_vrf_pubkey = en_vrf_pubkey node,
                 cm_presence_score = en_presence_score node,
                 cm_selection_proof = \<lparr> vp_output = out, vp_proof_bytes = proof_bytes \<rparr>,
                 cm_selection_value = vrf_output_to_selection out (en_presence_score node),
                 cm_signing_pubkey = en_signing_pubkey node \<rparr>)"

definition selection_key :: "CommitteeMember \<Rightarrow> u64 \<times> bytes" where
  "selection_key m = (cm_selection_value m, node_id_bytes (cm_node_id m))"

text \<open>The pool the committee is drawn from, before the cooldown and after it.\<close>
definition eligible_pool :: "CommitteeTier \<Rightarrow> EligibleNode list \<Rightarrow> EligibleNode list" where
  "eligible_pool tier eligible_nodes =
     (let eligible = filter is_committee_eligible eligible_nodes
      in if length eligible < ct_committee_size tier then filter is_eligible eligible_nodes else eligible)"

definition apply_cooldown ::
  "CommitteeTier \<Rightarrow> EligibleNode list \<Rightarrow> CooldownTracker option \<Rightarrow> EligibleNode list \<Rightarrow> EligibleNode list" where
  "apply_cooldown tier eligible_nodes cooldown_tracker eligible =
     (case cooldown_tracker of
        None \<Rightarrow> eligible
      | Some tracker \<Rightarrow>
          (let eligible = filter (\<lambda>n. \<not> is_in_cooldown tracker (en_node_id n) (ct_cooldown_rounds tier)) eligible
           in if length eligible < ct_committee_size tier then filter is_eligible eligible_nodes else eligible))"

definition select_committee_with_network_size ::
  "('p, 's) Ristretto \<Rightarrow> (bytes \<Rightarrow> bytes) \<Rightarrow> datetime \<Rightarrow> EligibleNode list \<Rightarrow> bytes \<Rightarrow> u64 \<Rightarrow> u64 \<Rightarrow> u64
     \<Rightarrow> CooldownTracker option \<Rightarrow> (GratiaError, ValidatorCommittee) result" where
  "select_committee_with_network_size g sha256 now eligible_nodes epoch_seed epoch_number current_slot network_size cooldown_tracker =
     (let tier = tier_for_network_size network_size;
          eligible = eligible_pool tier eligible_nodes
      in if eligible = [] then Err (GE_BlockValidationFailed ''No eligible nodes for committee selection'')
      else
        let eligible = apply_cooldown tier eligible_nodes cooldown_tracker eligible;
            candidates = List.map_filter (candidate_of g sha256 (selection_input epoch_seed epoch_number)) eligible;
            candidates = sort_key selection_key candidates;
            candidates = take (min (ct_committee_size tier) (length candidates)) candidates;
            epoch = \<lparr> ce_epoch_number = epoch_number, ce_start_slot = current_slot,
                      ce_end_slot = add_u64 current_slot SLOTS_PER_EPOCH, ce_established_at = now, ce_seed = epoch_seed \<rparr>;
            real_signers = length (filter (\<lambda>m. cm_signing_pubkey m \<noteq> []) candidates);
            effective_threshold = (if real_signers \<le> 1 then 1 else ct_finality_threshold tier)
        in Ok \<lparr> vc_epoch = epoch, vc_members = candidates, vc_committee_size = ct_committee_size tier,
                vc_finality_threshold = effective_threshold, vc_network_size_snapshot = network_size \<rparr>)"

definition select_committee ::
  "('p, 's) Ristretto \<Rightarrow> (bytes \<Rightarrow> bytes) \<Rightarrow> datetime \<Rightarrow> EligibleNode list \<Rightarrow> bytes \<Rightarrow> u64 \<Rightarrow> u64
     \<Rightarrow> (GratiaError, ValidatorCommittee) result" where
  "select_committee g sha256 now eligible_nodes epoch_seed epoch_number current_slot =
     (let network_size = length (filter is_eligible eligible_nodes)
      in select_committee_with_network_size g sha256 now eligible_nodes epoch_seed epoch_number current_slot network_size None)"

definition should_rotate :: "ValidatorCommittee \<Rightarrow> u64 \<Rightarrow> bool" where
  "should_rotate committee current_slot = (current_slot \<ge> ce_end_slot (vc_epoch committee))"

definition rotation_seed :: "(bytes \<Rightarrow> bytes) \<Rightarrow> bytes \<Rightarrow> u64 \<Rightarrow> bytes" where
  "rotation_seed sha256 last_block_hash new_epoch_number =
     sha256_multi sha256 [byte_string ''gratia-epoch-seed-v1:'', last_block_hash, be_bytes 8 new_epoch_number]"

definition rotate_committee ::
  "('p, 's) Ristretto \<Rightarrow> (bytes \<Rightarrow> bytes) \<Rightarrow> datetime \<Rightarrow> EligibleNode list \<Rightarrow> ValidatorCommittee \<Rightarrow> bytes
     \<Rightarrow> (GratiaError, ValidatorCommittee) result" where
  "rotate_committee g sha256 now eligible_nodes previous_committee last_block_hash =
     (let new_epoch_number = add_u64 (ce_epoch_number (vc_epoch previous_committee)) 1;
          new_start_slot = ce_end_slot (vc_epoch previous_committee);
          new_seed = rotation_seed sha256 last_block_hash new_epoch_number
      in select_committee g sha256 now eligible_nodes new_seed new_epoch_number new_start_slot)"

definition rotate_committee_with_network_size ::
  "('p, 's) Ristretto \<Rightarrow> (bytes \<Rightarrow> bytes) \<Rightarrow> datetime \<Rightarrow> EligibleNode list \<Rightarrow> ValidatorCommittee \<Rightarrow> bytes \<Rightarrow> u64
     \<Rightarrow> CooldownTracker option \<Rightarrow> (GratiaError, ValidatorCommittee) result" where
  "rotate_committee_with_network_size g sha256 now eligible_nodes previous_committee last_block_hash network_size cooldown_tracker =
     (let new_epoch_number = add_u64 (ce_epoch_number (vc_epoch previous_committee)) 1;
          new_start_slot = ce_end_slot (vc_epoch previous_committee);
          new_seed = rotation_seed sha256 last_block_hash new_epoch_number
      in select_committee_with_network_size g sha256 now eligible_nodes new_seed new_epoch_number new_start_slot
           network_size cooldown_tracker)"

definition derive_epoch_seed :: "(bytes \<Rightarrow> bytes) \<Rightarrow> bytes list \<Rightarrow> u64 \<Rightarrow> bytes" where
  "derive_epoch_seed sha256 block_hashes epoch =
     (let relevant = (if length block_hashes > 8 then drop (length block_hashes - 8) block_hashes else block_hashes)
      in sha256_multi sha256 ([byte_string ''gratia-randao-seed-v1:''] @ relevant @ [be_bytes 8 epoch]))"

definition verify_committee_membership ::
  "('p, 's) Ristretto \<Rightarrow> (bytes \<Rightarrow> bytes) \<Rightarrow> CommitteeMember \<Rightarrow> bytes \<Rightarrow> u64 \<Rightarrow> bytes option \<Rightarrow> (GratiaError, unit) result" where
  "verify_committee_membership g sha256 node epoch_seed epoch_number vrf_input_override =
     (if vp_proof_bytes (cm_selection_proof node) = [] then
        (let expected_output = sha256 (selection_input epoch_seed epoch_number @ node_id_bytes (cm_node_id node))
         in if vp_output (cm_selection_proof node) \<noteq> expected_output then Err GE_InvalidVrfProof else Ok ())
      else
        let input = (case vrf_input_override of Some i \<Rightarrow> i | None \<Rightarrow> selection_input epoch_seed epoch_number)
        in map_sum id (\<lambda>_. ()) (verify_vrf_proof g (cm_vrf_pubkey node) input (cm_selection_proof node)))"

section \<open>Lemmas\<close>

lemma tier_in_table: "tier_for_network_size n \<in> set SCALING_TIERS"
  by (auto simp: tier_for_network_size_def SCALING_TIERS_def)

lemma tier_found:
  "ct_min_network_size (tier_for_network_size n) \<le> n
   \<and> (\<forall>tier \<in> set SCALING_TIERS. ct_min_network_size tier \<le> n
        \<longrightarrow> ct_min_network_size tier \<le> ct_min_network_size (tier_for_network_size n))"
  by (auto simp: tier_for_network_size_def SCALING_TIERS_def)

lemma candidate_of_SomeD:
  "candidate_of g h input node = Some m \<Longrightarrow>
     cm_node_id m = en_node_id node \<and> cm_presence_score m = en_presence_score node
     \<and> cm_signing_pubkey m = en_signing_pubkey node \<and> cm_vrf_pubkey m = en_vrf_pubkey node
     \<and> cm_selection_value m = vrf_output_to_selection (vp_output (cm_selection_proof m)) (cm_presence_score m)"
  by (auto simp: candidate_of_def split: if_splits sum.splits)

lemma candidate_has_no_real_proof:
  "candidate_of g h input node = Some m \<Longrightarrow> en_vrf_proof node = [] \<or> vp_output (cm_selection_proof m) = replicate 32 0"
  by (auto simp: candidate_of_def dest: verified_output split: if_splits sum.splits)

lemma candidate_verifies:
  assumes "candidate_of g h (selection_input seed epoch) node = Some m"
  shows "verify_committee_membership g h m seed epoch None = Ok ()"
proof (cases "en_vrf_proof node = []")
  case True
  then show ?thesis using assms by (auto simp: candidate_of_def verify_committee_membership_def)
next
  case False
  then obtain out where v: "verify_vrf_proof g (en_vrf_pubkey node) (selection_input seed epoch)
      \<lparr> vp_output = replicate 32 0, vp_proof_bytes = en_vrf_proof node \<rparr> = Ok out"
    and m: "cm_selection_proof m = \<lparr> vp_output = out, vp_proof_bytes = en_vrf_proof node \<rparr>" "cm_vrf_pubkey m = en_vrf_pubkey node"
    using assms by (auto simp: candidate_of_def split: sum.splits)
  have "out = replicate 32 0" using verified_output [OF v] by simp
  then show ?thesis using v m False by (simp add: verify_committee_membership_def)
qed

lemma map_filter_as_map: "List.map_filter f xs = map (\<lambda>x. the (f x)) (filter (\<lambda>x. f x \<noteq> None) xs)"
  by (simp add: List.map_filter_def)

lemma set_map_filter_iff: "m \<in> set (List.map_filter f xs) \<longleftrightarrow> (\<exists>x \<in> set xs. f x = Some m)"
  by (force simp: map_filter_as_map)

lemma distinct_candidates:
  "distinct (map en_node_id nodes) \<Longrightarrow> distinct (map cm_node_id (List.map_filter (candidate_of g h input) nodes))"
proof (induct nodes)
  case Nil then show ?case by (simp add: List.map_filter_simps)
next
  case (Cons node nodes)
  have "cm_node_id m \<notin> cm_node_id ` set (List.map_filter (candidate_of g h input) nodes)"
    if "candidate_of g h input node = Some m" for m
  proof
    assume "cm_node_id m \<in> cm_node_id ` set (List.map_filter (candidate_of g h input) nodes)"
    then obtain m' n where "n \<in> set nodes" "candidate_of g h input n = Some m'" "cm_node_id m = cm_node_id m'"
      by (auto simp: set_map_filter_iff)
    then have "en_node_id node \<in> en_node_id ` set nodes" using candidate_of_SomeD that by (metis image_eqI)
    then show False using Cons.prems by simp
  qed
  then show ?case using Cons by (auto simp: List.map_filter_simps split: option.split)
qed

lemma filter_distinct_ids: "distinct (map en_node_id nodes) \<Longrightarrow> distinct (map en_node_id (filter P nodes))"
  by (rule distinct_map_filter)

text \<open>The pool selection works on: a filter of the nodes given, whichever fallback is taken.\<close>
definition selection_pool :: "CommitteeTier \<Rightarrow> EligibleNode list \<Rightarrow> CooldownTracker option \<Rightarrow> EligibleNode list" where
  "selection_pool tier nodes cooldown = apply_cooldown tier nodes cooldown (eligible_pool tier nodes)"

lemma selection_pool_filter: "\<exists>P. selection_pool tier nodes cooldown = filter P nodes \<and> (\<forall>n. P n \<longrightarrow> is_eligible n)"
proof -
  have pool: "\<exists>P. eligible_pool tier nodes = filter P nodes \<and> (\<forall>n. P n \<longrightarrow> is_eligible n)"
    by (auto simp: eligible_pool_def Let_def is_committee_eligible_def)
  then obtain P where P: "eligible_pool tier nodes = filter P nodes" "\<forall>n. P n \<longrightarrow> is_eligible n" by blast
  show ?thesis
  proof (cases cooldown)
    case None then show ?thesis using pool by (simp add: selection_pool_def apply_cooldown_def)
  next
    case (Some tracker)
    let ?Q = "\<lambda>n. P n \<and> \<not> is_in_cooldown tracker (en_node_id n) (ct_cooldown_rounds tier)"
    have "selection_pool tier nodes cooldown = filter ?Q nodes \<or> selection_pool tier nodes cooldown = filter is_eligible nodes"
      by (simp add: selection_pool_def apply_cooldown_def Some P(1) Let_def)
    then show ?thesis using P(2) by (metis (mono_tags, lifting))
  qed
qed

lemma filter_mset_eq: "mset xs = mset ys \<Longrightarrow> mset (filter P xs) = mset (filter P ys)"
  by (simp add: mset_filter)

lemma filter_length_eq: "mset xs = mset ys \<Longrightarrow> length (filter P xs) = length (filter P ys)"
  by (rule mset_eq_length) (rule filter_mset_eq)

lemma eligible_pool_mset:
  assumes "mset xs = mset ys" shows "mset (eligible_pool tier xs) = mset (eligible_pool tier ys)"
  by (simp add: eligible_pool_def Let_def filter_length_eq [OF assms] filter_mset_eq [OF assms] del: mset_filter)

lemma apply_cooldown_mset:
  assumes "mset xs = mset ys" "mset es = mset fs"
  shows "mset (apply_cooldown tier xs cooldown es) = mset (apply_cooldown tier ys cooldown fs)"
  by (cases cooldown) (simp_all add: apply_cooldown_def Let_def assms(2) filter_length_eq [OF assms(2)]
      filter_mset_eq [OF assms(1)] filter_mset_eq [OF assms(2)] del: mset_filter)

lemma selection_pool_mset: "mset xs = mset ys \<Longrightarrow> mset (selection_pool tier xs cd) = mset (selection_pool tier ys cd)"
  unfolding selection_pool_def by (intro apply_cooldown_mset eligible_pool_mset)

lemma selection_pool_distinct:
  "distinct (map en_node_id nodes) \<Longrightarrow> distinct (map en_node_id (selection_pool tier nodes cd))"
  using selection_pool_filter [of tier nodes cd] by (auto simp: filter_distinct_ids)

definition candidates_of :: "('p, 's) Ristretto \<Rightarrow> (bytes \<Rightarrow> bytes) \<Rightarrow> bytes \<Rightarrow> u64 \<Rightarrow> EligibleNode list \<Rightarrow> CommitteeMember list" where
  "candidates_of g h seed epoch pool = List.map_filter (candidate_of g h (selection_input seed epoch)) pool"

lemma take_min_length: "take (min n (length xs)) xs = take n xs"
  by (simp add: min_def)

lemma select_unfold:
  "select_committee_with_network_size g h now nodes seed epoch slot n cd =
    (let tier = tier_for_network_size n;
         ms = take (ct_committee_size tier) (sort_key selection_key (candidates_of g h seed epoch (selection_pool tier nodes cd)))
     in if eligible_pool tier nodes = [] then Err (GE_BlockValidationFailed ''No eligible nodes for committee selection'')
        else Ok \<lparr> vc_epoch = \<lparr> ce_epoch_number = epoch, ce_start_slot = slot, ce_end_slot = add_u64 slot SLOTS_PER_EPOCH,
                   ce_established_at = now, ce_seed = seed \<rparr>,
                 vc_members = ms, vc_committee_size = ct_committee_size tier,
                 vc_finality_threshold =
                   (if length (filter (\<lambda>m. cm_signing_pubkey m \<noteq> []) ms) \<le> 1 then 1 else ct_finality_threshold tier),
                 vc_network_size_snapshot = n \<rparr>)"
  by (simp only: select_committee_with_network_size_def Let_def candidates_of_def selection_pool_def take_min_length)

lemma select_OkE:
  assumes "select_committee_with_network_size g h now nodes seed epoch slot n cd = Ok c"
  obtains tier where "tier = tier_for_network_size n" "eligible_pool tier nodes \<noteq> []"
    "vc_members c = take (ct_committee_size tier) (sort_key selection_key (candidates_of g h seed epoch (selection_pool tier nodes cd)))"
    "vc_committee_size c = ct_committee_size tier"
    "vc_finality_threshold c = (if length (filter (\<lambda>m. cm_signing_pubkey m \<noteq> []) (vc_members c)) \<le> 1 then 1 else ct_finality_threshold tier)"
  using assms by (auto simp: select_unfold Let_def split: if_splits)

lemma candidates_mset: "mset xs = mset ys \<Longrightarrow> mset (candidates_of g h seed epoch xs) = mset (candidates_of g h seed epoch ys)"
  by (simp add: candidates_of_def map_filter_as_map mset_map mset_filter)

lemma selection_key_inj:
  assumes "distinct (map cm_node_id ms)" shows "inj_on selection_key (set ms)"
proof (rule inj_onI)
  fix m m' assume "m \<in> set ms" "m' \<in> set ms" "selection_key m = selection_key m'"
  moreover have "inj_on cm_node_id (set ms)" using assms by (simp add: distinct_map)
  ultimately show "m = m'" by (auto simp: selection_key_def intro: inj_onD NodeId.expand)
qed

lemma sorted_candidates_agree:
  assumes "mset xs = mset ys" "distinct (map cm_node_id xs)"
  shows "sort_key selection_key xs = sort_key selection_key ys"
  using assms by (intro sort_key_inj_key_eq selection_key_inj) (simp_all add: sorted_sort_key)

lemma distinct_members:
  assumes "distinct (map en_node_id nodes)"
  shows "distinct (map cm_node_id (take k (sort_key selection_key (candidates_of g h seed epoch nodes))))"
proof -
  let ?cs = "candidates_of g h seed epoch nodes"
  have d: "distinct (map cm_node_id ?cs)" using distinct_candidates [OF assms] by (simp add: candidates_of_def)
  have "mset (map cm_node_id (sort_key selection_key ?cs)) = mset (map cm_node_id ?cs)" by simp
  then have "distinct (map cm_node_id (sort_key selection_key ?cs))" using d by (metis mset_eq_imp_distinct_iff)
  then show ?thesis by (simp add: take_map [symmetric] distinct_take)
qed

lemma take_sorted_best:
  assumes "distinct (map f xs)" "x \<in> set xs" "x \<notin> set (take k (sort_key f xs))"
  shows "k \<le> length (sort_key f xs) \<and> (\<forall>y \<in> set (take k (sort_key f xs)). f y < f x)"
proof -
  let ?ys = "sort_key f xs"
  have x: "x \<in> set (drop k ?ys)" using assms(2,3) by (metis Un_iff append_take_drop_id set_append set_sort)
  have "mset (map f ?ys) = mset (map f xs)" by simp
  then have "distinct (map f ?ys)" using assms(1) by (metis mset_eq_imp_distinct_iff)
  moreover have "sorted (map f (take k ?ys @ drop k ?ys))" by (simp add: sorted_sort_key)
  moreover have "distinct (map f (take k ?ys @ drop k ?ys))" using calculation(1) by simp
  ultimately have "f y < f x" if "y \<in> set (take k ?ys)" for y
    using that x by (fastforce simp: sorted_append simp del: append_take_drop_id simp: order.strict_iff_order)
  moreover have "k \<le> length ?ys" using x by (metis drop_all empty_iff linear list.set(1))
  ultimately show ?thesis by simp
qed

lemma member_candidate:
  assumes "select_committee_with_network_size g h now nodes seed epoch slot n cd = Ok c" "m \<in> set (vc_members c)"
  obtains node where "node \<in> set (selection_pool (tier_for_network_size n) nodes cd)" "node \<in> set nodes" "is_eligible node"
    "candidate_of g h (selection_input seed epoch) node = Some m"
proof (rule select_OkE [OF assms(1)])
  fix tier assume t: "tier = tier_for_network_size n" and ms: "vc_members c =
    take (ct_committee_size tier) (sort_key selection_key (candidates_of g h seed epoch (selection_pool tier nodes cd)))"
  have "m \<in> set (candidates_of g h seed epoch (selection_pool tier nodes cd))"
    using assms(2) unfolding ms by (metis in_set_takeD set_sort)
  then obtain node where "node \<in> set (selection_pool tier nodes cd)" "candidate_of g h (selection_input seed epoch) node = Some m"
    by (auto simp: candidates_of_def set_map_filter_iff)
  moreover obtain P where "selection_pool tier nodes cd = filter P nodes" "\<forall>n. P n \<longrightarrow> is_eligible n"
    using selection_pool_filter by blast
  ultimately show thesis using that t by auto
qed

lemma selected_members_distinct:
  assumes "select_committee_with_network_size g h now nodes seed epoch slot n cd = Ok c" "distinct (map en_node_id nodes)"
  shows "distinct (map cm_node_id (vc_members c))"
  using select_OkE [OF assms(1)] distinct_members [OF selection_pool_distinct [OF assms(2)]] by metis

lemma rested_pool:
  assumes "length (filter (\<lambda>n. is_committee_eligible n \<and> \<not> is_in_cooldown tracker (en_node_id n) (ct_cooldown_rounds tier)) nodes)
             \<ge> ct_committee_size tier"
  shows "selection_pool tier nodes (Some tracker) =
    filter (\<lambda>n. is_committee_eligible n \<and> \<not> is_in_cooldown tracker (en_node_id n) (ct_cooldown_rounds tier)) nodes"
proof -
  let ?r = "\<lambda>n. \<not> is_in_cooldown tracker (en_node_id n) (ct_cooldown_rounds tier)"
  have both: "filter ?r (filter is_committee_eligible nodes) = filter (\<lambda>n. is_committee_eligible n \<and> ?r n) nodes"
    by simp
  have "length (filter ?r (filter is_committee_eligible nodes)) \<le> length (filter is_committee_eligible nodes)"
    by (rule length_filter_le)
  then have "eligible_pool tier nodes = filter is_committee_eligible nodes"
    using assms unfolding both by (simp add: eligible_pool_def Let_def)
  then show ?thesis using assms both by (simp add: selection_pool_def apply_cooldown_def Let_def)
qed

section \<open>Quorums\<close>

definition signers :: "ValidatorCommittee \<Rightarrow> NodeId set" where
  "signers c = cm_node_id ` {m \<in> set (vc_members c). cm_signing_pubkey m \<noteq> []}"

text \<open>What every selected committee satisfies.\<close>
definition committee_wf :: "ValidatorCommittee \<Rightarrow> bool" where
  "committee_wf c \<longleftrightarrow> distinct (map cm_node_id (vc_members c))
     \<and> (\<exists>tier \<in> set SCALING_TIERS. vc_committee_size c = ct_committee_size tier
          \<and> length (vc_members c) \<le> ct_committee_size tier
          \<and> vc_finality_threshold c = (if card (signers c) \<le> 1 then 1 else ct_finality_threshold tier))"

definition finality_quorum :: "ValidatorCommittee \<Rightarrow> NodeId set \<Rightarrow> bool" where
  "finality_quorum c Q \<longleftrightarrow> committee_wf c \<and> Q \<subseteq> signers c \<and> has_finality c (card Q)"

lemma card_signers:
  assumes "distinct (map cm_node_id (vc_members c))"
  shows "card (signers c) = length (filter (\<lambda>m. cm_signing_pubkey m \<noteq> []) (vc_members c))"
proof -
  have "distinct (map cm_node_id (filter (\<lambda>m. cm_signing_pubkey m \<noteq> []) (vc_members c)))"
    using assms by (rule distinct_map_filter)
  from distinct_card [OF this] show ?thesis by (simp add: signers_def)
qed

lemma selected_wf:
  assumes "select_committee_with_network_size g h now nodes seed epoch slot n cd = Ok c" "distinct (map en_node_id nodes)"
  shows "committee_wf c"
proof -
  have d: "distinct (map cm_node_id (vc_members c))" using selected_members_distinct [OF assms] .
  obtain tier where "tier = tier_for_network_size n"
    "vc_members c = take (ct_committee_size tier) (sort_key selection_key (candidates_of g h seed epoch (selection_pool tier nodes cd)))"
    "vc_committee_size c = ct_committee_size tier"
    "vc_finality_threshold c = (if length (filter (\<lambda>m. cm_signing_pubkey m \<noteq> []) (vc_members c)) \<le> 1 then 1 else ct_finality_threshold tier)"
    using select_OkE [OF assms(1)] by metis
  then show ?thesis using d card_signers [OF d] tier_in_table [of n]
    by (auto simp: committee_wf_def intro!: bexI [of _ tier])
qed

lemma tier_overlap:
  "tier \<in> set SCALING_TIERS \<Longrightarrow>
     ct_finality_threshold tier \<le> ct_committee_size tier
     \<and> 2 * ct_finality_threshold tier > ct_committee_size tier + (ct_committee_size tier - 1) div 3"
  by (auto simp: SCALING_TIERS_def)

lemma quorum_overlap:
  assumes "finality_quorum c Q" "finality_quorum c Q'"
  shows "card (Q \<inter> Q') > (card (signers c) - 1) div 3"
proof -
  obtain tier where wf: "distinct (map cm_node_id (vc_members c))" and t: "tier \<in> set SCALING_TIERS"
    "length (vc_members c) \<le> ct_committee_size tier"
    "vc_finality_threshold c = (if card (signers c) \<le> 1 then 1 else ct_finality_threshold tier)"
    using assms(1) by (auto simp: finality_quorum_def committee_wf_def)
  have sub: "Q \<subseteq> signers c" "Q' \<subseteq> signers c" "finite (signers c)"
    and q: "vc_finality_threshold c \<le> card Q" "vc_finality_threshold c \<le> card Q'"
    using assms by (simp_all add: finality_quorum_def has_finality_def signers_def)
  have fin: "finite Q" "finite Q'" using sub finite_subset by blast+
  have "card (Q \<union> Q') \<le> card (signers c)" using sub by (intro card_mono) auto
  then have sum: "card Q + card Q' \<le> card (signers c) + card (Q \<inter> Q')" using card_Un_Int [OF fin] by simp
  have "card (signers c) \<le> ct_committee_size tier"
    using t(2) card_signers [OF wf] length_filter_le le_trans by metis
  then have "(card (signers c) - 1) div 3 \<le> (ct_committee_size tier - 1) div 3" by (intro div_le_mono) simp
  then show ?thesis using sum q t(3) tier_overlap [OF t(1)] \<open>card (signers c) \<le> ct_committee_size tier\<close>
    by (auto split: if_splits)
qed

interpretation finality: quorum_system "finality_quorum c" for c
  by unfold_locales (use quorum_overlap in fastforce)

section \<open>Concrete nodes\<close>

definition phone :: "nat \<Rightarrow> bytes \<Rightarrow> EligibleNode" where
  "phone i proof = \<lparr> en_node_id = NodeId [i], en_vrf_pubkey = vrf_public_key int_group \<lparr> vsk_scalar = int i \<rparr>,
     en_presence_score = 50, en_has_valid_pol = True, en_meets_minimum_stake = True, en_pol_days = 40,
     en_signing_pubkey = [i], en_vrf_proof = proof \<rparr>"

definition phones :: "EligibleNode list" where
  "phones = [phone 1 [], phone 2 [], phone 3 [], phone 4 []]"

definition seed_hash :: "bytes \<Rightarrow> bytes" where
  "seed_hash b = take 32 (rev b @ replicate 32 0)"

abbreviation phone_committee :: "EligibleNode list \<Rightarrow> CooldownTracker option \<Rightarrow> (GratiaError, ValidatorCommittee) result" where
  "phone_committee nodes cd \<equiv> select_committee_with_network_size int_group seed_hash 0 nodes [7] 1 900 10 cd"

lemmas phone_simps = phones_def phone_def is_eligible_def is_committee_eligible_def tier_for_network_size_def SCALING_TIERS_def

lemma phones_distinct: "distinct (map en_node_id phones)"
  by (simp add: phone_simps)

lemma phones_select: "\<exists>c. phone_committee phones cd = Ok c"
proof -
  have "eligible_pool (tier_for_network_size 10) phones \<noteq> []"
    by (simp add: eligible_pool_def phone_simps)
  then show ?thesis by (simp add: select_unfold Let_def)
qed

lemma phones_quorum:
  assumes "phone_committee phones None = Ok c" shows "finality_quorum c (signers c)"
proof -
  have ms: "vc_members c = take 3 (sort_key selection_key (candidates_of int_group seed_hash [7] 1 phones))"
    and th: "vc_finality_threshold c \<le> 2"
    using assms by (auto simp: select_unfold Let_def selection_pool_def apply_cooldown_def eligible_pool_def phone_simps)
  have len: "length (candidates_of int_group seed_hash [7] 1 phones) = 4"
    by (simp add: candidates_of_def phones_def phone_def candidate_of_def List.map_filter_simps)
  have "cm_signing_pubkey m \<noteq> []" if m: "m \<in> set (vc_members c)" for m
  proof -
    obtain node where "node \<in> set phones" "candidate_of int_group seed_hash (selection_input [7] 1) node = Some m"
      using member_candidate [OF assms m] by metis
    then show ?thesis using candidate_of_SomeD [of int_group seed_hash _ node m] by (auto simp: phones_def phone_def)
  qed
  then have "filter (\<lambda>m. cm_signing_pubkey m \<noteq> []) (vc_members c) = vc_members c" by simp
  then have "card (signers c) = 3"
    using card_signers [OF selected_members_distinct [OF assms phones_distinct]] len by (simp add: ms)
  then show ?thesis using th selected_wf [OF assms phones_distinct] by (simp add: finality_quorum_def has_finality_def)
qed

section \<open>Properties\<close>

text \<open>C22: Agreement on the committee. Nodes that hold the same candidates, in whatever order they learned of
  them, compute the same committee when they select one and when they rotate, with or without a
  cooldown: same members in the same order, same finality threshold, same error.\<close>

theorem committee_agreed:
  assumes "distinct (map en_node_id nodes)" "mset nodes' = mset nodes"
  shows "select_committee_with_network_size g h now nodes' seed epoch slot n cd
           = select_committee_with_network_size g h now nodes seed epoch slot n cd
    \<and> select_committee g h now nodes' seed epoch slot = select_committee g h now nodes seed epoch slot
    \<and> rotate_committee_with_network_size g h now nodes' prev last_hash n cd
        = rotate_committee_with_network_size g h now nodes prev last_hash n cd
    \<and> rotate_committee g h now nodes' prev last_hash = rotate_committee g h now nodes prev last_hash"
proof -
  have sel: "select_committee_with_network_size g h now nodes' seed epoch slot n cd
      = select_committee_with_network_size g h now nodes seed epoch slot n cd" for seed epoch slot n cd
  proof -
    let ?t = "tier_for_network_size n"
    have "distinct (map cm_node_id (candidates_of g h seed epoch (selection_pool ?t nodes cd)))"
      using distinct_candidates [OF selection_pool_distinct [OF assms(1)]] by (simp add: candidates_of_def)
    then have "sort_key selection_key (candidates_of g h seed epoch (selection_pool ?t nodes cd))
        = sort_key selection_key (candidates_of g h seed epoch (selection_pool ?t nodes' cd))"
      using candidates_mset [OF selection_pool_mset [OF assms(2) [symmetric]]] by (intro sorted_candidates_agree)
    moreover have "eligible_pool ?t nodes' = [] \<longleftrightarrow> eligible_pool ?t nodes = []"
      using eligible_pool_mset [OF assms(2)] by (metis mset_zero_iff)
    ultimately show ?thesis by (simp only: select_unfold Let_def)
  qed
  have len: "length (filter is_eligible nodes') = length (filter is_eligible nodes)"
    using filter_length_eq [OF assms(2)] .
  show ?thesis
    by (simp only: rotate_committee_def rotate_committee_with_network_size_def select_committee_def sel len simp_thms)
qed

theorem committee_agreed_witness: "phone_committee (rev phones) None = phone_committee phones None"
  using committee_agreed [OF phones_distinct mset_rev] by blast

text \<open>C23: Soundness of the selection. Every member of a selected committee is an eligible node of the
  input with that node's score and key, no node is a member twice, there are never more members
  than the tier allows, every member passes the membership check of other nodes, and a candidate
  that was left out has a strictly worse selection key than every member of a full committee.\<close>

theorem committee_sound:
  assumes "distinct (map en_node_id nodes)"
    "select_committee_with_network_size g h now nodes seed epoch slot n cd = Ok c"
  shows "distinct (map cm_node_id (vc_members c)) \<and> vc_size c \<le> committee_size_for_network n
    \<and> (\<forall>m \<in> set (vc_members c). verify_committee_membership g h m seed epoch None = Ok ()
        \<and> (\<exists>node \<in> set nodes. is_eligible node \<and> en_node_id node = cm_node_id m
             \<and> en_presence_score node = cm_presence_score m \<and> en_signing_pubkey node = cm_signing_pubkey m))
    \<and> (\<forall>m'. (\<exists>node \<in> set (selection_pool (tier_for_network_size n) nodes cd).
               candidate_of g h (selection_input seed epoch) node = Some m') \<and> m' \<notin> set (vc_members c)
         \<longrightarrow> vc_size c = committee_size_for_network n \<and> (\<forall>m \<in> set (vc_members c). selection_key m < selection_key m'))"
proof -
  let ?t = "tier_for_network_size n"
  let ?cs = "candidates_of g h seed epoch (selection_pool ?t nodes cd)"
  have ms: "vc_members c = take (ct_committee_size ?t) (sort_key selection_key ?cs)"
    using select_OkE [OF assms(2)] by metis
  have "distinct (map cm_node_id ?cs)"
    using distinct_candidates [OF selection_pool_distinct [OF assms(1)]] by (simp add: candidates_of_def)
  then have keys: "distinct (map selection_key ?cs)"
    using selection_key_inj by (auto simp: distinct_map)
  have best: "ct_committee_size ?t \<le> length (sort_key selection_key ?cs) \<and> (\<forall>m \<in> set (vc_members c). selection_key m < selection_key m')"
    if "node \<in> set (selection_pool ?t nodes cd)" "candidate_of g h (selection_input seed epoch) node = Some m'"
      "m' \<notin> set (vc_members c)" for node m'
  proof -
    have "m' \<in> set ?cs" using that by (auto simp: candidates_of_def set_map_filter_iff)
    from take_sorted_best [OF keys this that(3) [unfolded ms]] show ?thesis unfolding ms .
  qed
  have member: "verify_committee_membership g h m seed epoch None = Ok ()
      \<and> (\<exists>node \<in> set nodes. is_eligible node \<and> en_node_id node = cm_node_id m
           \<and> en_presence_score node = cm_presence_score m \<and> en_signing_pubkey node = cm_signing_pubkey m)"
    if m: "m \<in> set (vc_members c)" for m
  proof -
    obtain node where "node \<in> set nodes" "is_eligible node" "candidate_of g h (selection_input seed epoch) node = Some m"
      using member_candidate [OF assms(2) m] by metis
    then show ?thesis using candidate_verifies candidate_of_SomeD by metis
  qed
  have "vc_size c \<le> committee_size_for_network n" by (simp add: vc_size_def committee_size_for_network_def ms)
  moreover have "vc_size c = committee_size_for_network n" if "ct_committee_size ?t \<le> length (sort_key selection_key ?cs)"
    using that by (simp add: vc_size_def committee_size_for_network_def ms)
  ultimately show ?thesis using selected_members_distinct [OF assms(2,1)] member best by blast
qed

theorem committee_sound_witness:
  "\<exists>c. phone_committee phones None = Ok c \<and> distinct (map cm_node_id (vc_members c)) \<and> vc_size c \<le> 3"
  using committee_sound [OF phones_distinct] phones_select [of None]
  by (fastforce simp: committee_size_for_network_def tier_for_network_size_def SCALING_TIERS_def)

text \<open>Quorum intersection at every tier. In a committee selected from distinct nodes, any two sets of
  signing members that each reach finality share more members than a third of the signers less one,
  so at most that many faulty members cannot finalize two conflicting blocks. This includes the
  threshold of one used when at most one member can sign.\<close>

theorem finality_quorums_intersect:
  assumes "distinct (map en_node_id nodes)"
    "select_committee_with_network_size g h now nodes seed epoch slot n cd = Ok c"
    "Q \<subseteq> signers c" "Q' \<subseteq> signers c" "has_finality c (card Q)" "has_finality c (card Q')"
  shows "card (Q \<inter> Q') > (card (signers c) - 1) div 3 \<and> Q \<inter> Q' \<noteq> {}"
proof -
  have "finality_quorum c Q" "finality_quorum c Q'"
    using assms selected_wf [OF assms(2,1)] by (simp_all add: finality_quorum_def)
  then show ?thesis using quorum_overlap finality.intersect by blast
qed

theorem finality_quorums_intersect_witness:
  "\<exists>c. phone_committee phones None = Ok c \<and> signers c \<inter> signers c \<noteq> {}"
proof -
  obtain c where c: "phone_committee phones None = Ok c" using phones_select by blast
  have "has_finality c (card (signers c))" using phones_quorum [OF c] by (simp add: finality_quorum_def)
  then show ?thesis using finality_quorums_intersect [OF phones_distinct c order_refl order_refl] c by blast
qed

text \<open>C34: Submitting a real proof excludes a node. The selection checks a submitted proof against an output of
  32 zero bytes, although verification compares the output with the proof's own: a node that honestly
  proves the selection input with its key is never selected unless its output happens to be all zeros,
  while the same node without any proof competes normally.\<close>

theorem honest_proof_excludes_node:
  assumes "ristretto_ok g" "distinct (map en_node_id nodes)" "node \<in> set nodes"
    "proof = generate_vrf_proof g sk (selection_input seed epoch)" "vp_output proof \<noteq> replicate 32 0"
    "en_vrf_pubkey node = vrf_public_key g sk" "en_vrf_proof node = vp_proof_bytes proof"
    "select_committee_with_network_size g h now nodes seed epoch slot n cd = Ok c"
  shows "\<not> is_committee_member c (en_node_id node)"
proof
  assume "is_committee_member c (en_node_id node)"
  then obtain m where m: "m \<in> set (vc_members c)" "cm_node_id m = en_node_id node"
    by (auto simp: is_committee_member_def list_ex_iff)
  obtain node' where "node' \<in> set nodes" "candidate_of g h (selection_input seed epoch) node' = Some m"
    using member_candidate [OF assms(8) m(1)] by metis
  moreover from this have "node' = node"
    using m(2) candidate_of_SomeD assms(2,3) by (metis distinct_map inj_onD)
  ultimately have cand: "candidate_of g h (selection_input seed epoch) node = Some m" by simp
  have bytes: "vp_proof_bytes proof \<noteq> []"
    using assms(1) by (auto simp: assms(4) generate_vrf_proof_def Let_def ristretto_ok_def dest!: arg_cong [of _ _ length])
  obtain out where ok: "verify_vrf_proof g (vrf_public_key g sk) (selection_input seed epoch)
      \<lparr> vp_output = replicate 32 0, vp_proof_bytes = vp_proof_bytes proof \<rparr> = Ok out"
    using cand bytes by (auto simp: candidate_of_def assms(6,7) split: sum.splits)
  have "out = vp_output proof" using ok
    by (simp add: verify_proof_parts [OF assms(1)] assms(4) generate_vrf_proof_def Let_def split: if_splits)
  then show False using verified_output [OF ok] assms(5) by simp
qed

theorem honest_proof_excludes_node_witness:
  "\<exists>c. phone_committee (phone 9 (vp_proof_bytes (generate_vrf_proof int_group \<lparr> vsk_scalar = 9 \<rparr> (selection_input [7] 1))) # phones) None = Ok c
     \<and> \<not> is_committee_member c (NodeId [9])"
proof -
  let ?p = "generate_vrf_proof int_group \<lparr> vsk_scalar = 9 \<rparr> (selection_input [7] 1)"
  let ?nodes = "phone 9 (vp_proof_bytes ?p) # phones"
  have "eligible_pool (tier_for_network_size 10) ?nodes \<noteq> []" by (simp add: eligible_pool_def phone_simps)
  then obtain c where c: "phone_committee ?nodes None = Ok c" by (simp add: select_unfold Let_def)
  have "hd (vp_output ?p) \<noteq> 0"
    by (simp add: generate_vrf_proof_def Let_def gamma_to_output_def int_group_def VRF_OUTPUT_DOMAIN_def byte_string_def take_Cons')
  then have out: "vp_output ?p \<noteq> replicate 32 0" by (metis hd_replicate num.simps(3) zero_neq_numeral)
  have "distinct (map en_node_id ?nodes)" by (simp add: phones_def phone_def)
  from honest_proof_excludes_node [OF int_group_ok this _ refl out _ _ c, of "phone 9 (vp_proof_bytes ?p)"]
  show ?thesis using c by (simp add: phone_def)
qed

text \<open>Trust and rest. When at least a committee's worth of nodes is both established (30 days of
  history) and rested, every member of the selected committee is established and did not serve in the
  committees of the cooldown window.\<close>

theorem committee_established_and_rested:
  assumes "select_committee_with_network_size g h now nodes seed epoch slot n (Some tracker) = Ok c"
    "length (filter (\<lambda>n'. is_committee_eligible n' \<and> \<not> is_in_cooldown tracker (en_node_id n')
        (ct_cooldown_rounds (tier_for_network_size n))) nodes) \<ge> committee_size_for_network n"
    "m \<in> set (vc_members c)"
  shows "(\<exists>node \<in> set nodes. en_node_id node = cm_node_id m \<and> is_committee_eligible node \<and> 30 \<le> en_pol_days node)
    \<and> (\<forall>recent \<in> set (take (ct_cooldown_rounds (tier_for_network_size n)) (cd_recent_committees tracker)). cm_node_id m \<notin> set recent)"
proof -
  obtain node where "node \<in> set (selection_pool (tier_for_network_size n) nodes (Some tracker))"
    and cand: "candidate_of g h (selection_input seed epoch) node = Some m"
    using member_candidate [OF assms(1,3)] by metis
  then have "node \<in> set nodes" "is_committee_eligible node"
    "\<not> is_in_cooldown tracker (cm_node_id m) (ct_cooldown_rounds (tier_for_network_size n))"
    using rested_pool [OF assms(2) [unfolded committee_size_for_network_def]] candidate_of_SomeD [OF cand] by auto
  then show ?thesis using candidate_of_SomeD [OF cand]
    by (auto simp: is_in_cooldown_def is_committee_eligible_def list_ex_iff split: if_splits)
qed

definition served :: "nat \<Rightarrow> CooldownTracker" where
  "served i = record_committee CooldownTracker_new
     [\<lparr> cm_node_id = NodeId [i], cm_vrf_pubkey = VrfPublicKey [], cm_presence_score = 50,
        cm_selection_proof = \<lparr> vp_output = [], vp_proof_bytes = [] \<rparr>, cm_selection_value = 0, cm_signing_pubkey = [i] \<rparr>]"

theorem committee_established_and_rested_witness:
  "\<exists>c. phone_committee phones (Some (served 2)) = Ok c \<and> vc_members c \<noteq> []
     \<and> (\<forall>m \<in> set (vc_members c). cm_node_id m \<noteq> NodeId [2])"
proof -
  obtain c where c: "phone_committee phones (Some (served 2)) = Ok c" using phones_select by blast
  let ?r = "\<lambda>n'. is_committee_eligible n' \<and> \<not> is_in_cooldown (served 2) (en_node_id n') (ct_cooldown_rounds (tier_for_network_size 10))"
  note s = served_def record_committee_def CooldownTracker_new_def is_in_cooldown_def
  have rested: "filter ?r phones = [phone 1 [], phone 3 [], phone 4 []]" by (simp add: phone_simps s)
  then have enough: "committee_size_for_network 10 \<le> length (filter ?r phones)"
    by (simp add: committee_size_for_network_def tier_for_network_size_def SCALING_TIERS_def)
  have "cm_node_id m \<noteq> NodeId [2]" if "m \<in> set (vc_members c)" for m
    using committee_established_and_rested [OF c enough that]
    by (auto simp: s tier_for_network_size_def SCALING_TIERS_def)
  moreover have "length (candidates_of int_group seed_hash [7] 1 (filter ?r phones)) = 3"
    unfolding rested by (simp add: candidates_of_def phone_def candidate_of_def List.map_filter_simps)
  then have "vc_members c \<noteq> []"
    using c rested_pool [OF enough [unfolded committee_size_for_network_def]]
    by (auto simp: select_unfold Let_def tier_for_network_size_def SCALING_TIERS_def split: if_splits dest!: arg_cong [of _ _ length])
  ultimately show ?thesis using c by blast
qed

text \<open>When the cooldown leaves too few candidates the selection falls back to every eligible node, not to the
  established nodes it started from: three established nodes and one that joined today give a committee
  drawn from all four, although the established ones alone could fill it.\<close>

lemma cooldown_fallback_drops_trust:
  "selection_pool (tier_for_network_size 10) [phone 1 [], phone 2 [], phone 3 [], (phone 4 [])\<lparr>en_pol_days := 0\<rparr>] (Some (served 2))
     = [phone 1 [], phone 2 [], phone 3 [], (phone 4 [])\<lparr>en_pol_days := 0\<rparr>]"
  by (simp add: selection_pool_def apply_cooldown_def eligible_pool_def phone_simps is_in_cooldown_def served_def
      record_committee_def CooldownTracker_new_def)

end
