(* ===== verification/Zk_Proofs.thy ===== *)
theory Zk_Proofs
  imports Vrf
begin

text \<open>
  Proof of Life proofs and shielded transfers of \<^verbatim>\<open>gratia-zk\<close> (\<^verbatim>\<open>bulletproofs.rs\<close>, \<^verbatim>\<open>pedersen.rs\<close>,
  \<^verbatim>\<open>shielded_tx.rs\<close>). The group, the range-proof system and the transcript hash belong to external crates
  and are the record \<open>Zk_Env\<close>; a transcript is its domain and the messages appended to it. \<open>zk_ok\<close> states
  what is used: scalars act linearly and an aggregated range proof of values in range verifies under the
  same transcript for the Pedersen commitments to those values.
\<close>

section \<open>External proof system\<close>

type_synonym transcript = "bytes \<times> (bytes \<times> bytes) list"

record ('p, 's) Zk_Env =
  zk_group :: "('p, 's) Ristretto"
  zk_blinding_base :: 'p
  zk_scalar :: "nat \<Rightarrow> 's"
  zk_zero :: 's
  zk_add :: "'s \<Rightarrow> 's \<Rightarrow> 's"
  zk_mod_order :: "bytes \<Rightarrow> 's"
  zk_prove :: "nat \<times> nat \<Rightarrow> transcript \<Rightarrow> u64 list \<Rightarrow> 's list \<Rightarrow> nat \<Rightarrow> (string, bytes \<times> bytes list) result"
  zk_decodes :: "bytes \<Rightarrow> bool"
  zk_verify :: "nat \<times> nat \<Rightarrow> transcript \<Rightarrow> bytes \<Rightarrow> bytes list \<Rightarrow> nat \<Rightarrow> bool"

text \<open>\<^verbatim>\<open>PedersenGens::commit\<close>.\<close>
definition pc_commit :: "('p, 's) Zk_Env \<Rightarrow> 's \<Rightarrow> 's \<Rightarrow> 'p" where
  "pc_commit zk v r = g_add (zk_group zk) (g_smul (zk_group zk) v (g_base (zk_group zk)))
                            (g_smul (zk_group zk) r (zk_blinding_base zk))"

definition pc_compressed :: "('p, 's) Zk_Env \<Rightarrow> u64 \<Rightarrow> 's \<Rightarrow> bytes" where
  "pc_compressed zk v r = g_compress (zk_group zk) (pc_commit zk (zk_scalar zk v) r)"

definition zk_linear :: "('p, 's) Zk_Env \<Rightarrow> bool" where
  "zk_linear zk \<longleftrightarrow> (let g = zk_group zk in
     (\<forall>a b c. g_add g (g_add g a b) c = g_add g a (g_add g b c)) \<and> (\<forall>a b. g_add g a b = g_add g b a)
     \<and> (\<forall>a b p. g_smul g (zk_add zk a b) p = g_add g (g_smul g a p) (g_smul g b p))
     \<and> (\<forall>p q. g_add g q (g_smul g (zk_zero zk) p) = q)
     \<and> (\<forall>a b. a + b < 2 ^ 252 \<longrightarrow> zk_scalar zk (a + b) = zk_add zk (zk_scalar zk a) (zk_scalar zk b)))"

definition zk_complete :: "('p, 's) Zk_Env \<Rightarrow> bool" where
  "zk_complete zk \<longleftrightarrow> (\<forall>n tr vs rs. n \<in> {8, 16, 32, 64} \<and> length vs \<in> {1, 2, 4, 8} \<and> length rs = length vs
       \<and> (\<forall>v \<in> set vs. v < 2 ^ n)
     \<longrightarrow> (\<exists>proof. zk_prove zk (n, length vs) tr vs rs n = Ok (proof, map2 (pc_compressed zk) vs rs)
          \<and> zk_decodes zk proof \<and> zk_verify zk (n, length vs) tr proof (map2 (pc_compressed zk) vs rs) n))"

definition zk_ok :: "('p, 's) Zk_Env \<Rightarrow> bool" where
  "zk_ok zk \<longleftrightarrow> ristretto_ok (zk_group zk) \<and> zk_linear zk \<and> zk_complete zk"

text \<open>\<^verbatim>\<open>CompressedRistretto::from_slice\<close> checks the length only.\<close>
definition from_slice :: "bytes \<Rightarrow> bytes option" where
  "from_slice b = (if length b = 32 then Some b else None)"

definition append_u64 :: "transcript \<Rightarrow> string \<Rightarrow> u64 \<Rightarrow> transcript" where
  "append_u64 tr label x = (fst tr, snd tr @ [(byte_string label, le_bytes 8 x)])"

definition append_message :: "transcript \<Rightarrow> string \<Rightarrow> bytes \<Rightarrow> transcript" where
  "append_message tr label m = (fst tr, snd tr @ [(byte_string label, m)])"

section \<open>Proof of Life proofs\<close>

definition POL_PARAMETER_COUNT :: usize where "POL_PARAMETER_COUNT = 8"
definition FLEXIBLE_PARAMETER_COUNT :: usize where "FLEXIBLE_PARAMETER_COUNT = 4"
definition RANGE_PROOF_BITS :: usize where "RANGE_PROOF_BITS = 32"
definition RANGE_PROOF_BITS_LEGACY :: usize where "RANGE_PROOF_BITS_LEGACY = 16"
definition POL_TRANSCRIPT_DOMAIN :: bytes where "POL_TRANSCRIPT_DOMAIN = byte_string ''gratia-proof-of-life-v1''"
definition POL_RANGE_TRANSCRIPT_DOMAIN :: bytes where
  "POL_RANGE_TRANSCRIPT_DOMAIN = byte_string ''gratia-pol-range-proof-v1''"

datatype ZkError =
    ZK_ProofGenerationFailed string
  | ZK_VerificationFailed string
  | ZK_InvalidInput string
  | ZK_SerializationError string

fun GratiaError_from_ZkError :: "ZkError \<Rightarrow> GratiaError" where
  "GratiaError_from_ZkError (ZK_ProofGenerationFailed reason) = GE_InvalidZkProof reason"
| "GratiaError_from_ZkError (ZK_VerificationFailed reason) = GE_InvalidZkProof reason"
| "GratiaError_from_ZkError (ZK_InvalidInput reason) = GE_ProofOfLifeInvalid reason"
| "GratiaError_from_ZkError (ZK_SerializationError reason) = GE_SerializationError reason"

fun ZkError_to_string :: "ZkError \<Rightarrow> string" where
  "ZkError_to_string (ZK_ProofGenerationFailed reason) = ''proof generation failed: '' @ reason"
| "ZkError_to_string (ZK_VerificationFailed reason) = ''verification failed: '' @ reason"
| "ZkError_to_string (ZK_InvalidInput reason) = ''invalid input: '' @ reason"
| "ZkError_to_string (ZK_SerializationError reason) = ''serialization error: '' @ reason"

record PolProofInput =
  pi_unlock_count :: u64
  pi_unlock_spread_hours :: u64
  pi_interaction_sessions :: u64
  pi_bt_environments :: u64

record PolThresholds =
  min_unlocks :: u64
  min_spread :: u64
  min_interactions :: u64
  min_bt_envs :: u64

definition PolThresholds_default :: PolThresholds where
  "PolThresholds_default = \<lparr> min_unlocks = 10, min_spread = 6, min_interactions = 3, min_bt_envs = 2 \<rparr>"

record PolRangeProof =
  rp_proof_bytes :: bytes
  rp_commitments :: "bytes list"
  rp_parameter_count :: u8
  rp_epoch_day :: u32

fun shift_parameters :: "(string \<times> u64 \<times> u64) list \<Rightarrow> (ZkError, u64 list) result" where
  "shift_parameters [] = Ok []"
| "shift_parameters ((name, v, minimum) # ps) =
     (if v < minimum then Err (ZK_InvalidInput (name @ '' is '' @ show_nat v @ '' but must be at least '' @ show_nat minimum))
      else case shift_parameters ps of Err e \<Rightarrow> Err e | Ok vs \<Rightarrow> Ok ((v - minimum) # vs))"

definition generate_pol_proof ::
  "('p, 's) Zk_Env \<Rightarrow> 's list \<Rightarrow> PolProofInput \<Rightarrow> PolThresholds \<Rightarrow> u32 \<Rightarrow> (ZkError, PolRangeProof) result" where
  "generate_pol_proof zk blindings data thresholds epoch_day =
     (case shift_parameters
             [(''unlock_count'', pi_unlock_count data, min_unlocks thresholds),
              (''unlock_spread_hours'', pi_unlock_spread_hours data, min_spread thresholds),
              (''interaction_sessions'', pi_interaction_sessions data, min_interactions thresholds),
              (''bt_environments'', pi_bt_environments data, min_bt_envs thresholds)] of
        Err e \<Rightarrow> Err e
      | Ok shifted \<Rightarrow>
          (let transcript = append_u64 (POL_RANGE_TRANSCRIPT_DOMAIN, []) ''epoch_day'' epoch_day
           in case zk_prove zk (RANGE_PROOF_BITS, FLEXIBLE_PARAMETER_COUNT) transcript shifted blindings RANGE_PROOF_BITS of
             Err e \<Rightarrow> Err (ZK_ProofGenerationFailed (''Bulletproof prove_multiple failed: '' @ e))
           | Ok (proof, commitments) \<Rightarrow>
               Ok \<lparr> rp_proof_bytes = proof, rp_commitments = commitments,
                    rp_parameter_count = FLEXIBLE_PARAMETER_COUNT, rp_epoch_day = epoch_day \<rparr>))"

fun read_commitments :: "bytes list \<Rightarrow> (ZkError, bytes list) result" where
  "read_commitments [] = Ok []"
| "read_commitments (b # bs) =
     (if length b \<noteq> 32 then Err (ZK_SerializationError (''commitment must be 32 bytes, got '' @ show_nat (length b)))
      else case from_slice b of
        None \<Rightarrow> Err (ZK_SerializationError ''invalid compressed Ristretto point'')
      | Some c \<Rightarrow> (case read_commitments bs of Err e \<Rightarrow> Err e | Ok cs \<Rightarrow> Ok (c # cs)))"

definition epoch_mismatch :: "u32 \<Rightarrow> u32 \<Rightarrow> string" where
  "epoch_mismatch day expected =
     ''epoch_day mismatch: proof is for day '' @ show_nat day @ '' but expected day '' @ show_nat expected"

definition verify_pol_proof ::
  "('p, 's) Zk_Env \<Rightarrow> PolRangeProof \<Rightarrow> PolThresholds \<Rightarrow> u32 \<Rightarrow> (ZkError, bool) result" where
  "verify_pol_proof zk proof thresholds expected_epoch_day =
     (if rp_epoch_day proof \<noteq> expected_epoch_day
      then Err (ZK_VerificationFailed (epoch_mismatch (rp_epoch_day proof) expected_epoch_day))
      else if length (rp_commitments proof) \<noteq> FLEXIBLE_PARAMETER_COUNT
      then Err (ZK_InvalidInput (''expected '' @ show_nat FLEXIBLE_PARAMETER_COUNT @ '' commitments, got ''
                  @ show_nat (length (rp_commitments proof))))
      else if rp_parameter_count proof \<noteq> FLEXIBLE_PARAMETER_COUNT
      then Err (ZK_InvalidInput (''parameter_count is '' @ show_nat (rp_parameter_count proof) @ '' but expected ''
                  @ show_nat FLEXIBLE_PARAMETER_COUNT))
      else if \<not> zk_decodes zk (rp_proof_bytes proof) then Err (ZK_SerializationError ''invalid range proof encoding'')
      else case read_commitments (rp_commitments proof) of
        Err e \<Rightarrow> Err e
      | Ok commitments \<Rightarrow>
          (let transcript = append_u64 (POL_RANGE_TRANSCRIPT_DOMAIN, []) ''epoch_day'' (rp_epoch_day proof)
           in if zk_verify zk (RANGE_PROOF_BITS, FLEXIBLE_PARAMETER_COUNT) transcript (rp_proof_bytes proof) commitments RANGE_PROOF_BITS
              then Ok True
              else Err (ZK_VerificationFailed
                ''range proof verification failed: one or more PoL parameters not in valid range'')))"

record ProofOfLifeProof =
  pp_range_proof :: bytes
  pp_commitments :: "bytes list"
  pp_epoch_day :: u32

definition POL_MINIMUMS :: "u64 list" where "POL_MINIMUMS = [10, 6, 3, 1, 1, 1, 1, 1]"

fun shift_from :: "nat \<Rightarrow> (u64 \<times> u64) list \<Rightarrow> (GratiaError, u64 list) result" where
  "shift_from i [] = Ok []"
| "shift_from i ((v, minimum) # ps) =
     (if v < minimum
      then Err (GE_ProofOfLifeInvalid (''parameter '' @ show_nat i @ '' has value '' @ show_nat v @ '' but requires at least ''
                  @ show_nat minimum))
      else case shift_from (i + 1) ps of Err e \<Rightarrow> Err e | Ok vs \<Rightarrow> Ok ((v - minimum) # vs))"

definition encode_pol_parameters :: "DailyProofOfLifeData \<Rightarrow> (GratiaError, u64 list) result" where
  "encode_pol_parameters data =
     (let unlock_spread_hours =
            (case (first_unlock data, last_unlock data) of
               (Some first_at, Some last_at) \<Rightarrow> nat (max (num_hours (last_at - first_at)) 0)
             | _ \<Rightarrow> 0);
          network_value = distinct_bt_environments data;
          raw_values = [unlock_count data, unlock_spread_hours, interaction_sessions data,
            of_bool (orientation_changed data), of_bool (human_motion_detected data), of_bool (gps_fix_obtained data),
            network_value, of_bool (charge_cycle_event data)]
      in shift_from 0 (zip raw_values POL_MINIMUMS))"

definition prove_daily_attestation ::
  "('p, 's) Zk_Env \<Rightarrow> 's list \<Rightarrow> DailyProofOfLifeData \<Rightarrow> u32 \<Rightarrow> (GratiaError, ProofOfLifeProof) result" where
  "prove_daily_attestation zk blindings data epoch_day =
     (case encode_pol_parameters data of
        Err e \<Rightarrow> Err e
      | Ok encoded \<Rightarrow>
          (let transcript = append_u64 (POL_TRANSCRIPT_DOMAIN, []) ''epoch_day'' epoch_day
           in case zk_prove zk (RANGE_PROOF_BITS_LEGACY, POL_PARAMETER_COUNT) transcript encoded blindings RANGE_PROOF_BITS_LEGACY of
             Err e \<Rightarrow> Err (GE_InvalidZkProof (''Bulletproof generation failed: '' @ e))
           | Ok (proof, commitments) \<Rightarrow>
               Ok \<lparr> pp_range_proof = proof, pp_commitments = commitments, pp_epoch_day = epoch_day \<rparr>))"

definition verify_daily_attestation :: "('p, 's) Zk_Env \<Rightarrow> ProofOfLifeProof \<Rightarrow> u32 \<Rightarrow> (GratiaError, unit) result" where
  "verify_daily_attestation zk proof expected_epoch_day =
     (if pp_epoch_day proof \<noteq> expected_epoch_day
      then Err (GE_InvalidZkProof (epoch_mismatch (pp_epoch_day proof) expected_epoch_day))
      else if length (pp_commitments proof) \<noteq> POL_PARAMETER_COUNT
      then Err (GE_InvalidZkProof (''expected '' @ show_nat POL_PARAMETER_COUNT @ '' commitments, got ''
                  @ show_nat (length (pp_commitments proof))))
      else if \<not> zk_decodes zk (pp_range_proof proof) then Err (GE_InvalidZkProof ''invalid range proof encoding'')
      else case those (map from_slice (pp_commitments proof)) of
        None \<Rightarrow> Err (GE_InvalidZkProof ''invalid commitment point encoding'')
      | Some commitments \<Rightarrow>
          (let transcript = append_u64 (POL_TRANSCRIPT_DOMAIN, []) ''epoch_day'' (pp_epoch_day proof)
           in if zk_verify zk (RANGE_PROOF_BITS_LEGACY, POL_PARAMETER_COUNT) transcript (pp_range_proof proof) commitments
                   RANGE_PROOF_BITS_LEGACY
              then Ok ()
              else Err (GE_InvalidZkProof ''range proof verification failed: PoL parameters not in valid range'')))"

section \<open>Pedersen commitments\<close>

record PedersenCommitment =
  pc_point :: bytes

record 's PedersenOpening =
  po_value :: u64
  po_blinding :: 's

definition commit_with_blinding ::
  "('p, 's) Zk_Env \<Rightarrow> u64 \<Rightarrow> 's \<Rightarrow> PedersenCommitment \<times> 's PedersenOpening" where
  "commit_with_blinding zk value blinding =
     (\<lparr> pc_point = g_compress (zk_group zk) (pc_commit zk (zk_scalar zk value) blinding) \<rparr>,
      \<lparr> po_value = value, po_blinding = blinding \<rparr>)"

definition pedersen_commit ::
  "('p, 's) Zk_Env \<Rightarrow> 's \<Rightarrow> u64 \<Rightarrow> PedersenCommitment \<times> 's PedersenOpening" where
  "pedersen_commit zk random value = commit_with_blinding zk value random"

definition pedersen_verify ::
  "('p, 's) Zk_Env \<Rightarrow> PedersenCommitment \<Rightarrow> 's PedersenOpening \<Rightarrow> (GratiaError, unit) result" where
  "pedersen_verify zk commitment opening =
     (let expected_compressed = g_compress (zk_group zk) (pc_commit zk (zk_scalar zk (po_value opening)) (po_blinding opening))
      in case from_slice (pc_point commitment) of
           None \<Rightarrow> Err (GE_InvalidZkProof ''invalid commitment point encoding'')
         | Some committed_point \<Rightarrow>
             if expected_compressed = committed_point then Ok ()
             else Err (GE_InvalidZkProof ''commitment verification failed: value/blinding mismatch''))"

definition decompress :: "('p, 's) Zk_Env \<Rightarrow> PedersenCommitment \<Rightarrow> (GratiaError, 'p) result" where
  "decompress zk commitment =
     (case from_slice (pc_point commitment) of
        None \<Rightarrow> Err (GE_InvalidZkProof ''invalid commitment point encoding'')
      | Some b \<Rightarrow> (case g_decompress (zk_group zk) b of
          None \<Rightarrow> Err (GE_InvalidZkProof ''commitment point decompression failed'') | Some p \<Rightarrow> Ok p))"

definition verify_additive ::
  "('p, 's) Zk_Env \<Rightarrow> PedersenCommitment \<Rightarrow> PedersenCommitment \<Rightarrow> PedersenCommitment \<Rightarrow> (GratiaError, unit) result" where
  "verify_additive zk commitment_a commitment_b commitment_sum =
     (case decompress zk commitment_a of Err e \<Rightarrow> Err e | Ok point_a \<Rightarrow>
     (case decompress zk commitment_b of Err e \<Rightarrow> Err e | Ok point_b \<Rightarrow>
     (case decompress zk commitment_sum of Err e \<Rightarrow> Err e | Ok point_sum \<Rightarrow>
        if g_add (zk_group zk) point_a point_b = point_sum then Ok ()
        else Err (GE_InvalidZkProof ''additive commitment verification failed''))))"

definition blinding_from_seed :: "('p, 's) Zk_Env \<Rightarrow> (bytes \<Rightarrow> bytes) \<Rightarrow> bytes \<Rightarrow> bytes \<Rightarrow> 's" where
  "blinding_from_seed zk sha256 seed domain =
     zk_mod_order zk (sha256 (byte_string ''gratia-pedersen-blinding-v1:'' @ domain @ byte_string '':'' @ seed))"

section \<open>Shielded transfers\<close>

definition TX_RANGE_PROOF_BITS :: usize where "TX_RANGE_PROOF_BITS = 64"
definition TX_TRANSCRIPT_DOMAIN :: bytes where "TX_TRANSCRIPT_DOMAIN = byte_string ''gratia-shielded-transfer-v1''"
definition TX_PROOF_VALUES :: usize where "TX_PROOF_VALUES = 2"

record ShieldedTransactionProof =
  sp_amount_commitment :: PedersenCommitment
  sp_change_commitment :: PedersenCommitment
  sp_range_proof :: bytes

record 's ShieldedTransferSecret =
  sts_amount :: Lux
  sts_amount_blinding :: 's
  sts_change :: Lux
  sts_change_blinding :: 's

record ShieldedTransferContext =
  sc_sender_pubkey :: bytes
  sc_recipient :: bytes
  sc_nonce :: u64
  sc_chain_id :: u32

definition transfer_transcript :: "ShieldedTransferContext \<Rightarrow> transcript" where
  "transfer_transcript context =
     append_message (append_message (append_message (append_message (TX_TRANSCRIPT_DOMAIN, [])
       ''sender_pubkey'' (sc_sender_pubkey context)) ''recipient'' (sc_recipient context))
       ''nonce'' (le_bytes 8 (sc_nonce context))) ''chain_id'' (le_bytes 4 (sc_chain_id context))"

definition prove_transfer ::
  "('p, 's) Zk_Env \<Rightarrow> 's \<Rightarrow> 's \<Rightarrow> Lux \<Rightarrow> Lux \<Rightarrow> Lux \<Rightarrow> ShieldedTransferContext
     \<Rightarrow> (GratiaError, ShieldedTransactionProof \<times> 's ShieldedTransferSecret) result" where
  "prove_transfer zk amount_blinding change_blinding amount sender_balance fee context =
     (case checked_add_u64 amount fee of
        None \<Rightarrow> Err (GE_InvalidZkProof ''amount + fee overflow'')
      | Some total_debit \<Rightarrow>
          if sender_balance < total_debit then Err (GE_InsufficientBalance sender_balance total_debit)
          else
            let change = sender_balance - total_debit
            in case zk_prove zk (TX_RANGE_PROOF_BITS, TX_PROOF_VALUES) (transfer_transcript context)
                      [amount, change] [amount_blinding, change_blinding] TX_RANGE_PROOF_BITS of
                 Err e \<Rightarrow> Err (GE_InvalidZkProof (''shielded transfer proof generation failed: '' @ e))
               | Ok (proof, commitments) \<Rightarrow>
                   Ok (\<lparr> sp_amount_commitment = \<lparr> pc_point = commitments ! 0 \<rparr>,
                         sp_change_commitment = \<lparr> pc_point = commitments ! 1 \<rparr>, sp_range_proof = proof \<rparr>,
                       \<lparr> sts_amount = amount, sts_amount_blinding = amount_blinding,
                         sts_change = change, sts_change_blinding = change_blinding \<rparr>))"

definition verify_transfer ::
  "('p, 's) Zk_Env \<Rightarrow> ShieldedTransactionProof \<Rightarrow> ShieldedTransferContext \<Rightarrow> (GratiaError, unit) result" where
  "verify_transfer zk proof context =
     (if \<not> zk_decodes zk (sp_range_proof proof)
      then Err (GE_InvalidZkProof ''invalid shielded transfer range proof encoding'')
      else case from_slice (pc_point (sp_amount_commitment proof)) of
        None \<Rightarrow> Err (GE_InvalidZkProof ''invalid amount commitment encoding'')
      | Some amount_point \<Rightarrow>
     (case from_slice (pc_point (sp_change_commitment proof)) of
        None \<Rightarrow> Err (GE_InvalidZkProof ''invalid change commitment encoding'')
      | Some change_point \<Rightarrow>
          if zk_verify zk (TX_RANGE_PROOF_BITS, TX_PROOF_VALUES) (transfer_transcript context) (sp_range_proof proof)
               [amount_point, change_point] TX_RANGE_PROOF_BITS
          then Ok ()
          else Err (GE_InvalidZkProof ''shielded transfer range proof verification failed'')))"

definition verify_value_conservation ::
  "('p, 's) Zk_Env \<Rightarrow> PedersenCommitment \<Rightarrow> ShieldedTransactionProof \<Rightarrow> Lux \<Rightarrow> (GratiaError, unit) result" where
  "verify_value_conservation zk input_commitment proof fee =
     (case decompress zk input_commitment of Err e \<Rightarrow> Err e | Ok input_point \<Rightarrow>
     (case decompress zk (sp_amount_commitment proof) of Err e \<Rightarrow> Err e | Ok amount_point \<Rightarrow>
     (case decompress zk (sp_change_commitment proof) of Err e \<Rightarrow> Err e | Ok change_point \<Rightarrow>
        (let fee_point = pc_commit zk (zk_scalar zk fee) (zk_zero zk);
             expected_input = g_add (zk_group zk) (g_add (zk_group zk) amount_point change_point) fee_point
         in if input_point = expected_input then Ok ()
            else Err (GE_InvalidZkProof ''value conservation check failed: inputs != outputs'')))))"

definition verify_shielded_transaction ::
  "('p, 's) Zk_Env \<Rightarrow> PedersenCommitment \<Rightarrow> ShieldedTransactionProof \<Rightarrow> Lux \<Rightarrow> ShieldedTransferContext
     \<Rightarrow> (GratiaError, unit) result" where
  "verify_shielded_transaction zk input_commitment proof fee context =
     (case verify_transfer zk proof context of Err e \<Rightarrow> Err e
      | Ok _ \<Rightarrow> (case verify_value_conservation zk input_commitment proof fee of Err e \<Rightarrow> Err e | Ok _ \<Rightarrow> Ok ()))"

section \<open>Lemmas\<close>

lemma from_slice_compress: "ristretto_ok (zk_group zk) \<Longrightarrow> from_slice (pc_compressed zk v r) = Some (pc_compressed zk v r)"
  by (simp add: from_slice_def pc_compressed_def ristretto_ok_def)

lemma decompress_commitment:
  "ristretto_ok (zk_group zk) \<Longrightarrow> decompress zk \<lparr> pc_point = pc_compressed zk v r \<rparr> = Ok (pc_commit zk (zk_scalar zk v) r)"
  by (simp add: decompress_def from_slice_def pc_compressed_def ristretto_ok_def)

lemma read_commitments_ok: "\<forall>c \<in> set cs. length c = 32 \<Longrightarrow> read_commitments cs = Ok cs"
  by (induction cs) (auto simp: from_slice_def)

lemma those_from_slice: "\<forall>c \<in> set cs. length c = 32 \<Longrightarrow> those (map from_slice cs) = Some cs"
  by (induction cs) (auto simp: from_slice_def)

lemma commitments_length:
  "ristretto_ok (zk_group zk) \<Longrightarrow> c \<in> set (map2 (pc_compressed zk) vs rs) \<Longrightarrow> length c = 32"
  by (auto simp: pc_compressed_def ristretto_ok_def)

lemma shift_parameters_ok:
  "\<forall>(name, v, minimum) \<in> set ps. minimum \<le> v \<Longrightarrow> shift_parameters ps = Ok (map (\<lambda>(name, v, minimum). v - minimum) ps)"
  by (induction ps rule: shift_parameters.induct) auto

lemma shift_parameters_err:
  "(name, v, minimum) \<in> set ps \<Longrightarrow> v < minimum \<Longrightarrow> \<exists>reason. shift_parameters ps = Err (ZK_InvalidInput reason)"
  by (induction ps rule: shift_parameters.induct) (fastforce split: sum.splits)+

lemma shift_from_Ok:
  "shift_from i ps = Ok vs \<longleftrightarrow> (\<forall>(v, minimum) \<in> set ps. minimum \<le> v) \<and> vs = map (\<lambda>(v, minimum). v - minimum) ps"
proof (induction i ps arbitrary: vs rule: shift_from.induct)
  case (2 i v minimum ps)
  then show ?case by (cases "shift_from (i + 1) ps") (force split: if_splits)+
qed auto

text \<open>The hours between the first and the last unlock, as the encoding counts them.\<close>
definition spread_hours :: "DailyProofOfLifeData \<Rightarrow> u64" where
  "spread_hours d = (case (first_unlock d, last_unlock d) of
     (Some first_at, Some last_at) \<Rightarrow> nat (max (num_hours (last_at - first_at)) 0) | _ \<Rightarrow> 0)"

definition provable_day :: "DailyProofOfLifeData \<Rightarrow> bool" where
  "provable_day d \<longleftrightarrow> 10 \<le> unlock_count d \<and> 6 \<le> spread_hours d \<and> 3 \<le> interaction_sessions d
     \<and> orientation_changed d \<and> human_motion_detected d \<and> gps_fix_obtained d
     \<and> 1 \<le> distinct_bt_environments d \<and> charge_cycle_event d"

lemma encode_exact:
  "encode_pol_parameters d = Ok vs \<longleftrightarrow> provable_day d
     \<and> vs = [unlock_count d - 10, spread_hours d - 6, interaction_sessions d - 3, 0, 0, 0, distinct_bt_environments d - 1, 0]"
  by (auto simp: encode_pol_parameters_def spread_hours_def shift_from_Ok POL_MINIMUMS_def provable_day_def simp del: shift_from.simps)

text \<open>The prover succeeds on values in range, and its output verifies under the same transcript.\<close>
lemma proof_available:
  assumes "zk_ok zk" "n \<in> {8, 16, 32, 64}" "k \<in> {1, 2, 4, 8}" "length vs = k" "length rs = k" "\<forall>v \<in> set vs. v < 2 ^ n"
  obtains pf cs where "zk_prove zk (n, k) tr vs rs n = Ok (pf, cs)" "zk_decodes zk pf" "zk_verify zk (n, k) tr pf cs n"
    "length cs = k" "\<forall>c \<in> set cs. length c = 32" "cs = map2 (pc_compressed zk) vs rs"
proof -
  have "zk_complete zk" "ristretto_ok (zk_group zk)" using assms(1) by (simp_all add: zk_ok_def)
  moreover from this have "\<exists>pf. zk_prove zk (n, length vs) tr vs rs n = Ok (pf, map2 (pc_compressed zk) vs rs)
      \<and> zk_decodes zk pf \<and> zk_verify zk (n, length vs) tr pf (map2 (pc_compressed zk) vs rs) n"
    unfolding zk_complete_def by (elim allE [of _ n] allE [of _ tr] allE [of _ vs] allE [of _ rs] impE)
      (use assms(2-) in simp_all)
  then obtain pf where "zk_prove zk (n, k) tr vs rs n = Ok (pf, map2 (pc_compressed zk) vs rs)"
    "zk_decodes zk pf" "zk_verify zk (n, k) tr pf (map2 (pc_compressed zk) vs rs) n"
    unfolding assms(4) by (elim exE conjE)
  moreover have "length (map2 (pc_compressed zk) vs rs) = k" using assms(4,5) by simp
  moreover have "\<forall>c \<in> set (map2 (pc_compressed zk) vs rs). length c = 32"
    using commitments_length [OF \<open>ristretto_ok (zk_group zk)\<close>] by blast
  ultimately show thesis using that by blast
qed

lemma append_message_simps [simp]:
  "append_message (d, ms) l m = (d, ms @ [(byte_string l, m)])" "append_u64 (d, ms) l x = (d, ms @ [(byte_string l, le_bytes 8 x)])"
  by (simp_all add: append_message_def append_u64_def)

text \<open>Transcripts separate contexts: an equal transcript means an equal sender, recipient, nonce and chain.\<close>
lemma transfer_transcript_inj:
  assumes "transfer_transcript c = transfer_transcript c'" "sc_nonce c \<le> U64_MAX" "sc_nonce c' \<le> U64_MAX"
    "sc_chain_id c < 2 ^ 32" "sc_chain_id c' < 2 ^ 32"
  shows "c = c'"
proof -
  have "le_bytes 8 (sc_nonce c) = le_bytes 8 (sc_nonce c')" "le_bytes 4 (sc_chain_id c) = le_bytes 4 (sc_chain_id c')"
    and same: "sc_sender_pubkey c = sc_sender_pubkey c'" "sc_recipient c = sc_recipient c'"
    using assms(1) by (simp_all add: transfer_transcript_def)
  then have "sc_nonce c = sc_nonce c'" "sc_chain_id c = sc_chain_id c'"
    using assms(2-) le_bytes_inj [of "sc_nonce c" 8 "sc_nonce c'"] le_bytes_inj [of "sc_chain_id c" 4 "sc_chain_id c'"]
    by (simp_all add: U64_MAX_def)
  then show ?thesis using same by simp
qed

text \<open>The integers as group and scalars, with proofs that record their transcript.\<close>

definition toy_proof :: "transcript \<Rightarrow> bytes" where
  "toy_proof tr = 1 # fst tr @ concat (map (\<lambda>(l, m). l @ m) (snd tr))"

definition toy_zk :: "(int, int) Zk_Env" where
  "toy_zk = \<lparr> zk_group = int_group, zk_blinding_base = 3, zk_scalar = int, zk_zero = 0, zk_add = (+),
     zk_mod_order = (\<lambda>b. int (of_le_bytes b)),
     zk_prove = (\<lambda>_ tr vs rs _. Ok (toy_proof tr, map2 (\<lambda>v r. int_bytes (int v * 1 + r * 3)) vs rs)),
     zk_decodes = (\<lambda>b. b \<noteq> []), zk_verify = (\<lambda>_ tr pf _ _. pf = toy_proof tr) \<rparr>"

lemma toy_commitments: "pc_compressed toy_zk = (\<lambda>v r. int_bytes (int v * 1 + r * 3))"
  by (simp add: fun_eq_iff pc_compressed_def pc_commit_def toy_zk_def int_group_def)

lemma toy_zk_ok: "zk_ok toy_zk"
proof -
  have "ristretto_ok (zk_group toy_zk)" using int_group_ok by (simp add: toy_zk_def)
  moreover have "zk_linear toy_zk" by (simp add: zk_linear_def toy_zk_def int_group_def algebra_simps)
  moreover have "zk_complete toy_zk"
    by (simp add: zk_complete_def toy_commitments) (simp add: toy_zk_def toy_proof_def)
  ultimately show ?thesis by (simp add: zk_ok_def)
qed

lemma conservation_point:
  assumes "zk_linear zk" "amount + change + fee < 2 ^ 252"
  shows "g_add (zk_group zk) (g_add (zk_group zk) (pc_commit zk (zk_scalar zk amount) ra) (pc_commit zk (zk_scalar zk change) rc))
           (pc_commit zk (zk_scalar zk fee) (zk_zero zk))
       = pc_commit zk (zk_scalar zk (amount + change + fee)) (zk_add zk ra rc)"
proof -
  let ?g = "zk_group zk"
  have ac: "g_add ?g (g_add ?g a b) c = g_add ?g a (g_add ?g b c)" "g_add ?g a b = g_add ?g b a" for a b c
    using assms(1) by (auto simp: zk_linear_def Let_def)
  have smul: "g_smul ?g (zk_add zk a b) p = g_add ?g (g_smul ?g a p) (g_smul ?g b p)"
    and zero: "g_add ?g q (g_smul ?g (zk_zero zk) p) = q" for a b p q
    using assms(1) by (simp_all add: zk_linear_def Let_def)
  have zero': "g_add ?g (g_smul ?g (zk_zero zk) p) q = q" for p q using zero ac by metis
  have lc: "g_add ?g a (g_add ?g b c) = g_add ?g b (g_add ?g a c)" for a b c using ac by metis
  have "zk_scalar zk (amount + change + fee) = zk_add zk (zk_add zk (zk_scalar zk amount) (zk_scalar zk change)) (zk_scalar zk fee)"
    using assms by (simp add: zk_linear_def Let_def)
  then show ?thesis by (simp add: pc_commit_def smul ac lc zero zero')
qed

section \<open>Properties\<close>

lemma valid_day_provable:
  assumes "is_valid d ProofOfLifeConfig_default"
  shows "provable_day d \<longleftrightarrow> 1 \<le> distinct_bt_environments d"
  using assms by (auto simp: is_valid_def provable_day_def ProofOfLifeConfig_default_def spread_hours_def Let_def split: option.splits)

text \<open>C24: Daily attestations. A phone that meets the eight minimums of the encoding, whose network minimum
  counts Bluetooth environments only, always obtains a proof, whatever its blinding factors are; the
  proof verifies for that day and for no other; any other phone obtains no proof but an error. Of the
  phones that are valid for the day exactly those with a Bluetooth environment meet the minimums: one
  that is valid through Wi-Fi alone, as the documented rule allows, obtains an error.\<close>

theorem daily_attestation_roundtrip:
  assumes "zk_ok zk" "length blindings = 8"
    "unlock_count d < 2 ^ 16" "spread_hours d < 2 ^ 16" "interaction_sessions d < 2 ^ 16" "distinct_bt_environments d < 2 ^ 16"
  shows "(provable_day d \<longrightarrow> (\<exists>pf. prove_daily_attestation zk blindings d day = Ok pf
            \<and> (\<forall>day'. verify_daily_attestation zk pf day' = Ok () \<longleftrightarrow> day' = day)))
    \<and> (\<not> provable_day d \<longrightarrow> (\<exists>reason. prove_daily_attestation zk blindings d day = Err (GE_ProofOfLifeInvalid reason)))
    \<and> (is_valid d ProofOfLifeConfig_default \<longrightarrow> (provable_day d \<longleftrightarrow> 1 \<le> distinct_bt_environments d))"
proof (intro conjI impI)
  define vs where "vs = [unlock_count d - 10, spread_hours d - 6, interaction_sessions d - 3, 0, 0, 0, distinct_bt_environments d - 1, 0]"
  assume "provable_day d"
  then have enc: "encode_pol_parameters d = Ok vs" by (simp add: encode_exact vs_def)
  have vs: "length vs = 8" "\<forall>v \<in> set vs. v < 2 ^ 16" using assms(3-) by (auto simp: vs_def)
  obtain pf cs where pf: "zk_prove zk (16, 8) (append_u64 (POL_TRANSCRIPT_DOMAIN, []) ''epoch_day'' day) vs blindings 16 = Ok (pf, cs)"
    "zk_decodes zk pf" "zk_verify zk (16, 8) (append_u64 (POL_TRANSCRIPT_DOMAIN, []) ''epoch_day'' day) pf cs 16"
    "length cs = 8" "\<forall>c \<in> set cs. length c = 32"
    by (rule proof_available [OF assms(1) _ _ vs(1) assms(2) vs(2), of "append_u64 (POL_TRANSCRIPT_DOMAIN, []) ''epoch_day'' day"],
        simp, simp, rule that)
  show "\<exists>pf. prove_daily_attestation zk blindings d day = Ok pf
      \<and> (\<forall>day'. verify_daily_attestation zk pf day' = Ok () \<longleftrightarrow> day' = day)"
    using pf those_from_slice [OF pf(5)] by (auto simp: prove_daily_attestation_def enc verify_daily_attestation_def Let_def
        RANGE_PROOF_BITS_LEGACY_def POL_PARAMETER_COUNT_def)
next
  assume "\<not> provable_day d"
  then have "\<nexists>vs. encode_pol_parameters d = Ok vs" by (simp add: encode_exact)
  then obtain e where e: "encode_pol_parameters d = Err e" by (cases "encode_pol_parameters d") auto
  have "\<exists>reason. e = GE_ProofOfLifeInvalid reason" if "shift_from i ps = Err e" for i ps
    using that by (induction i ps rule: shift_from.induct) (auto split: if_splits sum.splits)
  then show "\<exists>reason. prove_daily_attestation zk blindings d day = Err (GE_ProofOfLifeInvalid reason)"
    using e unfolding prove_daily_attestation_def by (auto simp: encode_pol_parameters_def Let_def simp del: shift_from.simps)
qed (rule valid_day_provable)

definition good_day :: DailyProofOfLifeData where
  "good_day = \<lparr> unlock_count = 12, first_unlock = Some 0, last_unlock = Some (duration_seconds 36000), interaction_sessions = 4,
     orientation_changed = True, human_motion_detected = True, gps_fix_obtained = True, approximate_location = None,
     distinct_wifi_networks = 1, distinct_bt_environments = 3, bt_environment_change_count = 2, charge_cycle_event = True,
     optional_sensors = \<lparr> os_gyroscope_active = False, os_ambient_light_active = False, os_cellular_connected = False,
       os_cell_tower_count = None, os_barometer_reading = None, os_magnetometer_active = False, os_nfc_available = False,
       os_secure_enclave_attested = False, os_biometric_confirmed = False, os_camera_env_hash = None, os_microphone_env_hash = None \<rparr> \<rparr>"

lemma good_day_hours: "spread_hours good_day = 10"
  by (simp add: spread_hours_def good_day_def duration_seconds_def num_hours_def num_seconds_def trunc_div_def NANOS_PER_SEC_def)

theorem daily_attestation_roundtrip_witness:
  "\<exists>pf. prove_daily_attestation toy_zk [1, 2, 3, 4, 5, 6, 7, 8] good_day 5 = Ok pf \<and> verify_daily_attestation toy_zk pf 5 = Ok ()
     \<and> verify_daily_attestation toy_zk pf 6 \<noteq> Ok ()"
proof -
  have "provable_day good_day" by (simp add: provable_day_def good_day_hours) (simp add: good_day_def)
  moreover have "unlock_count good_day < 2 ^ 16" "spread_hours good_day < 2 ^ 16" "interaction_sessions good_day < 2 ^ 16"
    "distinct_bt_environments good_day < 2 ^ 16"
    by (simp_all add: good_day_hours) (simp_all add: good_day_def)
  ultimately show ?thesis using daily_attestation_roundtrip [OF toy_zk_ok, of "[1, 2, 3, 4, 5, 6, 7, 8]" good_day 5] by auto
qed

text \<open>A phone without Bluetooth peers can be valid for the day, and yet cannot prove it: the encoding takes the
  number of Bluetooth environments alone as the network parameter, where the rule it encodes accepts a
  Wi-Fi network instead.\<close>

theorem wifi_only_phone_cannot_prove:
  assumes "is_valid d ProofOfLifeConfig_default" "distinct_bt_environments d = 0"
  shows "1 \<le> distinct_wifi_networks d \<and> (\<exists>reason. prove_daily_attestation zk blindings d day = Err (GE_ProofOfLifeInvalid reason))"
proof -
  have "6 \<le> spread_hours d" "10 \<le> unlock_count d" "3 \<le> interaction_sessions d" "orientation_changed d"
    "human_motion_detected d" "gps_fix_obtained d" "1 \<le> distinct_wifi_networks d"
    using assms by (auto simp: is_valid_def ProofOfLifeConfig_default_def spread_hours_def Let_def split: option.splits)
  then show ?thesis using assms(2)
    by (simp add: prove_daily_attestation_def encode_pol_parameters_def spread_hours_def POL_MINIMUMS_def)
qed

theorem wifi_only_phone_cannot_prove_witness:
  "is_valid (good_day\<lparr>distinct_bt_environments := 0\<rparr>) ProofOfLifeConfig_default
   \<and> (\<exists>reason. prove_daily_attestation toy_zk [] (good_day\<lparr>distinct_bt_environments := 0\<rparr>) 5 = Err (GE_ProofOfLifeInvalid reason))"
proof -
  have "is_valid (good_day\<lparr>distinct_bt_environments := 0\<rparr>) ProofOfLifeConfig_default"
    by (simp add: is_valid_def good_day_def ProofOfLifeConfig_default_def duration_seconds_def num_hours_def num_seconds_def
        trunc_div_def NANOS_PER_SEC_def)
  then show ?thesis using wifi_only_phone_cannot_prove [of "good_day\<lparr>distinct_bt_environments := 0\<rparr>" toy_zk "[]" 5] by simp
qed

text \<open>C25: Shielded transfers. Whenever the balance covers amount and fee, a proof is produced; its
  commitments open to the amount and the change kept on the device, which together with the fee are the
  balance. It is accepted against a commitment exactly if that commitment equals the one to the
  balance under the sum of the two blinding factors drawn for the proof, so accepting a wrong balance
  takes a second opening of the same commitment. When commitments tell blinding factors apart, a
  commitment to the right balance is therefore refused unless its own blinding factor is that sum,
  which the proof, drawing both factors itself, does not arrange.\<close>

theorem shielded_transfer_exact:
  assumes "zk_ok zk" "amount + fee \<le> balance" "balance \<le> U64_MAX"
  shows "\<exists>pf secret. prove_transfer zk ra rc amount balance fee ctx = Ok (pf, secret)
    \<and> sts_amount secret + sts_change secret + fee = balance
    \<and> pedersen_verify zk (sp_amount_commitment pf) \<lparr> po_value = sts_amount secret, po_blinding = sts_amount_blinding secret \<rparr> = Ok ()
    \<and> pedersen_verify zk (sp_change_commitment pf) \<lparr> po_value = sts_change secret, po_blinding = sts_change_blinding secret \<rparr> = Ok ()
    \<and> (\<forall>v r. verify_shielded_transaction zk (fst (commit_with_blinding zk v r)) pf fee ctx = Ok ()
          \<longleftrightarrow> pc_commit zk (zk_scalar zk v) r = pc_commit zk (zk_scalar zk balance) (zk_add zk ra rc))
    \<and> (inj (pc_commit zk (zk_scalar zk balance)) \<longrightarrow>
          (\<forall>r. verify_shielded_transaction zk (fst (commit_with_blinding zk balance r)) pf fee ctx = Ok () \<longleftrightarrow> r = zk_add zk ra rc))"
proof -
  define change where "change = balance - (amount + fee)"
  have sum: "amount + change + fee = balance" and range: "\<forall>v \<in> set [amount, change]. v < 2 ^ 64"
    using assms(2,3) by (auto simp: change_def U64_MAX_def)
  have ok: "ristretto_ok (zk_group zk)" "zk_linear zk" using assms(1) by (simp_all add: zk_ok_def)
  obtain pf cs where pf: "zk_prove zk (64, 2) (transfer_transcript ctx) [amount, change] [ra, rc] 64 = Ok (pf, cs)"
    "zk_decodes zk pf" "zk_verify zk (64, 2) (transfer_transcript ctx) pf cs 64"
    "cs = map2 (pc_compressed zk) [amount, change] [ra, rc]"
    by (rule proof_available [where k = 2 and rs = "[ra, rc]" and tr = "transfer_transcript ctx", OF assms(1) _ _ _ _ range],
        simp, simp, simp, simp, rule that)
  have cs: "cs = [pc_compressed zk amount ra, pc_compressed zk change rc]" using pf(4) by simp
  have "balance < 2 ^ 252" using assms(3) by (simp add: U64_MAX_def)
  then have point: "g_add (zk_group zk) (g_add (zk_group zk) (pc_commit zk (zk_scalar zk amount) ra) (pc_commit zk (zk_scalar zk change) rc))
      (pc_commit zk (zk_scalar zk fee) (zk_zero zk)) = pc_commit zk (zk_scalar zk balance) (zk_add zk ra rc)"
    using conservation_point [OF ok(2), of amount change fee] sum by simp
  have commit: "fst (commit_with_blinding zk v r) = \<lparr> pc_point = pc_compressed zk v r \<rparr>" for v r
    by (simp add: commit_with_blinding_def pc_compressed_def)
  let ?pf = "\<lparr> sp_amount_commitment = \<lparr> pc_point = pc_compressed zk amount ra \<rparr>,
    sp_change_commitment = \<lparr> pc_point = pc_compressed zk change rc \<rparr>, sp_range_proof = pf \<rparr>"
  have prove: "prove_transfer zk ra rc amount balance fee ctx = Ok (?pf, \<lparr> sts_amount = amount, sts_amount_blinding = ra,
      sts_change = change, sts_change_blinding = rc \<rparr>)"
    using assms(2,3) pf(1) by (simp add: prove_transfer_def checked_add_u64_def change_def [symmetric] Let_def cs
        TX_RANGE_PROOF_BITS_def TX_PROOF_VALUES_def)
  have "verify_transfer zk ?pf ctx = Ok ()"
    using pf(2,3) by (simp add: verify_transfer_def from_slice_compress [OF ok(1)] cs TX_RANGE_PROOF_BITS_def TX_PROOF_VALUES_def)
  then have "verify_shielded_transaction zk (fst (commit_with_blinding zk v r)) ?pf fee ctx = Ok ()
      \<longleftrightarrow> pc_commit zk (zk_scalar zk v) r = pc_commit zk (zk_scalar zk balance) (zk_add zk ra rc)" for v r
    by (simp add: verify_shielded_transaction_def verify_value_conservation_def commit decompress_commitment [OF ok(1)] point)
  moreover have "pedersen_verify zk \<lparr> pc_point = pc_compressed zk v r \<rparr> \<lparr> po_value = v, po_blinding = r \<rparr> = Ok ()" for v r
    by (simp add: pedersen_verify_def from_slice_compress [OF ok(1)]) (simp add: pc_compressed_def)
  ultimately show ?thesis using prove sum by (simp add: inj_eq)
qed

definition transfer_ctx :: ShieldedTransferContext where
  "transfer_ctx = \<lparr> sc_sender_pubkey = [1], sc_recipient = [2], sc_nonce = 3, sc_chain_id = 2 \<rparr>"

theorem shielded_transfer_exact_witness:
  "\<exists>pf secret. prove_transfer toy_zk 4 5 100 1000 7 transfer_ctx = Ok (pf, secret) \<and> sts_amount secret + sts_change secret = 993
     \<and> verify_shielded_transaction toy_zk (fst (commit_with_blinding toy_zk 1000 9)) pf 7 transfer_ctx = Ok ()"
proof -
  have hyps: "100 + 7 \<le> (1000 :: nat)" "1000 \<le> U64_MAX" by (simp_all add: U64_MAX_def)
  obtain pf secret where "prove_transfer toy_zk 4 5 100 1000 7 transfer_ctx = Ok (pf, secret)"
    "sts_amount secret + sts_change secret + 7 = 1000"
    "\<forall>v r. verify_shielded_transaction toy_zk (fst (commit_with_blinding toy_zk v r)) pf 7 transfer_ctx = Ok ()
       \<longleftrightarrow> pc_commit toy_zk (zk_scalar toy_zk v) r = pc_commit toy_zk (zk_scalar toy_zk 1000) (zk_add toy_zk 4 5)"
    using shielded_transfer_exact [OF toy_zk_ok hyps, of 4 5 transfer_ctx] by (elim exE conjE)
  then show ?thesis by (intro exI [of _ pf] exI [of _ secret]) (simp add: toy_zk_def)
qed

text \<open>The thresholds are not part of a range proof. A phone that recorded no activity at all obtains a
  proof by choosing thresholds of zero, and that proof verifies against any thresholds the verifier
  passes, the network's included.\<close>

lemma thresholds_not_bound:
  assumes "zk_ok zk" "length blindings = 4"
  shows "\<exists>pf. generate_pol_proof zk blindings
        \<lparr> pi_unlock_count = 0, pi_unlock_spread_hours = 0, pi_interaction_sessions = 0, pi_bt_environments = 0 \<rparr>
        \<lparr> min_unlocks = 0, min_spread = 0, min_interactions = 0, min_bt_envs = 0 \<rparr> day = Ok pf
      \<and> (\<forall>thresholds. verify_pol_proof zk pf thresholds day = Ok True)"
proof -
  obtain pf cs where pf: "zk_prove zk (32, 4) (append_u64 (POL_RANGE_TRANSCRIPT_DOMAIN, []) ''epoch_day'' day) [0, 0, 0, 0] blindings 32 = Ok (pf, cs)"
    "zk_decodes zk pf" "zk_verify zk (32, 4) (append_u64 (POL_RANGE_TRANSCRIPT_DOMAIN, []) ''epoch_day'' day) pf cs 32"
    "length cs = 4" "\<forall>c \<in> set cs. length c = 32"
    by (rule proof_available [where n = 32 and vs = "[0, 0, 0, 0]" and tr = "append_u64 (POL_RANGE_TRANSCRIPT_DOMAIN, []) ''epoch_day'' day",
          OF assms(1) _ _ _ assms(2)], simp, simp, simp, simp, rule that)
  then show ?thesis using read_commitments_ok [OF pf(5)]
    by (auto simp: generate_pol_proof_def verify_pol_proof_def Let_def RANGE_PROOF_BITS_def FLEXIBLE_PARAMETER_COUNT_def)
qed

end
