(* ===== verification/Block_Production.thy ===== *)
theory Block_Production
  imports Committee Mempool Zk_Proofs
begin

text \<open>
  Block production, \<^verbatim>\<open>gratia-consensus/src/block_production.rs\<close>: the pending block that collects signatures,
  the block producer, and signing and verifying headers. The external code of the consensus crate is
  the record \<open>Node_Env\<close>: hashing and signatures (\<^typ>\<open>Env\<close>), the encoding of blocks (\<^typ>\<open>Bincode\<close>), the
  curve and the proof system (\<^typ>\<open>('p, 's) Zk_Env\<close>), and the text forms of times and floating-point numbers.
\<close>

section \<open>Environment and messages\<close>

record ('p, 's) Node_Env =
  ne_env :: Env
  ne_bincode :: Bincode
  ne_zk :: "('p, 's) Zk_Env"
  ne_time :: "datetime \<Rightarrow> string"
  ne_f32 :: "f32 \<Rightarrow> string"

abbreviation ne_group :: "('p, 's) Node_Env \<Rightarrow> ('p, 's) Ristretto" where "ne_group ne \<equiv> zk_group (ne_zk ne)"
abbreviation ne_sha256 :: "('p, 's) Node_Env \<Rightarrow> bytes \<Rightarrow> bytes" where "ne_sha256 ne \<equiv> env_sha256 (ne_env ne)"
abbreviation ne_ed :: "('p, 's) Node_Env \<Rightarrow> Ed25519" where "ne_ed ne \<equiv> env_ed (ne_env ne)"

abbreviation ne_header_hash :: "('p, 's) Node_Env \<Rightarrow> BlockHeader \<Rightarrow> (GratiaError, BlockHash) result" where
  "ne_header_hash ne \<equiv> header_hash (ne_sha256 ne) (ne_bincode ne)"

definition NodeId_to_string :: "('p, 's) Node_Env \<Rightarrow> NodeId \<Rightarrow> string" where
  "NodeId_to_string ne n = env_hex (ne_env ne) (node_id_bytes n)"

definition BlockHash_to_string :: "('p, 's) Node_Env \<Rightarrow> BlockHash \<Rightarrow> string" where
  "BlockHash_to_string ne h = env_hex (ne_env ne) (block_hash_bytes h)"

definition TxHash_to_string :: "('p, 's) Node_Env \<Rightarrow> TxHash \<Rightarrow> string" where
  "TxHash_to_string ne h = env_hex (ne_env ne) (tx_hash_bytes h)"

text \<open>The \<^verbatim>\<open>Display\<close> of errors.\<close>
fun GratiaError_to_string :: "('p, 's) Node_Env \<Rightarrow> GratiaError \<Rightarrow> string" where
  "GratiaError_to_string ne (GE_ProofOfLifeInvalid reason) = ''Proof of Life validation failed: '' @ reason"
| "GratiaError_to_string ne (GE_InsufficientUnlocks n required) =
     ''Insufficient unlock events: '' @ show_nat n @ '' (minimum: '' @ show_nat required @ '')''"
| "GratiaError_to_string ne (GE_UnlockSpreadTooNarrow hours required) =
     ''Unlock spread too narrow: '' @ show_nat hours @ ''h (minimum: '' @ show_nat required @ ''h)''"
| "GratiaError_to_string ne GE_NoChargeCycleEvent = ''No charge cycle event detected in 24-hour window''"
| "GratiaError_to_string ne GE_InsufficientBtVariation = ''Insufficient Bluetooth environment variation''"
| "GratiaError_to_string ne (GE_OnboardingIncomplete current required) =
     ''Node is in onboarding period (day '' @ show_nat current @ '' of '' @ show_nat required @ '')''"
| "GratiaError_to_string ne (GE_MiningConditionsNotMet reason) = ''Mining conditions not met: '' @ reason"
| "GratiaError_to_string ne GE_NotPluggedIn = ''Phone not plugged in''"
| "GratiaError_to_string ne (GE_BatteryTooLow percent required) =
     ''Battery below threshold: '' @ show_nat percent @ ''% (minimum: '' @ show_nat required @ ''%)''"
| "GratiaError_to_string ne (GE_ThermalThrottle temp max_temp) =
     ''CPU temperature too high: '' @ ne_f32 ne temp @ [CHR 0xC2, CHR 0xB0] @ ''C (maximum: '' @ ne_f32 ne max_temp @ [CHR 0xC2, CHR 0xB0] @ ''C)''"
| "GratiaError_to_string ne (GE_InsufficientStake amount required) =
     ''Insufficient stake: '' @ show_nat amount @ '' Lux (minimum: '' @ show_nat required @ '' Lux)''"
| "GratiaError_to_string ne (GE_UnstakeCooldownActive remaining_secs) =
     ''Unstaking cooldown active: '' @ show_nat remaining_secs @ '' seconds remaining''"
| "GratiaError_to_string ne (GE_InsufficientBalance available required) =
     ''Insufficient balance: '' @ show_nat available @ '' Lux (required: '' @ show_nat required @ '' Lux)''"
| "GratiaError_to_string ne GE_InvalidSignature = ''Invalid transaction signature''"
| "GratiaError_to_string ne (GE_NonceMismatch expected got) =
     ''Transaction nonce mismatch: expected '' @ show_nat expected @ '', got '' @ show_nat got"
| "GratiaError_to_string ne (GE_InvalidZkProof reason) = ''Invalid ZK proof: '' @ reason"
| "GratiaError_to_string ne (GE_BlockValidationFailed reason) = ''Block validation failed: '' @ reason"
| "GratiaError_to_string ne GE_InvalidVrfProof = ''Invalid VRF proof''"
| "GratiaError_to_string ne (GE_InsufficientSignatures n required) =
     ''Insufficient validator signatures: '' @ show_nat n @ ''/'' @ show_nat required"
| "GratiaError_to_string ne (GE_InsufficientHistory days required) =
     ''Insufficient participation history: '' @ show_nat days @ '' days (minimum: '' @ show_nat required @ '' days)''"
| "GratiaError_to_string ne (GE_QuorumNotMet participation_bps required_bps) =
     ''Quorum not met: '' @ show_nat participation_bps @ '' bps (required: '' @ show_nat required_bps @ '' bps)''"
| "GratiaError_to_string ne GE_AlreadyVoted = ''Already voted on this proposal''"
| "GratiaError_to_string ne GE_WalletLocked = ''Wallet locked: biometric authentication required''"
| "GratiaError_to_string ne GE_RecoveryClaimPending = ''Recovery claim pending on this wallet''"
| "GratiaError_to_string ne (GE_BehavioralMatchFailed score required) =
     ''Behavioral matching confidence below threshold: '' @ show_nat score @ ''% (required: '' @ show_nat required @ ''%)''"
| "GratiaError_to_string ne (GE_PeerNotFound node) = ''Peer not found: '' @ node"
| "GratiaError_to_string ne (GE_ShardNotAvailable shard) = ''Shard not available: '' @ show_nat shard"
| "GratiaError_to_string ne (GE_StorageError e) = ''State database error: '' @ e"
| "GratiaError_to_string ne GE_StorageLimitExceeded = ''State database exceeds size limit''"
| "GratiaError_to_string ne (GE_SerializationError e) = ''Serialization error: '' @ e"
| "GratiaError_to_string ne (GE_Other e) = e"

text \<open>The operator \<^verbatim>\<open>?\<close> on results, and a loop that stops at the first error.\<close>

definition try_result :: "('e, 'a) result \<Rightarrow> ('a \<Rightarrow> ('e, 'b) result) \<Rightarrow> ('e, 'b) result" where
  "try_result r f = (case r of Err e \<Rightarrow> Err e | Ok x \<Rightarrow> f x)"

primrec check_each :: "('a \<Rightarrow> ('e, unit) result) \<Rightarrow> 'a list \<Rightarrow> ('e, unit) result" where
  "check_each f [] = Ok ()"
| "check_each f (x # xs) = try_result (f x) (\<lambda>_. check_each f xs)"

definition map_err :: "('e \<Rightarrow> 'f) \<Rightarrow> ('e, 'a) result \<Rightarrow> ('f, 'a) result" where
  "map_err f r = (case r of Err e \<Rightarrow> Err (f e) | Ok x \<Rightarrow> Ok x)"

lemma try_result_simps [simp]: "try_result (Err e) f = Err e" "try_result (Ok x) f = f x"
  by (simp_all add: try_result_def)

lemma try_result_Ok: "try_result r f = Ok y \<longleftrightarrow> (\<exists>x. r = Ok x \<and> f x = Ok y)"
  by (cases r) simp_all

lemma check_each_Ok: "check_each f xs = Ok u \<longleftrightarrow> (\<forall>x \<in> set xs. f x = Ok ())"
  by (induction xs) (auto simp: try_result_Ok)

lemma map_err_Ok [simp]: "map_err f r = Ok y \<longleftrightarrow> r = Ok y"
  by (cases r) (simp_all add: map_err_def)

lemma ser_result_Ok [simp]: "ser_result r = Ok y \<longleftrightarrow> r = Ok y"
  by (cases r) (simp_all add: ser_result_def)

section \<open>Pending blocks\<close>

record PendingBlock =
  pb_block :: Block
  pb_signatures :: "ValidatorSignature list"
  pb_slot :: u64
  pb_finality_threshold :: usize

definition pb_is_finalized :: "PendingBlock \<Rightarrow> bool" where
  "pb_is_finalized self = (length (pb_signatures self) \<ge> pb_finality_threshold self)"

definition pb_add_signature ::
  "('p, 's) Node_Env \<Rightarrow> PendingBlock \<Rightarrow> ValidatorSignature \<Rightarrow> (GratiaError, unit) result \<times> PendingBlock" where
  "pb_add_signature ne self sig =
     (if list_ex (\<lambda>s. vs_validator s = vs_validator sig) (pb_signatures self)
      then (Err (GE_BlockValidationFailed (''Duplicate signature from validator '' @ NodeId_to_string ne (vs_validator sig))), self)
      else (Ok (), self\<lparr>pb_signatures := pb_signatures self @ [sig]\<rparr>))"

definition pb_finalize :: "PendingBlock \<Rightarrow> (GratiaError, Block) result" where
  "pb_finalize self =
     (if \<not> pb_is_finalized self
      then Err (GE_InsufficientSignatures (length (pb_signatures self)) (pb_finality_threshold self))
      else Ok ((pb_block self)\<lparr>blk_validator_signatures := pb_signatures self\<rparr>))"

definition force_finalize :: "PendingBlock \<Rightarrow> (GratiaError, Block) result" where
  "force_finalize self =
     (if pb_signatures self = []
      then Err (GE_BlockValidationFailed ''Cannot finalize block with zero signatures'')
      else if pb_finality_threshold self > 1 \<and> length (pb_signatures self) < pb_finality_threshold self
      then Err (GE_BlockValidationFailed (''force_finalize blocked: finality_threshold='' @ show_nat (pb_finality_threshold self)
             @ '' but only '' @ show_nat (length (pb_signatures self)) @ '' signatures (multi-node mode)''))
      else Ok ((pb_block self)\<lparr>blk_validator_signatures := pb_signatures self\<rparr>))"

section \<open>The block producer\<close>

definition MAX_BLOCK_SIZE :: usize where "MAX_BLOCK_SIZE = 262144"

record BlockProducer =
  bp_node_id :: NodeId
  bp_current_slot :: u64
  bp_active_miners :: u64
  bp_geographic_diversity :: u16

definition BlockProducer_new :: "NodeId \<Rightarrow> u64 \<Rightarrow> u16 \<Rightarrow> BlockProducer" where
  "BlockProducer_new node_id active_miners geographic_diversity =
     \<lparr> bp_node_id = node_id, bp_current_slot = 0, bp_active_miners = active_miners,
       bp_geographic_diversity = geographic_diversity \<rparr>"

definition set_slot :: "BlockProducer \<Rightarrow> u64 \<Rightarrow> BlockProducer" where
  "set_slot self slot = self\<lparr>bp_current_slot := slot\<rparr>"

definition bp_update_network_stats :: "BlockProducer \<Rightarrow> u64 \<Rightarrow> u16 \<Rightarrow> BlockProducer" where
  "bp_update_network_stats self active_miners geographic_diversity =
     self\<lparr>bp_active_miners := active_miners, bp_geographic_diversity := geographic_diversity\<rparr>"

definition should_produce_block :: "BlockProducer \<Rightarrow> ValidatorCommittee \<Rightarrow> bool" where
  "should_produce_block self committee =
     (case block_producer_for_slot committee (bp_current_slot self) of
        Some producer \<Rightarrow> cm_node_id producer = bp_node_id self
      | None \<Rightarrow> False)"

primrec attestation_hashes ::
  "('p, 's) Node_Env \<Rightarrow> ProofOfLifeAttestation list \<Rightarrow> (GratiaError, bytes list) result" where
  "attestation_hashes ne [] = Ok []"
| "attestation_hashes ne (a # as) =
     (case enc (bc_attestation (ne_bincode ne)) a of
        Err e \<Rightarrow> Err (GE_SerializationError (''Failed to serialize attestation: '' @ e))
      | Ok b \<Rightarrow> try_result (attestation_hashes ne as) (\<lambda>hs. Ok (ne_sha256 ne b # hs)))"

definition produce_block ::
  "('p, 's) Node_Env \<Rightarrow> datetime \<Rightarrow> BlockProducer \<Rightarrow> Transaction list \<Rightarrow> ProofOfLifeAttestation list \<Rightarrow> BlockHash \<Rightarrow> u64
     \<Rightarrow> bytes \<Rightarrow> 's VrfSecretKey \<Rightarrow> ValidatorCommittee \<Rightarrow> (GratiaError, PendingBlock) result" where
  "produce_block ne now self transactions attestations previous_hash height state_root vrf_secret_key committee =
     (let transactions_root = core_merkle_root (ne_sha256 ne) (map (\<lambda>tx. tx_hash_bytes (tx_hash tx)) transactions)
      in try_result (attestation_hashes ne attestations) (\<lambda>hashes.
         let attestations_root = core_merkle_root (ne_sha256 ne) hashes;
             vrf_input = build_vrf_input (block_hash_bytes previous_hash) (bp_current_slot self);
             vrf_proof = generate_vrf_proof (ne_group ne) vrf_secret_key vrf_input;
             header = \<lparr> bh_height = height, bh_timestamp = now, bh_parent_hash = previous_hash,
                        bh_transactions_root = transactions_root, bh_state_root = state_root,
                        bh_attestations_root = attestations_root, bh_producer = bp_node_id self,
                        bh_vrf_proof = vp_proof_bytes vrf_proof, bh_active_miners = bp_active_miners self,
                        bh_geographic_diversity = bp_geographic_diversity self, bh_producer_pubkey = [] \<rparr>;
             block = \<lparr> blk_header = header, blk_transactions = transactions, blk_attestations = attestations,
                       blk_validator_signatures = [] \<rparr>
         in try_result (ser_result (enc (bc_block (ne_bincode ne)) block)) (\<lambda>block_bytes.
              if length block_bytes > MAX_BLOCK_SIZE
              then Err (GE_BlockValidationFailed (''Produced block '' @ show_nat (length block_bytes) @ '' bytes exceeds maximum ''
                     @ show_nat MAX_BLOCK_SIZE @ '' bytes. Reduce transactions.''))
              else Ok \<lparr> pb_block = block, pb_signatures = [], pb_slot = bp_current_slot self,
                        pb_finality_threshold = vc_finality_threshold committee \<rparr>)))"

definition sign_block ::
  "('p, 's) Node_Env \<Rightarrow> BlockHeader \<Rightarrow> NodeId \<Rightarrow> Keypair \<Rightarrow> (GratiaError, ValidatorSignature) result" where
  "sign_block ne header node_id keypair =
     try_result (ne_header_hash ne header) (\<lambda>hash.
       Ok \<lparr> vs_validator = node_id, vs_signature = kp_sign (ne_ed ne) keypair (block_hash_bytes hash) \<rparr>)"

definition verify_block_signature ::
  "('p, 's) Node_Env \<Rightarrow> BlockHeader \<Rightarrow> ValidatorSignature \<Rightarrow> bytes \<Rightarrow> (GratiaError, unit) result" where
  "verify_block_signature ne header sig public_key_bytes =
     try_result (ne_header_hash ne header) (\<lambda>hash.
       verify_signature (ne_ed ne) public_key_bytes (block_hash_bytes hash) (vs_signature sig))"

section \<open>Lemmas\<close>

lemma signed_block_verifies:
  assumes "ed25519_ok (ne_ed ne)" "length k = 32" "sign_block ne header node (from_secret_key_bytes (ne_ed ne) k) = Ok sig"
  shows "verify_block_signature ne header sig (ed_public (ne_ed ne) k) = Ok () \<and> vs_validator sig = node"
  using assms by (auto simp: sign_block_def verify_block_signature_def try_result_Ok from_secret_key_bytes_def kp_sign_def
      verify_own_signature)

lemma produced_block:
  assumes "produce_block ne now self txs atts prev height st_root sk committee = Ok pb"
  shows "bh_parent_hash (blk_header (pb_block pb)) = prev" "bh_height (blk_header (pb_block pb)) = height"
    "blk_transactions (pb_block pb) = txs" "blk_attestations (pb_block pb) = atts" "pb_signatures pb = []"
    "pb_finality_threshold pb = vc_finality_threshold committee" "bh_producer (blk_header (pb_block pb)) = bp_node_id self"
    "bh_transactions_root (blk_header (pb_block pb)) = core_merkle_root (ne_sha256 ne) (map (\<lambda>tx. tx_hash_bytes (tx_hash tx)) txs)"
    "bh_vrf_proof (blk_header (pb_block pb)) =
       vp_proof_bytes (generate_vrf_proof (ne_group ne) sk (build_vrf_input (block_hash_bytes prev) (bp_current_slot self)))"
    "\<exists>b. enc (bc_block (ne_bincode ne)) (pb_block pb) = Ok b \<and> length b \<le> MAX_BLOCK_SIZE"
  using assms by (auto simp: produce_block_def Let_def try_result_Ok split: if_splits)

section \<open>A concrete node\<close>

text \<open>Signatures that repeat the key and the message, encodings that keep the height: enough to run the
  consensus code on concrete blocks.\<close>

definition echo_ed :: Ed25519 where
  "echo_ed = \<lparr> ed_public = (\<lambda>k. k), ed_sign = (\<lambda>k m. take 64 (k @ m @ replicate 64 0)), ed_point = (\<lambda>_. True),
     ed_verify = (\<lambda>k m s. s = take 64 (k @ m @ replicate 64 0)) \<rparr>"

lemma echo_ed_ok: "ed25519_ok echo_ed"
  by (auto simp: ed25519_ok_def echo_ed_def min_def)

definition plain_codec :: "('a \<Rightarrow> bytes) \<Rightarrow> 'a Codec" where
  "plain_codec f = \<lparr> enc = (\<lambda>x. Ok (f x)), dec = (\<lambda>_. Err ''unsupported'') \<rparr>"

definition sample_node :: "(int, int) Node_Env" where
  "sample_node = \<lparr> ne_env = \<lparr> env_ed = echo_ed, env_sha256 = pad_hash, env_payload = (\<lambda>_. Ok [1]), env_hex = (\<lambda>_. []) \<rparr>,
     ne_bincode = \<lparr> bc_header = plain_codec (\<lambda>h. [bh_height h]), bc_block = plain_codec (\<lambda>_. [0]),
       bc_transaction = plain_codec (\<lambda>_. [0]), bc_account = plain_codec (\<lambda>_. [0]), bc_attestation = plain_codec (\<lambda>_. [0]) \<rparr>,
     ne_zk = toy_zk, ne_time = (\<lambda>_. []), ne_f32 = (\<lambda>_. []) \<rparr>"

definition sample_member :: "nat \<Rightarrow> CommitteeMember" where
  "sample_member i = \<lparr> cm_node_id = NodeId [i], cm_vrf_pubkey = VrfPublicKey [], cm_presence_score = 50,
     cm_selection_proof = \<lparr> vp_output = [], vp_proof_bytes = [] \<rparr>, cm_selection_value = i, cm_signing_pubkey = replicate 32 i \<rparr>"

definition sample_committee :: ValidatorCommittee where
  "sample_committee = \<lparr> vc_epoch = \<lparr> ce_epoch_number = 0, ce_start_slot = 0, ce_end_slot = 900, ce_established_at = 0, ce_seed = [] \<rparr>,
     vc_members = map sample_member [1, 2, 3], vc_committee_size = 3, vc_finality_threshold = 2, vc_network_size_snapshot = 3 \<rparr>"

definition sample_header :: "u64 \<Rightarrow> BlockHash \<Rightarrow> BlockHeader" where
  "sample_header height parent = \<lparr> bh_height = height, bh_timestamp = 0, bh_parent_hash = parent, bh_transactions_root = [],
     bh_state_root = [], bh_attestations_root = [], bh_producer = NodeId [1], bh_vrf_proof = [], bh_active_miners = 0,
     bh_geographic_diversity = 0, bh_producer_pubkey = [] \<rparr>"

definition sample_sig :: "nat \<Rightarrow> u64 \<Rightarrow> ValidatorSignature" where
  "sample_sig i height = \<lparr> vs_validator = NodeId [i], vs_signature = take 64 (replicate 32 i @ pad_hash [height] @ replicate 64 0) \<rparr>"

definition sample_block :: "u64 \<Rightarrow> BlockHash \<Rightarrow> Block" where
  "sample_block height parent = \<lparr> blk_header = sample_header height parent, blk_transactions = [], blk_attestations = [],
     blk_validator_signatures = [sample_sig 1 height, sample_sig 2 height] \<rparr>"

lemma sample_simps [simp]:
  "header_hash pad_hash (ne_bincode sample_node) h = Ok (BlockHash (pad_hash [bh_height h]))" "ne_ed sample_node = echo_ed"
  "enc (bc_block (ne_bincode sample_node)) b = Ok [0]" "ne_zk sample_node = toy_zk" "ne_sha256 sample_node = pad_hash"
  "env_payload (ne_env sample_node) pl = Ok [1]"
  by (simp_all add: header_hash_def sample_node_def plain_codec_def)

lemma sample_sig_verifies:
  "verify_block_signature sample_node h (sample_sig i (bh_height h)) (replicate 32 i) = Ok ()"
  by (simp add: verify_block_signature_def verify_signature_def echo_ed_def sample_sig_def)

lemma sample_members:
  "is_committee_member sample_committee n \<longleftrightarrow> n \<in> {NodeId [1], NodeId [2], NodeId [3]}"
  "get_signing_pubkey sample_committee (NodeId [1]) = Some (replicate 32 1)"
  "get_signing_pubkey sample_committee (NodeId [2]) = Some (replicate 32 2)"
  "get_signing_pubkey sample_committee (NodeId [3]) = Some (replicate 32 3)"
  by (auto simp: is_committee_member_def get_signing_pubkey_def get_member_def sample_committee_def sample_member_def)

end
