(* ===== verification/Validation.thy ===== *)
theory Validation
  imports Block_Production
begin

text \<open>
  Transaction and block validation, \<^verbatim>\<open>gratia-consensus/src/validation.rs\<close>, with the clock as an argument.
  The conditions under which a transaction or a block is valid are characterised exactly; the checks a
  valid block escapes (validator signatures, thresholds of attestations) are shown as well.
\<close>

section \<open>Constants and context\<close>

definition MIN_TRANSACTION_FEE :: Lux where "MIN_TRANSACTION_FEE = 1000"
definition MAX_TRANSACTIONS_PER_BLOCK :: usize where "MAX_TRANSACTIONS_PER_BLOCK = 512"
definition MAX_CONTRACT_BYTECODE_SIZE :: usize where "MAX_CONTRACT_BYTECODE_SIZE = 65536"
definition MAX_TRANSACTION_PAYLOAD_SIZE :: usize where "MAX_TRANSACTION_PAYLOAD_SIZE = 131072"

record ValidationContext =
  ctx_current_height :: u64
  ctx_previous_block_hash :: bytes
  ctx_committee :: ValidatorCommittee
  ctx_max_block_size :: usize
  ctx_min_transaction_fee :: Lux
  ctx_previous_block_timestamp :: "datetime option"
  ctx_pol_thresholds :: PolThresholds

abbreviation invalid :: "string \<Rightarrow> (GratiaError, 'a) result" where "invalid reason \<equiv> Err (GE_BlockValidationFailed reason)"

section \<open>Transactions\<close>

fun validate_payload :: "TransactionPayload \<Rightarrow> (GratiaError, unit) result" where
  "validate_payload (Transfer _ amount) = (if amount = 0 then invalid ''Transfer amount cannot be zero'' else Ok ())"
| "validate_payload (ShieldedTransfer commitment range_proof _) =
     (if commitment = [] then invalid ''Shielded transfer missing commitment''
      else if range_proof = [] then invalid ''Shielded transfer missing range proof'' else Ok ())"
| "validate_payload (Stake amount) = (if amount = 0 then invalid ''Stake/unstake amount cannot be zero'' else Ok ())"
| "validate_payload (Unstake amount) = (if amount = 0 then invalid ''Stake/unstake amount cannot be zero'' else Ok ())"
| "validate_payload (DeployContract bytecode _) =
     (if bytecode = [] then invalid ''Contract bytecode cannot be empty''
      else if length bytecode > MAX_CONTRACT_BYTECODE_SIZE
      then invalid (''Contract bytecode '' @ show_nat (length bytecode) @ '' bytes exceeds maximum ''
             @ show_nat MAX_CONTRACT_BYTECODE_SIZE @ '' bytes'')
      else Ok ())"
| "validate_payload (CallContract _ function _ gas_limit) =
     (if gas_limit = 0 then invalid ''Contract call gas limit cannot be zero''
      else if function = [] then invalid ''Contract call function name cannot be empty'' else Ok ())"
| "validate_payload (GovernanceProposal title description _) =
     (if title = [] then invalid ''Governance proposal title cannot be empty''
      else if description = [] then invalid ''Governance proposal description cannot be empty'' else Ok ())"
| "validate_payload (GovernanceVote _ _) = Ok ()"
| "validate_payload (CreatePoll question options duration_secs _) =
     (if question = [] then invalid ''Poll question cannot be empty''
      else if length options < 2 then invalid ''Poll must have at least 2 options''
      else if duration_secs = 0 then invalid ''Poll duration cannot be zero'' else Ok ())"
| "validate_payload (PollVote _ _) = Ok ()"

definition validate_transaction :: "('p, 's) Node_Env \<Rightarrow> Transaction \<Rightarrow> Lux \<Rightarrow> (GratiaError, unit) result" where
  "validate_transaction ne tx min_fee =
     try_result (ser_result (env_payload (ne_env ne) (tx_payload tx))) (\<lambda>payload_bytes.
     let signable = payload_bytes @ le_bytes 8 (tx_nonce tx) @ le_bytes 4 (tx_chain_id tx) @ le_bytes 8 (tx_fee tx)
           @ i64_le_bytes (timestamp_millis (tx_timestamp tx))
     in try_result (verify_signature (ne_ed ne) (tx_sender_pubkey tx) signable (tx_signature tx)) (\<lambda>_.
     let computed_hash = ne_sha256 ne (tx_sender_pubkey tx @ signable @ tx_signature tx)
     in if tx_hash_bytes (tx_hash tx) \<noteq> computed_hash
        then invalid (''Transaction hash mismatch: expected '' @ env_hex (ne_env ne) computed_hash @ '', got ''
               @ TxHash_to_string ne (tx_hash tx))
        else if tx_fee tx < min_fee
        then invalid (''Transaction fee '' @ show_nat (tx_fee tx) @ '' Lux below minimum '' @ show_nat min_fee @ '' Lux'')
        else validate_payload (tx_payload tx)))"

fun first_duplicate :: "'a list \<Rightarrow> 'a list \<Rightarrow> 'a option" where
  "first_duplicate seen [] = None"
| "first_duplicate seen (x # xs) = (if x \<in> set seen then Some x else first_duplicate (hs_insert x seen) xs)"

definition validate_block_transactions :: "('p, 's) Node_Env \<Rightarrow> Transaction list \<Rightarrow> Lux \<Rightarrow> (GratiaError, unit) result" where
  "validate_block_transactions ne transactions min_fee =
     (if length transactions > MAX_TRANSACTIONS_PER_BLOCK
      then invalid (''Block contains '' @ show_nat (length transactions) @ '' transactions, maximum is ''
             @ show_nat MAX_TRANSACTIONS_PER_BLOCK)
      else case first_duplicate [] (map tx_hash transactions) of
        Some h \<Rightarrow> invalid (''Duplicate transaction hash: '' @ TxHash_to_string ne h)
      | None \<Rightarrow>
          check_each (\<lambda>(i, tx). map_err (\<lambda>e. GE_BlockValidationFailed
              (''Transaction '' @ show_nat i @ '' invalid: '' @ GratiaError_to_string ne e)) (validate_transaction ne tx min_fee))
            (enumerate 0 transactions))"

section \<open>Headers\<close>

definition validate_block_header ::
  "('p, 's) Node_Env \<Rightarrow> datetime \<Rightarrow> BlockHeader \<Rightarrow> ValidationContext \<Rightarrow> (GratiaError, unit) result" where
  "validate_block_header ne now header ctx =
     (if bh_height header \<noteq> ctx_current_height ctx
      then invalid (''Block height '' @ show_nat (bh_height header) @ '' does not match expected '' @ show_nat (ctx_current_height ctx))
      else if block_hash_bytes (bh_parent_hash header) \<noteq> ctx_previous_block_hash ctx
      then invalid (''Parent hash mismatch: expected '' @ env_hex (ne_env ne) (ctx_previous_block_hash ctx) @ '', got ''
             @ BlockHash_to_string ne (bh_parent_hash header))
      else if \<not> is_committee_member (ctx_committee ctx) (bh_producer header)
      then invalid (''Block producer '' @ NodeId_to_string ne (bh_producer header) @ '' is not a committee member'')
      else if bh_timestamp header > now + duration_seconds 30 then invalid ''Block timestamp is too far in the future''
      else if bh_timestamp header < now - duration_seconds 60
      then invalid (''Block timestamp '' @ ne_time ne (bh_timestamp header) @ '' is more than 60 seconds behind current time ''
             @ ne_time ne now)
      else case ctx_previous_block_timestamp ctx of
        Some prev_ts \<Rightarrow>
          if bh_timestamp header < prev_ts
          then invalid (''Block timestamp '' @ ne_time ne (bh_timestamp header) @ '' is before previous block timestamp ''
                 @ ne_time ne prev_ts)
          else Ok ()
      | None \<Rightarrow> Ok ())"

definition validate_committee_parameters :: "usize \<Rightarrow> usize \<Rightarrow> u64 \<Rightarrow> (GratiaError, unit) result" where
  "validate_committee_parameters committee_size finality_threshold network_size =
     (let expected_tier = tier_for_network_size network_size
      in if committee_size \<noteq> ct_committee_size expected_tier
         then invalid (''Committee size '' @ show_nat committee_size @ '' does not match expected ''
                @ show_nat (ct_committee_size expected_tier) @ '' for network size '' @ show_nat network_size)
         else if finality_threshold \<noteq> ct_finality_threshold expected_tier
         then invalid (''Finality threshold '' @ show_nat finality_threshold @ '' does not match expected ''
                @ show_nat (ct_finality_threshold expected_tier) @ '' for committee size '' @ show_nat committee_size)
         else Ok ())"

section \<open>Attestations and blocks\<close>

definition validate_attestation_zk_proof ::
  "('p, 's) Node_Env \<Rightarrow> ProofOfLifeAttestation \<Rightarrow> PolThresholds \<Rightarrow> (GratiaError, unit) result" where
  "validate_attestation_zk_proof ne attestation thresholds =
     (if pol_zk_proof attestation = [] then Ok ()
      else case pol_zk_commitments attestation of
        None \<Rightarrow> Err (GE_InvalidZkProof ''attestation has zk_proof bytes but missing zk_commitments'')
      | Some commitments \<Rightarrow>
          (let range_proof = \<lparr> rp_proof_bytes = pol_zk_proof attestation, rp_commitments = commitments,
                               rp_parameter_count = 4, rp_epoch_day = pol_epoch_day attestation \<rparr>
           in case verify_pol_proof (ne_zk ne) range_proof thresholds (pol_epoch_day attestation) of
                Err e \<Rightarrow> Err (GE_InvalidZkProof (''PoL attestation ZK proof verification failed: '' @ ZkError_to_string e))
              | Ok _ \<Rightarrow> Ok ()))"

definition validate_block_attestations ::
  "('p, 's) Node_Env \<Rightarrow> ProofOfLifeAttestation list \<Rightarrow> PolThresholds \<Rightarrow> (GratiaError, unit) result" where
  "validate_block_attestations ne attestations thresholds =
     (case first_duplicate [] (map pol_nullifier attestations) of
        Some n \<Rightarrow> invalid (''Duplicate attestation nullifier in block: '' @ env_hex (ne_env ne) n)
      | None \<Rightarrow>
          check_each (\<lambda>(i, att). map_err (\<lambda>e. GE_BlockValidationFailed
              (''Attestation '' @ show_nat i @ '' ZK proof invalid: '' @ GratiaError_to_string ne e))
              (validate_attestation_zk_proof ne att thresholds))
            (enumerate 0 attestations))"

definition validate_block ::
  "('p, 's) Node_Env \<Rightarrow> datetime \<Rightarrow> Block \<Rightarrow> ValidationContext \<Rightarrow> (GratiaError, unit) result" where
  "validate_block ne now block ctx =
     try_result (validate_block_header ne now (blk_header block) ctx) (\<lambda>_.
     try_result (ser_result (enc (bc_block (ne_bincode ne)) block)) (\<lambda>block_bytes.
     if length block_bytes > ctx_max_block_size ctx
     then invalid (''Block size '' @ show_nat (length block_bytes) @ '' bytes exceeds maximum ''
            @ show_nat (ctx_max_block_size ctx) @ '' bytes'')
     else
     try_result (validate_block_transactions ne (blk_transactions block) (ctx_min_transaction_fee ctx)) (\<lambda>_.
     try_result (validate_block_attestations ne (blk_attestations block) (ctx_pol_thresholds ctx)) (\<lambda>_.
     let sig_count = length (blk_validator_signatures block)
     in if \<not> has_finality (ctx_committee ctx) sig_count then Err (GE_InsufficientSignatures sig_count FINALITY_THRESHOLD)
        else check_each (\<lambda>vs. if \<not> is_committee_member (ctx_committee ctx) (vs_validator vs)
                then invalid (''Validator signature from non-committee member: '' @ NodeId_to_string ne (vs_validator vs))
                else Ok ()) (blk_validator_signatures block)))))"

section \<open>Lemmas\<close>

lemma first_duplicate_None: "first_duplicate seen xs = None \<longleftrightarrow> distinct xs \<and> set xs \<inter> set seen = {}"
  by (induction seen xs rule: first_duplicate.induct) (auto simp: hs_insert_set)

lemma check_each_enumerate:
  "check_each (\<lambda>(i, x). map_err (g i) (f x)) (enumerate n xs) = Ok u \<longleftrightarrow> list_all (\<lambda>x. f x = Ok ()) xs"
  by (induction xs arbitrary: n) (auto simp: enumerate_simps try_result_Ok)

text \<open>What makes a transaction valid in a block.\<close>
definition tx_valid :: "('p, 's) Node_Env \<Rightarrow> Lux \<Rightarrow> Transaction \<Rightarrow> bool" where
  "tx_valid ne min_fee tx \<longleftrightarrow> authentic (ne_env ne) tx \<and> min_fee \<le> tx_fee tx \<and> validate_payload (tx_payload tx) = Ok ()"

lemma validate_transaction_iff: "validate_transaction ne tx min_fee = Ok u \<longleftrightarrow> tx_valid ne min_fee tx"
  by (cases "env_payload (ne_env ne) (tx_payload tx)")
    (auto simp: validate_transaction_def tx_valid_def authentic_def compute_signable_bytes_def try_result_Ok Let_def
      mp_compute_tx_hash_def tx_hash_eq_iff [symmetric] ser_result_def)

lemma validate_block_transactions_iff:
  "validate_block_transactions ne txs min_fee = Ok u \<longleftrightarrow>
     length txs \<le> MAX_TRANSACTIONS_PER_BLOCK \<and> distinct (map tx_hash txs) \<and> list_all (tx_valid ne min_fee) txs"
  using first_duplicate_None [of "[]" "map tx_hash txs"]
  by (auto simp: validate_block_transactions_def check_each_enumerate validate_transaction_iff split: option.splits)

definition header_valid :: "datetime \<Rightarrow> ValidationContext \<Rightarrow> BlockHeader \<Rightarrow> bool" where
  "header_valid now ctx h \<longleftrightarrow> bh_height h = ctx_current_height ctx \<and> block_hash_bytes (bh_parent_hash h) = ctx_previous_block_hash ctx
     \<and> is_committee_member (ctx_committee ctx) (bh_producer h)
     \<and> now - duration_seconds 60 \<le> bh_timestamp h \<and> bh_timestamp h \<le> now + duration_seconds 30
     \<and> (\<forall>prev. ctx_previous_block_timestamp ctx = Some prev \<longrightarrow> prev \<le> bh_timestamp h)"

lemma validate_block_header_iff: "validate_block_header ne now h ctx = Ok u \<longleftrightarrow> header_valid now ctx h"
  by (auto simp: validate_block_header_def header_valid_def not_less split: option.splits)

definition attestation_valid :: "('p, 's) Node_Env \<Rightarrow> ProofOfLifeAttestation \<Rightarrow> bool" where
  "attestation_valid ne a \<longleftrightarrow> pol_zk_proof a = []
     \<or> (\<exists>cs. pol_zk_commitments a = Some cs
          \<and> verify_pol_proof (ne_zk ne) \<lparr> rp_proof_bytes = pol_zk_proof a, rp_commitments = cs, rp_parameter_count = 4,
               rp_epoch_day = pol_epoch_day a \<rparr> PolThresholds_default (pol_epoch_day a) = Ok True)"

lemma verify_pol_proof_any_thresholds: "verify_pol_proof zk pf t day = verify_pol_proof zk pf t' day"
  by (simp add: verify_pol_proof_def)

lemma verify_pol_proof_True: "verify_pol_proof zk pf t day = Ok b \<Longrightarrow> b"
  by (auto simp: verify_pol_proof_def Let_def split: if_splits sum.splits)

lemma validate_attestation_iff: "validate_attestation_zk_proof ne a t = Ok u \<longleftrightarrow> attestation_valid ne a"
  by (auto simp: validate_attestation_zk_proof_def attestation_valid_def Let_def
      verify_pol_proof_any_thresholds [of _ _ t _ PolThresholds_default] dest: verify_pol_proof_True split: option.splits sum.splits)

lemma validate_block_attestations_iff:
  "validate_block_attestations ne atts t = Ok u \<longleftrightarrow> distinct (map pol_nullifier atts) \<and> list_all (attestation_valid ne) atts"
  using first_duplicate_None [of "[]" "map pol_nullifier atts"]
  by (auto simp: validate_block_attestations_def check_each_enumerate validate_attestation_iff split: option.splits)

definition block_valid :: "('p, 's) Node_Env \<Rightarrow> datetime \<Rightarrow> ValidationContext \<Rightarrow> Block \<Rightarrow> bool" where
  "block_valid ne now ctx b \<longleftrightarrow> header_valid now ctx (blk_header b)
     \<and> (\<exists>bytes. enc (bc_block (ne_bincode ne)) b = Ok bytes \<and> length bytes \<le> ctx_max_block_size ctx)
     \<and> length (blk_transactions b) \<le> MAX_TRANSACTIONS_PER_BLOCK \<and> distinct (map tx_hash (blk_transactions b))
     \<and> list_all (tx_valid ne (ctx_min_transaction_fee ctx)) (blk_transactions b)
     \<and> distinct (map pol_nullifier (blk_attestations b)) \<and> list_all (attestation_valid ne) (blk_attestations b)
     \<and> vc_finality_threshold (ctx_committee ctx) \<le> length (blk_validator_signatures b)
     \<and> list_all (\<lambda>vs. is_committee_member (ctx_committee ctx) (vs_validator vs)) (blk_validator_signatures b)"

lemma validate_block_iff: "validate_block ne now b ctx = Ok u \<longleftrightarrow> block_valid ne now ctx b"
  by (cases "enc (bc_block (ne_bincode ne)) b") (auto simp: validate_block_def block_valid_def try_result_Ok ser_result_def validate_block_header_iff validate_block_transactions_iff
      validate_block_attestations_iff check_each_Ok has_finality_def Let_def list_all_iff split: if_splits)

section \<open>Properties\<close>

text \<open>C38: Finality of a block is not verified by block validation. Given a valid block, the same block with its
  signatures replaced by copies of one arbitrary byte string under the name of a single committee member,
  as many as the threshold asks for, is valid as well.\<close>

theorem forged_finality_accepted:
  assumes "validate_block ne now b ctx = Ok ()" "is_committee_member (ctx_committee ctx) m"
    and "enc (bc_block (ne_bincode ne)) (b\<lparr>blk_validator_signatures := sigs\<rparr>) = Ok bytes" "length bytes \<le> ctx_max_block_size ctx"
    and "sigs = replicate (vc_finality_threshold (ctx_committee ctx)) \<lparr> vs_validator = m, vs_signature = junk \<rparr>"
  shows "validate_block ne now (b\<lparr>blk_validator_signatures := sigs\<rparr>) ctx = Ok ()"
  using assms by (auto simp: validate_block_iff block_valid_def list_all_iff)

definition sample_ctx :: ValidationContext where
  "sample_ctx = \<lparr> ctx_current_height = 1, ctx_previous_block_hash = [], ctx_committee = sample_committee, ctx_max_block_size = MAX_BLOCK_SIZE,
     ctx_min_transaction_fee = MIN_TRANSACTION_FEE, ctx_previous_block_timestamp = None, ctx_pol_thresholds = PolThresholds_default \<rparr>"

lemma sample_block_valid: "validate_block sample_node 0 (sample_block 1 (BlockHash [])) sample_ctx = Ok ()"
  by (simp add: validate_block_iff block_valid_def header_valid_def sample_ctx_def sample_block_def sample_header_def sample_members
      sample_sig_def sample_committee_def duration_seconds_def NANOS_PER_SEC_def MAX_BLOCK_SIZE_def is_committee_member_def sample_member_def)

theorem forged_finality_accepted_witness:
  "validate_block sample_node 0 ((sample_block 1 (BlockHash []))\<lparr>blk_validator_signatures :=
     [\<lparr> vs_validator = NodeId [3], vs_signature = [0] \<rparr>, \<lparr> vs_validator = NodeId [3], vs_signature = [0] \<rparr>]\<rparr>) sample_ctx = Ok ()"
  by (rule forged_finality_accepted [OF sample_block_valid, where m = "NodeId [3]" and junk = "[0]" and bytes = "[0]"])
    (simp_all add: sample_ctx_def sample_members sample_committee_def MAX_BLOCK_SIZE_def is_committee_member_def sample_member_def numeral_2_eq_2)

text \<open>C39: An idle phone can attest. A phone that recorded nothing at all can produce a proof against thresholds
  of zero, and every attestation that carries it passes block validation under the thresholds of the
  network, whatever they are.\<close>

theorem idle_phone_attestation_accepted:
  assumes "zk_ok (ne_zk ne)" "length blindings = 4"
  shows "\<exists>pf. generate_pol_proof (ne_zk ne) blindings
        \<lparr> pi_unlock_count = 0, pi_unlock_spread_hours = 0, pi_interaction_sessions = 0, pi_bt_environments = 0 \<rparr>
        \<lparr> min_unlocks = 0, min_spread = 0, min_interactions = 0, min_bt_envs = 0 \<rparr> day = Ok pf
      \<and> (\<forall>att thresholds. pol_zk_proof att = rp_proof_bytes pf \<and> pol_zk_commitments att = Some (rp_commitments pf) \<and> pol_epoch_day att = day
          \<longrightarrow> validate_block_attestations ne [att] thresholds = Ok ())"
proof -
  obtain pf where pf: "generate_pol_proof (ne_zk ne) blindings
        \<lparr> pi_unlock_count = 0, pi_unlock_spread_hours = 0, pi_interaction_sessions = 0, pi_bt_environments = 0 \<rparr>
        \<lparr> min_unlocks = 0, min_spread = 0, min_interactions = 0, min_bt_envs = 0 \<rparr> day = Ok pf"
    "verify_pol_proof (ne_zk ne) pf PolThresholds_default day = Ok True"
    using thresholds_not_bound [OF assms] by blast
  have "pf = \<lparr> rp_proof_bytes = rp_proof_bytes pf, rp_commitments = rp_commitments pf, rp_parameter_count = 4, rp_epoch_day = day \<rparr>"
    using pf(1) by (auto simp: generate_pol_proof_def Let_def FLEXIBLE_PARAMETER_COUNT_def split: sum.splits)
  then show ?thesis using pf by (auto simp: validate_block_attestations_iff attestation_valid_def)
qed

theorem idle_phone_attestation_accepted_witness:
  "\<exists>pf. generate_pol_proof toy_zk [1, 2, 3, 4]
        \<lparr> pi_unlock_count = 0, pi_unlock_spread_hours = 0, pi_interaction_sessions = 0, pi_bt_environments = 0 \<rparr>
        \<lparr> min_unlocks = 0, min_spread = 0, min_interactions = 0, min_bt_envs = 0 \<rparr> 5 = Ok pf"
  using idle_phone_attestation_accepted [of sample_node "[1, 2, 3, 4]" 5] toy_zk_ok by auto

end
