(* ===== verification/Consensus_Engine.thy ===== *)
theory Consensus_Engine
  imports Validation
begin

text \<open>
  The consensus engine and the fork resolver, \<^verbatim>\<open>gratia-consensus/src/lib.rs\<close>: committee set-up and
  rotation, slots, block production, collection of signatures, finalization, incoming blocks, roll-back
  and fork choice. Log output is left out; the clock is an argument.
\<close>

section \<open>State\<close>

definition TARGET_BLOCK_TIME_SECS :: u64 where "TARGET_BLOCK_TIME_SECS = 4"
definition MAX_RECENT_BLOCKS :: usize where "MAX_RECENT_BLOCKS = 128"

datatype ConsensusState = CS_Syncing | CS_Active | CS_Producing | CS_Stopped

record 's ConsensusEngine =
  e_node_id :: NodeId
  e_vrf_secret_key :: "'s VrfSecretKey"
  e_block_producer :: BlockProducer
  e_current_committee :: "ValidatorCommittee option"
  e_current_slot :: u64
  e_current_height :: u64
  e_last_finalized_hash :: BlockHash
  e_last_finalized_timestamp :: "datetime option"
  e_recent_block_hashes :: "BlockHash list"
  e_pending_block :: "PendingBlock option"
  e_state :: ConsensusState
  e_presence_score :: u8
  e_trust_aware :: bool
  e_syncing_slots :: u64
  e_started_at :: datetime
  e_seen_proposals :: "(u64 \<times> NodeId, BlockHash) hashmap"

datatype BlockProcessResult = BP_Accepted | BP_Skipped | BP_ForkDetected

definition ConsensusEngine_new :: "('p, 's) Node_Env \<Rightarrow> datetime \<Rightarrow> NodeId \<Rightarrow> bytes \<Rightarrow> u8 \<Rightarrow> 's ConsensusEngine" where
  "ConsensusEngine_new ne now node_id signing_key_bytes presence_score =
     \<lparr> e_node_id = node_id, e_vrf_secret_key = from_ed25519_bytes (ne_group ne) signing_key_bytes,
       e_block_producer = BlockProducer_new node_id 0 0, e_current_committee = None, e_current_slot = 0, e_current_height = 0,
       e_last_finalized_hash = BlockHash (replicate 32 0), e_last_finalized_timestamp = None, e_recent_block_hashes = [],
       e_pending_block = None, e_state = CS_Syncing, e_presence_score = presence_score, e_trust_aware = True,
       e_syncing_slots = 0, e_started_at = now, e_seen_proposals = [] \<rparr>"

definition clear_proposals_for_height :: "'s ConsensusEngine \<Rightarrow> u64 \<Rightarrow> 's ConsensusEngine" where
  "clear_proposals_for_height self height =
     self\<lparr>e_seen_proposals := filter (\<lambda>((h, _), _). h \<noteq> height) (e_seen_proposals self)\<rparr>"

definition e_is_committee_member :: "'s ConsensusEngine \<Rightarrow> bool" where
  "e_is_committee_member self =
     (case e_current_committee self of Some c \<Rightarrow> is_committee_member c (e_node_id self) | None \<Rightarrow> False)"

definition compute_epoch_seed :: "('p, 's) Node_Env \<Rightarrow> 's ConsensusEngine \<Rightarrow> bytes" where
  "compute_epoch_seed ne self =
     ne_sha256 ne (byte_string ''gratia-epoch-seed-v1:'' @ block_hash_bytes (e_last_finalized_hash self)
       @ be_bytes 8 (e_current_height self))"

section \<open>Committees and slots\<close>

definition initialize_committee ::
  "('p, 's) Node_Env \<Rightarrow> datetime \<Rightarrow> 's ConsensusEngine \<Rightarrow> EligibleNode list \<Rightarrow> bytes \<Rightarrow> u64 \<Rightarrow> u64
     \<Rightarrow> (GratiaError, unit) result \<times> 's ConsensusEngine" where
  "initialize_committee ne now self eligible_nodes epoch_seed epoch_number start_slot =
     (case select_committee (ne_group ne) (ne_sha256 ne) now eligible_nodes epoch_seed epoch_number start_slot of
        Err e \<Rightarrow> (Err e, self)
      | Ok committee \<Rightarrow>
          (Ok (), self\<lparr>e_current_committee := Some committee, e_current_slot := start_slot, e_state := CS_Active\<rparr>))"

definition advance_slot :: "'s ConsensusEngine \<Rightarrow> bool \<times> 's ConsensusEngine" where
  "advance_slot self =
     (let next_height = add_u64 (e_current_height self) 1;
          self = self\<lparr>e_current_slot := add_u64 (e_current_slot self) 1,
                      e_block_producer := set_slot (e_block_producer self) next_height\<rparr>
      in if e_state self = CS_Syncing then
           (let syncing = add_u64 (e_syncing_slots self) 1
            in (False, self\<lparr>e_syncing_slots := if syncing > 15 then 0 else syncing\<rparr>))
         else case e_current_committee self of
           Some committee \<Rightarrow>
             if should_produce_block (e_block_producer self) committee then (True, self\<lparr>e_state := CS_Producing\<rparr>)
             else (False, self)
         | None \<Rightarrow> (False, self))"

definition force_producing_state :: "'s ConsensusEngine \<Rightarrow> 's ConsensusEngine" where
  "force_producing_state self = self\<lparr>e_state := CS_Producing\<rparr>"

section \<open>Production and finalization\<close>

definition e_produce_block ::
  "('p, 's) Node_Env \<Rightarrow> datetime \<Rightarrow> 's ConsensusEngine \<Rightarrow> Transaction list \<Rightarrow> ProofOfLifeAttestation list \<Rightarrow> bytes \<Rightarrow> bytes
     \<Rightarrow> (GratiaError, PendingBlock) result \<times> 's ConsensusEngine" where
  "e_produce_block ne now self transactions attestations state_root producer_pubkey =
     (if e_state self \<noteq> CS_Producing then (invalid ''Not in producing state'', self)
      else
        let height = add_u64 (e_current_height self) 1
        in case e_current_committee self of
             None \<Rightarrow> (invalid ''No active committee for block production'', self)
           | Some committee \<Rightarrow>
               (case produce_block ne now (e_block_producer self) transactions attestations (e_last_finalized_hash self) height
                       state_root (e_vrf_secret_key self) committee of
                  Err e \<Rightarrow> (Err e, self)
                | Ok pending \<Rightarrow>
                    (let block = pb_block pending;
                         header = (blk_header block)\<lparr>bh_producer_pubkey := producer_pubkey\<rparr>;
                         pending = pending\<lparr>pb_block := block\<lparr>blk_header := header\<rparr>\<rparr>
                     in (Ok pending, self\<lparr>e_pending_block := Some pending\<rparr>))))"

definition pending_finality_threshold :: "'s ConsensusEngine \<Rightarrow> usize" where
  "pending_finality_threshold self =
     (case e_pending_block self of Some p \<Rightarrow> pb_finality_threshold p | None \<Rightarrow> U64_MAX)"

definition real_members :: "ValidatorCommittee \<Rightarrow> usize" where
  "real_members committee = length (filter (\<lambda>m. cm_signing_pubkey m \<noteq> []) (vc_members committee))"

definition check_block_signature ::
  "('p, 's) Node_Env \<Rightarrow> ValidatorCommittee \<Rightarrow> BlockHeader \<Rightarrow> ValidatorSignature \<Rightarrow> (GratiaError, unit) result" where
  "check_block_signature ne committee header sig =
     (if \<not> is_committee_member committee (vs_validator sig)
      then invalid (''Signer '' @ NodeId_to_string ne (vs_validator sig) @ '' is not a committee member'')
      else case get_signing_pubkey committee (vs_validator sig) of
        Some pubkey \<Rightarrow> verify_block_signature ne header sig pubkey
      | None \<Rightarrow>
          if real_members committee > 1
          then invalid (''Rejecting unverified signature from validator '' @ NodeId_to_string ne (vs_validator sig)
                 @ '': no signing pubkey (multi-node mode, '' @ show_nat (real_members committee) @ '' real members)'')
          else Ok ())"

definition add_block_signature ::
  "('p, 's) Node_Env \<Rightarrow> 's ConsensusEngine \<Rightarrow> ValidatorSignature \<Rightarrow> (GratiaError, bool) result \<times> 's ConsensusEngine" where
  "add_block_signature ne self signature =
     (case e_pending_block self of
        None \<Rightarrow> (invalid ''No pending block to sign'', self)
      | Some pending \<Rightarrow>
          (case (case e_current_committee self of
                   Some committee \<Rightarrow> check_block_signature ne committee (blk_header (pb_block pending)) signature
                 | None \<Rightarrow> Ok ()) of
             Err e \<Rightarrow> (Err e, self)
           | Ok _ \<Rightarrow>
               (case pb_add_signature ne pending signature of
                  (Err e, _) \<Rightarrow> (Err e, self)
                | (Ok _, pending) \<Rightarrow> (Ok (pb_is_finalized pending), self\<lparr>e_pending_block := Some pending\<rparr>))))"

definition push_recent :: "BlockHash list \<Rightarrow> BlockHash \<Rightarrow> BlockHash list" where
  "push_recent recent h =
     (let recent = recent @ [h]
      in if length recent > MAX_RECENT_BLOCKS then drop (length recent - MAX_RECENT_BLOCKS) recent else recent)"

definition finalize_pending_block_inner ::
  "('p, 's) Node_Env \<Rightarrow> 's ConsensusEngine \<Rightarrow> bool \<Rightarrow> (GratiaError, Block) result \<times> 's ConsensusEngine" where
  "finalize_pending_block_inner ne self force =
     (case e_pending_block self of
        None \<Rightarrow> (invalid ''No pending block to finalize'', self)
      | Some pending \<Rightarrow>
          (let self = self\<lparr>e_pending_block := None\<rparr>
           in case (if force then force_finalize pending else pb_finalize pending) of
                Err e \<Rightarrow> (Err e, self)
              | Ok block \<Rightarrow>
                  (case ne_header_hash ne (blk_header block) of
                     Err e \<Rightarrow> (Err e, self)
                   | Ok block_hash \<Rightarrow>
                       (Ok block, self\<lparr>e_current_height := bh_height (blk_header block), e_last_finalized_hash := block_hash,
                          e_last_finalized_timestamp := Some (bh_timestamp (blk_header block)),
                          e_recent_block_hashes := push_recent (e_recent_block_hashes self) block_hash,
                          e_state := CS_Active\<rparr>))))"

definition finalize_pending_block ::
  "('p, 's) Node_Env \<Rightarrow> 's ConsensusEngine \<Rightarrow> (GratiaError, Block) result \<times> 's ConsensusEngine" where
  "finalize_pending_block ne self = finalize_pending_block_inner ne self False"

definition force_finalize_pending_block ::
  "('p, 's) Node_Env \<Rightarrow> 's ConsensusEngine \<Rightarrow> (GratiaError, Block) result \<times> 's ConsensusEngine" where
  "force_finalize_pending_block ne self =
     (case e_current_committee self of
        Some committee \<Rightarrow>
          if real_members committee > 1
          then (invalid (''force_finalize blocked: '' @ show_nat (real_members committee)
                  @ '' real committee members (only allowed in solo/bootstrap mode)''), self)
          else finalize_pending_block_inner ne self True
      | None \<Rightarrow> finalize_pending_block_inner ne self True)"

section \<open>Incoming blocks\<close>

definition check_incoming_signature ::
  "('p, 's) Node_Env \<Rightarrow> ValidatorCommittee \<Rightarrow> BlockHeader \<Rightarrow> ValidatorSignature \<Rightarrow> (GratiaError, unit) result" where
  "check_incoming_signature ne committee header vs =
     (if \<not> is_committee_member committee (vs_validator vs)
      then invalid (''Block signature from non-committee member: '' @ NodeId_to_string ne (vs_validator vs))
      else case get_signing_pubkey committee (vs_validator vs) of
        Some pubkey \<Rightarrow>
          map_err (\<lambda>e. GE_BlockValidationFailed (''Invalid signature from validator '' @ NodeId_to_string ne (vs_validator vs)
              @ '': '' @ GratiaError_to_string ne e)) (verify_block_signature ne header vs pubkey)
      | None \<Rightarrow>
          if real_members committee > 1
          then invalid (''Block signature from validator '' @ NodeId_to_string ne (vs_validator vs)
                 @ '' has no signing pubkey (multi-node mode, '' @ show_nat (real_members committee) @ '' real members)'')
          else Ok ())"

definition check_incoming_transaction :: "('p, 's) Node_Env \<Rightarrow> nat \<times> Transaction \<Rightarrow> (GratiaError, unit) result" where
  "check_incoming_transaction ne it =
     (let (i, tx) = it
      in if length (tx_signature tx) \<noteq> 64
         then invalid (''Transaction '' @ show_nat i @ '' has invalid signature length: '' @ show_nat (length (tx_signature tx))
                @ '' (expected 64)'')
         else if length (tx_sender_pubkey tx) \<noteq> 32
         then invalid (''Transaction '' @ show_nat i @ '' has invalid sender pubkey length: ''
                @ show_nat (length (tx_sender_pubkey tx)) @ '' (expected 32)'')
         else case env_payload (ne_env ne) (tx_payload tx) of
           Err e \<Rightarrow> invalid (''Transaction '' @ show_nat i @ '' payload serialization failed: '' @ e)
         | Ok payload_bytes \<Rightarrow>
             (let signable = payload_bytes @ le_bytes 8 (tx_nonce tx) @ le_bytes 4 (tx_chain_id tx) @ le_bytes 8 (tx_fee tx)
                    @ i64_le_bytes (timestamp_millis (tx_timestamp tx))
              in map_err (\<lambda>_. GE_BlockValidationFailed (''Transaction '' @ show_nat i @ '' has invalid Ed25519 signature''))
                   (verify_signature (ne_ed ne) (tx_sender_pubkey tx) signable (tx_signature tx))))"

definition note_proposal :: "'s ConsensusEngine \<Rightarrow> u64 \<times> NodeId \<Rightarrow> BlockHash \<Rightarrow> 's ConsensusEngine" where
  "note_proposal self proposal_key block_hash =
     (let seen = AList.update proposal_key block_hash (e_seen_proposals self)
      in self\<lparr>e_seen_proposals :=
           if e_current_height self > 100
           then filter (\<lambda>((h, _), _). h > e_current_height self - 100) seen else seen\<rparr>)"

definition check_incoming ::
  "('p, 's) Node_Env \<Rightarrow> 's ConsensusEngine \<Rightarrow> bool \<Rightarrow> Block \<Rightarrow> (GratiaError, unit) result" where
  "check_incoming ne self is_fast_forward block =
     (case e_current_committee self of
        None \<Rightarrow> check_each (check_incoming_transaction ne) (enumerate 0 (blk_transactions block))
      | Some committee \<Rightarrow>
          if is_fast_forward \<and> \<not> list_ex (\<lambda>m. cm_node_id m = bh_producer (blk_header block) \<and> cm_signing_pubkey m \<noteq> []) (vc_members committee)
          then invalid ''fast-forward block producer is not a committee member''
          else if \<not> is_fast_forward \<and> \<not> list_ex (\<lambda>m. cm_node_id m = bh_producer (blk_header block)) (vc_members committee)
          then invalid ''block producer is not a committee member''
          else if length (blk_validator_signatures block) < 1
          then Err (GE_InsufficientSignatures (length (blk_validator_signatures block)) 1)
          else try_result (check_each (check_incoming_signature ne committee (blk_header block)) (blk_validator_signatures block)) (\<lambda>_.
                 check_each (check_incoming_transaction ne) (enumerate 0 (blk_transactions block))))"

definition process_incoming_block ::
  "('p, 's) Node_Env \<Rightarrow> 's ConsensusEngine \<Rightarrow> Block \<Rightarrow> (GratiaError, BlockProcessResult) result \<times> 's ConsensusEngine" where
  "process_incoming_block ne self block =
     (let incoming_height = bh_height (blk_header block);
          expected_height = add_u64 (e_current_height self) 1
      in if incoming_height \<le> e_current_height self then (Ok BP_Skipped, self)
         else if incoming_height > expected_height \<and> incoming_height - e_current_height self \<noteq> 2 then (Ok BP_ForkDetected, self)
         else
           let is_fast_forward = incoming_height > expected_height
           in if \<not> is_fast_forward \<and> bh_parent_hash (blk_header block) \<noteq> e_last_finalized_hash self then (Ok BP_ForkDetected, self)
              else case ne_header_hash ne (blk_header block) of
                Err e \<Rightarrow> (Err e, self)
              | Ok block_hash \<Rightarrow>
                  (let proposal_key = (incoming_height, bh_producer (blk_header block))
                   in if (case map_of (e_seen_proposals self) proposal_key of Some prev_hash \<Rightarrow> prev_hash \<noteq> block_hash | None \<Rightarrow> False)
                      then (invalid ''equivocation: producer proposed different blocks at same height'', self)
                      else
                        let self = note_proposal self proposal_key block_hash
                        in case check_incoming ne self is_fast_forward block of
                             Err e \<Rightarrow> (Err e, self)
                           | Ok _ \<Rightarrow>
                               (Ok BP_Accepted,
                                self\<lparr>e_current_height := incoming_height, e_last_finalized_hash := block_hash,
                                     e_last_finalized_timestamp := Some (bh_timestamp (blk_header block)),
                                     e_recent_block_hashes := push_recent (e_recent_block_hashes self) block_hash,
                                     e_pending_block := None, e_state := CS_Active\<rparr>)))"

section \<open>Other operations\<close>

definition MAX_ROLLBACK_DEPTH :: u64 where "MAX_ROLLBACK_DEPTH = 128"

definition rollback_to :: "'s ConsensusEngine \<Rightarrow> u64 \<Rightarrow> BlockHash \<Rightarrow> (GratiaError, unit) result \<times> 's ConsensusEngine" where
  "rollback_to self height tip_hash =
     (if height > 0 \<and> e_current_height self > height \<and> e_current_height self - height > MAX_ROLLBACK_DEPTH
      then (Err (GE_Other (''Rollback depth '' @ show_nat (e_current_height self - height) @ '' exceeds maximum ''
              @ show_nat MAX_ROLLBACK_DEPTH @ '' blocks (current='' @ show_nat (e_current_height self) @ '', target='' @ show_nat height
              @ '')'')), self)
      else (Ok (), self\<lparr>e_current_height := height, e_last_finalized_hash := tip_hash, e_last_finalized_timestamp := None,
              e_pending_block := None, e_recent_block_hashes := [], e_state := CS_Active, e_syncing_slots := 0\<rparr>))"

definition e_rotate_committee ::
  "('p, 's) Node_Env \<Rightarrow> datetime \<Rightarrow> 's ConsensusEngine \<Rightarrow> EligibleNode list \<Rightarrow> (GratiaError, unit) result \<times> 's ConsensusEngine" where
  "e_rotate_committee ne now self eligible_nodes =
     (case e_current_committee self of
        None \<Rightarrow> (invalid ''No current committee to rotate from'', self)
      | Some current \<Rightarrow>
          (case rotate_committee (ne_group ne) (ne_sha256 ne) now eligible_nodes current (block_hash_bytes (e_last_finalized_hash self)) of
             Err e \<Rightarrow> (Err e, self)
           | Ok new_committee \<Rightarrow> (Ok (), self\<lparr>e_current_committee := Some new_committee\<rparr>)))"

definition set_presence_score :: "'s ConsensusEngine \<Rightarrow> u8 \<Rightarrow> 's ConsensusEngine" where
  "set_presence_score self score = self\<lparr>e_presence_score := score\<rparr>"

definition update_network_stats :: "'s ConsensusEngine \<Rightarrow> u64 \<Rightarrow> u16 \<Rightarrow> 's ConsensusEngine" where
  "update_network_stats self active_miners geographic_diversity =
     self\<lparr>e_block_producer := bp_update_network_stats (e_block_producer self) active_miners geographic_diversity\<rparr>"

definition restore_state :: "'s ConsensusEngine \<Rightarrow> u64 \<Rightarrow> BlockHash \<Rightarrow> 's ConsensusEngine" where
  "restore_state self height tip_hash = self\<lparr>e_current_height := height, e_last_finalized_hash := tip_hash\<rparr>"

definition stop :: "'s ConsensusEngine \<Rightarrow> 's ConsensusEngine" where
  "stop self = self\<lparr>e_state := CS_Stopped, e_pending_block := None\<rparr>"

definition has_recent_block :: "'s ConsensusEngine \<Rightarrow> BlockHash \<Rightarrow> bool" where
  "has_recent_block self hash = (hash \<in> set (e_recent_block_hashes self))"

definition slots_remaining_in_epoch :: "'s ConsensusEngine \<Rightarrow> u64 option" where
  "slots_remaining_in_epoch self =
     map_option (\<lambda>c. if e_current_slot self \<ge> ce_end_slot (vc_epoch c) then 0
                     else ce_end_slot (vc_epoch c) - e_current_slot self) (e_current_committee self)"

definition sign_block_as_validator ::
  "('p, 's) Node_Env \<Rightarrow> 's ConsensusEngine \<Rightarrow> BlockHeader \<Rightarrow> Keypair \<Rightarrow> (GratiaError, ValidatorSignature) result" where
  "sign_block_as_validator ne self header keypair =
     (if \<not> e_is_committee_member self then invalid ''This node is not a committee member''
      else sign_block ne header (e_node_id self) keypair)"

section \<open>Fork choice\<close>

datatype ForkChoice = KeepOurs | SwitchToTheirs | NeedMoreInfo

definition resolve_fork ::
  "('p, 's) Node_Env \<Rightarrow> Block \<Rightarrow> Block \<Rightarrow> usize \<Rightarrow> usize \<Rightarrow> usize \<Rightarrow> (GratiaError, ForkChoice) result" where
  "resolve_fork ne our_block their_block our_sigs their_sigs finality_threshold =
     (let our_height = bh_height (blk_header our_block);
          their_height = bh_height (blk_header their_block)
      in if our_height \<noteq> their_height then Ok (if their_height > our_height then SwitchToTheirs else KeepOurs)
         else if their_sigs > our_sigs \<and> their_sigs \<ge> finality_threshold then Ok SwitchToTheirs
         else if our_sigs > their_sigs \<and> our_sigs \<ge> finality_threshold then Ok KeepOurs
         else if our_sigs = their_sigs \<and> our_sigs \<ge> finality_threshold then
           try_result (map_err (\<lambda>_. GE_BlockValidationFailed ''failed to compute hash for our block during fork resolution'')
                         (ne_header_hash ne (blk_header our_block))) (\<lambda>our_hash.
           try_result (map_err (\<lambda>_. GE_BlockValidationFailed ''failed to compute hash for their block during fork resolution'')
                         (ne_header_hash ne (blk_header their_block))) (\<lambda>their_hash.
             if block_hash_bytes their_hash < block_hash_bytes our_hash then Ok SwitchToTheirs else Ok KeepOurs))
         else Ok NeedMoreInfo)"

end
