(* ===== verification/Consensus_Runs.thy ===== *)
theory Consensus_Runs
  imports Consensus_Engine
begin

text \<open>
  What the consensus engine guarantees: a block it finalizes was signed by a quorum of the committee and
  two such quorums overlap, incoming blocks are accepted under exactly stated conditions, the fork choice
  of two nodes agrees; and weaknesses of the code: a refused forged block blocks the honest one of the same
  producer, transactions are not bound to the signed header, a premature finalization loses the pending
  block, and a block two heights ahead is accepted without a known parent.
\<close>

section \<open>Signatures on the pending block\<close>

lemma real_members_signers:
  "distinct (map cm_node_id (vc_members c)) \<Longrightarrow> real_members c = card (signers c)"
  by (simp add: real_members_def card_signers)

lemma signing_pubkey_signer: "get_signing_pubkey c v = Some pk \<Longrightarrow> v \<in> signers c"
  by (auto simp: get_signing_pubkey_def get_member_def signers_def find_Some_iff split: option.splits if_splits)

lemma checked_signature:
  assumes "check_block_signature ne c h sig = Ok u" "real_members c > 1"
  shows "\<exists>pk. get_signing_pubkey c (vs_validator sig) = Some pk \<and> verify_block_signature ne h sig pk = Ok ()"
  using assms by (auto simp: check_block_signature_def split: if_splits option.splits)

definition pending_ok :: "('p, 's) Node_Env \<Rightarrow> ValidatorCommittee \<Rightarrow> Block \<Rightarrow> 's ConsensusEngine \<Rightarrow> bool" where
  "pending_ok ne c b e \<longleftrightarrow> e_current_committee e = Some c
     \<and> (\<exists>p. e_pending_block e = Some p \<and> pb_block p = b \<and> pb_finality_threshold p = vc_finality_threshold c
          \<and> distinct (map vs_validator (pb_signatures p))
          \<and> list_all (\<lambda>sig. check_block_signature ne c (blk_header b) sig = Ok ()) (pb_signatures p))"

lemma add_block_signature_pending_ok: "pending_ok ne c b e \<Longrightarrow> pending_ok ne c b (snd (add_block_signature ne e sig))"
proof -
  assume ok: "pending_ok ne c b e"
  then obtain p where p: "e_current_committee e = Some c" "e_pending_block e = Some p" "pb_block p = b" by (auto simp: pending_ok_def)
  have add: "snd (add_block_signature ne e sig) = e \<or> check_block_signature ne c (blk_header b) sig = Ok ()
      \<and> vs_validator sig \<notin> set (map vs_validator (pb_signatures p))
      \<and> snd (add_block_signature ne e sig) = e\<lparr>e_pending_block := Some (p\<lparr>pb_signatures := pb_signatures p @ [sig]\<rparr>)\<rparr>"
    by (auto simp: add_block_signature_def pb_add_signature_def list_ex_iff p image_iff split: sum.splits)
  then show ?thesis using ok p by (auto simp: pending_ok_def)
qed

interpretation collecting: keeps_invariant "\<lambda>e sig. snd (add_block_signature ne e sig)" "\<lambda>_ _. True" "pending_ok ne c b" for ne c b
  by unfold_locales (rule add_block_signature_pending_ok)

abbreviation collect :: "('p, 's) Node_Env \<Rightarrow> 's ConsensusEngine \<Rightarrow> ValidatorSignature list \<Rightarrow> 's ConsensusEngine" where
  "collect ne e sigs \<equiv> foldl (\<lambda>e sig. snd (add_block_signature ne e sig)) e sigs"

lemma produced_pending_ok:
  assumes "e_produce_block ne now e txs atts st_root pubkey = (Ok p, e')" "e_current_committee e = Some c"
  shows "pending_ok ne c (pb_block p) e' \<and> e_current_committee e' = Some c"
  using assms by (auto simp: e_produce_block_def pending_ok_def Let_def produced_block split: if_splits sum.splits)

text \<open>A run of the producer: produce, collect signatures, finalize.\<close>
definition producer_run :: "('p, 's) Node_Env \<Rightarrow> datetime \<Rightarrow> 's ConsensusEngine \<Rightarrow> Transaction list \<Rightarrow> ProofOfLifeAttestation list
     \<Rightarrow> bytes \<Rightarrow> bytes \<Rightarrow> ValidatorSignature list \<Rightarrow> (GratiaError, Block) result \<times> 's ConsensusEngine" where
  "producer_run ne now e txs atts st_root pubkey sigs =
     (case e_produce_block ne now e txs atts st_root pubkey of
        (Err er, e) \<Rightarrow> (Err er, e)
      | (Ok _, e) \<Rightarrow> finalize_pending_block ne (collect ne e sigs))"

lemma finalize_outcome:
  assumes "pending_ok ne c b0 e" "finalize_pending_block ne e = (Ok b, e')"
  shows "blk_header b = blk_header b0 \<and> blk_transactions b = blk_transactions b0
    \<and> vc_finality_threshold c \<le> length (blk_validator_signatures b) \<and> distinct (map vs_validator (blk_validator_signatures b))
    \<and> list_all (\<lambda>sig. check_block_signature ne c (blk_header b) sig = Ok ()) (blk_validator_signatures b)
    \<and> e_current_height e' = bh_height (blk_header b) \<and> ne_header_hash ne (blk_header b) = Ok (e_last_finalized_hash e')
    \<and> e_pending_block e' = None"
  using assms by (auto simp: pending_ok_def finalize_pending_block_def finalize_pending_block_inner_def pb_finalize_def pb_is_finalized_def
      Let_def split: if_splits sum.splits)

lemma producer_run_pending:
  assumes "producer_run ne now e txs atts st_root pubkey sigs = (Ok b, e')" "e_current_committee e = Some c"
  shows "\<exists>p s. e_produce_block ne now e txs atts st_root pubkey = (Ok p, s) \<and> pending_ok ne c (pb_block p) (collect ne s sigs)
    \<and> finalize_pending_block ne (collect ne s sigs) = (Ok b, e')"
proof -
  obtain p s where ps: "e_produce_block ne now e txs atts st_root pubkey = (Ok p, s)" "finalize_pending_block ne (collect ne s sigs) = (Ok b, e')"
    using assms(1) by (auto simp: producer_run_def split: prod.splits sum.splits)
  moreover have "pending_ok ne c (pb_block p) (collect ne s sigs)"
    using produced_pending_ok [OF ps(1) assms(2)] by (intro collecting.run_inv) simp_all
  ultimately show ?thesis by (intro exI [of _ p] exI [of _ s] conjI)
qed

definition signer_set :: "Block \<Rightarrow> NodeId set" where
  "signer_set b = vs_validator ` set (blk_validator_signatures b)"

lemma producer_run_quorum:
  assumes "producer_run ne now e txs atts st_root pubkey sigs = (Ok b, e')" "e_current_committee e = Some c"
    "committee_wf c" "real_members c > 1"
  shows "finality_quorum c (signer_set b)"
proof -
  obtain p :: PendingBlock and s where ps: "pending_ok ne c (pb_block p) (collect ne s sigs)" "finalize_pending_block ne (collect ne s sigs) = (Ok b, e')"
    using producer_run_pending [OF assms(1,2)] by (elim exE conjE)
  have b: "vc_finality_threshold c \<le> length (blk_validator_signatures b)" "distinct (map vs_validator (blk_validator_signatures b))"
    "\<forall>sig \<in> set (blk_validator_signatures b). check_block_signature ne c (blk_header b) sig = Ok ()"
    using finalize_outcome [OF ps] unfolding list_all_iff by blast+
  have "card (signer_set b) = length (blk_validator_signatures b)"
    using distinct_card [OF b(2)] by (simp add: signer_set_def)
  moreover have "signer_set b \<subseteq> signers c"
  proof
    fix v assume "v \<in> signer_set b"
    then obtain sig where "sig \<in> set (blk_validator_signatures b)" "v = vs_validator sig" by (auto simp: signer_set_def)
    then show "v \<in> signers c" using b(3) checked_signature [OF _ assms(4)] signing_pubkey_signer by blast
  qed
  ultimately show ?thesis using b(1) assms(3) by (simp add: finality_quorum_def has_finality_def)
qed

section \<open>Incoming blocks\<close>

definition tx_signed :: "('p, 's) Node_Env \<Rightarrow> Transaction \<Rightarrow> bool" where
  "tx_signed ne tx \<longleftrightarrow> (case compute_signable_bytes (ne_env ne) tx of
     Err _ \<Rightarrow> False | Ok signable \<Rightarrow> verify_signature (ne_ed ne) (tx_sender_pubkey tx) signable (tx_signature tx) = Ok ())"

lemma verify_signature_lengths: "verify_signature ed pk m s = Ok u \<Longrightarrow> length pk = 32 \<and> length s = 64"
  by (auto simp: verify_signature_def split: if_splits)

lemma check_incoming_transaction_iff: "check_incoming_transaction ne (i, tx) = Ok u \<longleftrightarrow> tx_signed ne tx"
  by (auto simp: check_incoming_transaction_def tx_signed_def compute_signable_bytes_def Let_def
      dest: verify_signature_lengths split: sum.splits)

lemma check_incoming_transactions_iff:
  "check_each (check_incoming_transaction ne) (enumerate n txs) = Ok u \<longleftrightarrow> list_all (tx_signed ne) txs"
  by (induction txs arbitrary: n) (auto simp: enumerate_simps try_result_Ok check_incoming_transaction_iff)

text \<open>A signature that counts: of a member, verified under its key if it has one, and without a key only while
  at most one member can sign.\<close>
definition sig_counts :: "('p, 's) Node_Env \<Rightarrow> ValidatorCommittee \<Rightarrow> BlockHeader \<Rightarrow> ValidatorSignature \<Rightarrow> bool" where
  "sig_counts ne c h sig \<longleftrightarrow> is_committee_member c (vs_validator sig)
     \<and> (case get_signing_pubkey c (vs_validator sig) of
          Some pk \<Rightarrow> verify_block_signature ne h sig pk = Ok () | None \<Rightarrow> real_members c \<le> 1)"

lemma check_incoming_signature_iff: "check_incoming_signature ne c h sig = Ok u \<longleftrightarrow> sig_counts ne c h sig"
  by (auto simp: check_incoming_signature_def sig_counts_def split: option.splits)

lemma check_incoming_signatures_iff:
  "check_each (check_incoming_signature ne c h) sigs = Ok u \<longleftrightarrow> list_all (sig_counts ne c h) sigs"
  by (simp add: check_each_Ok check_incoming_signature_iff list_all_iff)

lemma check_block_signature_iff: "check_block_signature ne c h sig = Ok u \<longleftrightarrow> sig_counts ne c h sig"
  by (auto simp: check_block_signature_def sig_counts_def split: option.splits)

definition signed_by_committee :: "('p, 's) Node_Env \<Rightarrow> 's ConsensusEngine \<Rightarrow> bool \<Rightarrow> Block \<Rightarrow> bool" where
  "signed_by_committee ne e ff b \<longleftrightarrow> (case e_current_committee e of
     None \<Rightarrow> True
   | Some c \<Rightarrow> list_ex (\<lambda>m. cm_node_id m = bh_producer (blk_header b) \<and> (ff \<longrightarrow> cm_signing_pubkey m \<noteq> [])) (vc_members c)
       \<and> blk_validator_signatures b \<noteq> [] \<and> list_all (sig_counts ne c (blk_header b)) (blk_validator_signatures b))"

lemma check_incoming_iff:
  "check_incoming ne e ff b = Ok u \<longleftrightarrow> signed_by_committee ne e ff b \<and> list_all (tx_signed ne) (blk_transactions b)"
  by (cases ff) (auto simp: check_incoming_def signed_by_committee_def check_incoming_transactions_iff try_result_Ok
      check_incoming_signatures_iff list_ex_iff Suc_le_eq split: option.splits)

definition extends_tip :: "'s ConsensusEngine \<Rightarrow> Block \<Rightarrow> bool" where
  "extends_tip e b \<longleftrightarrow> bh_height (blk_header b) = e_current_height e + 1 \<and> bh_parent_hash (blk_header b) = e_last_finalized_hash e"

definition skips_ahead :: "'s ConsensusEngine \<Rightarrow> Block \<Rightarrow> bool" where
  "skips_ahead e b \<longleftrightarrow> bh_height (blk_header b) = e_current_height e + 2"

definition no_equivocation :: "'s ConsensusEngine \<Rightarrow> Block \<Rightarrow> BlockHash \<Rightarrow> bool" where
  "no_equivocation e b hash \<longleftrightarrow> (case map_of (e_seen_proposals e) (bh_height (blk_header b), bh_producer (blk_header b)) of
     None \<Rightarrow> True | Some h \<Rightarrow> h = hash)"

definition acceptable_block :: "('p, 's) Node_Env \<Rightarrow> 's ConsensusEngine \<Rightarrow> Block \<Rightarrow> BlockHash \<Rightarrow> bool" where
  "acceptable_block ne e b hash \<longleftrightarrow> (extends_tip e b \<or> skips_ahead e b) \<and> ne_header_hash ne (blk_header b) = Ok hash
     \<and> no_equivocation e b hash \<and> signed_by_committee ne e (skips_ahead e b) b \<and> list_all (tx_signed ne) (blk_transactions b)"

lemma note_proposal_keeps [simp]:
  "e_current_committee (note_proposal e k h) = e_current_committee e" "e_current_height (note_proposal e k h) = e_current_height e"
  "e_last_finalized_hash (note_proposal e k h) = e_last_finalized_hash e" "e_pending_block (note_proposal e k h) = e_pending_block e"
  "e_recent_block_hashes (note_proposal e k h) = e_recent_block_hashes e" "e_state (note_proposal e k h) = e_state e"
  by (simp_all add: note_proposal_def Let_def)

lemma signed_by_committee_note [simp]: "signed_by_committee ne (note_proposal e k h) ff b = signed_by_committee ne e ff b"
  by (simp add: signed_by_committee_def)

definition advanced :: "'s ConsensusEngine \<Rightarrow> Block \<Rightarrow> BlockHash \<Rightarrow> 's ConsensusEngine" where
  "advanced e b hash = (note_proposal e (bh_height (blk_header b), bh_producer (blk_header b)) hash)
     \<lparr>e_current_height := bh_height (blk_header b), e_last_finalized_hash := hash,
      e_last_finalized_timestamp := Some (bh_timestamp (blk_header b)),
      e_recent_block_hashes := push_recent (e_recent_block_hashes e) hash, e_pending_block := None, e_state := CS_Active\<rparr>"

text \<open>A block that extends the tip or is two ahead of it goes through the remaining checks.\<close>
lemma process_incoming_candidate:
  assumes "e_current_height e + 2 \<le> U64_MAX" "extends_tip e b \<or> skips_ahead e b"
  shows "process_incoming_block ne e b =
    (case ne_header_hash ne (blk_header b) of
       Err er \<Rightarrow> (Err er, e)
     | Ok hash \<Rightarrow>
         if \<not> no_equivocation e b hash then (invalid ''equivocation: producer proposed different blocks at same height'', e)
         else case check_incoming ne (note_proposal e (bh_height (blk_header b), bh_producer (blk_header b)) hash) (skips_ahead e b) b of
                Err er \<Rightarrow> (Err er, note_proposal e (bh_height (blk_header b), bh_producer (blk_header b)) hash)
              | Ok _ \<Rightarrow> (Ok BP_Accepted, advanced e b hash))"
proof -
  have inc: "add_u64 (e_current_height e) 1 = e_current_height e + 1" using assms(1) by (simp add: inc_u64)
  have ff: "(bh_height (blk_header b) > e_current_height e + 1) = skips_ahead e b"
    and low: "\<not> bh_height (blk_header b) \<le> e_current_height e" and gap: "\<not> (skips_ahead e b \<and> bh_height (blk_header b) - e_current_height e \<noteq> 2)"
    and parent: "\<not> (\<not> skips_ahead e b \<and> bh_parent_hash (blk_header b) \<noteq> e_last_finalized_hash e)"
    using assms(2) by (auto simp: extends_tip_def skips_ahead_def)
  have eq: "(case map_of (e_seen_proposals e) (bh_height (blk_header b), bh_producer (blk_header b)) of
      None \<Rightarrow> False | Some prev_hash \<Rightarrow> prev_hash \<noteq> hash) = (\<not> no_equivocation e b hash)" for hash
    by (simp add: no_equivocation_def split: option.splits)
  show ?thesis
    unfolding process_incoming_block_def Let_def inc ff eq if_not_P [OF low] if_not_P [OF gap] if_not_P [OF parent]
      advanced_def note_proposal_keeps ..
qed

lemma process_incoming_accepts:
  assumes "e_current_height e + 2 \<le> U64_MAX" "acceptable_block ne e b hash"
  shows "process_incoming_block ne e b = (Ok BP_Accepted, advanced e b hash)"
proof -
  have "check_incoming ne (note_proposal e k hash) (skips_ahead e b) b = Ok ()" for k
    using assms(2) by (simp add: check_incoming_iff acceptable_block_def)
  moreover have cand: "extends_tip e b \<or> skips_ahead e b" using assms(2) by (simp add: acceptable_block_def)
  ultimately show ?thesis using assms(2) by (simp add: process_incoming_candidate [OF assms(1) cand] acceptable_block_def)
qed

definition same_chain :: "'s ConsensusEngine \<Rightarrow> 's ConsensusEngine \<Rightarrow> bool" where
  "same_chain e e' \<longleftrightarrow> e_current_height e' = e_current_height e \<and> e_last_finalized_hash e' = e_last_finalized_hash e
     \<and> e_recent_block_hashes e' = e_recent_block_hashes e \<and> e_pending_block e' = e_pending_block e \<and> e_state e' = e_state e
     \<and> e_current_committee e' = e_current_committee e"

lemma process_incoming_refuses:
  assumes "e_current_height e + 2 \<le> U64_MAX" "\<nexists>hash. acceptable_block ne e b hash"
  shows "fst (process_incoming_block ne e b) \<noteq> Ok BP_Accepted \<and> same_chain e (snd (process_incoming_block ne e b))"
proof (cases "extends_tip e b \<or> skips_ahead e b")
  case True
  have "check_incoming ne (note_proposal e k hash) (skips_ahead e b) b \<noteq> Ok ()"
    if "ne_header_hash ne (blk_header b) = Ok hash" "no_equivocation e b hash" for k hash
    using assms(2) True that by (auto simp: check_incoming_iff acceptable_block_def)
  then show ?thesis
    by (cases "ne_header_hash ne (blk_header b)")
      (auto simp: process_incoming_candidate [OF assms(1) True] same_chain_def split: sum.splits)
next
  case False
  let ?h = "bh_height (blk_header b)" and ?c = "e_current_height e"
  have inc: "add_u64 ?c (Suc 0) = Suc ?c" using assms(1) by (simp add: inc_u64)
  have "?h \<le> ?c \<or> ?h > ?c + 2 \<or> (?h = ?c + 1 \<and> bh_parent_hash (blk_header b) \<noteq> e_last_finalized_hash e)"
    using False by (fastforce simp: extends_tip_def skips_ahead_def)
  then show ?thesis by (auto simp: process_incoming_block_def inc Let_def same_chain_def)
qed

lemma map_of_filter_height: "map_of (filter (\<lambda>((h, _), _). P h) xs) (h, n) = (if P h then map_of xs (h, n) else None)"
  by (induction xs) auto

lemma push_recent_length: "length hs \<le> MAX_RECENT_BLOCKS \<Longrightarrow> length (push_recent hs h) \<le> MAX_RECENT_BLOCKS"
  by (simp add: push_recent_def Let_def MAX_RECENT_BLOCKS_def)

lemma push_recent_last: "last (push_recent hs h) = h"
  by (simp add: push_recent_def Let_def MAX_RECENT_BLOCKS_def)

section \<open>A concrete engine\<close>

definition sample_engine :: "int ConsensusEngine" where
  "sample_engine = (ConsensusEngine_new sample_node 0 (NodeId [1]) [] 50)
     \<lparr>e_current_committee := Some sample_committee, e_state := CS_Producing\<rparr>"

lemma sample_real_members: "real_members sample_committee = 3"
  by (simp add: real_members_def sample_committee_def sample_member_def)

lemma sample_committee_wf: "committee_wf sample_committee"
proof -
  have d: "distinct (map cm_node_id (vc_members sample_committee))" by (simp add: sample_committee_def sample_member_def)
  have "card (signers sample_committee) = 3" using real_members_signers [OF d] by (simp add: sample_real_members)
  moreover have "length (vc_members sample_committee) = 3" "vc_committee_size sample_committee = 3" "vc_finality_threshold sample_committee = 2"
    by (simp_all add: sample_committee_def)
  ultimately show ?thesis using d by (simp add: committee_wf_def SCALING_TIERS_def)
qed

lemma sample_engine_simps [simp]:
  "e_current_committee sample_engine = Some sample_committee" "e_current_height sample_engine = 0" "e_state sample_engine = CS_Producing"
  "e_last_finalized_hash sample_engine = BlockHash (replicate 32 0)" "e_seen_proposals sample_engine = []" "e_recent_block_hashes sample_engine = []"
  by (simp_all add: sample_engine_def ConsensusEngine_new_def)

lemma sample_sig_validator [simp]: "vs_validator (sample_sig i n) = NodeId [i]"
  by (simp add: sample_sig_def)

lemma sample_sig_counts:
  "i \<in> {1, 2, 3} \<Longrightarrow> bh_height h = n \<Longrightarrow> sig_counts sample_node sample_committee h (sample_sig i n)"
proof -
  assume i: "i \<in> {1, 2, 3}" and n: "bh_height h = n"
  have "get_signing_pubkey sample_committee (NodeId [i]) = Some (replicate 32 i)" "is_committee_member sample_committee (NodeId [i])"
    using i sample_members by auto
  then show ?thesis using sample_sig_verifies [of h i] by (simp add: sig_counts_def n)
qed

lemma sample_add:
  assumes "e_current_committee e = Some sample_committee" "e_pending_block e = Some p" "h = bh_height (blk_header (pb_block p))"
    "i \<in> {1, 2, 3}" "NodeId [i] \<notin> vs_validator ` set (pb_signatures p)"
  shows "snd (add_block_signature sample_node e (sample_sig i h))
    = e\<lparr>e_pending_block := Some (p\<lparr>pb_signatures := pb_signatures p @ [sample_sig i h]\<rparr>)\<rparr>"
proof -
  have "check_block_signature sample_node sample_committee (blk_header (pb_block p)) (sample_sig i h) = Ok ()"
    using sample_sig_counts [OF assms(4)] assms(3) by (simp add: check_block_signature_iff)
  moreover have "pb_add_signature sample_node p (sample_sig i h) = (Ok (), p\<lparr>pb_signatures := pb_signatures p @ [sample_sig i h]\<rparr>)"
    using assms(5) by (auto simp: pb_add_signature_def list_ex_iff image_iff)
  ultimately show ?thesis by (simp add: add_block_signature_def assms(1,2))
qed

lemma sample_produces:
  "\<exists>p. e_produce_block sample_node 0 sample_engine [] [] [] [] = (Ok p, sample_engine\<lparr>e_pending_block := Some p\<rparr>)
     \<and> pb_signatures p = [] \<and> pb_finality_threshold p = 2 \<and> bh_height (blk_header (pb_block p)) = 1"
proof -
  have inc: "add_u64 0 1 = 1" by (simp add: inc_u64 U64_MAX_def)
  have "vc_finality_threshold sample_committee = 2" by (simp add: sample_committee_def)
  then show ?thesis
    unfolding e_produce_block_def produce_block_def sample_simps sample_engine_simps inc
    by (simp add: Let_def ser_result_def MAX_BLOCK_SIZE_def)
qed

lemma sample_producer_run:
  assumes "i \<in> {1, 2, 3}" "j \<in> {1, 2, 3}" "i \<noteq> j"
  shows "\<exists>b e'. producer_run sample_node 0 sample_engine [] [] [] [] [sample_sig i 1, sample_sig j 1] = (Ok b, e')"
proof -
  obtain p where p: "e_produce_block sample_node 0 sample_engine [] [] [] [] = (Ok p, sample_engine\<lparr>e_pending_block := Some p\<rparr>)"
    "pb_signatures p = []" "pb_finality_threshold p = 2" "bh_height (blk_header (pb_block p)) = 1"
    using sample_produces by (elim exE conjE)
  let ?p = "p\<lparr>pb_signatures := [sample_sig i 1, sample_sig j 1]\<rparr>"
  have "collect sample_node (sample_engine\<lparr>e_pending_block := Some p\<rparr>) [sample_sig i 1, sample_sig j 1]
      = sample_engine\<lparr>e_pending_block := Some ?p\<rparr>"
    using p assms by (simp add: sample_add)
  moreover have "pb_finalize ?p = Ok ((pb_block p)\<lparr>blk_validator_signatures := [sample_sig i 1, sample_sig j 1]\<rparr>)"
    using p(3) by (simp add: pb_finalize_def pb_is_finalized_def)
  ultimately show ?thesis
    by (simp add: producer_run_def p finalize_pending_block_def finalize_pending_block_inner_def)
qed

lemma sample_acceptable:
  "acceptable_block sample_node sample_engine (sample_block 1 (BlockHash (replicate 32 0))) (BlockHash (pad_hash [1]))"
proof -
  let ?b = "sample_block 1 (BlockHash (replicate 32 0))"
  have "\<not> skips_ahead sample_engine ?b" "extends_tip sample_engine ?b"
    by (simp_all add: skips_ahead_def extends_tip_def sample_block_def sample_header_def)
  moreover have "bh_producer (blk_header ?b) = NodeId [1]" by (simp add: sample_block_def sample_header_def)
  moreover have "list_ex (\<lambda>m. cm_node_id m = NodeId [1]) (vc_members sample_committee)"
    by (simp add: sample_committee_def sample_member_def)
  moreover have "list_all (sig_counts sample_node sample_committee (blk_header ?b)) (blk_validator_signatures ?b)" "blk_validator_signatures ?b \<noteq> []"
    "bh_height (blk_header ?b) = 1" "blk_transactions ?b = []"
    by (simp_all add: sample_block_def sample_header_def sample_sig_counts)
  ultimately show ?thesis by (simp add: acceptable_block_def signed_by_committee_def no_equivocation_def)
qed

definition sample_tx :: Transaction where
  "sample_tx = (let unsigned = \<lparr> tx_hash = TxHash [], tx_payload = Transfer (Address []) 5, tx_sender_pubkey = replicate 32 9,
       tx_signature = [], tx_nonce = 0, tx_chain_id = 1, tx_fee = 0, tx_timestamp = 0 \<rparr>
     in unsigned\<lparr>tx_signature := ed_sign echo_ed (replicate 32 9) (1 # le_bytes 8 0 @ le_bytes 4 1 @ le_bytes 8 0 @ i64_le_bytes 0)\<rparr>)"

lemma sample_tx_signed: "tx_signed sample_node sample_tx"
  by (simp add: tx_signed_def sample_tx_def Let_def compute_signable_bytes_def verify_signature_def echo_ed_def timestamp_millis_def)

definition opposite :: "ForkChoice \<Rightarrow> ForkChoice" where
  "opposite c = (case c of KeepOurs \<Rightarrow> SwitchToTheirs | SwitchToTheirs \<Rightarrow> KeepOurs | NeedMoreInfo \<Rightarrow> NeedMoreInfo)"

text \<open>A node whose header encoding includes the time stamp.\<close>
definition stamped_node :: "(int, int) Node_Env" where
  "stamped_node = sample_node\<lparr>ne_bincode := (ne_bincode sample_node)\<lparr>bc_header := plain_codec (\<lambda>h. [bh_height h, nat (bh_timestamp h)])\<rparr>\<rparr>"

definition forged_block :: Block where
  "forged_block = \<lparr> blk_header = (sample_header 1 (BlockHash (replicate 32 0)))\<lparr>bh_timestamp := 5\<rparr>,
     blk_transactions = [], blk_attestations = [], blk_validator_signatures = [] \<rparr>"

lemma stamped_hash: "ne_header_hash stamped_node h = Ok (BlockHash (pad_hash [bh_height h, nat (bh_timestamp h)]))"
  by (simp add: stamped_node_def header_hash_def plain_codec_def)

lemma pad_hash_zero: "pad_hash [n, 0] = pad_hash [n]"
  by (simp add: pad_hash_def numeral_eq_Suc)

lemma stamped_verifies:
  "bh_timestamp h = 0 \<Longrightarrow> verify_block_signature stamped_node h sig pk = verify_block_signature sample_node h sig pk"
  using stamped_hash [of h] by (simp add: verify_block_signature_def pad_hash_zero) (simp add: stamped_node_def)

lemma stamped_acceptable:
  "acceptable_block stamped_node sample_engine (sample_block 1 (BlockHash (replicate 32 0))) (BlockHash (pad_hash [1]))"
proof -
  let ?b = "sample_block 1 (BlockHash (replicate 32 0))"
  have t: "bh_timestamp (blk_header ?b) = 0" "bh_height (blk_header ?b) = 1" "blk_transactions ?b = []"
    by (simp_all add: sample_block_def sample_header_def)
  have "sig_counts stamped_node sample_committee (blk_header ?b) = sig_counts sample_node sample_committee (blk_header ?b)"
    by (rule ext) (unfold sig_counts_def stamped_verifies [OF t(1)], rule refl)
  then show ?thesis using sample_acceptable t stamped_hash [of "blk_header ?b"]
    by (simp add: acceptable_block_def signed_by_committee_def pad_hash_zero)
qed

section \<open>Properties\<close>

text \<open>C26: With more than one member that has a signing key, finality means a verified quorum. When a producer
  with such a well-formed committee produces a block, collects any sequence of signatures, valid or not,
  and finalizes, then the finalized block extends the previous tip by one height, carries the given
  transactions, and its signers are distinct committee members that reach the finality threshold, each with
  a signature that verifies under the key of that member; the new tip is the hash of the block. Forced
  finalization, which asks for one signature only, is refused with such a committee and changes nothing.
  With at most one such member, the bootstrap and solo mode, signatures of members without a key count
  unverified and finalization can be forced; nothing is claimed there.\<close>

theorem finalized_block_has_quorum:
  assumes "producer_run ne now e txs atts st_root pubkey sigs = (Ok b, e')" "e_current_committee e = Some c"
    "committee_wf c" "real_members c > 1" "e_current_height e < U64_MAX"
  shows "bh_height (blk_header b) = e_current_height e + 1 \<and> bh_parent_hash (blk_header b) = e_last_finalized_hash e
    \<and> blk_transactions b = txs \<and> e_current_height e' = e_current_height e + 1
    \<and> ne_header_hash ne (blk_header b) = Ok (e_last_finalized_hash e')
    \<and> distinct (map vs_validator (blk_validator_signatures b)) \<and> finality_quorum c (signer_set b)
    \<and> list_all (\<lambda>sig. \<exists>pk. get_signing_pubkey c (vs_validator sig) = Some pk
          \<and> verify_block_signature ne (blk_header b) sig pk = Ok ()) (blk_validator_signatures b)
    \<and> (\<forall>x. e_current_committee x = Some c \<longrightarrow>
          (\<exists>reason. force_finalize_pending_block ne x = (Err (GE_BlockValidationFailed reason), x)))"
proof -
  obtain p s where ps: "e_produce_block ne now e txs atts st_root pubkey = (Ok p, s)" "pending_ok ne c (pb_block p) (collect ne s sigs)"
    "finalize_pending_block ne (collect ne s sigs) = (Ok b, e')"
    using producer_run_pending [OF assms(1,2)] by (elim exE conjE)
  have "bh_height (blk_header (pb_block p)) = e_current_height e + 1" "bh_parent_hash (blk_header (pb_block p)) = e_last_finalized_hash e"
    "blk_transactions (pb_block p) = txs"
    using ps(1) assms(2,5) by (auto simp: e_produce_block_def Let_def produced_block inc_u64 split: if_splits sum.splits)
  moreover have out: "blk_header b = blk_header (pb_block p)" "blk_transactions b = blk_transactions (pb_block p)"
    "distinct (map vs_validator (blk_validator_signatures b))" "e_current_height e' = bh_height (blk_header b)"
    "ne_header_hash ne (blk_header b) = Ok (e_last_finalized_hash e')"
    "list_all (\<lambda>sig. check_block_signature ne c (blk_header b) sig = Ok ()) (blk_validator_signatures b)"
    using finalize_outcome [OF ps(2,3)] by blast+
  moreover have "list_all (\<lambda>sig. \<exists>pk. get_signing_pubkey c (vs_validator sig) = Some pk
      \<and> verify_block_signature ne (blk_header b) sig pk = Ok ()) (blk_validator_signatures b)"
    using out(6) by (rule list.pred_mono_strong) (rule checked_signature [OF _ assms(4)])
  moreover have "\<exists>reason. force_finalize_pending_block ne x = (Err (GE_BlockValidationFailed reason), x)"
    if "e_current_committee x = Some c" for x
    using that assms(4) by (simp add: force_finalize_pending_block_def)
  ultimately show ?thesis using producer_run_quorum [OF assms(1-4)] by simp
qed

theorem finalized_block_has_quorum_witness:
  "\<exists>b e'. producer_run sample_node 0 sample_engine [] [] [] [] [sample_sig 1 1, sample_sig 3 1] = (Ok b, e')
     \<and> bh_height (blk_header b) = 1 \<and> finality_quorum sample_committee (signer_set b)"
proof -
  obtain b e' where run: "producer_run sample_node 0 sample_engine [] [] [] [] [sample_sig 1 1, sample_sig 3 1] = (Ok b, e')"
    using sample_producer_run [of 1 3] by auto
  have "bh_height (blk_header b) = 1 \<and> finality_quorum sample_committee (signer_set b)"
    using finalized_block_has_quorum [OF run _ sample_committee_wf] by (simp add: sample_real_members U64_MAX_def)
  with run show ?thesis by blast
qed

text \<open>Two finalized blocks always share committee signers. When two producers that use the same
  well-formed committee with more than one signing key each finalize a block, whatever they propose and whatever signatures they receive,
  more than a third of the committee's signers other than one signed both blocks; so two conflicting blocks
  at one height need that many members to sign twice.\<close>

theorem finalized_blocks_share_signers:
  assumes "producer_run ne now e txs atts st_root pubkey sigs = (Ok b, e')" "e_current_committee e = Some c"
    "producer_run ne' now' d txs' atts' st_root' pubkey' sigs' = (Ok b', d')" "e_current_committee d = Some c"
    "committee_wf c" "real_members c > 1"
  shows "(card (signers c) - 1) div 3 < card (signer_set b \<inter> signer_set b') \<and> signer_set b \<inter> signer_set b' \<subseteq> signers c"
proof -
  have q: "finality_quorum c (signer_set b)" "finality_quorum c (signer_set b')"
    using producer_run_quorum [OF assms(1,2,5,6)] producer_run_quorum [OF assms(3,4,5,6)] .
  then show ?thesis using quorum_overlap [OF q] by (auto simp: finality_quorum_def)
qed

theorem finalized_blocks_share_signers_witness:
  "\<exists>b e' b' d'. producer_run sample_node 0 sample_engine [] [] [] [] [sample_sig 1 1, sample_sig 3 1] = (Ok b, e')
     \<and> producer_run sample_node 0 sample_engine [] [] [] [] [sample_sig 2 1, sample_sig 3 1] = (Ok b', d')
     \<and> 0 < card (signer_set b \<inter> signer_set b')"
proof -
  obtain b e' where run: "producer_run sample_node 0 sample_engine [] [] [] [] [sample_sig 1 1, sample_sig 3 1] = (Ok b, e')"
    using sample_producer_run [of 1 3] by auto
  obtain b' d' where run': "producer_run sample_node 0 sample_engine [] [] [] [] [sample_sig 2 1, sample_sig 3 1] = (Ok b', d')"
    using sample_producer_run [of 2 3] by auto
  have "(card (signers sample_committee) - 1) div 3 < card (signer_set b \<inter> signer_set b')"
    using finalized_blocks_share_signers [OF run _ run' _ sample_committee_wf] by (simp add: sample_real_members)
  with run run' show ?thesis by auto
qed

text \<open>C27: Which incoming blocks are accepted, and with what effect. Away from the end of the height range, a block
  is accepted exactly when it extends the tip, or is two heights above it; its header hashes; its producer
  has not proposed another block at that height; the committee, if there is one, contains the producer (with
  a key, for a block two ahead), there is at least one signature and every signature counts; and every
  transaction is signed. Accepting makes it the tip; every refusal leaves height, tip, recent hashes,
  pending block, state and committee unchanged.\<close>

theorem incoming_block_exact:
  assumes "e_current_height e + 2 \<le> U64_MAX"
  shows "(fst (process_incoming_block ne e b) = Ok BP_Accepted \<longleftrightarrow> (\<exists>hash. acceptable_block ne e b hash))
    \<and> (case ne_header_hash ne (blk_header b) of
         Ok hash \<Rightarrow> if acceptable_block ne e b hash then snd (process_incoming_block ne e b) = advanced e b hash
                    else same_chain e (snd (process_incoming_block ne e b))
       | Err _ \<Rightarrow> same_chain e (snd (process_incoming_block ne e b)))"
proof (cases "\<exists>hash. acceptable_block ne e b hash")
  case True
  then obtain hash where h: "acceptable_block ne e b hash" ..
  moreover have "ne_header_hash ne (blk_header b) = Ok hash" using h by (simp add: acceptable_block_def)
  ultimately show ?thesis using process_incoming_accepts [OF assms h] by auto
next
  case False
  then show ?thesis using process_incoming_refuses [OF assms False] by (auto split: sum.splits)
qed

theorem incoming_block_exact_witness:
  "fst (process_incoming_block sample_node sample_engine (sample_block 1 (BlockHash (replicate 32 0)))) = Ok BP_Accepted
   \<and> fst (process_incoming_block sample_node sample_engine (sample_block 1 (BlockHash []))) \<noteq> Ok BP_Accepted"
proof -
  have "acceptable_block sample_node sample_engine (sample_block 1 (BlockHash (replicate 32 0))) (BlockHash (pad_hash [1]))"
    by (rule sample_acceptable)
  moreover have "\<not> acceptable_block sample_node sample_engine (sample_block 1 (BlockHash [])) hash" for hash
    by (simp add: acceptable_block_def extends_tip_def skips_ahead_def sample_block_def sample_header_def)
  ultimately show ?thesis
    using incoming_block_exact [of sample_engine sample_node "sample_block 1 (BlockHash (replicate 32 0))"]
      incoming_block_exact [of sample_engine sample_node "sample_block 1 (BlockHash [])"] by (auto simp: U64_MAX_def)
qed

text \<open>C37: One committee signature moves the tip. While the documentation of the operation says that only
  blocks at the next height with the right parent and finality signatures are accepted, a block two heights
  above the tip with any parent hash, any member with a key as its producer, and a single verified
  signature of any member, the producer or not, is accepted and becomes the tip.\<close>

theorem one_signature_skips_ahead:
  assumes "e_current_height e + 2 \<le> U64_MAX" "e_current_committee e = Some c" "bh_height h = e_current_height e + 2"
    "get_signing_pubkey c (bh_producer h) = Some key" "get_signing_pubkey c (vs_validator sig) = Some pk"
    "verify_block_signature ne h sig pk = Ok ()" "ne_header_hash ne h = Ok hash"
    "map_of (e_seen_proposals e) (e_current_height e + 2, bh_producer h) = None"
  shows "\<exists>e'. process_incoming_block ne e \<lparr>blk_header = h, blk_transactions = [], blk_attestations = atts, blk_validator_signatures = [sig]\<rparr>
      = (Ok BP_Accepted, e') \<and> e_current_height e' = e_current_height e + 2 \<and> e_last_finalized_hash e' = hash"
proof -
  let ?b = "\<lparr>blk_header = h, blk_transactions = [], blk_attestations = atts, blk_validator_signatures = [sig]\<rparr>"
  have "list_ex (\<lambda>m. cm_node_id m = bh_producer h \<and> cm_signing_pubkey m \<noteq> []) (vc_members c)"
    using signing_pubkey_signer [OF assms(4)] by (auto simp: signers_def list_ex_iff)
  moreover have "is_committee_member c (vs_validator sig)"
    using signing_pubkey_signer [OF assms(5)] by (auto simp: signers_def is_committee_member_def list_ex_iff)
  ultimately have "acceptable_block ne e ?b hash"
    using assms by (simp add: acceptable_block_def skips_ahead_def signed_by_committee_def sig_counts_def no_equivocation_def)
  from process_incoming_accepts [OF assms(1) this] show ?thesis using assms(3) by (simp add: advanced_def)
qed

theorem one_signature_skips_ahead_witness:
  "\<exists>e'. process_incoming_block sample_node sample_engine
       \<lparr>blk_header = sample_header 2 (BlockHash [7]), blk_transactions = [], blk_attestations = [], blk_validator_signatures = [sample_sig 3 2]\<rparr>
     = (Ok BP_Accepted, e') \<and> e_current_height e' = 2"
proof -
  have h: "bh_height (sample_header 2 (BlockHash [7])) = 2" "bh_producer (sample_header 2 (BlockHash [7])) = NodeId [1]"
    by (simp_all add: sample_header_def)
  have "verify_block_signature sample_node (sample_header 2 (BlockHash [7])) (sample_sig 3 2) (replicate 32 3) = Ok ()"
    using sample_sig_verifies [of "sample_header 2 (BlockHash [7])" 3] by (simp add: h)
  then show ?thesis
    using one_signature_skips_ahead [of sample_engine sample_committee "sample_header 2 (BlockHash [7])" "replicate 32 1" "sample_sig 3 2"
        "replicate 32 3" sample_node "BlockHash (pad_hash [2])" "[]"] sample_members by (auto simp: h U64_MAX_def)
qed

text \<open>C36: The transactions of a block are not bound to what was signed. If a block is accepted, then so is
  the block with the same header and signatures and any other list of signed transactions and any
  attestations, with the same resulting engine: the transactions root of the header is never compared with
  the transactions.\<close>

theorem block_body_not_bound:
  assumes "e_current_height e + 2 \<le> U64_MAX" "process_incoming_block ne e b = (Ok BP_Accepted, e')" "list_all (tx_signed ne) txs"
  shows "process_incoming_block ne e (b\<lparr>blk_transactions := txs, blk_attestations := atts\<rparr>) = (Ok BP_Accepted, e')"
proof -
  let ?b = "b\<lparr>blk_transactions := txs, blk_attestations := atts\<rparr>"
  obtain hash where h: "acceptable_block ne e b hash" using process_incoming_refuses [OF assms(1), of ne b] assms(2) by auto
  then have "acceptable_block ne e ?b hash"
    using assms(3) by (simp add: acceptable_block_def extends_tip_def skips_ahead_def no_equivocation_def signed_by_committee_def split: option.splits)
  moreover have "advanced e ?b hash = advanced e b hash" by (simp add: advanced_def)
  ultimately show ?thesis using process_incoming_accepts [OF assms(1) h] process_incoming_accepts [OF assms(1), of ne ?b hash] assms(2) by simp
qed

theorem block_body_not_bound_witness:
  "fst (process_incoming_block sample_node sample_engine (sample_block 1 (BlockHash (replicate 32 0)))) = Ok BP_Accepted
   \<and> process_incoming_block sample_node sample_engine ((sample_block 1 (BlockHash (replicate 32 0)))\<lparr>blk_transactions := [sample_tx], blk_attestations := []\<rparr>)
     = process_incoming_block sample_node sample_engine (sample_block 1 (BlockHash (replicate 32 0)))"
proof -
  have b: "e_current_height sample_engine + 2 \<le> U64_MAX" by (simp add: U64_MAX_def)
  show ?thesis
    using process_incoming_accepts [OF b sample_acceptable] block_body_not_bound [OF b process_incoming_accepts [OF b sample_acceptable], of "[sample_tx]" "[]"]
    by (simp add: sample_tx_signed)
qed

text \<open>Two nodes that compare the same two different blocks, with the same signature counts and threshold,
  never end up with different choices: one keeps its block exactly when the other one switches to it, and
  they are undecided together.\<close>

theorem fork_choice_agrees:
  assumes "ne_header_hash ne (blk_header a) = Ok ha" "ne_header_hash ne (blk_header b) = Ok hb" "ha \<noteq> hb"
  shows "\<exists>c. resolve_fork ne a b na nb t = Ok c \<and> resolve_fork ne b a nb na t = Ok (opposite c)"
proof -
  have "block_hash_bytes ha \<noteq> block_hash_bytes hb" using assms(3) by (cases ha; cases hb) simp
  then show ?thesis using assms(1,2) by (auto simp: resolve_fork_def opposite_def Let_def try_result_def map_err_def)
qed

theorem fork_choice_agrees_witness:
  "\<exists>c. resolve_fork sample_node (sample_block 3 (BlockHash [])) (sample_block 4 (BlockHash [])) 2 2 2 = Ok c
     \<and> resolve_fork sample_node (sample_block 4 (BlockHash [])) (sample_block 3 (BlockHash [])) 2 2 2 = Ok (opposite c)"
  by (rule fork_choice_agrees [where ha = "BlockHash (pad_hash [3])" and hb = "BlockHash (pad_hash [4])"])
    (simp_all add: sample_block_def sample_header_def pad_hash_def)

text \<open>An early call to finalize loses the block. If the pending block has fewer signatures than its threshold,
  finalizing fails with exactly that shortfall, but the pending block is dropped all the same, and no
  signature that arrives later can be added.\<close>

theorem early_finalize_loses_block:
  assumes "e_pending_block e = Some p" "length (pb_signatures p) < pb_finality_threshold p"
  shows "\<exists>e'. finalize_pending_block ne e = (Err (GE_InsufficientSignatures (length (pb_signatures p)) (pb_finality_threshold p)), e')
    \<and> e' = e\<lparr>e_pending_block := None\<rparr> \<and> add_block_signature ne e' sig = (invalid ''No pending block to sign'', e')
    \<and> finalize_pending_block ne e' = (invalid ''No pending block to finalize'', e')"
  using assms by (simp add: finalize_pending_block_def finalize_pending_block_inner_def pb_finalize_def pb_is_finalized_def add_block_signature_def)

theorem early_finalize_loses_block_witness:
  "\<exists>p e'. e_produce_block sample_node 0 sample_engine [] [] [] [] = (Ok p, e')
     \<and> finalize_pending_block sample_node e' = (Err (GE_InsufficientSignatures 0 2), e'\<lparr>e_pending_block := None\<rparr>)"
proof -
  obtain p where p: "e_produce_block sample_node 0 sample_engine [] [] [] [] = (Ok p, sample_engine\<lparr>e_pending_block := Some p\<rparr>)"
    "pb_signatures p = []" "pb_finality_threshold p = 2"
    using sample_produces by (elim exE conjE)
  then show ?thesis using early_finalize_loses_block [of "sample_engine\<lparr>e_pending_block := Some p\<rparr>" p sample_node] by simp
qed

text \<open>C35: A forged block shuts out the honest one. The proposal of a producer is recorded before any signature is
  checked: after a block without signatures that names the producer and the next height has been refused,
  the block of that producer that would have been accepted is refused as an equivocation.\<close>

theorem forged_proposal_blocks_producer:
  assumes "e_current_height e + 2 \<le> U64_MAX" "e_current_committee e = Some c" "acceptable_block ne e b hash" "extends_tip e b"
    "map_of (e_seen_proposals e) (bh_height (blk_header b), bh_producer (blk_header b)) = None"
    "extends_tip e forged" "bh_producer (blk_header forged) = bh_producer (blk_header b)" "blk_validator_signatures forged = []"
    "ne_header_hash ne (blk_header forged) = Ok other" "other \<noteq> hash"
  shows "\<exists>e'. process_incoming_block ne e forged = (Err (GE_InsufficientSignatures 0 1), e')
    \<and> process_incoming_block ne e' b = (invalid ''equivocation: producer proposed different blocks at same height'', e')"
proof -
  let ?k = "(bh_height (blk_header b), bh_producer (blk_header b))"
  let ?e = "note_proposal e ?k other"
  have h: "bh_height (blk_header forged) = bh_height (blk_header b)" "\<not> skips_ahead e forged" "\<not> skips_ahead e b"
    using assms(4,6) by (simp_all add: extends_tip_def skips_ahead_def)
  have member: "list_ex (\<lambda>m. cm_node_id m = bh_producer (blk_header b)) (vc_members c)"
    using assms(2,3) h(3) by (auto simp: acceptable_block_def signed_by_committee_def)
  have "check_incoming ne ?e False forged = Err (GE_InsufficientSignatures 0 1)"
    using assms(2,7,8) member by (simp add: check_incoming_def)
  moreover have "no_equivocation e forged other" using assms(5,7) h(1) by (simp add: no_equivocation_def)
  ultimately have first: "process_incoming_block ne e forged = (Err (GE_InsufficientSignatures 0 1), ?e)"
    using assms(7,9) h process_incoming_candidate [OF assms(1), of forged ne] assms(6) by simp
  have ext: "e_current_height ?e + 2 \<le> U64_MAX" "extends_tip ?e b" using assms(1,4) by (simp_all add: extends_tip_def)
  have "map_of (e_seen_proposals ?e) ?k = Some other"
    using assms(4) by (simp add: note_proposal_def Let_def update_conv extends_tip_def map_of_filter_height less_Suc_eq_le)
  then have "\<not> no_equivocation ?e b hash" using assms(10) by (simp add: no_equivocation_def)
  then have "process_incoming_block ne ?e b = (invalid ''equivocation: producer proposed different blocks at same height'', ?e)"
    using process_incoming_candidate [OF ext(1), of b ne] ext(2) assms(3) by (simp add: acceptable_block_def)
  with first show ?thesis by blast
qed

theorem forged_proposal_blocks_producer_witness:
  "\<exists>e'. process_incoming_block stamped_node sample_engine forged_block = (Err (GE_InsufficientSignatures 0 1), e')
     \<and> fst (process_incoming_block stamped_node e' (sample_block 1 (BlockHash (replicate 32 0))))
       = invalid ''equivocation: producer proposed different blocks at same height''"
proof -
  let ?b = "sample_block 1 (BlockHash (replicate 32 0))"
  have "extends_tip sample_engine ?b" "extends_tip sample_engine forged_block" "bh_producer (blk_header forged_block) = bh_producer (blk_header ?b)"
    "blk_validator_signatures forged_block = []" "ne_header_hash stamped_node (blk_header forged_block) = Ok (BlockHash (pad_hash [1, 5]))"
    by (simp_all add: extends_tip_def sample_block_def sample_header_def forged_block_def stamped_hash)
  moreover have "BlockHash (pad_hash [1, 5]) \<noteq> BlockHash (pad_hash [1])" by (simp add: pad_hash_def numeral_eq_Suc)
  ultimately show ?thesis
    using forged_proposal_blocks_producer [of sample_engine sample_committee stamped_node ?b "BlockHash (pad_hash [1])" forged_block "BlockHash (pad_hash [1, 5])"]
      stamped_acceptable by (auto simp: U64_MAX_def)
qed

end
