(* ===== verification/Consensus_Sync.thy ===== *)
theory Consensus_Sync
  imports Block_Production
begin

text \<open>
  The state machine that lets a node catch up (gratia-consensus/src/sync.rs): requests in batches of 50
  blocks, validation and buffering of responses, progress, and the exchange with a peer that has the chain.
\<close>

section \<open>State and messages\<close>

definition SYNC_BATCH_SIZE :: u64 where "SYNC_BATCH_SIZE = 50"
definition SYNC_THRESHOLD :: u64 where "SYNC_THRESHOLD = 5"
definition MAX_BUFFER_SIZE :: usize where "MAX_BUFFER_SIZE = 200"

datatype SyncState = SS_Idle | SS_Requesting | SS_Downloading u64 u64 | SS_Applying | SS_Synced

definition is_synced :: "SyncState \<Rightarrow> bool" where
  "is_synced s = (case s of SS_Synced \<Rightarrow> True | SS_Idle \<Rightarrow> True | _ \<Rightarrow> False)"

definition progress :: "SyncState \<Rightarrow> rat" where
  "progress s = (case s of
     SS_Idle \<Rightarrow> 1 | SS_Synced \<Rightarrow> 1 | SS_Requesting \<Rightarrow> 0
   | SS_Downloading target_height current \<Rightarrow> if target_height = 0 then 1 else min (of_nat current / of_nat target_height) 1
   | SS_Applying \<Rightarrow> 99 / 100)"

record SyncRequest =
  srq_from_height :: u64
  srq_to_height :: u64
  srq_requester :: NodeId

record SyncResponse =
  srs_blocks :: "Block list"
  srs_from_height :: u64
  srs_has_more :: bool

datatype SyncError =
    SE_UnexpectedHeight u64 u64
  | SE_NonContiguousBlocks u64 u64
  | SE_InvalidBlock u64 string
  | SE_BufferFull usize usize usize

definition SyncError_to_string :: "SyncError \<Rightarrow> string" where
  "SyncError_to_string e = (case e of
     SE_UnexpectedHeight expected got \<Rightarrow> ''Expected blocks starting at height '' @ show_nat expected @ '', got '' @ show_nat got
   | SE_NonContiguousBlocks expected got \<Rightarrow> ''Non-contiguous blocks: expected height '' @ show_nat expected @ '', got '' @ show_nat got
   | SE_InvalidBlock height reason \<Rightarrow> ''Invalid block at height '' @ show_nat height @ '': '' @ reason
   | SE_BufferFull current incoming m \<Rightarrow> ''Block buffer full: '' @ show_nat current @ '' buffered + '' @ show_nat incoming
       @ '' incoming exceeds max '' @ show_nat m)"

record SyncProtocol =
  sy_state :: SyncState
  sy_node_id :: NodeId
  sy_our_height :: u64
  sy_network_height :: u64
  sy_sync_target :: u64
  sy_blocks_received :: "Block list"

section \<open>Operations\<close>

definition SyncProtocol_new :: "NodeId \<Rightarrow> u64 \<Rightarrow> SyncProtocol" where
  "SyncProtocol_new node initial_height = \<lparr> sy_state = SS_Idle, sy_node_id = node, sy_our_height = initial_height,
     sy_network_height = 0, sy_sync_target = 0, sy_blocks_received = [] \<rparr>"

definition needs_sync :: "u64 \<Rightarrow> u64 \<Rightarrow> bool" where
  "needs_sync our_height network_height \<longleftrightarrow> network_height > our_height \<and> network_height - our_height \<ge> SYNC_THRESHOLD"

definition create_sync_request :: "SyncProtocol \<Rightarrow> SyncRequest option \<times> SyncProtocol" where
  "create_sync_request self =
     (if \<not> needs_sync (sy_our_height self) (sy_network_height self) then (None, self\<lparr>sy_state := SS_Synced\<rparr>)
      else
        let self = (if sy_sync_target self \<le> sy_our_height self then self\<lparr>sy_sync_target := sy_network_height self\<rparr> else self);
            from_height = add_u64 (sy_our_height self) 1;
            to_height = min (sub_u64 (add_u64 from_height SYNC_BATCH_SIZE) 1) (sy_sync_target self)
        in (Some \<lparr> srq_from_height = from_height, srq_to_height = to_height, srq_requester = sy_node_id self \<rparr>,
            self\<lparr>sy_state := SS_Requesting\<rparr>))"

definition check_contiguous :: "Block \<times> Block \<Rightarrow> (SyncError, unit) result" where
  "check_contiguous w =
     (let prev = bh_height (blk_header (fst w)); next_height = bh_height (blk_header (snd w))
      in if next_height \<noteq> add_u64 prev 1 then Err (SE_NonContiguousBlocks (add_u64 prev 1) next_height) else Ok ())"

definition check_linked :: "('p, 's) Node_Env \<Rightarrow> Block \<times> Block \<Rightarrow> (SyncError, unit) result" where
  "check_linked ne w =
     (case ne_header_hash ne (blk_header (fst w)) of
        Err _ \<Rightarrow> Err (SE_InvalidBlock (bh_height (blk_header (fst w))) ''Failed to compute block hash'')
      | Ok prev_hash \<Rightarrow>
          if bh_parent_hash (blk_header (snd w)) \<noteq> prev_hash
          then Err (SE_InvalidBlock (bh_height (blk_header (snd w)))
                 (''Parent hash mismatch: expected '' @ BlockHash_to_string ne prev_hash @ '', got ''
                   @ BlockHash_to_string ne (bh_parent_hash (blk_header (snd w)))))
          else Ok ())"

definition windows2 :: "'a list \<Rightarrow> ('a \<times> 'a) list" where
  "windows2 xs = zip xs (tl xs)"

definition process_sync_response ::
  "('p, 's) Node_Env \<Rightarrow> SyncProtocol \<Rightarrow> SyncResponse \<Rightarrow> (SyncError, Block list) result \<times> SyncProtocol" where
  "process_sync_response ne self response =
     (let blocks = srs_blocks response
      in case blocks of
           [] \<Rightarrow> (Ok [], self\<lparr>sy_state := if sy_our_height self \<ge> sy_sync_target self then SS_Synced else SS_Idle\<rparr>)
         | first # _ \<Rightarrow>
             (let first_height = bh_height (blk_header first);
                  expected_start = add_u64 (sy_our_height self) 1
              in if first_height \<noteq> expected_start then (Err (SE_UnexpectedHeight expected_start first_height), self)
                 else case check_each check_contiguous (windows2 blocks) of
                   Err e \<Rightarrow> (Err e, self)
                 | Ok _ \<Rightarrow>
                     (case check_each (check_linked ne) (windows2 blocks) of
                        Err e \<Rightarrow> (Err e, self)
                      | Ok _ \<Rightarrow>
                          if length (sy_blocks_received self) + length blocks > MAX_BUFFER_SIZE
                          then (Err (SE_BufferFull (length (sy_blocks_received self)) (length blocks) MAX_BUFFER_SIZE), self)
                          else (Ok blocks, self\<lparr>sy_blocks_received := sy_blocks_received self @ blocks,
                                 sy_state := SS_Downloading (sy_sync_target self) (bh_height (blk_header (last blocks)))\<rparr>))))"

definition on_block_received :: "SyncProtocol \<Rightarrow> u64 \<Rightarrow> SyncProtocol" where
  "on_block_received self height =
     (let self = (if height > sy_network_height self then self\<lparr>sy_network_height := height\<rparr> else self)
      in if (sy_state self = SS_Idle \<or> sy_state self = SS_Synced) \<and> needs_sync (sy_our_height self) (sy_network_height self)
         then self\<lparr>sy_state := SS_Idle\<rparr> else self)"

definition mark_blocks_applied :: "SyncProtocol \<Rightarrow> u64 \<Rightarrow> SyncProtocol" where
  "mark_blocks_applied self new_height =
     (let self = self\<lparr>sy_our_height := new_height,
            sy_blocks_received := filter (\<lambda>b. bh_height (blk_header b) > new_height) (sy_blocks_received self)\<rparr>
      in if sy_our_height self \<ge> sy_sync_target self then
           (if needs_sync (sy_our_height self) (sy_network_height self)
            then self\<lparr>sy_sync_target := sy_network_height self, sy_state := SS_Idle\<rparr>
            else self\<lparr>sy_state := SS_Synced\<rparr>)
         else self\<lparr>sy_state := SS_Downloading (sy_sync_target self) (sy_our_height self)\<rparr>)"

definition sync_progress :: "SyncProtocol \<Rightarrow> u64 \<times> u64" where
  "sync_progress self = (case sy_state self of
     SS_Idle \<Rightarrow> (sy_our_height self, sy_our_height self) | SS_Synced \<Rightarrow> (sy_our_height self, sy_our_height self)
   | SS_Requesting \<Rightarrow> (sy_our_height self, sy_sync_target self)
   | SS_Downloading target_height current \<Rightarrow> (current, target_height)
   | SS_Applying \<Rightarrow> (sy_our_height self, sy_sync_target self))"

definition sync_reset :: "SyncProtocol \<Rightarrow> u64 \<Rightarrow> SyncProtocol" where
  "sync_reset self height = self\<lparr>sy_our_height := height, sy_network_height := 0, sy_sync_target := 0,
     sy_blocks_received := [], sy_state := SS_Idle\<rparr>"

definition buffered_block_count :: "SyncProtocol \<Rightarrow> usize" where
  "buffered_block_count self = length (sy_blocks_received self)"

section \<open>Which responses are accepted\<close>

fun linked_chain :: "('p, 's) Node_Env \<Rightarrow> u64 \<Rightarrow> Block list \<Rightarrow> bool" where
  "linked_chain ne h [] \<longleftrightarrow> True"
| "linked_chain ne h [b] \<longleftrightarrow> bh_height (blk_header b) = h"
| "linked_chain ne h (b # c # bs) \<longleftrightarrow> bh_height (blk_header b) = h
     \<and> ne_header_hash ne (blk_header b) = Ok (bh_parent_hash (blk_header c)) \<and> linked_chain ne (add_u64 h 1) (c # bs)"

lemma check_contiguous_Ok: "check_contiguous (b, c) = Ok u \<longleftrightarrow> bh_height (blk_header c) = add_u64 (bh_height (blk_header b)) 1"
  by (simp add: check_contiguous_def Let_def)

lemma check_linked_Ok: "check_linked ne (b, c) = Ok u \<longleftrightarrow> ne_header_hash ne (blk_header b) = Ok (bh_parent_hash (blk_header c))"
  by (auto simp: check_linked_def split: sum.splits)

lemma windows_linked:
  "bh_height (blk_header b) = h \<Longrightarrow> check_each check_contiguous (windows2 (b # bs)) = Ok () \<and> check_each (check_linked ne) (windows2 (b # bs)) = Ok ()
     \<longleftrightarrow> linked_chain ne h (b # bs)"
proof (induction bs arbitrary: b h)
  case Nil
  then show ?case by (simp add: windows2_def)
next
  case (Cons c bs)
  have w: "windows2 (b # c # bs) = (b, c) # windows2 (c # bs)" by (simp add: windows2_def)
  have head: "linked_chain ne k (c # bs) \<Longrightarrow> bh_height (blk_header c) = k" for k by (cases bs) simp_all
  show ?case
    using Cons.prems Cons.IH [of c "add_u64 h 1"] head [of "add_u64 h 1"]
    by (auto simp: w try_result_Ok check_contiguous_Ok check_linked_Ok)
qed

definition response_fits :: "('p, 's) Node_Env \<Rightarrow> SyncProtocol \<Rightarrow> Block list \<Rightarrow> bool" where
  "response_fits ne s bs \<longleftrightarrow> linked_chain ne (add_u64 (sy_our_height s) 1) bs \<and> length (sy_blocks_received s) + length bs \<le> MAX_BUFFER_SIZE"

lemma response_accepted:
  assumes "srs_blocks r = b # bs" "response_fits ne s (b # bs)"
  shows "process_sync_response ne s r = (Ok (b # bs), s\<lparr>sy_blocks_received := sy_blocks_received s @ b # bs,
     sy_state := SS_Downloading (sy_sync_target s) (bh_height (blk_header (last (b # bs))))\<rparr>)"
proof -
  have h: "bh_height (blk_header b) = add_u64 (sy_our_height s) 1" using assms(2) by (cases bs) (simp_all add: response_fits_def)
  then show ?thesis using assms windows_linked [OF h, of bs ne]
    by (simp add: process_sync_response_def Let_def response_fits_def)
qed

lemma response_refused:
  assumes "srs_blocks r = b # bs" "\<not> response_fits ne s (b # bs)"
  shows "\<exists>er. process_sync_response ne s r = (Err er, s)"
proof (cases "bh_height (blk_header b) = add_u64 (sy_our_height s) 1")
  case True
  then show ?thesis using assms windows_linked [OF True, of bs ne]
    by (auto simp: process_sync_response_def Let_def response_fits_def split: sum.splits)
next
  case False
  then show ?thesis using assms(1) by (simp add: process_sync_response_def Let_def)
qed

section \<open>Bounds kept by every sequence of calls\<close>

datatype SyncOp = Op_Request | Op_Response SyncResponse | Op_Observed u64 | Op_Applied u64 | Op_Reset u64

definition sync_step :: "('p, 's) Node_Env \<Rightarrow> SyncProtocol \<Rightarrow> SyncOp \<Rightarrow> SyncProtocol" where
  "sync_step ne s oper = (case oper of
     Op_Request \<Rightarrow> snd (create_sync_request s)
   | Op_Response r \<Rightarrow> snd (process_sync_response ne s r)
   | Op_Observed h \<Rightarrow> on_block_received s h
   | Op_Applied h \<Rightarrow> mark_blocks_applied s h
   | Op_Reset h \<Rightarrow> sync_reset s h)"

definition sync_bounded :: "SyncProtocol \<Rightarrow> bool" where
  "sync_bounded s \<longleftrightarrow> length (sy_blocks_received s) \<le> MAX_BUFFER_SIZE \<and> sy_sync_target s \<le> sy_network_height s"

lemma process_sync_response_bounded: "sync_bounded s \<Longrightarrow> sync_bounded (snd (process_sync_response ne s r))"
proof (cases "srs_blocks r")
  case Nil
  then show "sync_bounded s \<Longrightarrow> ?thesis" by (simp add: process_sync_response_def sync_bounded_def)
next
  case (Cons b bs)
  then show "sync_bounded s \<Longrightarrow> ?thesis"
    using response_accepted [OF Cons, of ne s] response_refused [OF Cons, of ne s]
    by (cases "response_fits ne s (b # bs)") (auto simp: response_fits_def sync_bounded_def)
qed

interpretation syncing: keeps_invariant "sync_step ne" "\<lambda>_ _. True" sync_bounded for ne
proof
  fix s :: SyncProtocol and oper :: SyncOp assume inv: "sync_bounded s"
  have "length (filter P (sy_blocks_received s)) \<le> MAX_BUFFER_SIZE" for P
    by (rule le_trans [OF length_filter_le]) (use inv in \<open>simp add: sync_bounded_def\<close>)
  then show "sync_bounded (sync_step ne s oper)"
    using inv process_sync_response_bounded [OF inv, of ne]
    by (cases oper) (auto simp: sync_step_def sync_bounded_def create_sync_request_def on_block_received_def mark_blocks_applied_def
        sync_reset_def Let_def MAX_BUFFER_SIZE_def)
qed

lemma sync_new_bounded: "sync_bounded (SyncProtocol_new node h)"
  by (simp add: sync_bounded_def SyncProtocol_new_def)

section \<open>Catching up with a peer that has the chain\<close>

text \<open>One exchange: ask, let the peer answer, and apply what the response validation returned.\<close>
definition sync_round :: "('p, 's) Node_Env \<Rightarrow> (SyncRequest \<Rightarrow> SyncResponse) \<Rightarrow> SyncProtocol \<Rightarrow> SyncProtocol" where
  "sync_round ne peer s =
     (case create_sync_request s of
        (None, s) \<Rightarrow> s
      | (Some req, s) \<Rightarrow>
          (case process_sync_response ne s (peer req) of
             (Ok (b # bs), s) \<Rightarrow> mark_blocks_applied s (bh_height (blk_header (last (b # bs))))
           | (_, s) \<Rightarrow> s))"

definition serve :: "(u64 \<Rightarrow> Block) \<Rightarrow> SyncRequest \<Rightarrow> SyncResponse" where
  "serve chain req = \<lparr> srs_blocks = map chain [srq_from_height req ..< Suc (srq_to_height req)],
     srs_from_height = srq_from_height req, srs_has_more = False \<rparr>"

definition chain_ok :: "('p, 's) Node_Env \<Rightarrow> (u64 \<Rightarrow> Block) \<Rightarrow> u64 \<Rightarrow> bool" where
  "chain_ok ne chain tip \<longleftrightarrow> (\<forall>h \<le> tip. bh_height (blk_header (chain h)) = h)
     \<and> (\<forall>h < tip. ne_header_hash ne (blk_header (chain h)) = Ok (bh_parent_hash (blk_header (chain (h + 1)))))"

lemma chain_segment_linked:
  assumes "chain_ok ne chain tip" "tip \<le> U64_MAX"
  shows "a + n \<le> tip + 1 \<Longrightarrow> linked_chain ne a (map chain [a ..< a + n])"
proof (induction n arbitrary: a)
  case 0
  then show ?case by simp
next
  case (Suc n)
  have seg: "[a ..< a + Suc n] = a # [Suc a ..< Suc a + n]" by (simp add: upt_conv_Cons)
  have IH: "linked_chain ne (Suc a) (map chain [Suc a ..< Suc a + n])"
    using Suc.IH [of "Suc a"] Suc.prems by (simp del: upt_Suc)
  have ha: "bh_height (blk_header (chain a)) = a" using assms(1) Suc.prems by (simp add: chain_ok_def)
  show ?case
  proof (cases n)
    case 0
    then show ?thesis using ha by simp
  next
    case (Suc m)
    then have "add_u64 a 1 = Suc a" "ne_header_hash ne (blk_header (chain a)) = Ok (bh_parent_hash (blk_header (chain (Suc a))))"
      using assms Suc.prems by (simp_all add: inc_u64 chain_ok_def)
    moreover have "[Suc a ..< Suc a + n] = Suc a # [Suc (Suc a) ..< Suc a + n]" using Suc by (simp add: upt_conv_Cons)
    ultimately show ?thesis using IH ha unfolding seg by (simp del: upt_Suc)
  qed
qed

definition catching_up :: "u64 \<Rightarrow> SyncProtocol \<Rightarrow> bool" where
  "catching_up tip s \<longleftrightarrow> sy_network_height s = tip \<and> sy_sync_target s \<le> tip \<and> length (sy_blocks_received s) + 50 \<le> MAX_BUFFER_SIZE"

text \<open>The exchanges a node needs: first to the target of a session it has begun, then on to the tip.\<close>
definition batches :: "u64 \<Rightarrow> u64" where
  "batches missing = (missing + 49) div 50"

definition rounds_left :: "u64 \<Rightarrow> SyncProtocol \<Rightarrow> u64" where
  "rounds_left tip s = (if sy_sync_target s \<le> sy_our_height s then batches (tip - sy_our_height s)
     else batches (sy_sync_target s - sy_our_height s) + batches (tip - sy_sync_target s))"

lemma sync_round_done:
  "\<not> needs_sync (sy_our_height s) (sy_network_height s) \<Longrightarrow> sync_round ne peer s = s\<lparr>sy_state := SS_Synced\<rparr>"
  by (simp add: sync_round_def create_sync_request_def)

lemma mark_applied_fields [simp]:
  "sy_our_height (mark_blocks_applied s h) = h" "sy_network_height (mark_blocks_applied s h) = sy_network_height s"
  "sy_blocks_received (mark_blocks_applied s h) = filter (\<lambda>b. h < bh_height (blk_header b)) (sy_blocks_received s)"
  "sy_sync_target (mark_blocks_applied s h)
     = (if sy_sync_target s \<le> h \<and> needs_sync h (sy_network_height s) then sy_network_height s else sy_sync_target s)"
  by (simp_all add: mark_blocks_applied_def Let_def)

lemma sync_round_advances:
  assumes "chain_ok ne chain tip" "tip + 50 \<le> U64_MAX" "catching_up tip s" "needs_sync (sy_our_height s) tip"
  defines "target \<equiv> if sy_sync_target s \<le> sy_our_height s then tip else sy_sync_target s"
    and "s' \<equiv> sync_round ne (serve chain) s"
  shows "catching_up tip s' \<and> sy_our_height s' = min (sy_our_height s + 50) target
    \<and> (sy_sync_target s' = target \<or> target \<le> sy_our_height s' \<and> sy_sync_target s' = tip)"
proof -
  let ?h = "sy_our_height s" and ?to = "min (sy_our_height s + 50) target"
  let ?s = "s\<lparr>sy_sync_target := target, sy_state := SS_Requesting\<rparr>"
  let ?bs = "map chain [Suc ?h ..< Suc ?to]" and ?buf = "sy_blocks_received s"
  have c: "sy_network_height s = tip" "?h < tip" "length ?buf + 50 \<le> MAX_BUFFER_SIZE" "sy_sync_target s \<le> tip"
    using assms(3,4) by (auto simp: catching_up_def needs_sync_def)
  have t: "?h < target" "target \<le> tip" using c by (auto simp: target_def)
  have inc: "add_u64 ?h (Suc 0) = Suc ?h" "add_u64 (Suc ?h) 50 = ?h + 51" "sub_u64 (?h + 51) (Suc 0) = ?h + 50"
    using c(2) assms(2) by (simp_all add: add_u64_def)
  have req: "create_sync_request s = (Some \<lparr> srq_from_height = Suc ?h, srq_to_height = ?to, srq_requester = sy_node_id s \<rparr>, ?s)"
    using assms(4) c(1,2,4) by (auto simp: create_sync_request_def Let_def inc SYNC_BATCH_SIZE_def target_def)
  have len: "Suc ?to = Suc ?h + (?to - ?h)" "?to - ?h \<le> 50" using t(1) by auto
  have "linked_chain ne (Suc ?h) ?bs"
    unfolding len(1) using chain_segment_linked [OF assms(1), of "Suc ?h" "?to - ?h"] assms(2) t by simp
  then have fits: "response_fits ne ?s ?bs" using len(2) c(3) by (simp add: response_fits_def inc del: upt_Suc)
  have bs: "?bs = chain (Suc ?h) # map chain [Suc (Suc ?h) ..< Suc ?to]" using t(1) by (simp add: upt_conv_Cons del: upt_Suc)
  have last: "last ?bs = chain ?to" using t(1) by (simp add: last_map)
  have ht: "bh_height (blk_header (chain ?to)) = ?to" using assms(1) t(2) by (simp add: chain_ok_def)
  have below: "filter (\<lambda>b. ?to < bh_height (blk_header b)) ?bs = []"
    using assms(1) t(2) by (auto simp: filter_empty_conv chain_ok_def simp del: upt_Suc)
  have "s' = mark_blocks_applied (?s\<lparr>sy_blocks_received := ?buf @ ?bs, sy_state := SS_Downloading target ?to\<rparr>) ?to"
    using response_accepted [of "serve chain \<lparr> srq_from_height = Suc ?h, srq_to_height = ?to, srq_requester = sy_node_id s \<rparr>", OF _ fits [unfolded bs]]
      last ht unfolding s'_def sync_round_def req bs by (simp add: serve_def bs del: upt_Suc)
  moreover have "length (filter (\<lambda>b. ?to < bh_height (blk_header b)) ?buf) + 50 \<le> MAX_BUFFER_SIZE"
    using c(3) le_trans [OF add_le_mono1 [OF length_filter_le]] by blast
  ultimately show ?thesis
    using below c(1) t by (auto simp: catching_up_def simp del: upt_Suc)
qed

lemma batches_0 [simp]: "batches 0 = 0"
  by (simp add: batches_def)

lemma batches_step: "0 < d \<Longrightarrow> batches d = Suc (batches (d - 50))"
proof (cases "50 \<le> d")
  case True
  then obtain k where "d = 50 + k" using le_Suc_ex by blast
  then show ?thesis by (simp add: batches_def)
next
  case False
  assume "0 < d"
  with False have "(d + 49) div 50 = 1" by (intro div_nat_eqI) simp_all
  with False show ?thesis by (simp add: batches_def)
qed

lemma batches_bounds: "50 * batches d \<le> d + 49" "d \<le> 50 * batches d"
  using mult_div_mod_eq [of 50 "d + 49"] mod_less_divisor [of 50 "d + 49"] unfolding batches_def by linarith+

lemma batches_le: "d \<le> 50 * n \<longleftrightarrow> batches d \<le> n"
proof
  assume "d \<le> 50 * n"
  then show "batches d \<le> n" using batches_bounds(1) [of d] by linarith
next
  assume "batches d \<le> n"
  then show "d \<le> 50 * n" using batches_bounds(2) [of d] by linarith
qed

lemma rounds_left_0: "rounds_left tip s = 0 \<Longrightarrow> \<not> needs_sync (sy_our_height s) tip"
  using batches_le [of "tip - sy_our_height s" 0] batches_le [of "sy_sync_target s - sy_our_height s" 0]
  by (auto simp: rounds_left_def needs_sync_def split: if_splits)

lemma rounds_left_le:
  assumes "tip - sy_our_height s \<le> 50 * n" "sy_sync_target s \<le> tip"
  shows "rounds_left tip s \<le> n + 1"
    "sy_sync_target s \<le> sy_our_height s \<or> sy_sync_target s = tip \<Longrightarrow> rounds_left tip s \<le> n"
proof -
  let ?t = "sy_sync_target s" and ?h = "sy_our_height s"
  have one: "batches (tip - ?h) \<le> n" using assms(1) batches_le by blast
  have two: "batches (?t - ?h) + batches (tip - ?t) \<le> batches (tip - ?h) + 1" if "?h < ?t"
  proof -
    have "tip - ?h = (?t - ?h) + (tip - ?t)" using that assms(2) by simp
    then show ?thesis
      using batches_bounds(1) [of "?t - ?h"] batches_bounds(1) [of "tip - ?t"] batches_bounds(2) [of "tip - ?h"] by linarith
  qed
  show "rounds_left tip s \<le> n + 1" using one two by (auto simp: rounds_left_def)
  show "?t \<le> ?h \<or> ?t = tip \<Longrightarrow> rounds_left tip s \<le> n" using one by (auto simp: rounds_left_def)
qed

lemma rounds_left_step:
  assumes "chain_ok ne chain tip" "tip + 50 \<le> U64_MAX" "catching_up tip s" "needs_sync (sy_our_height s) tip"
  shows "rounds_left tip (sync_round ne (serve chain) s) < rounds_left tip s"
proof -
  let ?s = "sync_round ne (serve chain) s" and ?h = "sy_our_height s"
  define target where "target = (if sy_sync_target s \<le> ?h then tip else sy_sync_target s)"
  have adv: "sy_our_height ?s = min (?h + 50) target"
    "sy_sync_target ?s = target \<or> target \<le> sy_our_height ?s \<and> sy_sync_target ?s = tip"
    using sync_round_advances [OF assms] unfolding target_def by blast+
  have t: "?h < target" "target \<le> tip" using assms(3,4) by (auto simp: target_def catching_up_def needs_sync_def)
  have old: "rounds_left tip s = batches (target - ?h) + batches (tip - target)" using t by (auto simp: rounds_left_def target_def)
  have new: "rounds_left tip ?s = batches (target - sy_our_height ?s) + batches (tip - target)"
  proof (cases "target \<le> ?h + 50")
    case True
    then have "sy_our_height ?s = target" using adv(1) by simp
    then show ?thesis using adv(2) t(2) by (auto simp: rounds_left_def)
  next
    case False
    then show ?thesis using adv by (auto simp: rounds_left_def)
  qed
  have "batches (target - sy_our_height ?s) = batches (target - ?h - 50)" using adv(1) by (simp add: min_def)
  then show ?thesis using batches_step [of "target - ?h"] t(1) unfolding old new by simp
qed

lemma sync_rounds_reach:
  assumes "chain_ok ne chain tip" "tip + 50 \<le> U64_MAX"
  shows "catching_up tip s \<Longrightarrow> \<not> needs_sync (sy_our_height s) tip \<or> rounds_left tip s \<le> n \<Longrightarrow>
    catching_up tip ((sync_round ne (serve chain) ^^ n) s) \<and> \<not> needs_sync (sy_our_height ((sync_round ne (serve chain) ^^ n) s)) tip"
proof (induction n arbitrary: s)
  case 0
  then show ?case using rounds_left_0 by auto
next
  case (Suc n)
  let ?s = "sync_round ne (serve chain) s"
  have "catching_up tip ?s \<and> (\<not> needs_sync (sy_our_height ?s) tip \<or> rounds_left tip ?s \<le> n)"
  proof (cases "needs_sync (sy_our_height s) tip")
    case True
    then show ?thesis
      using sync_round_advances [OF assms Suc.prems(1) True] rounds_left_step [OF assms Suc.prems(1) True] Suc.prems(2) by auto
  next
    case False
    then have "?s = s\<lparr>sy_state := SS_Synced\<rparr>" using Suc.prems(1) by (simp add: sync_round_done catching_up_def)
    then show ?thesis using Suc.prems False by (simp add: catching_up_def)
  qed
  then show ?case using Suc.IH [of ?s] by (simp add: funpow_swap1)
qed

section \<open>Properties\<close>

text \<open>C29: A response is accepted, and its blocks returned, exactly when it is empty or its blocks start at the
  height after ours, count up by one, each refers to the hash of the one before, and they fit into the
  buffer of 200 blocks. Then they are appended to the buffer; a response with an error leaves the
  protocol unchanged, and our height moves in neither case.\<close>

theorem sync_response_exact:
  "(\<exists>s'. process_sync_response ne s r = (Ok bs, s'))
     = (bs = srs_blocks r \<and> (bs = [] \<or> response_fits ne s bs))
   \<and> sy_our_height (snd (process_sync_response ne s r)) = sy_our_height s
   \<and> (case process_sync_response ne s r of
        (Ok bs, s') \<Rightarrow> sy_blocks_received s' = sy_blocks_received s @ bs
      | (Err _, s') \<Rightarrow> s' = s)"
proof (cases "srs_blocks r")
  case Nil
  then show ?thesis by (auto simp: process_sync_response_def)
next
  case (Cons b bs)
  then show ?thesis
    using response_accepted [OF Cons, of ne s] response_refused [OF Cons, of ne s]
    by (cases "response_fits ne s (b # bs)") auto
qed

text \<open>Whatever sequence of calls was made on a new protocol, the buffer holds at most 200 blocks, and a request
  it makes (away from the end of the height range) asks for between one and 50 blocks that start right
  above our height and do not exceed the best height seen.\<close>

theorem sync_requests_bounded:
  assumes "s = foldl (sync_step ne) (SyncProtocol_new node h) opers"
  shows "buffered_block_count s \<le> 200
    \<and> (\<forall>req s'. create_sync_request s = (Some req, s') \<and> sy_our_height s + 50 < U64_MAX \<longrightarrow>
         srq_from_height req = sy_our_height s + 1 \<and> srq_from_height req \<le> srq_to_height req
         \<and> srq_to_height req \<le> sy_our_height s + 50 \<and> srq_to_height req \<le> sy_network_height s)"
proof -
  have "sync_bounded s" unfolding assms by (rule syncing.run_inv [OF sync_new_bounded guarded_True])
  then show ?thesis
    by (auto simp: sync_bounded_def buffered_block_count_def MAX_BUFFER_SIZE_def create_sync_request_def Let_def needs_sync_def
        SYNC_BATCH_SIZE_def add_u64_def split: if_splits)
qed

theorem sync_requests_bounded_witness:
  "fst (create_sync_request (foldl (sync_step sample_node) (SyncProtocol_new (NodeId [1]) 7) [Op_Observed 100]))
     = Some \<lparr> srq_from_height = 8, srq_to_height = 57, srq_requester = NodeId [1] \<rparr>
   \<and> buffered_block_count (foldl (sync_step sample_node) (SyncProtocol_new (NodeId [1]) 7) [Op_Observed 100]) \<le> 200"
  using sync_requests_bounded [OF refl, of sample_node "NodeId [1]" 7 "[Op_Observed 100]"]
  by (simp add: sync_step_def SyncProtocol_new_def on_block_received_def needs_sync_def SYNC_THRESHOLD_def create_sync_request_def
      SYNC_BATCH_SIZE_def add_u64_def sub_u64_def U64_MAX_def)

text \<open>C28: A node catches up. After any calls on a new protocol that leave room for a batch in the buffer, and
  against a peer that serves a hash-linked chain up to the best height seen, the node is within the sync
  threshold of that height after one exchange per 50 missing blocks and one more, and stays there; the
  next call reports the state Synced. The additional exchange is needed only when a session with a lower
  target is under way, which is finished first.\<close>

theorem sync_reaches_tip:
  assumes "s = foldl (sync_step ne) (SyncProtocol_new node h) opers" "tip = sy_network_height s"
    and "chain_ok ne chain tip" "tip + 50 \<le> U64_MAX" "buffered_block_count s \<le> 150" "tip - sy_our_height s \<le> 50 * n"
    and "n + 1 \<le> m \<or> n \<le> m \<and> (sy_sync_target s \<le> sy_our_height s \<or> sy_sync_target s = tip)"
  shows "tip < sy_our_height ((sync_round ne (serve chain) ^^ m) s) + SYNC_THRESHOLD
    \<and> sy_state (sync_round ne (serve chain) ((sync_round ne (serve chain) ^^ m) s)) = SS_Synced"
proof -
  have "sync_bounded s" unfolding assms(1) by (rule syncing.run_inv [OF sync_new_bounded guarded_True])
  then have c: "catching_up tip s" using assms(2,5)
    by (simp add: sync_bounded_def catching_up_def buffered_block_count_def MAX_BUFFER_SIZE_def)
  then have "sy_sync_target s \<le> tip" by (simp add: catching_up_def)
  from rounds_left_le [OF assms(6) this] assms(7) have "rounds_left tip s \<le> m" by linarith
  then have "catching_up tip ((sync_round ne (serve chain) ^^ m) s)" "\<not> needs_sync (sy_our_height ((sync_round ne (serve chain) ^^ m) s)) tip"
    using sync_rounds_reach [OF assms(3,4) c] by blast+
  then show ?thesis by (auto simp: sync_round_done catching_up_def needs_sync_def SYNC_THRESHOLD_def)
qed

theorem sync_reaches_tip_witness:
  "let chain = \<lambda>h. sample_block h (BlockHash (pad_hash [h - 1]));
       s = foldl (sync_step sample_node) (SyncProtocol_new (NodeId [1]) 0) [Op_Observed 10, Op_Request, Op_Observed 100]
   in sy_sync_target s = 10 \<and> 100 < sy_our_height ((sync_round sample_node (serve chain) ^^ 3) s) + SYNC_THRESHOLD"
proof -
  let ?chain = "\<lambda>h. sample_block h (BlockHash (pad_hash [h - 1]))"
  let ?opers = "[Op_Observed 10, Op_Request, Op_Observed 100]"
  let ?s = "foldl (sync_step sample_node) (SyncProtocol_new (NodeId [1]) 0) ?opers"
  have s: "sy_network_height ?s = 100" "sy_our_height ?s = 0" "sy_sync_target ?s = 10" "buffered_block_count ?s \<le> 150"
    by (simp_all add: sync_step_def SyncProtocol_new_def on_block_received_def create_sync_request_def needs_sync_def
        SYNC_THRESHOLD_def Let_def buffered_block_count_def)
  moreover have "chain_ok sample_node ?chain 100"
    by (simp add: chain_ok_def sample_block_def sample_header_def)
  ultimately show ?thesis
    using sync_reaches_tip [OF refl s(1) [symmetric], of ?chain 2 3] by (simp add: U64_MAX_def Let_def)
qed

end
