(* ===== verification/Vm_Host.thy ===== *)
theory Vm_Host
  imports Block_Production "HOL-Library.Word"
begin

text \<open>
  The surroundings of contract execution in gratia-vm: gas metering (gas.rs), the sandbox with its limits
  and permissions (sandbox.rs), and the host environment (host_functions.rs). Floating-point values are
  kept as their bit patterns; times are numbers of nanoseconds.
\<close>

section \<open>Gas\<close>

datatype GasError = Gas_OutOfGas u64 u64 | Gas_LimitTooHigh u64 u64

definition GasError_to_string :: "GasError \<Rightarrow> string" where
  "GasError_to_string e = (case e of
     Gas_OutOfGas used limit \<Rightarrow> ''out of gas: used '' @ show_nat used @ '', limit '' @ show_nat limit
   | Gas_LimitTooHigh requested m \<Rightarrow> ''gas limit too high: '' @ show_nat requested @ '', maximum allowed is '' @ show_nat m)"

record GasCosts =
  gc_memory_access :: u64
  gc_arithmetic :: u64
  gc_division :: u64
  gc_branch :: u64
  gc_sha256_hash :: u64
  gc_ed25519_verify :: u64
  gc_host_call_base :: u64
  gc_host_get_location :: u64
  gc_host_get_proximity :: u64
  gc_host_get_presence :: u64
  gc_host_get_sensor :: u64
  gc_host_get_block_info :: u64
  gc_host_get_caller_info :: u64
  gc_storage_read :: u64
  gc_storage_write :: u64
  gc_memory_grow_page :: u64
  gc_cross_contract_call :: u64
  gc_log_per_byte :: u64

definition GasCosts_default :: GasCosts where
  "GasCosts_default = \<lparr> gc_memory_access = 1, gc_arithmetic = 1, gc_division = 5, gc_branch = 2, gc_sha256_hash = 1000,
     gc_ed25519_verify = 50000, gc_host_call_base = 100, gc_host_get_location = 150, gc_host_get_proximity = 300,
     gc_host_get_presence = 120, gc_host_get_sensor = 150, gc_host_get_block_info = 110, gc_host_get_caller_info = 200,
     gc_storage_read = 200, gc_storage_write = 5000, gc_memory_grow_page = 10000, gc_cross_contract_call = 100000,
     gc_log_per_byte = 2 \<rparr>"

definition MAX_GAS_LIMIT :: u64 where "MAX_GAS_LIMIT = 10000000000"

record GasMeter =
  gas_limit :: u64
  gas_used :: u64
  gas_costs :: GasCosts

definition GasMeter_new :: "u64 \<Rightarrow> GasMeter" where
  "GasMeter_new limit = \<lparr> gas_limit = min limit MAX_GAS_LIMIT, gas_used = 0, gas_costs = GasCosts_default \<rparr>"

definition GasMeter_new_checked :: "u64 \<Rightarrow> (GasError, GasMeter) result" where
  "GasMeter_new_checked limit =
     (if limit > MAX_GAS_LIMIT then Err (Gas_LimitTooHigh limit MAX_GAS_LIMIT)
      else Ok \<lparr> gas_limit = limit, gas_used = 0, gas_costs = GasCosts_default \<rparr>)"

definition GasMeter_with_costs :: "u64 \<Rightarrow> GasCosts \<Rightarrow> GasMeter" where
  "GasMeter_with_costs limit costs = \<lparr> gas_limit = min limit MAX_GAS_LIMIT, gas_used = 0, gas_costs = costs \<rparr>"

definition charge :: "GasMeter \<Rightarrow> u64 \<Rightarrow> (GasError, unit) result \<times> GasMeter" where
  "charge self amount =
     (let new_used = saturating_add_u64 (gas_used self) amount
      in if new_used > gas_limit self
         then (Err (Gas_OutOfGas new_used (gas_limit self)), self\<lparr>gas_used := gas_limit self\<rparr>)
         else (Ok (), self\<lparr>gas_used := new_used\<rparr>))"

definition charge_memory_access :: "GasMeter \<Rightarrow> (GasError, unit) result \<times> GasMeter" where
  "charge_memory_access self = charge self (gc_memory_access (gas_costs self))"

definition charge_arithmetic :: "GasMeter \<Rightarrow> (GasError, unit) result \<times> GasMeter" where
  "charge_arithmetic self = charge self (gc_arithmetic (gas_costs self))"

definition charge_division :: "GasMeter \<Rightarrow> (GasError, unit) result \<times> GasMeter" where
  "charge_division self = charge self (gc_division (gas_costs self))"

definition charge_branch :: "GasMeter \<Rightarrow> (GasError, unit) result \<times> GasMeter" where
  "charge_branch self = charge self (gc_branch (gas_costs self))"

definition charge_sha256 :: "GasMeter \<Rightarrow> (GasError, unit) result \<times> GasMeter" where
  "charge_sha256 self = charge self (gc_sha256_hash (gas_costs self))"

definition charge_ed25519_verify :: "GasMeter \<Rightarrow> (GasError, unit) result \<times> GasMeter" where
  "charge_ed25519_verify self = charge self (gc_ed25519_verify (gas_costs self))"

definition host_call_cost :: "GasCosts \<Rightarrow> string \<Rightarrow> u64" where
  "host_call_cost costs function_name =
     (if function_name = ''get_location'' then gc_host_get_location costs
      else if function_name = ''get_nearby_peers'' then gc_host_get_proximity costs
      else if function_name = ''get_presence_score'' then gc_host_get_presence costs
      else if function_name = ''get_sensor_data'' then gc_host_get_sensor costs
      else if function_name \<in> {''get_block_height'', ''get_block_timestamp''} then gc_host_get_block_info costs
      else if function_name \<in> {''get_caller_address'', ''get_caller_balance''} then gc_host_get_caller_info costs
      else gc_host_call_base costs)"

definition charge_host_call :: "GasMeter \<Rightarrow> string \<Rightarrow> (GasError, unit) result \<times> GasMeter" where
  "charge_host_call self function_name = charge self (host_call_cost (gas_costs self) function_name)"

definition charge_storage_read :: "GasMeter \<Rightarrow> (GasError, unit) result \<times> GasMeter" where
  "charge_storage_read self = charge self (gc_storage_read (gas_costs self))"

definition charge_storage_write :: "GasMeter \<Rightarrow> (GasError, unit) result \<times> GasMeter" where
  "charge_storage_write self = charge self (gc_storage_write (gas_costs self))"

definition charge_memory_grow :: "GasMeter \<Rightarrow> u32 \<Rightarrow> (GasError, unit) result \<times> GasMeter" where
  "charge_memory_grow self pages = charge self (mul_u64 (gc_memory_grow_page (gas_costs self)) pages)"

definition charge_cross_contract_call :: "GasMeter \<Rightarrow> (GasError, unit) result \<times> GasMeter" where
  "charge_cross_contract_call self = charge self (gc_cross_contract_call (gas_costs self))"

definition charge_log :: "GasMeter \<Rightarrow> usize \<Rightarrow> (GasError, unit) result \<times> GasMeter" where
  "charge_log self data_len = charge self (mul_u64 (gc_log_per_byte (gas_costs self)) data_len)"

definition gas_remaining :: "GasMeter \<Rightarrow> u64" where
  "gas_remaining self = saturating_sub (gas_limit self) (gas_used self)"

definition GasMeter_to_string :: "GasMeter \<Rightarrow> string" where
  "GasMeter_to_string self = ''GasMeter('' @ show_nat (gas_used self) @ ''/'' @ show_nat (gas_limit self) @ '' used, ''
     @ show_nat (gas_remaining self) @ '' remaining)''"

section \<open>Sandbox\<close>

datatype SandboxError =
    SB_MemoryLimitExceeded usize usize
  | SB_TimeLimitExceeded u64 u64
  | SB_StackDepthExceeded u32 u32
  | SB_CallDepthExceeded u32 u32
  | SB_BytecodeTooLarge usize usize
  | SB_InvalidBytecode string
  | SB_PermissionDenied string

definition SandboxError_to_string :: "SandboxError \<Rightarrow> string" where
  "SandboxError_to_string e = (case e of
     SB_MemoryLimitExceeded used_bytes limit_bytes \<Rightarrow>
       ''memory limit exceeded: '' @ show_nat used_bytes @ '' bytes used, '' @ show_nat limit_bytes @ '' bytes allowed''
   | SB_TimeLimitExceeded elapsed_ms limit_ms \<Rightarrow>
       ''execution time limit exceeded: '' @ show_nat elapsed_ms @ ''ms used, '' @ show_nat limit_ms @ ''ms allowed''
   | SB_StackDepthExceeded depth limit \<Rightarrow>
       ''stack depth limit exceeded: '' @ show_nat depth @ '' frames, '' @ show_nat limit @ '' allowed''
   | SB_CallDepthExceeded depth limit \<Rightarrow>
       ''call depth limit exceeded: '' @ show_nat depth @ '' calls, '' @ show_nat limit @ '' allowed''
   | SB_BytecodeTooLarge sz limit \<Rightarrow>
       ''bytecode too large: '' @ show_nat sz @ '' bytes, '' @ show_nat limit @ '' bytes allowed''
   | SB_InvalidBytecode reason \<Rightarrow> ''bytecode validation failed: '' @ reason
   | SB_PermissionDenied permission \<Rightarrow>
       ''permission denied: contract lacks '' @ [CHR 0x27] @ permission @ [CHR 0x27] @ '' permission'')"

record SandboxConfig =
  sb_max_memory_bytes :: usize
  sb_max_execution_time_ms :: u64
  sb_max_stack_depth :: u32
  sb_max_call_depth :: u32
  sb_max_bytecode_size :: usize
  sb_max_memory_pages :: u32
  sb_max_events_per_execution :: usize
  sb_max_event_data_bytes :: usize

definition SandboxConfig_default :: SandboxConfig where
  "SandboxConfig_default = \<lparr> sb_max_memory_bytes = 256 * 1024 * 1024, sb_max_execution_time_ms = 500, sb_max_stack_depth = 1024,
     sb_max_call_depth = 8, sb_max_bytecode_size = 1024 * 1024, sb_max_memory_pages = 4096, sb_max_events_per_execution = 256,
     sb_max_event_data_bytes = 64 * 1024 \<rparr>"

record ContractPermissions =
  perm_location :: bool
  perm_proximity :: bool
  perm_presence :: bool
  perm_sensor :: bool
  perm_cross_contract_calls :: bool

definition ContractPermissions_all :: ContractPermissions where
  "ContractPermissions_all = \<lparr> perm_location = True, perm_proximity = True, perm_presence = True, perm_sensor = True,
     perm_cross_contract_calls = True \<rparr>"

definition ContractPermissions_default :: ContractPermissions where
  "ContractPermissions_default = \<lparr> perm_location = False, perm_proximity = False, perm_presence = False, perm_sensor = False,
     perm_cross_contract_calls = False \<rparr>"

definition permitted :: "ContractPermissions \<Rightarrow> string \<Rightarrow> bool" where
  "permitted self function_name =
     (if function_name \<in> {''get_location'', ''get_location_lat'', ''get_location_lon''} then perm_location self
      else if function_name \<in> {''get_nearby_peers'', ''get_nearby_peer_count''} then perm_proximity self
      else if function_name = ''get_presence_score'' then perm_presence self
      else if function_name \<in> {''get_sensor_data'', ''get_sensor_reading''} then perm_sensor self
      else if function_name \<in> {''get_block_height'', ''get_block_timestamp''} then True
      else if function_name \<in> {''get_caller_address'', ''get_caller_balance''} then True
      else if function_name \<in> {''storage_read'', ''storage_write'', ''emit_event'', ''log''} then True
      else False)"

definition check_permission :: "ContractPermissions \<Rightarrow> string \<Rightarrow> (SandboxError, unit) result" where
  "check_permission self function_name =
     (if permitted self function_name then Ok () else Err (SB_PermissionDenied function_name))"

record SandboxedExecution =
  se_config :: SandboxConfig
  se_permissions :: ContractPermissions
  se_start_time :: datetime
  se_current_memory_bytes :: usize
  se_current_stack_depth :: u32
  se_current_call_depth :: u32
  se_events_emitted :: usize
  se_event_data_bytes :: usize

definition SandboxedExecution_new :: "datetime \<Rightarrow> SandboxConfig \<Rightarrow> ContractPermissions \<Rightarrow> SandboxedExecution" where
  "SandboxedExecution_new now config permissions = \<lparr> se_config = config, se_permissions = permissions, se_start_time = now,
     se_current_memory_bytes = 0, se_current_stack_depth = 0, se_current_call_depth = 0, se_events_emitted = 0, se_event_data_bytes = 0 \<rparr>"

definition enforce_time_limit :: "datetime \<Rightarrow> SandboxedExecution \<Rightarrow> (SandboxError, unit) result" where
  "enforce_time_limit now self =
     (let elapsed = now - se_start_time self
      in if elapsed > int (sb_max_execution_time_ms (se_config self)) * 1000000
         then Err (SB_TimeLimitExceeded (as_u64 (nat (elapsed div 1000000))) (sb_max_execution_time_ms (se_config self)))
         else Ok ())"

definition enforce_memory_limit :: "SandboxedExecution \<Rightarrow> usize \<Rightarrow> (SandboxError, unit) result \<times> SandboxedExecution" where
  "enforce_memory_limit self memory_bytes =
     (if memory_bytes > sb_max_memory_bytes (se_config self)
      then (Err (SB_MemoryLimitExceeded memory_bytes (sb_max_memory_bytes (se_config self))), self)
      else (Ok (), self\<lparr>se_current_memory_bytes := memory_bytes\<rparr>))"

definition push_stack_frame :: "SandboxedExecution \<Rightarrow> (SandboxError, unit) result \<times> SandboxedExecution" where
  "push_stack_frame self =
     (if se_current_stack_depth self \<ge> sb_max_stack_depth (se_config self)
      then (Err (SB_StackDepthExceeded (add_u32 (se_current_stack_depth self) 1) (sb_max_stack_depth (se_config self))), self)
      else (Ok (), self\<lparr>se_current_stack_depth := add_u32 (se_current_stack_depth self) 1\<rparr>))"

definition pop_stack_frame :: "SandboxedExecution \<Rightarrow> SandboxedExecution" where
  "pop_stack_frame self = self\<lparr>se_current_stack_depth := saturating_sub (se_current_stack_depth self) 1\<rparr>"

definition enter_call :: "SandboxedExecution \<Rightarrow> (SandboxError, unit) result \<times> SandboxedExecution" where
  "enter_call self =
     (if se_current_call_depth self \<ge> sb_max_call_depth (se_config self)
      then (Err (SB_CallDepthExceeded (add_u32 (se_current_call_depth self) 1) (sb_max_call_depth (se_config self))), self)
      else (Ok (), self\<lparr>se_current_call_depth := add_u32 (se_current_call_depth self) 1\<rparr>))"

definition exit_call :: "SandboxedExecution \<Rightarrow> SandboxedExecution" where
  "exit_call self = self\<lparr>se_current_call_depth := saturating_sub (se_current_call_depth self) 1\<rparr>"

definition record_event :: "SandboxedExecution \<Rightarrow> usize \<Rightarrow> (SandboxError, unit) result \<times> SandboxedExecution" where
  "record_event self data_len =
     (let self = self\<lparr>se_events_emitted := add_u64 (se_events_emitted self) 1\<rparr>
      in if se_events_emitted self > sb_max_events_per_execution (se_config self)
         then (Err (SB_PermissionDenied (''event limit exceeded: '' @ show_nat (se_events_emitted self) @ '' events, ''
                 @ show_nat (sb_max_events_per_execution (se_config self)) @ '' allowed'')), self)
         else case checked_add_u64 (se_event_data_bytes self) data_len of
           None \<Rightarrow> (Err (SB_PermissionDenied ''event data size overflow''), self)
         | Some data_total \<Rightarrow>
             (let self = self\<lparr>se_event_data_bytes := data_total\<rparr>
              in if se_event_data_bytes self > sb_max_event_data_bytes (se_config self)
                 then (Err (SB_PermissionDenied (''event data limit exceeded: '' @ show_nat (se_event_data_bytes self) @ '' bytes, ''
                         @ show_nat (sb_max_event_data_bytes (se_config self)) @ '' allowed'')), self)
                 else (Ok (), self)))"

definition validate_bytecode :: "bytes \<Rightarrow> SandboxConfig \<Rightarrow> (SandboxError, unit) result" where
  "validate_bytecode bytecode config =
     (if length bytecode > sb_max_bytecode_size config
      then Err (SB_BytecodeTooLarge (length bytecode) (sb_max_bytecode_size config))
      else if length bytecode < 8
      then Err (SB_InvalidBytecode ''bytecode too short to be valid WASM (minimum 8 bytes for header)'')
      else if take 4 bytecode \<noteq> [0x00, 0x61, 0x73, 0x6d]
      then Err (SB_InvalidBytecode (''missing WASM magic number ('' @ [CHR 0x5C] @ ''0asm)''))
      else let version = of_le_bytes (take 4 (drop 4 bytecode))
           in if version \<noteq> 1
              then Err (SB_InvalidBytecode (''unsupported WASM version: '' @ show_nat version @ '' (only version 1 is supported)''))
              else Ok ())"

section \<open>Host environment\<close>

datatype SensorType = Barometer | AmbientLight | Magnetometer | Accelerometer | Gyroscope

record SensorReading =
  sr_sensor_type :: SensorType
  sr_value :: "64 word"
  sr_timestamp_secs :: u64
  sr_is_fresh :: bool

record ContractEvent =
  ev_contract_address :: Address
  ev_topic :: string
  ev_data :: bytes

record HostEnvironment =
  he_block_height :: u64
  he_block_timestamp :: u64
  he_caller_address :: Address
  he_caller_balance :: Lux
  he_location :: "(32 word \<times> 32 word) option"
  he_nearby_peer_count :: u32
  he_presence_score :: u8
  he_sensor_readings :: "SensorReading list"
  he_storage :: "(bytes, bytes) hashmap"
  he_events :: "ContractEvent list"

definition HostEnvironment_new :: "u64 \<Rightarrow> u64 \<Rightarrow> Address \<Rightarrow> Lux \<Rightarrow> HostEnvironment" where
  "HostEnvironment_new height time caller balance = \<lparr> he_block_height = height, he_block_timestamp = time, he_caller_address = caller,
     he_caller_balance = balance, he_location = None, he_nearby_peer_count = 0, he_presence_score = 40, he_sensor_readings = [],
     he_storage = [], he_events = [] \<rparr>"

definition with_location :: "HostEnvironment \<Rightarrow> 32 word \<times> 32 word \<Rightarrow> HostEnvironment" where
  "with_location self loc = self\<lparr>he_location := Some loc\<rparr>"

definition with_nearby_peers :: "HostEnvironment \<Rightarrow> u32 \<Rightarrow> HostEnvironment" where
  "with_nearby_peers self n = self\<lparr>he_nearby_peer_count := n\<rparr>"

definition with_presence_score :: "HostEnvironment \<Rightarrow> u8 \<Rightarrow> HostEnvironment" where
  "with_presence_score self score = self\<lparr>he_presence_score := min score 100\<rparr>"

definition with_sensor_reading :: "HostEnvironment \<Rightarrow> SensorReading \<Rightarrow> HostEnvironment" where
  "with_sensor_reading self reading = self\<lparr>he_sensor_readings := he_sensor_readings self @ [reading]\<rparr>"

definition get_sensor_data :: "HostEnvironment \<Rightarrow> SensorType \<Rightarrow> SensorReading option" where
  "get_sensor_data self sensor = find (\<lambda>r. sr_sensor_type r = sensor) (he_sensor_readings self)"

definition storage_read :: "HostEnvironment \<Rightarrow> bytes \<Rightarrow> bytes option" where
  "storage_read self key = map_of (he_storage self) key"

definition storage_write :: "HostEnvironment \<Rightarrow> bytes \<Rightarrow> bytes \<Rightarrow> HostEnvironment" where
  "storage_write self key val = self\<lparr>he_storage := AList.update key val (he_storage self)\<rparr>"

definition storage_delete :: "HostEnvironment \<Rightarrow> bytes \<Rightarrow> bool \<times> HostEnvironment" where
  "storage_delete self key = (map_of (he_storage self) key \<noteq> None, self\<lparr>he_storage := AList.delete key (he_storage self)\<rparr>)"

definition emit_event :: "HostEnvironment \<Rightarrow> Address \<Rightarrow> string \<Rightarrow> bytes \<Rightarrow> HostEnvironment" where
  "emit_event self addr topic data =
     self\<lparr>he_events := he_events self @ [\<lparr> ev_contract_address = addr, ev_topic = topic, ev_data = data \<rparr>]\<rparr>"

definition take_events :: "HostEnvironment \<Rightarrow> ContractEvent list \<times> HostEnvironment" where
  "take_events self = (he_events self, self\<lparr>he_events := []\<rparr>)"

section \<open>Gas accounting\<close>

text \<open>What charging does: the meter never passes its limit, never runs backwards, and a refused charge exhausts it.\<close>

definition gas_ok :: "GasMeter \<Rightarrow> bool" where
  "gas_ok g \<longleftrightarrow> gas_used g \<le> gas_limit g \<and> gas_limit g \<le> MAX_GAS_LIMIT"

lemma gas_new_ok [simp]: "gas_ok (GasMeter_new n)" "gas_ok (GasMeter_with_costs n c)"
  by (simp_all add: gas_ok_def GasMeter_new_def GasMeter_with_costs_def)

lemma charge_outcome:
  assumes "gas_ok g"
  shows "charge g n = (if gas_used g + n \<le> gas_limit g then (Ok (), g\<lparr>gas_used := gas_used g + n\<rparr>)
     else (Err (Gas_OutOfGas (min (gas_used g + n) U64_MAX) (gas_limit g)), g\<lparr>gas_used := gas_limit g\<rparr>))"
proof -
  have "gas_limit g < U64_MAX" using assms by (simp add: gas_ok_def MAX_GAS_LIMIT_def U64_MAX_def)
  then show ?thesis by (auto simp: charge_def saturating_add_u64_def Let_def min_def)
qed

lemma charge_keeps: "gas_limit (snd (charge g n)) = gas_limit g" "gas_costs (snd (charge g n)) = gas_costs g"
  by (simp_all add: charge_def Let_def)

lemma charge_ok: "gas_ok g \<Longrightarrow> gas_ok (snd (charge g n))"
  by (auto simp: charge_outcome gas_ok_def)

lemma charge_used: "gas_ok g \<Longrightarrow> gas_used g \<le> gas_used (snd (charge g n))"
  by (auto simp: charge_outcome gas_ok_def)

end
