(* ===== verification/Wasm_Module.thy ===== *)
theory Wasm_Module
  imports Vm_Host
begin

unbundle bit_operations_syntax

text \<open>
  The module parser of the WASM interpreter (gratia-vm/src/interpreter.rs): the byte reader with its LEB128
  decoders, the sections, and the parsed module. A fallible method that takes \<^verbatim>\<open>&mut self\<close> is a function from
  the state to a result and the state after it, so what was changed before an error stays visible.
\<close>

section \<open>Values and errors\<close>

datatype Value = V_I32 "32 word" | V_I64 "64 word" | V_F32 "32 word" | V_F64 "64 word"

datatype ValType = T_I32 | T_I64 | T_F32 | T_F64

text \<open>Two constructors are not in the source: a panic of the Rust code, and the exhaustion of the fuel that
  bounds the recursion of the model.\<close>
datatype InterpError =
    IE_InvalidBytecode string
  | IE_StackUnderflow
  | IE_TypeMismatch string string
  | IE_UndefinedFunction nat
  | IE_UndefinedGlobal nat
  | IE_UndefinedLocal nat
  | IE_DivisionByZero
  | IE_FunctionReturn
  | IE_Branch nat
  | IE_Gas GasError
  | IE_HostError string
  | IE_Panic
  | IE_OutOfFuel

definition InterpError_to_string :: "InterpError \<Rightarrow> string" where
  "InterpError_to_string e = (case e of
     IE_InvalidBytecode msg \<Rightarrow> ''invalid bytecode: '' @ msg
   | IE_StackUnderflow \<Rightarrow> ''stack underflow''
   | IE_TypeMismatch expected got \<Rightarrow> ''type mismatch: expected '' @ expected @ '', got '' @ got
   | IE_UndefinedFunction i \<Rightarrow> ''undefined function index: '' @ show_nat i
   | IE_UndefinedGlobal i \<Rightarrow> ''undefined global index: '' @ show_nat i
   | IE_UndefinedLocal i \<Rightarrow> ''undefined local index: '' @ show_nat i
   | IE_DivisionByZero \<Rightarrow> ''integer division by zero''
   | IE_FunctionReturn \<Rightarrow> ''function return (internal)''
   | IE_Branch depth \<Rightarrow> ''branch to depth '' @ show_nat depth @ '' (internal)''
   | IE_Gas g \<Rightarrow> ''gas error: '' @ GasError_to_string g
   | IE_HostError msg \<Rightarrow> ''host function error: '' @ msg
   | IE_Panic \<Rightarrow> [] | IE_OutOfFuel \<Rightarrow> [])"

definition type_name :: "Value \<Rightarrow> string" where
  "type_name v = (case v of V_I32 _ \<Rightarrow> ''i32'' | V_I64 _ \<Rightarrow> ''i64'' | V_F32 _ \<Rightarrow> ''f32'' | V_F64 _ \<Rightarrow> ''f64'')"

definition as_i32 :: "Value \<Rightarrow> (InterpError, 32 word) result" where
  "as_i32 v = (case v of V_I32 x \<Rightarrow> Ok x | _ \<Rightarrow> Err (IE_TypeMismatch ''i32'' (type_name v)))"

definition as_i64_value :: "Value \<Rightarrow> (InterpError, 64 word) result" where
  "as_i64_value v = (case v of V_I64 x \<Rightarrow> Ok x | _ \<Rightarrow> Err (IE_TypeMismatch ''i64'' (type_name v)))"

definition as_f32 :: "Value \<Rightarrow> (InterpError, 32 word) result" where
  "as_f32 v = (case v of V_F32 x \<Rightarrow> Ok x | _ \<Rightarrow> Err (IE_TypeMismatch ''f32'' (type_name v)))"

definition as_f64 :: "Value \<Rightarrow> (InterpError, 64 word) result" where
  "as_f64 v = (case v of V_F64 x \<Rightarrow> Ok x | _ \<Rightarrow> Err (IE_TypeMismatch ''f64'' (type_name v)))"

definition default_for_valtype :: "ValType \<Rightarrow> Value" where
  "default_for_valtype vt = (case vt of T_I32 \<Rightarrow> V_I32 0 | T_I64 \<Rightarrow> V_I64 0 | T_F32 \<Rightarrow> V_F32 0 | T_F64 \<Rightarrow> V_F64 0)"

text \<open>\<^verbatim>\<open>{:02X}\<close> of a byte.\<close>
definition hex_digit :: "nat \<Rightarrow> char" where
  "hex_digit n = (if n < 10 then char_of (48 + n) else char_of (55 + n))"

definition show_hex2 :: "u8 \<Rightarrow> string" where
  "show_hex2 b = [hex_digit (b div 16), hex_digit (b mod 16)]"

definition ValType_from_byte :: "u8 \<Rightarrow> (InterpError, ValType) result" where
  "ValType_from_byte b =
     (if b = 0x7F then Ok T_I32 else if b = 0x7E then Ok T_I64 else if b = 0x7D then Ok T_F32 else if b = 0x7C then Ok T_F64
      else Err (IE_InvalidBytecode (''unknown value type: 0x'' @ show_hex2 b)))"

section \<open>Modules\<close>

record FuncType =
  ft_params :: "ValType list"
  ft_results :: "ValType list"

record Import =
  im_module :: string
  im_name :: string
  im_type_idx :: u32

record WasmFunction =
  wf_type_idx :: u32
  wf_locals :: "ValType list"
  wf_code :: bytes

record WasmGlobal =
  wg_valtype :: ValType
  wg_mutable :: bool
  wg_init_value :: Value

datatype ExportKind = EK_Function | EK_Memory | EK_Global

record WasmExport =
  ex_name :: string
  ex_kind :: ExportKind
  ex_index :: u32

record DataSegment =
  ds_offset :: u32
  ds_data :: bytes

record WasmModule =
  wm_types :: "FuncType list"
  wm_imports :: "Import list"
  wm_functions :: "WasmFunction list"
  wm_globals :: "WasmGlobal list"
  wm_exports :: "WasmExport list"
  wm_import_func_count :: u32
  wm_memory_min_pages :: u32
  wm_data_segments :: "DataSegment list"

section \<open>Sequencing\<close>

type_synonym ('s, 'a) act = "'s \<Rightarrow> (InterpError, 'a) result \<times> 's"

definition ret :: "'a \<Rightarrow> ('s, 'a) act" where
  "ret x s = (Ok x, s)"

definition fail :: "InterpError \<Rightarrow> ('s, 'a) act" where
  "fail e s = (Err e, s)"

definition andThen :: "('s, 'a) act \<Rightarrow> ('a \<Rightarrow> ('s, 'b) act) \<Rightarrow> ('s, 'b) act" where
  "andThen m f s = (case m s of (Err e, s) \<Rightarrow> (Err e, s) | (Ok x, s) \<Rightarrow> f x s)"

definition lift_result :: "(InterpError, 'a) result \<Rightarrow> ('s, 'a) act" where
  "lift_result r s = (r, s)"

primrec times :: "nat \<Rightarrow> ('s, 'a) act \<Rightarrow> ('s, 'a list) act" where
  "times 0 m = ret []"
| "times (Suc n) m = andThen m (\<lambda>x. andThen (times n m) (\<lambda>xs. ret (x # xs)))"

lemma ret_simp [simp]: "ret x s = (Ok x, s)" by (simp add: ret_def)
lemma fail_simp [simp]: "fail e s = (Err e, s)" by (simp add: fail_def)
lemma lift_result_simp [simp]: "lift_result r s = (r, s)" by (simp add: lift_result_def)
lemma andThen_simps [simp]:
  "m s = (Ok x, s') \<Longrightarrow> andThen m f s = f x s'" "m s = (Err e, s') \<Longrightarrow> andThen m f s = (Err e, s')"
  by (simp_all add: andThen_def)

section \<open>The reader\<close>

record Reader =
  rd_data :: bytes
  rd_pos :: usize

definition Reader_new :: "bytes \<Rightarrow> Reader" where
  "Reader_new data = \<lparr> rd_data = data, rd_pos = 0 \<rparr>"

definition rd_remaining :: "Reader \<Rightarrow> usize" where
  "rd_remaining self = saturating_sub (length (rd_data self)) (rd_pos self)"

definition read_byte :: "(Reader, u8) act" where
  "read_byte self =
     (if rd_pos self \<ge> length (rd_data self) then (Err (IE_InvalidBytecode ''unexpected end of data''), self)
      else (Ok (rd_data self ! rd_pos self), self\<lparr>rd_pos := rd_pos self + 1\<rparr>))"

definition read_bytes :: "usize \<Rightarrow> (Reader, bytes) act" where
  "read_bytes n self =
     (if rd_pos self + n > length (rd_data self) then (Err (IE_InvalidBytecode ''unexpected end of data''), self)
      else (Ok (take n (drop (rd_pos self) (rd_data self))), self\<lparr>rd_pos := rd_pos self + n\<rparr>))"

text \<open>The shift of the release profile takes the amount modulo the width.\<close>
function read_u32_loop :: "32 word \<Rightarrow> nat \<Rightarrow> (Reader, 32 word) act" where
  "read_u32_loop acc shift r =
     (case read_byte r of
        (Err e, r) \<Rightarrow> (Err e, r)
      | (Ok byte, r) \<Rightarrow>
          (let acc = acc OR push_bit (shift mod 32) (word_of_nat (byte mod 128))
           in if byte div 128 mod 2 = 0 then (Ok acc, r)
              else let shift = shift + 7
                   in if shift > 35 then (Err (IE_InvalidBytecode ''LEB128 too long''), r) else read_u32_loop acc shift r))"
  by pat_completeness auto
termination by (relation "measure (\<lambda>(_, shift, _). 36 - shift)") auto

definition read_u32_leb128 :: "(Reader, 32 word) act" where
  "read_u32_leb128 = read_u32_loop 0 0"

function read_signed_loop :: "nat \<Rightarrow> 'a::len word \<Rightarrow> nat \<Rightarrow> (Reader, 'a word) act" where
  "read_signed_loop bound acc shift r =
     (case read_byte r of
        (Err e, r) \<Rightarrow> (Err e, r)
      | (Ok byte, r) \<Rightarrow>
          (let acc = acc OR push_bit (shift mod LENGTH('a)) (word_of_nat (byte mod 128));
               shift = shift + 7
           in if byte div 128 mod 2 = 0
              then (Ok (if shift < LENGTH('a) \<and> byte div 64 mod 2 = 1 then acc OR push_bit shift (- 1) else acc), r)
              else if shift > bound then (Err (IE_InvalidBytecode ''LEB128 too long''), r) else read_signed_loop bound acc shift r))"
  by pat_completeness auto
termination by (relation "measure (\<lambda>(bound, _, shift, _). Suc bound - shift)") auto

definition read_i32_leb128 :: "(Reader, 32 word) act" where
  "read_i32_leb128 = read_signed_loop 35 0 0"

definition read_i64_leb128 :: "(Reader, 64 word) act" where
  "read_i64_leb128 = read_signed_loop 70 0 0"

definition read_f32 :: "(Reader, 32 word) act" where
  "read_f32 = andThen (read_bytes 4) (\<lambda>bytes. ret (word_of_nat (of_le_bytes bytes)))"

definition read_f64 :: "(Reader, 64 word) act" where
  "read_f64 = andThen (read_bytes 8) (\<lambda>bytes. ret (word_of_nat (of_le_bytes bytes)))"

text \<open>\<^verbatim>\<open>String::from_utf8\<close>; a string is the list of its bytes as characters.\<close>
definition utf8_cont :: "nat \<Rightarrow> bool" where
  "utf8_cont b \<longleftrightarrow> 0x80 \<le> b \<and> b \<le> 0xBF"

fun utf8_valid :: "bytes \<Rightarrow> bool" where
  "utf8_valid [] \<longleftrightarrow> True"
| "utf8_valid (a # bs) \<longleftrightarrow>
     (if a < 0x80 then utf8_valid bs
      else case bs of
        [] \<Rightarrow> False
      | b # cs \<Rightarrow>
          if 0xC2 \<le> a \<and> a \<le> 0xDF then utf8_cont b \<and> utf8_valid cs
          else case cs of
            [] \<Rightarrow> False
          | c # ds \<Rightarrow>
              if 0xE0 \<le> a \<and> a \<le> 0xEF
              then utf8_cont b \<and> (a = 0xE0 \<longrightarrow> 0xA0 \<le> b) \<and> (a = 0xED \<longrightarrow> b \<le> 0x9F) \<and> utf8_cont c \<and> utf8_valid ds
              else case ds of
                [] \<Rightarrow> False
              | d # es \<Rightarrow> 0xF0 \<le> a \<and> a \<le> 0xF4 \<and> utf8_cont b \<and> (a = 0xF0 \<longrightarrow> 0x90 \<le> b) \<and> (a = 0xF4 \<longrightarrow> b \<le> 0x8F)
                  \<and> utf8_cont c \<and> utf8_cont d \<and> utf8_valid es)"

definition from_utf8 :: "bytes \<Rightarrow> string option" where
  "from_utf8 bs = (if utf8_valid bs then Some (map char_of bs) else None)"

definition read_string :: "(Reader, string) act" where
  "read_string =
     andThen read_u32_leb128 (\<lambda>len.
     andThen (read_bytes (unat len)) (\<lambda>bytes.
     case from_utf8 bytes of Some s \<Rightarrow> ret s | None \<Rightarrow> fail (IE_InvalidBytecode ''invalid UTF-8 in string'')))"

section \<open>Sections\<close>

definition parse_const_expr :: "ValType \<Rightarrow> (Reader, Value) act" where
  "parse_const_expr valtype =
     andThen read_byte (\<lambda>opcode.
       let finish = (\<lambda>v. andThen read_byte (\<lambda>e.
             if e \<noteq> 0x0B then fail (IE_InvalidBytecode ''expected END after const expression'') else ret v))
       in if opcode = 0x41 then andThen read_i32_leb128 (\<lambda>v. finish (V_I32 v))
          else if opcode = 0x42 then andThen read_i64_leb128 (\<lambda>v. finish (V_I64 v))
          else if opcode = 0x43 then andThen read_f32 (\<lambda>v. finish (V_F32 v))
          else if opcode = 0x44 then andThen read_f64 (\<lambda>v. finish (V_F64 v))
          else ret (default_for_valtype valtype))"

definition read_valtype :: "(Reader, ValType) act" where
  "read_valtype = andThen read_byte (\<lambda>b. lift_result (ValType_from_byte b))"

definition parse_type :: "(Reader, FuncType) act" where
  "parse_type =
     andThen read_byte (\<lambda>marker.
     if marker \<noteq> 0x60 then fail (IE_InvalidBytecode ''expected func type marker 0x60'')
     else andThen read_u32_leb128 (\<lambda>param_count.
          andThen (times (unat param_count) read_valtype) (\<lambda>params.
          andThen read_u32_leb128 (\<lambda>result_count.
          andThen (times (unat result_count) read_valtype) (\<lambda>results.
          ret \<lparr> ft_params = params, ft_results = results \<rparr>)))))"

definition parse_import :: "(Reader, Import) act" where
  "parse_import =
     andThen read_string (\<lambda>module.
     andThen read_string (\<lambda>name.
     andThen read_byte (\<lambda>kind.
     if kind \<noteq> 0 then fail (IE_InvalidBytecode (''unsupported import kind: 0x'' @ show_hex2 kind @ '' (only functions supported)''))
     else andThen read_u32_leb128 (\<lambda>type_idx.
          ret \<lparr> im_module = module, im_name = name, im_type_idx = unat type_idx \<rparr>))))"

definition parse_memory :: "(Reader, u32) act" where
  "parse_memory =
     andThen read_byte (\<lambda>flags.
     andThen read_u32_leb128 (\<lambda>min_pages.
     if flags mod 2 \<noteq> 0 then andThen read_u32_leb128 (\<lambda>_. ret (unat min_pages)) else ret (unat min_pages)))"

definition parse_global :: "(Reader, WasmGlobal) act" where
  "parse_global =
     andThen read_valtype (\<lambda>valtype.
     andThen read_byte (\<lambda>m.
     andThen (parse_const_expr valtype) (\<lambda>init_value.
     ret \<lparr> wg_valtype = valtype, wg_mutable = (m = 1), wg_init_value = init_value \<rparr>)))"

definition parse_export :: "(Reader, WasmExport option) act" where
  "parse_export =
     andThen read_string (\<lambda>name.
     andThen read_byte (\<lambda>kind_byte.
     andThen read_u32_leb128 (\<lambda>index.
     let entry = (\<lambda>kind. Some \<lparr> ex_name = name, ex_kind = kind, ex_index = unat index \<rparr>)
     in ret (if kind_byte = 0 then entry EK_Function else if kind_byte = 2 then entry EK_Memory
             else if kind_byte = 3 then entry EK_Global else None))))"

definition parse_locals :: "(Reader, ValType list) act" where
  "parse_locals = andThen read_u32_leb128 (\<lambda>n. andThen read_valtype (\<lambda>vt. ret (replicate (unat n) vt)))"

text \<open>A body size smaller than the local declarations makes the length of the code negative: the subtraction
  wraps and the slice panics.\<close>
definition parse_code :: "(Reader, ValType list \<times> bytes) act" where
  "parse_code =
     andThen read_u32_leb128 (\<lambda>body_size r.
       let body_end = rd_pos r + unat body_size
       in andThen read_u32_leb128 (\<lambda>local_decl_count.
          andThen (times (unat local_decl_count) parse_locals) (\<lambda>locals r.
          if body_end < rd_pos r then (Err IE_Panic, r)
          else andThen (read_bytes (body_end - rd_pos r)) (\<lambda>code. ret (concat locals, code)) r)) r)"

definition parse_data :: "(Reader, DataSegment) act" where
  "parse_data =
     andThen read_u32_leb128 (\<lambda>segment_flags.
     andThen (if segment_flags = 0
               then andThen (parse_const_expr T_I32) (\<lambda>v. ret (case as_i32 v of Ok x \<Rightarrow> unat x | Err _ \<Rightarrow> 0))
               else ret 0) (\<lambda>offset.
     andThen read_u32_leb128 (\<lambda>data_len.
     andThen (read_bytes (unat data_len)) (\<lambda>data.
     ret \<lparr> ds_offset = offset, ds_data = data \<rparr>))))"

record Sections =
  sc_types :: "FuncType list"
  sc_imports :: "Import list"
  sc_func_type_indices :: "u32 list"
  sc_globals :: "WasmGlobal list"
  sc_exports :: "WasmExport list"
  sc_code_bodies :: "(ValType list \<times> bytes) list"
  sc_memory_min_pages :: u32
  sc_data_segments :: "DataSegment list"

definition parse_vec :: "(Reader, 'a) act \<Rightarrow> (Reader, 'a list) act" where
  "parse_vec m = andThen read_u32_leb128 (\<lambda>n. times (unat n) m)"

definition parse_section :: "u8 \<Rightarrow> Sections \<Rightarrow> (Reader, Sections) act" where
  "parse_section section_id sc =
     (if section_id = 1 then andThen (parse_vec parse_type) (\<lambda>xs. ret (sc\<lparr>sc_types := sc_types sc @ xs\<rparr>))
      else if section_id = 2 then andThen (parse_vec parse_import) (\<lambda>xs. ret (sc\<lparr>sc_imports := sc_imports sc @ xs\<rparr>))
      else if section_id = 3 then andThen (parse_vec read_u32_leb128)
        (\<lambda>xs. ret (sc\<lparr>sc_func_type_indices := sc_func_type_indices sc @ map unat xs\<rparr>))
      else if section_id = 5 then andThen (parse_vec parse_memory)
        (\<lambda>xs. ret (sc\<lparr>sc_memory_min_pages := if xs = [] then sc_memory_min_pages sc else last xs\<rparr>))
      else if section_id = 6 then andThen (parse_vec parse_global) (\<lambda>xs. ret (sc\<lparr>sc_globals := sc_globals sc @ xs\<rparr>))
      else if section_id = 7 then andThen (parse_vec parse_export)
        (\<lambda>xs. ret (sc\<lparr>sc_exports := sc_exports sc @ List.map_filter id xs\<rparr>))
      else if section_id = 10 then andThen (parse_vec parse_code) (\<lambda>xs. ret (sc\<lparr>sc_code_bodies := sc_code_bodies sc @ xs\<rparr>))
      else if section_id = 11 then andThen (parse_vec parse_data) (\<lambda>xs. ret (sc\<lparr>sc_data_segments := sc_data_segments sc @ xs\<rparr>))
      else ret sc)"

lemma read_byte_advances: "read_byte r = (Ok b, r') \<Longrightarrow> rd_pos r' = rd_pos r + 1 \<and> rd_data r' = rd_data r \<and> rd_pos r < length (rd_data r)"
  by (auto simp: read_byte_def split: if_splits)

lemma read_byte_mono: "rd_pos r \<le> rd_pos (snd (read_byte r)) \<and> rd_data (snd (read_byte r)) = rd_data r"
  by (simp add: read_byte_def)

lemma read_u32_loop_mono: "rd_pos r \<le> rd_pos (snd (read_u32_loop acc shift r)) \<and> rd_data (snd (read_u32_loop acc shift r)) = rd_data r"
proof (induction acc shift r rule: read_u32_loop.induct)
  case (1 acc shift r)
  show ?case
    using 1 read_byte_mono [of r]
    by (subst (1 2) read_u32_loop.simps)
      (auto simp: Let_def simp del: read_u32_loop.simps split: prod.splits sum.splits, (fastforce dest: read_byte_advances)+)
qed

lemma read_u32_advances: "read_u32_leb128 r = (Ok n, r') \<Longrightarrow> rd_pos r \<le> rd_pos r' \<and> rd_data r' = rd_data r"
  using read_u32_loop_mono [of r 0 0] by (simp add: read_u32_leb128_def)

function parse_sections :: "Sections \<Rightarrow> (Reader, Sections) act" where
  "parse_sections sc r =
     (if rd_remaining r = 0 then (Ok sc, r)
      else case read_byte r of
        (Err e, r) \<Rightarrow> (Err e, r)
      | (Ok section_id, r) \<Rightarrow>
          (case read_u32_leb128 r of
             (Err e, r) \<Rightarrow> (Err e, r)
           | (Ok section_size, r) \<Rightarrow>
               (let section_end = rd_pos r + unat section_size
                in case parse_section section_id sc r of
                     (Err e, r) \<Rightarrow> (Err e, r)
                   | (Ok sc, _) \<Rightarrow> parse_sections sc (r\<lparr>rd_pos := section_end\<rparr>))))"
  by pat_completeness auto
termination
proof (relation "measure (\<lambda>(_, r). length (rd_data r) - rd_pos r)", goal_cases)
  case 1
  then show ?case by simp
next
  case 2
  then show ?case by (auto dest!: read_byte_advances [OF sym] read_u32_advances [OF sym])
qed

definition parse_module :: "bytes \<Rightarrow> (InterpError, WasmModule) result" where
  "parse_module bytecode =
     fst (andThen (read_bytes 4) (\<lambda>magic.
          if magic \<noteq> [0x00, 0x61, 0x73, 0x6D] then fail (IE_InvalidBytecode ''bad WASM magic'')
          else andThen (read_bytes 4) (\<lambda>version.
          if version \<noteq> [0x01, 0x00, 0x00, 0x00] then fail (IE_InvalidBytecode ''unsupported WASM version'')
          else andThen (parse_sections \<lparr> sc_types = [], sc_imports = [], sc_func_type_indices = [], sc_globals = [], sc_exports = [],
                 sc_code_bodies = [], sc_memory_min_pages = 0, sc_data_segments = [] \<rparr>) (\<lambda>sc.
          ret \<lparr> wm_types = sc_types sc, wm_imports = sc_imports sc,
                wm_functions = map (\<lambda>(t, (locals, code)). \<lparr> wf_type_idx = t, wf_locals = locals, wf_code = code \<rparr>)
                  (zip (sc_func_type_indices sc) (sc_code_bodies sc)),
                wm_globals = sc_globals sc, wm_exports = sc_exports sc, wm_import_func_count = as_u32 (length (sc_imports sc)),
                wm_memory_min_pages = sc_memory_min_pages sc, wm_data_segments = sc_data_segments sc \<rparr>)))
          (Reader_new bytecode))"

end
