(* ===== verification/Wasm_Interp.thy ===== *)
theory Wasm_Interp
  imports Wasm_Module "HOL-Library.Signed_Division"
begin

unbundle bit_operations_syntax

text \<open>
  The execution engine of the WASM interpreter (gratia-vm/src/interpreter.rs): the instructions in tables by
  opcode, the structured control flow over the byte stream, host calls and function calls. Integers are
  words of their width. Floating-point values are bit patterns; the arithmetic on them is the processor's
  and is an argument. The recursion is bounded by fuel, whose exhaustion is an error of its own.
\<close>

section \<open>The machine\<close>

record Fpu =
  fp_eq32 :: "32 word \<Rightarrow> 32 word \<Rightarrow> bool"
  fp_lt32 :: "32 word \<Rightarrow> 32 word \<Rightarrow> bool"
  fp_le32 :: "32 word \<Rightarrow> 32 word \<Rightarrow> bool"
  fp_eq64 :: "64 word \<Rightarrow> 64 word \<Rightarrow> bool"
  fp_lt64 :: "64 word \<Rightarrow> 64 word \<Rightarrow> bool"
  fp_le64 :: "64 word \<Rightarrow> 64 word \<Rightarrow> bool"
  fp_neg32 :: "32 word \<Rightarrow> 32 word"
  fp_add32 :: "32 word \<Rightarrow> 32 word \<Rightarrow> 32 word"
  fp_sub32 :: "32 word \<Rightarrow> 32 word \<Rightarrow> 32 word"
  fp_mul32 :: "32 word \<Rightarrow> 32 word \<Rightarrow> 32 word"
  fp_div32 :: "32 word \<Rightarrow> 32 word \<Rightarrow> 32 word"
  fp_neg64 :: "64 word \<Rightarrow> 64 word"
  fp_add64 :: "64 word \<Rightarrow> 64 word \<Rightarrow> 64 word"
  fp_sub64 :: "64 word \<Rightarrow> 64 word \<Rightarrow> 64 word"
  fp_mul64 :: "64 word \<Rightarrow> 64 word \<Rightarrow> 64 word"
  fp_div64 :: "64 word \<Rightarrow> 64 word \<Rightarrow> 64 word"
  fp_f32_as_i32 :: "32 word \<Rightarrow> 32 word"
  fp_f32_as_u32 :: "32 word \<Rightarrow> 32 word"
  fp_f64_as_i32 :: "64 word \<Rightarrow> 32 word"
  fp_f64_as_u32 :: "64 word \<Rightarrow> 32 word"
  fp_f32_as_i64 :: "32 word \<Rightarrow> 64 word"
  fp_f64_as_i64 :: "64 word \<Rightarrow> 64 word"
  fp_i32_as_f32 :: "32 word \<Rightarrow> 32 word"
  fp_u32_as_f32 :: "32 word \<Rightarrow> 32 word"
  fp_i64_as_f32 :: "64 word \<Rightarrow> 32 word"
  fp_f64_as_f32 :: "64 word \<Rightarrow> 32 word"
  fp_i32_as_f64 :: "32 word \<Rightarrow> 64 word"
  fp_u32_as_f64 :: "32 word \<Rightarrow> 64 word"
  fp_i64_as_f64 :: "64 word \<Rightarrow> 64 word"
  fp_f32_as_f64 :: "32 word \<Rightarrow> 64 word"

text \<open>The state of a running block: the frame (reader, operand stack with its top first, locals) and what
  all frames share.\<close>
record Vm =
  vm_reader :: Reader
  vm_stack :: "Value list"
  vm_locals :: "Value list"
  vm_globals :: "Value list"
  vm_memory :: bytes
  vm_gas :: GasMeter
  vm_host :: HostEnvironment

definition nth_get :: "'a list \<Rightarrow> nat \<Rightarrow> 'a option" where
  "nth_get xs i = (if i < length xs then Some (xs ! i) else None)"

definition rd :: "(Reader, 'a) act \<Rightarrow> (Vm, 'a) act" where
  "rd m s = (case m (vm_reader s) of (r, reader) \<Rightarrow> (r, s\<lparr>vm_reader := reader\<rparr>))"

definition pay :: "(GasMeter \<Rightarrow> (GasError, unit) result \<times> GasMeter) \<Rightarrow> (Vm, unit) act" where
  "pay m s = (case m (vm_gas s) of (Err e, g) \<Rightarrow> (Err (IE_Gas e), s\<lparr>vm_gas := g\<rparr>) | (Ok _, g) \<Rightarrow> (Ok (), s\<lparr>vm_gas := g\<rparr>))"

definition push :: "Value \<Rightarrow> (Vm, unit) act" where
  "push v s = (Ok (), s\<lparr>vm_stack := v # vm_stack s\<rparr>)"

definition pop :: "(Vm, Value) act" where
  "pop s = (case vm_stack s of [] \<Rightarrow> (Err IE_StackUnderflow, s) | v # vs \<Rightarrow> (Ok v, s\<lparr>vm_stack := vs\<rparr>))"

definition pop_i32 :: "(Vm, 32 word) act" where "pop_i32 = andThen pop (\<lambda>v. lift_result (as_i32 v))"
definition pop_i64 :: "(Vm, 64 word) act" where "pop_i64 = andThen pop (\<lambda>v. lift_result (as_i64_value v))"
definition pop_f32 :: "(Vm, 32 word) act" where "pop_f32 = andThen pop (\<lambda>v. lift_result (as_f32 v))"
definition pop_f64 :: "(Vm, 64 word) act" where "pop_f64 = andThen pop (\<lambda>v. lift_result (as_f64 v))"

definition unary :: "(Vm, 'a) act \<Rightarrow> ('a \<Rightarrow> Value) \<Rightarrow> (Vm, unit) act" where
  "unary arg f = andThen arg (\<lambda>a. push (f a))"

definition binary :: "(Vm, 'a) act \<Rightarrow> ('a \<Rightarrow> 'a \<Rightarrow> Value) \<Rightarrow> (Vm, unit) act" where
  "binary arg f = andThen arg (\<lambda>b. andThen arg (\<lambda>a. push (f a b)))"

definition flag :: "bool \<Rightarrow> Value" where
  "flag b = V_I32 (if b then 1 else 0)"

section \<open>Instructions without control flow\<close>

type_synonym ops = "(u8 \<times> (Vm, unit) act) list"

definition variable_ops :: ops where
  "variable_ops = [
     (0x1A, andThen pop (\<lambda>_. ret ())),
     (0x20, andThen (rd read_u32_leb128) (\<lambda>idx s.
        case nth_get (vm_locals s) (unat idx) of None \<Rightarrow> (Err (IE_UndefinedLocal (unat idx)), s) | Some val \<Rightarrow> push val s)),
     (0x21, andThen (rd read_u32_leb128) (\<lambda>idx. andThen pop (\<lambda>val s.
        if unat idx \<ge> length (vm_locals s) then (Err (IE_UndefinedLocal (unat idx)), s)
        else (Ok (), s\<lparr>vm_locals := (vm_locals s)[unat idx := val]\<rparr>)))),
     (0x22, andThen (rd read_u32_leb128) (\<lambda>idx s.
        case vm_stack s of
          [] \<Rightarrow> (Err IE_StackUnderflow, s)
        | val # _ \<Rightarrow>
            if unat idx \<ge> length (vm_locals s) then (Err (IE_UndefinedLocal (unat idx)), s)
            else (Ok (), s\<lparr>vm_locals := (vm_locals s)[unat idx := val]\<rparr>))),
     (0x23, andThen (rd read_u32_leb128) (\<lambda>idx s.
        case nth_get (vm_globals s) (unat idx) of None \<Rightarrow> (Err (IE_UndefinedGlobal (unat idx)), s) | Some val \<Rightarrow> push val s)),
     (0x24, andThen (rd read_u32_leb128) (\<lambda>idx. andThen pop (\<lambda>val s.
        if unat idx \<ge> length (vm_globals s) then (Err (IE_UndefinedGlobal (unat idx)), s)
        else (Ok (), s\<lparr>vm_globals := (vm_globals s)[unat idx := val]\<rparr>))))]"

definition const_ops :: ops where
  "const_ops = [
     (0x41, andThen (rd read_i32_leb128) (\<lambda>v. push (V_I32 v))),
     (0x42, andThen (rd read_i64_leb128) (\<lambda>v. push (V_I64 v))),
     (0x43, andThen (rd read_f32) (\<lambda>v. push (V_F32 v))),
     (0x44, andThen (rd read_f64) (\<lambda>v. push (V_F64 v)))]"

definition int_compare_ops :: ops where
  "int_compare_ops = [
     (0x45, unary pop_i32 (\<lambda>a. flag (a = 0))),
     (0x46, binary pop_i32 (\<lambda>a b. flag (a = b))),
     (0x47, binary pop_i32 (\<lambda>a b. flag (a \<noteq> b))),
     (0x48, binary pop_i32 (\<lambda>a b. flag (sint a < sint b))),
     (0x4A, binary pop_i32 (\<lambda>a b. flag (sint a > sint b))),
     (0x4C, binary pop_i32 (\<lambda>a b. flag (sint a \<le> sint b))),
     (0x4E, binary pop_i32 (\<lambda>a b. flag (sint a \<ge> sint b))),
     (0x51, binary pop_i64 (\<lambda>a b. flag (a = b))),
     (0x52, binary pop_i64 (\<lambda>a b. flag (a \<noteq> b))),
     (0x53, binary pop_i64 (\<lambda>a b. flag (sint a < sint b))),
     (0x55, binary pop_i64 (\<lambda>a b. flag (sint a > sint b))),
     (0x57, binary pop_i64 (\<lambda>a b. flag (sint a \<le> sint b))),
     (0x59, binary pop_i64 (\<lambda>a b. flag (sint a \<ge> sint b)))]"

definition float_compare_ops :: "Fpu \<Rightarrow> ops" where
  "float_compare_ops fp = [
     (0x5B, binary pop_f32 (\<lambda>a b. flag (fp_eq32 fp a b))),
     (0x5C, binary pop_f32 (\<lambda>a b. flag (\<not> fp_eq32 fp a b))),
     (0x5D, binary pop_f32 (\<lambda>a b. flag (fp_lt32 fp a b))),
     (0x5E, binary pop_f32 (\<lambda>a b. flag (fp_lt32 fp b a))),
     (0x5F, binary pop_f32 (\<lambda>a b. flag (fp_le32 fp a b))),
     (0x60, binary pop_f32 (\<lambda>a b. flag (fp_le32 fp b a))),
     (0x61, binary pop_f64 (\<lambda>a b. flag (fp_eq64 fp a b))),
     (0x62, binary pop_f64 (\<lambda>a b. flag (\<not> fp_eq64 fp a b))),
     (0x63, binary pop_f64 (\<lambda>a b. flag (fp_lt64 fp a b))),
     (0x64, binary pop_f64 (\<lambda>a b. flag (fp_lt64 fp b a))),
     (0x65, binary pop_f64 (\<lambda>a b. flag (fp_le64 fp a b))),
     (0x66, binary pop_f64 (\<lambda>a b. flag (fp_le64 fp b a)))]"

text \<open>Signed division and remainder; the quotient of the smallest number and -1 wraps.\<close>
definition signed_division :: "(Vm, 'a::len word) act \<Rightarrow> ('a word \<Rightarrow> Value) \<Rightarrow> (int \<Rightarrow> int \<Rightarrow> int) \<Rightarrow> (Vm, unit) act" where
  "signed_division arg val f = andThen arg (\<lambda>b. andThen arg (\<lambda>a.
     if b = 0 then fail IE_DivisionByZero else push (val (word_of_int (f (sint a) (sint b))))))"

definition int_arith_ops :: ops where
  "int_arith_ops = [
     (0x6A, binary pop_i32 (\<lambda>a b. V_I32 (a + b))),
     (0x6B, binary pop_i32 (\<lambda>a b. V_I32 (a - b))),
     (0x6C, binary pop_i32 (\<lambda>a b. V_I32 (a * b))),
     (0x6D, signed_division pop_i32 V_I32 (sdiv)),
     (0x6F, signed_division pop_i32 V_I32 (smod)),
     (0x71, binary pop_i32 (\<lambda>a b. V_I32 (a AND b))),
     (0x72, binary pop_i32 (\<lambda>a b. V_I32 (a OR b))),
     (0x73, binary pop_i32 (\<lambda>a b. V_I32 (a XOR b))),
     (0x7C, binary pop_i64 (\<lambda>a b. V_I64 (a + b))),
     (0x7D, binary pop_i64 (\<lambda>a b. V_I64 (a - b))),
     (0x7E, binary pop_i64 (\<lambda>a b. V_I64 (a * b))),
     (0x7F, signed_division pop_i64 V_I64 (sdiv)),
     (0x81, signed_division pop_i64 V_I64 (smod))]"

definition float_arith_ops :: "Fpu \<Rightarrow> ops" where
  "float_arith_ops fp = [
     (0x8C, unary pop_f32 (\<lambda>a. V_F32 (fp_neg32 fp a))),
     (0x92, binary pop_f32 (\<lambda>a b. V_F32 (fp_add32 fp a b))),
     (0x93, binary pop_f32 (\<lambda>a b. V_F32 (fp_sub32 fp a b))),
     (0x94, binary pop_f32 (\<lambda>a b. V_F32 (fp_mul32 fp a b))),
     (0x95, binary pop_f32 (\<lambda>a b. V_F32 (fp_div32 fp a b))),
     (0x9A, unary pop_f64 (\<lambda>a. V_F64 (fp_neg64 fp a))),
     (0xA0, binary pop_f64 (\<lambda>a b. V_F64 (fp_add64 fp a b))),
     (0xA1, binary pop_f64 (\<lambda>a b. V_F64 (fp_sub64 fp a b))),
     (0xA2, binary pop_f64 (\<lambda>a b. V_F64 (fp_mul64 fp a b))),
     (0xA3, binary pop_f64 (\<lambda>a b. V_F64 (fp_div64 fp a b)))]"

definition address :: "32 word \<Rightarrow> 32 word \<Rightarrow> (Vm, usize) act" where
  "address base offset = (case checked_add_u64 (unat base) (unat offset) of
     None \<Rightarrow> fail (IE_HostError ''memory address overflow'') | Some addr \<Rightarrow> ret addr)"

definition load :: "usize \<Rightarrow> (bytes \<Rightarrow> Value) \<Rightarrow> (Vm, unit) act" where
  "load n val =
     andThen (rd read_u32_leb128) (\<lambda>_. andThen (rd read_u32_leb128) (\<lambda>offset.
     andThen pop_i32 (\<lambda>base. andThen (address base offset) (\<lambda>addr s.
       if addr + n > length (vm_memory s) then (Err (IE_HostError (''memory access out of bounds: '' @ show_nat addr)), s)
       else push (val (take n (drop addr (vm_memory s)))) s))))"

definition load_ops :: ops where
  "load_ops = [
     (0x28, load 4 (\<lambda>bs. V_I32 (word_of_nat (of_le_bytes bs)))),
     (0x29, load 8 (\<lambda>bs. V_I64 (word_of_nat (of_le_bytes bs)))),
     (0x2A, load 4 (\<lambda>bs. V_F32 (word_of_nat (of_le_bytes bs)))),
     (0x2B, load 8 (\<lambda>bs. V_F64 (word_of_nat (of_le_bytes bs)))),
     (0x2C, load 1 (\<lambda>bs. V_I32 (signed_take_bit 7 (word_of_nat (of_le_bytes bs))))),
     (0x2D, load 1 (\<lambda>bs. V_I32 (word_of_nat (of_le_bytes bs))))]"

definition write_memory :: "usize \<Rightarrow> bytes \<Rightarrow> bytes \<Rightarrow> bytes" where
  "write_memory addr data memory = take addr memory @ data @ drop (addr + length data) memory"

definition store :: "(Vm, 'a) act \<Rightarrow> ('a \<Rightarrow> bytes) \<Rightarrow> (Vm, unit) act" where
  "store take_val bytes_of =
     andThen (rd read_u32_leb128) (\<lambda>_. andThen (rd read_u32_leb128) (\<lambda>offset.
     andThen take_val (\<lambda>val. andThen pop_i32 (\<lambda>base. andThen (address base offset) (\<lambda>addr s.
       if addr + length (bytes_of val) > length (vm_memory s)
       then (Err (IE_HostError (''memory access out of bounds: '' @ show_nat addr)), s)
       else (Ok (), s\<lparr>vm_memory := write_memory addr (bytes_of val) (vm_memory s)\<rparr>))))))"

definition store_ops :: ops where
  "store_ops = [
     (0x36, store pop_i32 (\<lambda>v. le_bytes 4 (unat v))),
     (0x37, store pop_i64 (\<lambda>v. le_bytes 8 (unat v))),
     (0x38, store pop_f32 (\<lambda>v. le_bytes 4 (unat v))),
     (0x39, store pop_f64 (\<lambda>v. le_bytes 8 (unat v))),
     (0x3A, store pop_i32 (\<lambda>v. [unat v mod 256]))]"

definition memory_grow :: "32 word \<Rightarrow> (Vm, unit) act" where
  "memory_grow delta_raw s =
     (let current_pages = as_u32 (length (vm_memory s) div 65536)
      in if sint delta_raw < 0 then push (V_I32 (- 1)) s
         else let delta = unat delta_raw;
                  new_pages = (if current_pages + delta \<le> U32_MAX then current_pages + delta else U32_MAX)
              in if new_pages > 4096 then push (V_I32 (- 1)) s
                 else push (V_I32 (word_of_nat current_pages))
                   (s\<lparr>vm_memory := take (new_pages * 65536) (vm_memory s @ replicate (new_pages * 65536 - length (vm_memory s)) 0)\<rparr>))"

definition memory_ops :: ops where
  "memory_ops = [
     (0x3F, andThen (rd read_byte) (\<lambda>_ s. push (V_I32 (word_of_nat (length (vm_memory s) div 65536))) s)),
     (0x40, andThen (rd read_byte) (\<lambda>_. andThen pop_i32 memory_grow))]"

definition convert_ops :: "Fpu \<Rightarrow> ops" where
  "convert_ops fp = [
     (0xA7, unary pop_i64 (\<lambda>v. V_I32 (ucast v))),
     (0xA8, unary pop_f32 (\<lambda>v. V_I32 (fp_f32_as_i32 fp v))),
     (0xA9, unary pop_f32 (\<lambda>v. V_I32 (fp_f32_as_u32 fp v))),
     (0xAA, unary pop_f64 (\<lambda>v. V_I32 (fp_f64_as_i32 fp v))),
     (0xAB, unary pop_f64 (\<lambda>v. V_I32 (fp_f64_as_u32 fp v))),
     (0xAC, unary pop_i32 (\<lambda>v. V_I64 (scast v))),
     (0xAD, unary pop_i32 (\<lambda>v. V_I64 (ucast v))),
     (0xAE, unary pop_f32 (\<lambda>v. V_I64 (fp_f32_as_i64 fp v))),
     (0xB0, unary pop_f64 (\<lambda>v. V_I64 (fp_f64_as_i64 fp v))),
     (0xB2, unary pop_i32 (\<lambda>v. V_F32 (fp_i32_as_f32 fp v))),
     (0xB3, unary pop_i32 (\<lambda>v. V_F32 (fp_u32_as_f32 fp v))),
     (0xB4, unary pop_i64 (\<lambda>v. V_F32 (fp_i64_as_f32 fp v))),
     (0xB6, unary pop_f64 (\<lambda>v. V_F32 (fp_f64_as_f32 fp v))),
     (0xB7, unary pop_i32 (\<lambda>v. V_F64 (fp_i32_as_f64 fp v))),
     (0xB8, unary pop_i32 (\<lambda>v. V_F64 (fp_u32_as_f64 fp v))),
     (0xB9, unary pop_i64 (\<lambda>v. V_F64 (fp_i64_as_f64 fp v))),
     (0xBB, unary pop_f32 (\<lambda>v. V_F64 (fp_f32_as_f64 fp v))),
     (0xBC, unary pop_f32 (\<lambda>v. V_I32 v)),
     (0xBD, unary pop_f64 (\<lambda>v. V_I64 v)),
     (0xBE, unary pop_i32 (\<lambda>v. V_F32 v)),
     (0xBF, unary pop_i64 (\<lambda>v. V_F64 v))]"

definition simple_ops :: "Fpu \<Rightarrow> ops" where
  "simple_ops fp = variable_ops @ const_ops @ int_compare_ops @ float_compare_ops fp @ int_arith_ops @ float_arith_ops fp
     @ load_ops @ store_ops @ memory_ops @ convert_ops fp"

section \<open>Skipping over blocks\<close>

text \<open>The immediate operands that both scanners skip.\<close>
definition skip_operands :: "u8 \<Rightarrow> (Reader, unit) act" where
  "skip_operands opcode =
     (if opcode \<in> {0x0C, 0x0D, 0x10, 0x20, 0x21, 0x22, 0x23, 0x24} then andThen read_u32_leb128 (\<lambda>_. ret ())
      else if 0x28 \<le> opcode \<and> opcode \<le> 0x2D \<or> 0x36 \<le> opcode \<and> opcode \<le> 0x3A
      then andThen read_u32_leb128 (\<lambda>_. andThen read_u32_leb128 (\<lambda>_. ret ()))
      else if opcode \<in> {0x3F, 0x40} then andThen read_byte (\<lambda>_. ret ())
      else if opcode = 0x41 then andThen read_i32_leb128 (\<lambda>_. ret ())
      else if opcode = 0x42 then andThen read_i64_leb128 (\<lambda>_. ret ())
      else if opcode = 0x43 then andThen (read_bytes 4) (\<lambda>_. ret ())
      else if opcode = 0x44 then andThen (read_bytes 8) (\<lambda>_. ret ())
      else ret ())"

text \<open>A reader action only moves forward over the same data.\<close>
definition forward :: "(Reader, 'a) act \<Rightarrow> bool" where
  "forward m \<longleftrightarrow> (\<forall>r. rd_pos r \<le> rd_pos (snd (m r)) \<and> rd_data (snd (m r)) = rd_data r)"

named_theorems forward_intro \<open>reader actions that move forward\<close>

lemma forward_ret [forward_intro]: "forward (ret x)" by (simp add: forward_def)
lemma forward_fail [forward_intro]: "forward (fail e)" by (simp add: forward_def)
lemma forward_lift [forward_intro]: "forward (lift_result r)" by (simp add: forward_def)
lemma forward_read_byte [forward_intro]: "forward read_byte" by (simp add: forward_def read_byte_def)
lemma forward_read_bytes [forward_intro]: "forward (read_bytes n)" by (simp add: forward_def read_bytes_def)
lemma forward_read_u32 [forward_intro]: "forward read_u32_leb128"
  using read_u32_loop_mono by (simp add: forward_def read_u32_leb128_def)

lemma forward_andThen [forward_intro]: "forward m \<Longrightarrow> (\<And>x. forward (f x)) \<Longrightarrow> forward (andThen m f)"
  unfolding forward_def andThen_def by (auto split: prod.splits sum.splits) (metis order_trans snd_conv)+

lemma read_signed_loop_mono:
  "rd_pos r \<le> rd_pos (snd (read_signed_loop bound acc shift r)) \<and> rd_data (snd (read_signed_loop bound acc shift r)) = rd_data r"
proof (induction bound acc shift r rule: read_signed_loop.induct)
  case (1 bound acc shift r)
  show ?case
    using 1 read_byte_mono [of r]
    by (subst (1 2) read_signed_loop.simps)
      (auto simp: Let_def simp del: read_signed_loop.simps split: prod.splits sum.splits, (fastforce dest: read_byte_advances)+)
qed

declare read_signed_loop.simps [simp del] read_u32_loop.simps [simp del]

lemma forward_read_signed [forward_intro]: "forward read_i32_leb128" "forward read_i64_leb128"
  by (simp_all add: forward_def read_i32_leb128_def read_i64_leb128_def read_signed_loop_mono)

lemma forward_floats [forward_intro]: "forward read_f32" "forward read_f64"
  by (auto simp: read_f32_def read_f64_def intro!: forward_intro)

lemma forward_skip_operands [forward_intro]: "forward (skip_operands opcode)"
  by (auto simp: skip_operands_def intro!: forward_intro)

lemma skip_operands_advances: "skip_operands opcode r = (Ok u, r') \<Longrightarrow> rd_pos r \<le> rd_pos r' \<and> rd_data r' = rd_data r"
  using forward_skip_operands [of opcode] by (metis forward_def snd_conv)

function skip_loop :: "bool \<Rightarrow> string \<Rightarrow> nat \<Rightarrow> (Reader, unit) act" where
  "skip_loop at_else msg depth r =
     (if rd_remaining r = 0 then (Err (IE_InvalidBytecode msg), r)
      else case read_byte r of
        (Err e, r) \<Rightarrow> (Err e, r)
      | (Ok opcode, r) \<Rightarrow>
          if opcode \<in> {0x02, 0x03, 0x04}
          then (case read_byte r of (Err e, r) \<Rightarrow> (Err e, r) | (Ok _, r) \<Rightarrow> skip_loop at_else msg (depth + 1) r)
          else if at_else \<and> opcode = 0x05 \<and> depth = 0 then (Ok (), r)
          else if opcode = 0x0B \<and> depth = 0 then (Ok (), r)
          else if opcode = 0x0B then skip_loop at_else msg (depth - 1) r
          else (case skip_operands opcode r of (Err e, r) \<Rightarrow> (Err e, r) | (Ok _, r) \<Rightarrow> skip_loop at_else msg depth r))"
  by pat_completeness auto
termination
proof (relation "measure (\<lambda>(_, _, _, r). length (rd_data r) - rd_pos r)", goal_cases)
  case 1
  then show ?case by simp
next
  case 2
  then show ?case by (auto dest!: read_byte_advances [OF sym])
next
  case 3
  then show ?case by (auto dest!: read_byte_advances [OF sym])
next
  case (4 at_else msg depth r x opcode r1 x' u r2)
  then show ?case by (auto dest!: read_byte_advances [OF sym] skip_operands_advances [OF sym])
qed

declare skip_loop.simps [simp del]

definition skip_to_else_or_end :: "(Reader, unit) act" where
  "skip_to_else_or_end = skip_loop True ''unexpected end of block while skipping'' 0"

definition skip_to_end :: "(Reader, unit) act" where
  "skip_to_end = skip_loop False ''unexpected end of block while skipping to end'' 0"

section \<open>Host calls\<close>

definition arg_i32 :: "Value list \<Rightarrow> nat \<Rightarrow> 32 word" where
  "arg_i32 args i = (case nth_get args i of Some (V_I32 v) \<Rightarrow> v | _ \<Rightarrow> 0)"

definition read_string_from_memory :: "bytes \<Rightarrow> u32 \<Rightarrow> u32 \<Rightarrow> (InterpError, string) result" where
  "read_string_from_memory memory ptr len =
     (if ptr + len > length memory
      then Err (IE_HostError (''string read out of bounds: ptr='' @ show_nat ptr @ '', len='' @ show_nat len @ '', mem_size='' @ show_nat (length memory)))
      else case from_utf8 (take len (drop ptr memory)) of
        Some str \<Rightarrow> Ok str | None \<Rightarrow> Err (IE_HostError ''invalid UTF-8 in string from memory''))"

text \<open>At most 32 bytes of the key, padded with zeros.\<close>
definition storage_key :: "bytes \<Rightarrow> usize \<Rightarrow> usize \<Rightarrow> bytes" where
  "storage_key memory key_start slice_len = take slice_len (drop key_start memory) @ replicate (32 - slice_len) 0"

definition host_storage_read :: "Value list \<Rightarrow> (Vm, Value option) act" where
  "host_storage_read args s =
     (let memory = vm_memory s;
          key_start = unat (arg_i32 args 0);
          slice_len = min (unat (arg_i32 args 1)) 32
      in if key_start + slice_len > length memory then (Ok (Some (V_I32 0)), s)
         else case storage_read (vm_host s) (storage_key memory key_start slice_len) of
           Some val \<Rightarrow>
             if 1024 + 4 + length val \<le> length memory
             then (Ok (Some (V_I32 1024)), s\<lparr>vm_memory := write_memory 1024 (le_bytes 4 (as_u32 (length val)) @ val) memory\<rparr>)
             else (Ok (Some (V_I32 0)), s)
         | None \<Rightarrow> (Ok (Some (V_I32 0)), s))"

definition host_storage_write :: "Value list \<Rightarrow> (Vm, Value option) act" where
  "host_storage_write args s =
     (let memory = vm_memory s;
          key_start = unat (arg_i32 args 0);
          slice_len = min (unat (arg_i32 args 1)) 32;
          val_start = unat (arg_i32 args 2);
          val_end = val_start + unat (arg_i32 args 3)
      in if key_start + slice_len > length memory then (Err (IE_HostError ''storage_write: key out of bounds''), s)
         else if val_end > length memory then (Err (IE_HostError ''storage_write: value out of bounds''), s)
         else (Ok None, s\<lparr>vm_host := storage_write (vm_host s) (storage_key memory key_start slice_len)
                 (take (unat (arg_i32 args 3)) (drop val_start memory))\<rparr>))"

definition host_emit_event :: "Value list \<Rightarrow> (Vm, Value option) act" where
  "host_emit_event args s =
     (let memory = vm_memory s;
          d_start = unat (arg_i32 args 2);
          d_end = d_start + unat (arg_i32 args 3)
      in case read_string_from_memory memory (unat (arg_i32 args 0)) (unat (arg_i32 args 1)) of
           Err e \<Rightarrow> (Err e, s)
         | Ok topic \<Rightarrow>
             if d_end > length memory then (Err (IE_HostError ''emit_event: data out of bounds''), s)
             else (Ok None, s\<lparr>vm_host := emit_event (vm_host s) (Address (replicate 32 0)) topic
                     (take (unat (arg_i32 args 3)) (drop d_start memory))\<rparr>))"

definition host_sensor_data :: "Value list \<Rightarrow> (Vm, Value option) act" where
  "host_sensor_data args s =
     (let reading = (\<lambda>sensor. case get_sensor_data (vm_host s) sensor of Some r \<Rightarrow> sr_value r | None \<Rightarrow> 0);
          sensor_idx = sint (arg_i32 args 0)
      in (Ok (Some (V_F64 (
            if sensor_idx = 0 then reading Barometer else if sensor_idx = 1 then reading AmbientLight
            else if sensor_idx = 2 then reading Magnetometer else if sensor_idx = 3 then reading Accelerometer
            else if sensor_idx = 4 then reading Gyroscope else 0))), s))"

definition host_function :: "string \<Rightarrow> Value list \<Rightarrow> (Vm, Value option) act" where
  "host_function name args s =
     (let host = vm_host s
      in if name = ''get_location_lat'' then (Ok (Some (V_F32 (case he_location host of Some (lat, _) \<Rightarrow> lat | None \<Rightarrow> 0))), s)
         else if name = ''get_location_lon'' then (Ok (Some (V_F32 (case he_location host of Some (_, lon) \<Rightarrow> lon | None \<Rightarrow> 0))), s)
         else if name = ''get_nearby_peers'' then (Ok (Some (V_I32 (word_of_nat (he_nearby_peer_count host)))), s)
         else if name = ''get_presence_score'' then (Ok (Some (V_I32 (word_of_nat (he_presence_score host)))), s)
         else if name = ''get_sensor_data'' then host_sensor_data args s
         else if name = ''get_block_height'' then (Ok (Some (V_I64 (word_of_nat (he_block_height host)))), s)
         else if name = ''get_block_timestamp'' then (Ok (Some (V_I64 (word_of_nat (he_block_timestamp host)))), s)
         else if name = ''get_caller_address''
         then (Ok (Some (V_I32 0)), if length (vm_memory s) \<ge> 32
                 then s\<lparr>vm_memory := write_memory 0 (address_bytes (he_caller_address host)) (vm_memory s)\<rparr> else s)
         else if name = ''get_caller_balance'' then (Ok (Some (V_I64 (word_of_nat (he_caller_balance host)))), s)
         else if name = ''storage_read'' then host_storage_read args s
         else if name = ''storage_write'' then host_storage_write args s
         else if name = ''emit_event'' then host_emit_event args s
         else (Ok None, s))"

definition dispatch_host_call :: "WasmModule \<Rightarrow> ContractPermissions \<Rightarrow> u32 \<Rightarrow> Value list \<Rightarrow> (Vm, Value option) act" where
  "dispatch_host_call wmod permissions func_idx args =
     (case nth_get (wm_imports wmod) func_idx of
        None \<Rightarrow> fail IE_Panic
      | Some imp \<Rightarrow>
          andThen (pay (\<lambda>g. charge_host_call g (im_name imp))) (\<lambda>_.
          andThen (lift_result (map_err (\<lambda>e. IE_HostError (SandboxError_to_string e)) (check_permission permissions (im_name imp)))) (\<lambda>_.
          host_function (im_name imp) args)))"

section \<open>Functions and blocks\<close>

definition MAX_CALL_DEPTH :: u32 where "MAX_CALL_DEPTH = 32"

definition default_result :: "FuncType \<Rightarrow> Value list \<Rightarrow> Value option" where
  "default_result ft stack = (case ft_results ft of
     [] \<Rightarrow> None | t # _ \<Rightarrow> Some (case stack of v # _ \<Rightarrow> v | [] \<Rightarrow> default_for_valtype t))"

definition initial_locals :: "FuncType \<Rightarrow> WasmFunction \<Rightarrow> Value list \<Rightarrow> Value list" where
  "initial_locals ft func args =
     map (\<lambda>(i, t). if i < length args then args ! i else default_for_valtype t) (enumerate 0 (ft_params ft))
     @ map default_for_valtype (wf_locals func)"

definition execute_function ::
  "WasmModule \<Rightarrow> ContractPermissions \<Rightarrow> (u32 \<Rightarrow> (Vm, unit) act) \<Rightarrow> u32 \<Rightarrow> u32 \<Rightarrow> Value list \<Rightarrow> (Vm, Value option) act" where
  "execute_function wmod permissions body call_depth func_idx args s =
     (if call_depth > MAX_CALL_DEPTH then (Err (IE_HostError ''call depth exceeded''), s)
      else if func_idx < wm_import_func_count wmod then dispatch_host_call wmod permissions func_idx args s
      else case nth_get (wm_functions wmod) (func_idx - wm_import_func_count wmod) of
        None \<Rightarrow> (Err (IE_UndefinedFunction func_idx), s)
      | Some func \<Rightarrow>
          (case nth_get (wm_types wmod) (wf_type_idx func) of
             None \<Rightarrow> (Err (IE_UndefinedFunction func_idx), s)
           | Some func_type \<Rightarrow>
               (case body call_depth (s\<lparr>vm_reader := Reader_new (wf_code func), vm_stack := [],
                       vm_locals := initial_locals func_type func args\<rparr>) of
                  (r, t) \<Rightarrow>
                    (let back = t\<lparr>vm_reader := vm_reader s, vm_stack := vm_stack s, vm_locals := vm_locals s\<rparr>
                     in case r of
                          Ok _ \<Rightarrow> (Ok (default_result func_type (vm_stack t)), back)
                        | Err IE_FunctionReturn \<Rightarrow> (Ok (default_result func_type (vm_stack t)), back)
                        | Err (IE_Branch _) \<Rightarrow> (Ok (default_result func_type (vm_stack t)), back)
                        | Err e \<Rightarrow> (Err e, back)))))"

definition call_type :: "WasmModule \<Rightarrow> u32 \<Rightarrow> (InterpError, FuncType) result" where
  "call_type wmod func_idx =
     (case (if func_idx < wm_import_func_count wmod
            then (case nth_get (wm_imports wmod) func_idx of Some imp \<Rightarrow> Ok (im_type_idx imp) | None \<Rightarrow> Err IE_Panic)
            else case nth_get (wm_functions wmod) (func_idx - wm_import_func_count wmod) of
              Some func \<Rightarrow> Ok (wf_type_idx func) | None \<Rightarrow> Err (IE_UndefinedFunction func_idx)) of
        Err e \<Rightarrow> Err e
      | Ok type_idx \<Rightarrow>
          (case nth_get (wm_types wmod) type_idx of Some ft \<Rightarrow> Ok ft | None \<Rightarrow> Err (IE_UndefinedFunction func_idx)))"

definition call_instr :: "WasmModule \<Rightarrow> (u32 \<Rightarrow> Value list \<Rightarrow> (Vm, Value option) act) \<Rightarrow> (Vm, unit) act" where
  "call_instr wmod call =
     andThen (rd read_u32_leb128) (\<lambda>func_idx.
     andThen (lift_result (call_type wmod (unat func_idx))) (\<lambda>func_type s.
       let param_count = length (ft_params func_type)
       in if length (vm_stack s) < param_count then (Err IE_StackUnderflow, s)
          else andThen (call (unat func_idx) (rev (take param_count (vm_stack s)))) (\<lambda>result.
                 case result of Some val \<Rightarrow> push val | None \<Rightarrow> ret ())
               (s\<lparr>vm_stack := drop param_count (vm_stack s)\<rparr>)))"

text \<open>What a block instruction does with the outcome of its body.\<close>
definition leave_block :: "(InterpError, unit) result \<Rightarrow> (Vm, unit) act" where
  "leave_block r = (case r of
     Ok _ \<Rightarrow> ret ()
   | Err (IE_Branch 0) \<Rightarrow> rd skip_to_end
   | Err (IE_Branch (Suc n)) \<Rightarrow> andThen (rd skip_to_end) (\<lambda>_. fail (IE_Branch n))
   | Err e \<Rightarrow> fail e)"

definition enter_block :: "(Vm, unit) act \<Rightarrow> (Vm, unit) act" where
  "enter_block body s = (case body s of (r, s) \<Rightarrow> leave_block r s)"

primrec run_loop :: "nat \<Rightarrow> usize \<Rightarrow> (Vm, unit) act \<Rightarrow> (Vm, unit) act" where
  "run_loop 0 loop_start body = fail IE_OutOfFuel"
| "run_loop (Suc n) loop_start body = (\<lambda>s.
     case body (s\<lparr>vm_reader := (vm_reader s)\<lparr>rd_pos := loop_start\<rparr>\<rparr>) of
       (Err (IE_Branch 0), s) \<Rightarrow> run_loop n loop_start body s
     | (r, s) \<Rightarrow> leave_block r s)"

definition if_instr :: "(Vm, unit) act \<Rightarrow> (Vm, unit) act" where
  "if_instr body =
     andThen (rd read_byte) (\<lambda>_. andThen pop_i32 (\<lambda>condition.
       if condition \<noteq> 0 then enter_block body
       else andThen (rd skip_to_else_or_end) (\<lambda>_ s.
              if rd_pos (vm_reader s) > 0 \<and> rd_data (vm_reader s) ! (rd_pos (vm_reader s) - 1) = 0x05
              then enter_block body s else (Ok (), s))))"

definition charge_instr :: "u8 \<Rightarrow> (Vm, unit) act" where
  "charge_instr opcode =
     (if opcode \<in> {0x6D, 0x6F, 0x7F, 0x81, 0x95, 0xA3} then pay charge_division
      else if opcode \<in> {0x02, 0x03, 0x04, 0x0C, 0x0D} then pay charge_branch
      else if opcode \<in> {0x0B, 0x01, 0x1A} then ret ()
      else if 0x28 \<le> opcode \<and> opcode \<le> 0x2D \<or> 0x36 \<le> opcode \<and> opcode \<le> 0x3A then pay charge_arithmetic
      else if opcode \<in> {0x3F, 0x40} then pay charge_branch
      else pay charge_arithmetic)"

text \<open>One instruction; the result says whether the block goes on.\<close>
definition execute_instr ::
  "Fpu \<Rightarrow> WasmModule \<Rightarrow> nat \<Rightarrow> (Vm, unit) act \<Rightarrow> (u32 \<Rightarrow> Value list \<Rightarrow> (Vm, Value option) act) \<Rightarrow> u8 \<Rightarrow> (Vm, bool) act" where
  "execute_instr fp wmod fuel body call opcode =
     (if opcode = 0x00 then fail (IE_HostError ''unreachable executed'')
      else if opcode = 0x01 then ret True
      else if opcode = 0x02 then andThen (rd read_byte) (\<lambda>_. andThen (enter_block body) (\<lambda>_. ret True))
      else if opcode = 0x03
      then andThen (rd read_byte) (\<lambda>_ s. andThen (run_loop fuel (rd_pos (vm_reader s)) body) (\<lambda>_. ret True) s)
      else if opcode = 0x04 then andThen (if_instr body) (\<lambda>_. ret True)
      else if opcode = 0x05 then andThen (rd skip_to_end) (\<lambda>_. ret False)
      else if opcode = 0x0B then ret False
      else if opcode = 0x0C then andThen (rd read_u32_leb128) (\<lambda>depth. fail (IE_Branch (unat depth)))
      else if opcode = 0x0D
      then andThen (rd read_u32_leb128) (\<lambda>depth. andThen pop_i32 (\<lambda>condition.
             if condition \<noteq> 0 then fail (IE_Branch (unat depth)) else ret True))
      else if opcode = 0x0F then fail IE_FunctionReturn
      else if opcode = 0x10 then andThen (call_instr wmod call) (\<lambda>_. ret True)
      else case map_of (simple_ops fp) opcode of
        Some m \<Rightarrow> andThen m (\<lambda>_. ret True)
      | None \<Rightarrow> fail (IE_InvalidBytecode (''unsupported opcode: 0x'' @ show_hex2 opcode)))"

primrec execute_block :: "nat \<Rightarrow> Fpu \<Rightarrow> WasmModule \<Rightarrow> ContractPermissions \<Rightarrow> u32 \<Rightarrow> (Vm, unit) act" where
  "execute_block 0 fp wmod permissions call_depth = fail IE_OutOfFuel"
| "execute_block (Suc n) fp wmod permissions call_depth = (\<lambda>s.
     if rd_remaining (vm_reader s) = 0 then (Ok (), s)
     else andThen (rd read_byte) (\<lambda>opcode.
          andThen (charge_instr opcode) (\<lambda>_.
          andThen (execute_instr fp wmod n (execute_block n fp wmod permissions call_depth)
                      (execute_function wmod permissions (execute_block n fp wmod permissions) (call_depth + 1)) opcode) (\<lambda>go_on.
          if go_on then execute_block n fp wmod permissions call_depth else ret ()))) s)"

end
