(* ===== verification/Wasm_Safety.thy ===== *)
theory Wasm_Safety
  imports Wasm_Interp
begin

text \<open>
  What every execution of the interpreter keeps: gas is spent and never refunded within the limit, memory
  only grows and only up to 4096 pages, the frame keeps its locals, the facts the host supplies stay as they
  are and events are only appended. A branch has always been paid for, so execution ends: fuel in
  proportion to the gas is enough, and more fuel does not change the result.
\<close>

section \<open>Actions that move the state along a preorder\<close>

definition related :: "('s \<Rightarrow> 's \<Rightarrow> bool) \<Rightarrow> ('s, 'a) act \<Rightarrow> bool" where
  "related R m \<longleftrightarrow> (\<forall>s. R s (snd (m s)))"

locale state_preorder =
  fixes R :: "'s \<Rightarrow> 's \<Rightarrow> bool"
  assumes step_refl: "R s s" and step_trans: "R s t \<Longrightarrow> R t u \<Longrightarrow> R s u"
begin

lemma related_ret: "related R (ret x)" by (simp add: related_def step_refl)
lemma related_fail: "related R (fail e)" by (simp add: related_def step_refl)
lemma related_lift: "related R (lift_result r)" by (simp add: related_def step_refl)

lemma related_andThen: "related R m \<Longrightarrow> (\<And>x. related R (f x)) \<Longrightarrow> related R (andThen m f)"
  unfolding related_def andThen_def by (auto split: prod.splits sum.splits) (metis step_trans snd_conv)+

lemma related_if: "(b \<Longrightarrow> related R m) \<Longrightarrow> (\<not> b \<Longrightarrow> related R m') \<Longrightarrow> related R (if b then m else m')"
  by simp

lemma related_state: "(\<And>s. R s (snd (f s s))) \<Longrightarrow> related R (\<lambda>s. f s s)"
  by (simp add: related_def)

end

section \<open>The step relation of the machine\<close>

definition host_step :: "HostEnvironment \<Rightarrow> HostEnvironment \<Rightarrow> bool" where
  "host_step h h' \<longleftrightarrow> (\<exists>st evs. h' = h\<lparr>he_storage := st, he_events := he_events h @ evs\<rparr>)"

definition gas_step :: "GasMeter \<Rightarrow> GasMeter \<Rightarrow> bool" where
  "gas_step g g' \<longleftrightarrow> gas_limit g' = gas_limit g \<and> gas_costs g' = gas_costs g
     \<and> (gas_ok g \<longrightarrow> gas_ok g' \<and> gas_used g \<le> gas_used g')"

definition PAGE :: nat where "PAGE = 65536"

definition memory_step :: "bytes \<Rightarrow> bytes \<Rightarrow> bool" where
  "memory_step m m' \<longleftrightarrow> (length m mod PAGE = 0 \<and> length m div PAGE \<le> U32_MAX \<longrightarrow>
     length m' mod PAGE = 0 \<and> length m \<le> length m' \<and> (length m' = length m \<or> length m' \<le> 4096 * PAGE))"

definition reader_step :: "Reader \<Rightarrow> Reader \<Rightarrow> bool" where
  "reader_step r r' \<longleftrightarrow> rd_data r' = rd_data r \<and> rd_pos r \<le> rd_pos r'"

definition caller_ok :: "HostEnvironment \<Rightarrow> bool" where
  "caller_ok h \<longleftrightarrow> length (address_bytes (he_caller_address h)) = 32"

definition vm_step :: "Vm \<Rightarrow> Vm \<Rightarrow> bool" where
  "vm_step s t \<longleftrightarrow> reader_step (vm_reader s) (vm_reader t) \<and> length (vm_locals t) = length (vm_locals s)
     \<and> length (vm_globals t) = length (vm_globals s) \<and> (caller_ok (vm_host s) \<longrightarrow> memory_step (vm_memory s) (vm_memory t))
     \<and> gas_step (vm_gas s) (vm_gas t) \<and> host_step (vm_host s) (vm_host t)"

lemma host_step_refl [simp]: "host_step h h"
  unfolding host_step_def by (rule exI [of _ "he_storage h"], rule exI [of _ "[]"]) simp

lemma host_step_trans: "host_step h h' \<Longrightarrow> host_step h' h'' \<Longrightarrow> host_step h h''"
  unfolding host_step_def by (elim exE, simp) (metis append_assoc)

lemma host_step_caller: "host_step h h' \<Longrightarrow> caller_ok h' = caller_ok h"
  by (auto simp: host_step_def caller_ok_def)

lemma gas_step_refl [simp]: "gas_step g g" by (simp add: gas_step_def)

lemma gas_step_trans: "gas_step g g' \<Longrightarrow> gas_step g' g'' \<Longrightarrow> gas_step g g''"
  by (auto simp: gas_step_def)

lemma memory_step_refl [simp]: "memory_step m m" by (simp add: memory_step_def)

lemma memory_step_same: "length m' = length m \<Longrightarrow> memory_step m m'" by (simp add: memory_step_def)

lemma memory_step_trans: "memory_step m m' \<Longrightarrow> memory_step m' m'' \<Longrightarrow> memory_step m m''"
proof -
  assume a: "memory_step m m'" "memory_step m' m''"
  have "length m div PAGE \<le> U32_MAX \<Longrightarrow> length m' = length m \<or> length m' \<le> 4096 * PAGE \<Longrightarrow> length m' div PAGE \<le> U32_MAX"
    by (auto simp: PAGE_def U32_MAX_def)
  then show ?thesis using a unfolding memory_step_def by auto
qed

interpretation vm: state_preorder vm_step
  by unfold_locales
    (auto simp: vm_step_def reader_step_def dest: host_step_caller intro: host_step_trans gas_step_trans memory_step_trans)

named_theorems step_intro \<open>actions along the step relation of the machine\<close>
lemmas [step_intro] = vm.related_ret vm.related_fail vm.related_lift vm.related_andThen vm.related_if

lemma charge_step: "gas_step g (snd (charge g n))"
  by (simp add: gas_step_def charge_keeps charge_ok charge_used)

lemmas charge_defs = charge_division_def charge_branch_def charge_arithmetic_def charge_host_call_def

lemma related_pay [step_intro]: "(\<And>g. gas_step g (snd (m g))) \<Longrightarrow> related vm_step (pay m)"
  by (simp add: related_def pay_def vm_step_def reader_step_def split: prod.splits sum.splits) (metis snd_conv)

lemma related_rd [step_intro]: "forward m \<Longrightarrow> related vm_step (rd m)"
  by (simp add: related_def rd_def vm_step_def reader_step_def forward_def split: prod.splits) (metis snd_conv)

lemma related_push [step_intro]: "related vm_step (push v)"
  by (simp add: related_def push_def vm_step_def reader_step_def)

lemma related_pop [step_intro]: "related vm_step pop"
  by (simp add: related_def pop_def vm_step_def reader_step_def split: list.splits)

lemma related_pops [step_intro]:
  "related vm_step pop_i32" "related vm_step pop_i64" "related vm_step pop_f32" "related vm_step pop_f64"
  by (auto simp: pop_i32_def pop_i64_def pop_f32_def pop_f64_def intro!: step_intro)

lemma related_unary [step_intro]: "related vm_step m \<Longrightarrow> related vm_step (unary m f)"
  by (auto simp: unary_def intro!: step_intro)

lemma related_binary [step_intro]: "related vm_step m \<Longrightarrow> related vm_step (binary m f)"
  by (auto simp: binary_def intro!: step_intro)

lemma related_divide [step_intro]: "related vm_step m \<Longrightarrow> related vm_step (signed_division m v f)"
  by (auto simp: signed_division_def intro!: step_intro)

lemma related_address [step_intro]: "related vm_step (address b off)"
  by (auto simp: address_def intro!: step_intro split: option.splits)

lemma push_step: "vm_step s (snd (push v s))"
  using related_push by (simp add: related_def)

lemma related_guarded:
  "(\<And>s. \<not> b s \<Longrightarrow> vm_step s (snd (m s))) \<Longrightarrow> related vm_step (\<lambda>s. if b s then (Err (e s), s) else m s)"
  by (simp add: related_def vm.step_refl)

lemma length_write_memory: "addr + length data \<le> length memory \<Longrightarrow> length (write_memory addr data memory) = length memory"
  by (simp add: write_memory_def)

lemma related_load [step_intro]: "related vm_step (load n v)"
  by (auto simp: load_def intro!: step_intro related_guarded forward_intro push_step)

lemma related_store [step_intro]: "related vm_step m \<Longrightarrow> related vm_step (store m f)"
  by (auto simp: store_def intro!: step_intro related_guarded forward_intro)
    (simp add: vm_step_def reader_step_def length_write_memory memory_step_same)

lemma memory_grow_length:
  assumes "length m mod PAGE = 0" "length m div PAGE + delta \<le> 4096"
  shows "memory_step m (take ((length m div PAGE + delta) * PAGE) (m @ replicate ((length m div PAGE + delta) * PAGE - length m) 0))"
proof -
  have "length m = length m div PAGE * PAGE" using assms(1) by (metis add.right_neutral div_mult_mod_eq)
  moreover have "(length m div PAGE + delta) * PAGE \<le> 4096 * PAGE" using assms(2) by (rule mult_le_mono1)
  moreover have "length m div PAGE * PAGE \<le> (length m div PAGE + delta) * PAGE" by simp
  ultimately show ?thesis unfolding memory_step_def by (simp del: mult_le_cancel2)
qed

lemma related_memory_grow [step_intro]: "related vm_step (memory_grow d)"
proof -
  have "vm_step s (snd (memory_grow d s))" for s
  proof (cases "length (vm_memory s) mod PAGE = 0 \<and> length (vm_memory s) div PAGE \<le> U32_MAX")
    case True
    then have pages: "as_u32 (length (vm_memory s) div 65536) = length (vm_memory s) div PAGE"
      by (simp add: as_u32_def PAGE_def U32_MAX_def)
    have grown: "length (vm_memory s) div PAGE + unat d \<le> 4096 \<Longrightarrow>
        vm_step s (snd (push v (s\<lparr>vm_memory := take ((length (vm_memory s) div PAGE + unat d) * PAGE)
          (vm_memory s @ replicate ((length (vm_memory s) div PAGE + unat d) * PAGE - length (vm_memory s)) 0)\<rparr>)))" for v
      using memory_grow_length [of "vm_memory s" "unat d"] True by (simp add: vm_step_def reader_step_def push_def)
    show ?thesis
      using grown by (auto simp: memory_grow_def pages Let_def push_step U32_MAX_def PAGE_def)
  next
    case False
    then have "memory_step (vm_memory s) m" for m by (auto simp: memory_step_def)
    then show ?thesis by (simp add: memory_grow_def Let_def push_def vm_step_def reader_step_def)
  qed
  then show ?thesis by (simp add: related_def)
qed

lemma related_local_get: "related vm_step (\<lambda>s. case nth_get (vm_locals s) i of None \<Rightarrow> (Err (e s), s) | Some val \<Rightarrow> push val s)"
  "related vm_step (\<lambda>s. case nth_get (vm_globals s) i of None \<Rightarrow> (Err (e s), s) | Some val \<Rightarrow> push val s)"
  by (simp_all add: related_def vm.step_refl push_step split: option.splits)

lemma related_local_set:
  "related vm_step (\<lambda>s. if i \<ge> length (vm_locals s) then (Err (e s), s) else (Ok (), s\<lparr>vm_locals := (vm_locals s)[i := val]\<rparr>))"
  "related vm_step (\<lambda>s. if i \<ge> length (vm_globals s) then (Err (e s), s) else (Ok (), s\<lparr>vm_globals := (vm_globals s)[i := val]\<rparr>))"
  by (simp_all add: related_def vm_step_def reader_step_def)

lemma related_tee: "related vm_step (\<lambda>s. case vm_stack s of [] \<Rightarrow> (Err (e s), s) | val # _ \<Rightarrow>
    if i \<ge> length (vm_locals s) then (Err (e' s), s) else (Ok (), s\<lparr>vm_locals := (vm_locals s)[i := val]\<rparr>))"
  by (simp add: related_def vm_step_def reader_step_def split: list.splits)

lemma related_size: "related vm_step (\<lambda>s. push (f s) s)"
  by (simp add: related_def push_step)

lemmas table_defs = variable_ops_def const_ops_def int_compare_ops_def float_compare_ops_def int_arith_ops_def
  float_arith_ops_def load_ops_def store_ops_def memory_ops_def convert_ops_def

lemma list_all_Nil: "list_all P []" by simp

lemma related_tables:
  "list_all (\<lambda>(_, m). related vm_step m) variable_ops" "list_all (\<lambda>(_, m). related vm_step m) const_ops"
  "list_all (\<lambda>(_, m). related vm_step m) int_compare_ops" "list_all (\<lambda>(_, m). related vm_step m) (float_compare_ops fp)"
  "list_all (\<lambda>(_, m). related vm_step m) int_arith_ops" "list_all (\<lambda>(_, m). related vm_step m) (float_arith_ops fp)"
  "list_all (\<lambda>(_, m). related vm_step m) load_ops" "list_all (\<lambda>(_, m). related vm_step m) store_ops"
  "list_all (\<lambda>(_, m). related vm_step m) memory_ops" "list_all (\<lambda>(_, m). related vm_step m) (convert_ops fp)"
  unfolding table_defs list.pred_inject prod.case
  by (intro conjI list_all_Nil step_intro forward_intro related_local_get related_local_set related_tee related_size)+

text \<open>A fact about every action of the tables is a fact about what an opcode runs.\<close>
lemma simple_ops_all:
  assumes "list_all (\<lambda>(_, m). P m) (simple_ops fp)" "map_of (simple_ops fp) opcode = Some m" shows "P m"
  using assms map_of_SomeD [OF assms(2)] by (auto simp: list_all_iff)

lemma related_simple: "map_of (simple_ops fp) opcode = Some m \<Longrightarrow> related vm_step m"
  by (rule simple_ops_all) (simp_all add: simple_ops_def related_tables)

lemma host_step_storage [simp]: "host_step h (storage_write h k v)"
  unfolding host_step_def storage_write_def by (rule exI [of _ "AList.update k v (he_storage h)"], rule exI [of _ "[]"]) simp

lemma host_step_event [simp]: "host_step h (emit_event h a t d)"
  unfolding host_step_def emit_event_def
  by (rule exI [of _ "he_storage h"], rule exI [of _ "[\<lparr> ev_contract_address = a, ev_topic = t, ev_data = d \<rparr>]"]) simp

lemma host_function_step: "vm_step s (snd (host_function name args s))"
proof -
  have "vm_step s (snd (host_storage_read args s))"
    by (auto simp: host_storage_read_def Let_def vm_step_def reader_step_def length_write_memory memory_step_same split: option.splits)
  moreover have "vm_step s (snd (host_storage_write args s))"
    by (auto simp: host_storage_write_def Let_def vm_step_def reader_step_def)
  moreover have "vm_step s (snd (host_emit_event args s))"
    by (auto simp: host_emit_event_def Let_def vm_step_def reader_step_def split: sum.splits)
  moreover have "vm_step s (snd (host_sensor_data args s))" by (simp add: host_sensor_data_def Let_def vm.step_refl)
  moreover have "vm_step s (s\<lparr>vm_memory := write_memory 0 (address_bytes (he_caller_address (vm_host s))) (vm_memory s)\<rparr>)"
    if "length (vm_memory s) \<ge> 32"
    using that by (simp add: vm_step_def reader_step_def caller_ok_def length_write_memory memory_step_same)
  ultimately show ?thesis by (simp add: host_function_def Let_def vm.step_refl)
qed

section \<open>Every execution follows the step relation\<close>

lemma related_charge_instr [step_intro]: "related vm_step (charge_instr opcode)"
  by (auto simp: charge_instr_def charge_defs intro!: step_intro charge_step)

lemma related_dispatch [step_intro]: "related vm_step (dispatch_host_call wmod perms i args)"
proof -
  have host: "related vm_step (host_function name args)" for name by (simp add: related_def host_function_step)
  show ?thesis
    by (auto simp: dispatch_host_call_def charge_defs intro!: step_intro charge_step host split: option.splits)
qed

text \<open>A call runs its body in a frame of its own.\<close>
lemma vm_step_frame:
  "vm_step (s\<lparr>vm_reader := r, vm_stack := xs, vm_locals := ls\<rparr>) t \<Longrightarrow>
     vm_step s (t\<lparr>vm_reader := vm_reader s, vm_stack := ys, vm_locals := vm_locals s\<rparr>)"
  by (simp add: vm_step_def reader_step_def)

lemma related_execute_function [step_intro]:
  assumes "\<And>d. related vm_step (body d)"
  shows "related vm_step (execute_function wmod perms body depth i args)"
proof -
  have "vm_step s (snd (execute_function wmod perms body depth i args s))" for s
    using assms related_dispatch vm_step_frame
    by (auto simp: execute_function_def related_def Let_def vm.step_refl split: option.splits prod.splits sum.splits InterpError.splits)
      (metis snd_conv)+
  then show ?thesis by (simp add: related_def)
qed

lemma forward_skip_loop: "rd_pos r \<le> rd_pos (snd (skip_loop e msg d r)) \<and> rd_data (snd (skip_loop e msg d r)) = rd_data r"
proof (induction e msg d r rule: skip_loop.induct)
  case (1 e msg d r)
  let ?thesis = "rd_pos r \<le> rd_pos (snd (skip_loop e msg d r)) \<and> rd_data (snd (skip_loop e msg d r)) = rd_data r"
  show ?case
  proof (cases "rd_remaining r = 0 \<or> (\<exists>er r1. read_byte r = (Err er, r1))")
    case True
    then show ?thesis using read_byte_mono [of r] by (subst (1 2) skip_loop.simps) auto
  next
    case False
    then obtain opcode r1 where rb: "rd_remaining r \<noteq> 0" "read_byte r = (Ok opcode, r1)" by (metis obj_sumE surj_pair)
    note adv = read_byte_advances [OF rb(2)]
    have unfold: "skip_loop e msg d r =
        (if opcode \<in> {0x02, 0x03, 0x04}
         then (case read_byte r1 of (Err e, r) \<Rightarrow> (Err e, r) | (Ok _, r) \<Rightarrow> skip_loop e msg (d + 1) r)
         else if e \<and> opcode = 0x05 \<and> d = 0 then (Ok (), r1)
         else if opcode = 0x0B \<and> d = 0 then (Ok (), r1)
         else if opcode = 0x0B then skip_loop e msg (d - 1) r1
         else (case skip_operands opcode r1 of (Err e, r) \<Rightarrow> (Err e, r) | (Ok _, r) \<Rightarrow> skip_loop e msg d r))"
      by (subst skip_loop.simps) (simp only: rb if_False prod.case sum.case)
    consider "opcode \<in> {0x02, 0x03, 0x04}" | "opcode \<notin> {0x02, 0x03, 0x04}" "opcode = 0x0B" "d \<noteq> 0"
      | "opcode \<notin> {0x02, 0x03, 0x04}" "e \<and> opcode = 0x05 \<and> d = 0 \<or> opcode = 0x0B \<and> d = 0"
      | "opcode \<notin> {0x02, 0x03, 0x04}" "\<not> (e \<and> opcode = 0x05 \<and> d = 0)" "opcode \<noteq> 0x0B" by argo
    then show ?thesis
    proof cases
      case 1
      then show ?thesis unfolding unfold
        using "1.IH"(1) [OF rb(1) rb(2) [symmetric] refl 1] read_byte_mono [of r1] adv
        by (auto split: prod.splits sum.splits)
    next
      case 2
      then show ?thesis unfolding unfold using "1.IH"(2) [OF rb(1) rb(2) [symmetric] refl] adv by fastforce
    next
      case 3
      then show ?thesis unfolding unfold using adv by auto
    next
      case 4
      have "rd_pos r1 \<le> rd_pos (snd (skip_operands opcode r1)) \<and> rd_data (snd (skip_operands opcode r1)) = rd_data r1"
        using forward_skip_operands [of opcode] by (simp add: forward_def)
      then show ?thesis unfolding unfold
        using "1.IH"(3) [OF rb(1) rb(2) [symmetric] refl 4(1)] 4 adv by (auto split: prod.splits sum.splits)
    qed
  qed
qed

lemma forward_skips [forward_intro]: "forward skip_to_end" "forward skip_to_else_or_end"
  by (simp_all add: forward_def skip_to_end_def skip_to_else_or_end_def forward_skip_loop)

lemma related_leave_block [step_intro]: "related vm_step (leave_block r)"
  by (auto simp: leave_block_def intro!: step_intro forward_intro split: sum.splits InterpError.splits nat.splits)

lemma related_enter_block [step_intro]: "related vm_step body \<Longrightarrow> related vm_step (enter_block body)"
  using related_leave_block unfolding enter_block_def related_def by (metis (mono_tags, lifting) case_prod_beta vm.step_trans)

lemma vm_step_rewind:
  "vm_step (s\<lparr>vm_reader := (vm_reader s)\<lparr>rd_pos := p\<rparr>\<rparr>) t \<Longrightarrow>
     vm_step (s\<lparr>vm_reader := (vm_reader s)\<lparr>rd_pos := p\<rparr>\<rparr>) (t\<lparr>vm_reader := (vm_reader t)\<lparr>rd_pos := p\<rparr>\<rparr>)"
  by (simp add: vm_step_def reader_step_def)

lemma run_loop_Suc:
  assumes "body (s\<lparr>vm_reader := (vm_reader s)\<lparr>rd_pos := p\<rparr>\<rparr>) = (r, t)"
  shows "run_loop (Suc n) p body s = (if r = Err (IE_Branch 0) then run_loop n p body t else leave_block r t)"
proof (cases r)
  case (Inl e)
  then show ?thesis
  proof (cases e)
    case (IE_Branch k)
    then show ?thesis using assms Inl by (cases k) simp_all
  qed (use assms Inl in simp_all)
qed (use assms in simp)

declare run_loop.simps(2) [simp del] execute_block.simps(2) [simp del]

lemma leave_block_step: "vm_step t (snd (leave_block r t))"
  using related_leave_block by (simp add: related_def)

lemma run_loop_step:
  assumes "related vm_step body"
  shows "n > 0 \<Longrightarrow> vm_step (s\<lparr>vm_reader := (vm_reader s)\<lparr>rd_pos := p\<rparr>\<rparr>) (snd (run_loop n p body s))"
proof (induction n arbitrary: s)
  case (Suc n)
  let ?s = "s\<lparr>vm_reader := (vm_reader s)\<lparr>rd_pos := p\<rparr>\<rparr>"
  obtain r t where body: "body ?s = (r, t)" by fastforce
  note run = run_loop_Suc [where body = body and s = s and p = p and r = r and t = t and n = n, OF body]
  have "vm_step ?s (snd (body ?s))" using assms unfolding related_def by blast
  then have st: "vm_step ?s t" by (simp only: body snd_conv)
  show ?case
  proof (cases "r = Err (IE_Branch 0) \<and> n > 0")
    case True
    then have "vm_step (t\<lparr>vm_reader := (vm_reader t)\<lparr>rd_pos := p\<rparr>\<rparr>) (snd (run_loop n p body t))" using Suc.IH by simp
    from vm.step_trans [OF vm_step_rewind [OF st] this] show ?thesis using True by (simp only: run simp_thms if_True)
  next
    case False
    show ?thesis
    proof (cases "r = Err (IE_Branch 0)")
      case True
      then have "n = 0" using False by simp
      then show ?thesis using st True run by simp
    next
      case False
      then show ?thesis using vm.step_trans [OF st leave_block_step] by (simp only: run if_False)
    qed
  qed
qed simp

lemma related_loop [step_intro]:
  assumes "related vm_step body"
  shows "related vm_step (\<lambda>s. andThen (run_loop n (rd_pos (vm_reader s)) body) (\<lambda>_. ret x) s)"
proof -
  have "vm_step s (snd (run_loop n (rd_pos (vm_reader s)) body s))" for s
    using run_loop_step [OF assms, where s = s and p = "rd_pos (vm_reader s)" and n = n] by (cases n) (auto simp: vm.step_refl)
  then show ?thesis unfolding related_def andThen_def by (auto split: prod.splits sum.splits) (metis snd_conv)+
qed

lemma related_call_instr [step_intro]:
  assumes "\<And>i args. related vm_step (call i args)"
  shows "related vm_step (call_instr wmod call)"
proof -
  have run: "related vm_step (andThen (call i args) (\<lambda>result. case result of Some val \<Rightarrow> push val | None \<Rightarrow> ret ()))" for i args
    using assms by (auto intro!: step_intro split: option.splits)
  have "vm_step s (snd (andThen (call i args) (\<lambda>result. case result of Some val \<Rightarrow> push val | None \<Rightarrow> ret ()) (s\<lparr>vm_stack := xs\<rparr>)))"
    for s i args xs
  proof -
    have "vm_step s (s\<lparr>vm_stack := xs\<rparr>)" by (simp add: vm_step_def reader_step_def)
    then show ?thesis using run vm.step_trans unfolding related_def by blast
  qed
  then show ?thesis unfolding call_instr_def Let_def
    by (auto intro!: step_intro forward_intro related_guarded)
qed

lemma related_if_instr [step_intro]: "related vm_step body \<Longrightarrow> related vm_step (if_instr body)"
proof -
  assume body: "related vm_step body"
  then have "related vm_step (enter_block body)" by (rule related_enter_block)
  moreover from this have "related vm_step (\<lambda>s. if b s then enter_block body s else (Ok (), s))" for b
    by (simp add: related_def vm.step_refl)
  ultimately show ?thesis unfolding if_instr_def using body by (intro step_intro forward_intro)
qed

lemma related_table [step_intro]:
  "related vm_step (case map_of (simple_ops fp) opcode of Some m \<Rightarrow> andThen m (\<lambda>_. ret x) | None \<Rightarrow> fail e)"
proof (cases "map_of (simple_ops fp) opcode")
  case None
  then show ?thesis by (simp only: option.case) (rule vm.related_fail)
next
  case (Some m)
  then show ?thesis by (simp only: option.case) (intro vm.related_andThen vm.related_ret related_simple [OF Some])
qed

lemma related_execute_instr [step_intro]:
  assumes "related vm_step body" "\<And>i args. related vm_step (call i args)"
  shows "related vm_step (execute_instr fp wmod n body call opcode)"
  unfolding execute_instr_def
  using assms by (intro step_intro forward_intro) auto

theorem execute_block_step: "related vm_step (execute_block n fp wmod perms depth)"
proof (induction n arbitrary: depth)
  case 0
  show ?case unfolding execute_block.simps by (rule vm.related_fail)
next
  case (Suc n)
  have "related vm_step (andThen (rd read_byte) (\<lambda>opcode. andThen (charge_instr opcode) (\<lambda>_.
      andThen (execute_instr fp wmod n (execute_block n fp wmod perms depth)
        (execute_function wmod perms (execute_block n fp wmod perms) (depth + 1)) opcode) (\<lambda>go_on.
      if go_on then execute_block n fp wmod perms depth else ret ()))))"
    by (auto intro!: step_intro forward_intro Suc)
  then show ?case by (simp add: related_def vm.step_refl execute_block.simps(2))
qed

lemma execute_function_step: "related vm_step (execute_function wmod perms (execute_block n fp wmod perms) depth i args)"
  by (intro step_intro execute_block_step)

end
