(* ===== verification/Wasm_Gas.thy ===== *)
theory Wasm_Gas
  imports Wasm_Safety
begin

text \<open>
  Execution ends because gas runs out. Which errors an action can produce, that every branch has been paid
  for, that fuel in proportion to the remaining gas is never exhausted, and that more fuel gives the same
  result.
\<close>

section \<open>Errors of an action\<close>

definition errs :: "(InterpError \<Rightarrow> bool) \<Rightarrow> ('s, 'a) act \<Rightarrow> bool" where
  "errs P m \<longleftrightarrow> (\<forall>s. case fst (m s) of Ok _ \<Rightarrow> True | Err e \<Rightarrow> P e)"

text \<open>Errors other than the signals of the control flow and the two of the model.\<close>
definition plain :: "InterpError \<Rightarrow> bool" where
  "plain e = (case e of IE_Branch _ \<Rightarrow> False | IE_FunctionReturn \<Rightarrow> False | IE_Panic \<Rightarrow> False | IE_OutOfFuel \<Rightarrow> False | _ \<Rightarrow> True)"

named_theorems errs_intro \<open>errors of the actions\<close>

lemma plain_simps [simp]:
  "plain (IE_InvalidBytecode x)" "plain IE_StackUnderflow" "plain (IE_TypeMismatch a b)" "plain (IE_UndefinedFunction i)"
  "plain (IE_UndefinedGlobal i)" "plain (IE_UndefinedLocal i)" "plain IE_DivisionByZero" "plain (IE_Gas g)" "plain (IE_HostError x)"
  "\<not> plain IE_FunctionReturn" "\<not> plain (IE_Branch k)" "\<not> plain IE_Panic" "\<not> plain IE_OutOfFuel"
  by (simp_all add: plain_def)

lemma errsI: "(\<And>s e. fst (m s) = Err e \<Longrightarrow> P e) \<Longrightarrow> errs P m"
  by (auto simp: errs_def split: sum.splits)

lemma errsD: "errs P m \<Longrightarrow> m s = (Err e, t) \<Longrightarrow> P e"
  by (metis errs_def fst_conv sum.case(1))

lemma errs_ret [errs_intro]: "errs P (ret x)" by (simp add: errs_def)
lemma errs_fail [errs_intro]: "P e \<Longrightarrow> errs P (fail e)" by (simp add: errs_def)
lemma errs_lift [errs_intro]: "(\<And>e. r = Err e \<Longrightarrow> P e) \<Longrightarrow> errs P (lift_result r)"
  by (simp add: errs_def split: sum.splits)
lemma errs_andThen [errs_intro]: "errs P m \<Longrightarrow> (\<And>x. errs P (f x)) \<Longrightarrow> errs P (andThen m f)"
  by (rule errsI) (auto simp: andThen_def split: prod.splits sum.splits dest: errsD, metis errsD prod.collapse)
lemma errs_if [errs_intro]: "errs P m \<Longrightarrow> errs P m' \<Longrightarrow> errs P (if b then m else m')" by simp

lemma errs_read_byte [errs_intro]: "errs plain read_byte" by (simp add: errs_def read_byte_def)
lemma errs_read_bytes [errs_intro]: "errs plain (read_bytes n)" by (simp add: errs_def read_bytes_def)

lemma errs_read_u32_loop: "case fst (read_u32_loop acc shift r) of Ok _ \<Rightarrow> True | Err e \<Rightarrow> plain e"
proof (induction acc shift r rule: read_u32_loop.induct)
  case (1 acc shift r)
  show ?case
    using 1 errsD [OF errs_read_byte] by (subst read_u32_loop.simps) (auto simp: Let_def split: prod.splits sum.splits)
qed

lemma errs_read_signed_loop: "case fst (read_signed_loop b acc shift r) of Ok _ \<Rightarrow> True | Err e \<Rightarrow> plain e"
proof (induction b acc shift r rule: read_signed_loop.induct)
  case (1 b acc shift r)
  show ?case
    using 1 errsD [OF errs_read_byte] by (subst read_signed_loop.simps) (auto simp: Let_def split: prod.splits sum.splits)
qed

lemma errs_leb [errs_intro]: "errs plain read_u32_leb128" "errs plain read_i32_leb128" "errs plain read_i64_leb128"
  by (simp_all add: errs_def read_u32_leb128_def read_i32_leb128_def read_i64_leb128_def errs_read_u32_loop errs_read_signed_loop)

lemma errs_floats [errs_intro]: "errs plain read_f32" "errs plain read_f64"
  by (auto simp: read_f32_def read_f64_def intro!: errs_intro)

lemma errs_skip_operands [errs_intro]: "errs plain (skip_operands opcode)"
  by (auto simp: skip_operands_def intro!: errs_intro)

lemma errs_rd [errs_intro]: "errs P m \<Longrightarrow> errs P (rd m)"
  by (rule errsI) (auto simp: rd_def split: prod.splits dest: errsD)

lemma errs_pay [errs_intro]: "errs plain (pay m)"
  by (rule errsI) (auto simp: pay_def split: prod.splits sum.splits)

lemma errs_push [errs_intro]: "errs P (push v)" by (simp add: errs_def push_def)
lemma errs_pop [errs_intro]: "errs plain pop" by (simp add: errs_def pop_def split: list.splits)

lemma errs_pops [errs_intro]: "errs plain pop_i32" "errs plain pop_i64" "errs plain pop_f32" "errs plain pop_f64"
  by (auto simp: pop_i32_def pop_i64_def pop_f32_def pop_f64_def as_i32_def as_i64_value_def as_f32_def as_f64_def
      intro!: errs_intro split: Value.splits)

lemma errs_ops [errs_intro]:
  "errs plain m \<Longrightarrow> errs plain (unary m f)" "errs plain m \<Longrightarrow> errs plain (binary m g)"
  by (auto simp: unary_def binary_def intro!: errs_intro)

lemma errs_division [errs_intro]: "errs plain m \<Longrightarrow> errs plain (signed_division m v h)"
  by (auto simp: signed_division_def intro!: errs_intro)

lemma errs_address [errs_intro]: "errs plain (address b off)"
  by (auto simp: address_def intro!: errs_intro split: option.splits)

lemma errs_guarded: "(\<And>s. plain (e s)) \<Longrightarrow> (\<And>s. \<not> b s \<Longrightarrow> case fst (m s) of Ok _ \<Rightarrow> True | Err er \<Rightarrow> plain er) \<Longrightarrow>
    errs plain (\<lambda>s. if b s then (Err (e s), s) else m s)"
  by (simp add: errs_def)

lemma errs_load [errs_intro]: "errs plain (load n v)"
  by (auto simp: load_def push_def intro!: errs_intro errs_guarded)

lemma errs_store [errs_intro]: "errs plain m \<Longrightarrow> errs plain (store m f)"
  by (auto simp: store_def intro!: errs_intro errs_guarded)

lemma errs_memory_grow [errs_intro]: "errs plain (memory_grow d)"
  by (simp add: errs_def memory_grow_def push_def Let_def)

lemma errs_variables:
  "errs plain (\<lambda>s. case nth_get (vm_locals s) i of None \<Rightarrow> (Err (IE_UndefinedLocal j), s) | Some val \<Rightarrow> push val s)"
  "errs plain (\<lambda>s. case nth_get (vm_globals s) i of None \<Rightarrow> (Err (IE_UndefinedGlobal j), s) | Some val \<Rightarrow> push val s)"
  "errs plain (\<lambda>s. if i \<ge> length (vm_locals s) then (Err (IE_UndefinedLocal j), s) else (Ok (), s\<lparr>vm_locals := (vm_locals s)[i := val]\<rparr>))"
  "errs plain (\<lambda>s. if i \<ge> length (vm_globals s) then (Err (IE_UndefinedGlobal j), s) else (Ok (), s\<lparr>vm_globals := (vm_globals s)[i := val]\<rparr>))"
  "errs plain (\<lambda>s. case vm_stack s of [] \<Rightarrow> (Err IE_StackUnderflow, s) | v # _ \<Rightarrow>
     if i \<ge> length (vm_locals s) then (Err (IE_UndefinedLocal j), s) else (Ok (), s\<lparr>vm_locals := (vm_locals s)[i := v]\<rparr>))"
  "errs plain (\<lambda>s. push (g s) s)"
  by (simp_all add: errs_def push_def split: option.splits list.splits)

lemma errs_tables:
  "list_all (\<lambda>(_, m). errs plain m) variable_ops" "list_all (\<lambda>(_, m). errs plain m) const_ops"
  "list_all (\<lambda>(_, m). errs plain m) int_compare_ops" "list_all (\<lambda>(_, m). errs plain m) (float_compare_ops fp)"
  "list_all (\<lambda>(_, m). errs plain m) int_arith_ops" "list_all (\<lambda>(_, m). errs plain m) (float_arith_ops fp)"
  "list_all (\<lambda>(_, m). errs plain m) load_ops" "list_all (\<lambda>(_, m). errs plain m) store_ops"
  "list_all (\<lambda>(_, m). errs plain m) memory_ops" "list_all (\<lambda>(_, m). errs plain m) (convert_ops fp)"
  unfolding table_defs list.pred_inject prod.case
  by (intro conjI list_all_Nil errs_intro errs_variables)+

lemma errs_simple: "map_of (simple_ops fp) opcode = Some m \<Longrightarrow> errs plain m"
  by (rule simple_ops_all) (simp_all add: simple_ops_def errs_tables)

lemma errs_skip_loop: "case fst (skip_loop e msg d r) of Ok _ \<Rightarrow> True | Err er \<Rightarrow> plain er"
proof (induction e msg d r rule: skip_loop.induct)
  case (1 e msg d r)
  let ?P = "\<lambda>p. case fst p of Ok _ \<Rightarrow> True | Err er \<Rightarrow> plain er"
  show ?case
  proof (cases "rd_remaining r = 0 \<or> (\<exists>er r1. read_byte r = (Err er, r1))")
    case True
    then show ?thesis using errsD [OF errs_read_byte, of r] by (subst skip_loop.simps) auto
  next
    case False
    then obtain opcode r1 where rb: "rd_remaining r \<noteq> 0" "read_byte r = (Ok opcode, r1)" by (metis obj_sumE surj_pair)
    have block: "?P (case read_byte r1 of (Err e, r) \<Rightarrow> (Err e, r) | (Ok _, r) \<Rightarrow> skip_loop e msg (d + 1) r)"
      if "opcode \<in> {0x02, 0x03, 0x04}"
      using "1.IH"(1) [OF rb(1) rb(2) [symmetric] refl that] errsD [OF errs_read_byte, of r1] by (auto split: prod.splits sum.splits)
    have other: "?P (case skip_operands opcode r1 of (Err e, r) \<Rightarrow> (Err e, r) | (Ok _, r) \<Rightarrow> skip_loop e msg d r)"
      if "opcode \<notin> {0x02, 0x03, 0x04}" "\<not> (e \<and> opcode = 0x05 \<and> d = 0)" "\<not> (opcode = 0x0B \<and> d = 0)" "opcode \<noteq> 0x0B"
      using "1.IH"(3) [OF rb(1) rb(2) [symmetric] refl that] errsD [OF errs_skip_operands, of opcode r1] by (auto split: prod.splits sum.splits)
    show ?thesis
      using block other "1.IH"(2) [OF rb(1) rb(2) [symmetric] refl]
      by (subst skip_loop.simps) (simp only: rb if_False prod.case sum.case fst_conv split: if_split, simp)
  qed
qed

lemma errs_skips [errs_intro]: "errs plain skip_to_end" "errs plain skip_to_else_or_end"
  by (simp_all add: errs_def skip_to_end_def skip_to_else_or_end_def errs_skip_loop)

lemma errs_host_function [errs_intro]: "errs plain (host_function name args)"
  by (simp add: errs_def host_function_def host_storage_read_def host_storage_write_def host_emit_event_def host_sensor_data_def
      read_string_from_memory_def Let_def split: option.splits)

lemma errs_mono: "errs P m \<Longrightarrow> (\<And>e. P e \<Longrightarrow> Q e) \<Longrightarrow> errs Q m"
  by (auto simp: errs_def split: sum.splits)

text \<open>What a call can fail with: also a panic, but never a signal of the control flow.\<close>
definition call_error :: "InterpError \<Rightarrow> bool" where
  "call_error e \<longleftrightarrow> plain e \<or> e = IE_Panic"

lemma errs_dispatch: "errs call_error (dispatch_host_call wmod perms i args)"
proof -
  have "errs plain (andThen (pay m) (\<lambda>_. andThen (lift_result (map_err (\<lambda>e. IE_HostError (SandboxError_to_string e)) r)) (\<lambda>_.
      host_function name args)))" for m r name
    by (intro errs_intro) (auto simp: map_err_def split: sum.splits)
  from errs_mono [OF this, of call_error] show ?thesis
    by (auto simp: dispatch_host_call_def call_error_def intro!: errs_fail split: option.splits)
qed

lemma errs_charge_instr [errs_intro]: "errs plain (charge_instr opcode)"
  by (auto simp: charge_instr_def intro!: errs_intro)

lemma call_type_errs: "call_type wmod i = Err e \<Longrightarrow> call_error e"
  by (auto simp: call_type_def call_error_def split: if_splits option.splits sum.splits)

section \<open>Every branch is paid for\<close>

definition branch_paid :: "(Vm, 'a) act \<Rightarrow> bool" where
  "branch_paid m \<longleftrightarrow> (\<forall>s k t. gas_ok (vm_gas s) \<longrightarrow> m s = (Err (IE_Branch k), t) \<longrightarrow>
     gas_used (vm_gas s) + gc_branch (gas_costs (vm_gas s)) \<le> gas_used (vm_gas t))"

lemma branch_paidD: "branch_paid m \<Longrightarrow> m s = (Err (IE_Branch k), t) \<Longrightarrow> gas_ok (vm_gas s) \<Longrightarrow>
    gas_used (vm_gas s) + gc_branch (gas_costs (vm_gas s)) \<le> gas_used (vm_gas t)"
  unfolding branch_paid_def by blast

lemma step_gas: "vm_step s t \<Longrightarrow> gas_ok (vm_gas s) \<Longrightarrow>
    gas_ok (vm_gas t) \<and> gas_used (vm_gas s) \<le> gas_used (vm_gas t) \<and> gas_limit (vm_gas t) = gas_limit (vm_gas s)
    \<and> gas_costs (vm_gas t) = gas_costs (vm_gas s)"
  by (simp add: vm_step_def gas_step_def)

lemma related_stepD: "related vm_step m \<Longrightarrow> m s = (r, t) \<Longrightarrow> vm_step s t"
  by (metis related_def snd_conv)

lemma branch_paid_errs: "errs P m \<Longrightarrow> (\<And>k. \<not> P (IE_Branch k)) \<Longrightarrow> branch_paid m"
  by (auto simp: branch_paid_def dest: errsD)

lemmas branch_paid_plain = branch_paid_errs [where P = plain, OF _ plain_simps(11)]

lemma branch_paid_andThen:
  assumes "related vm_step m" "branch_paid m" "\<And>x. branch_paid (f x)"
  shows "branch_paid (andThen m f)"
  unfolding branch_paid_def
proof (intro allI impI)
  fix s k t assume ok: "gas_ok (vm_gas s)" and run: "andThen m f s = (Err (IE_Branch k), t)"
  obtain r u where m: "m s = (r, u)" by fastforce
  have step: "gas_ok (vm_gas u)" "gas_used (vm_gas s) \<le> gas_used (vm_gas u)" "gas_costs (vm_gas u) = gas_costs (vm_gas s)"
    using step_gas [OF related_stepD [OF assms(1) m] ok] by auto
  show "gas_used (vm_gas s) + gc_branch (gas_costs (vm_gas s)) \<le> gas_used (vm_gas t)"
  proof (cases r)
    case (Inl e)
    then show ?thesis using run m assms(2) ok by (auto simp: branch_paid_def andThen_def)
  next
    case (Inr x)
    then have "f x u = (Err (IE_Branch k), t)" using run m by (simp add: andThen_def)
    then show ?thesis using assms(3) [of x] step unfolding branch_paid_def by fastforce
  qed
qed

text \<open>After the price of a branch has been paid, any outcome is paid for.\<close>
lemma branch_paid_after:
  assumes "\<And>s u. gas_ok (vm_gas s) \<Longrightarrow> m s = (Ok (), u) \<Longrightarrow>
      gas_used (vm_gas s) + gc_branch (gas_costs (vm_gas s)) \<le> gas_used (vm_gas u)"
    and "errs plain m" "related vm_step m" "\<And>x. related vm_step (f x)"
  shows "branch_paid (andThen m f)"
  unfolding branch_paid_def
proof (intro allI impI)
  fix s k t assume ok: "gas_ok (vm_gas s)" and run: "andThen m f s = (Err (IE_Branch k), t)"
  obtain r u where m: "m s = (r, u)" by fastforce
  have "r = Ok ()" using run m errsD [OF assms(2), of s] by (cases r) (auto simp: andThen_def)
  then have f: "f () u = (Err (IE_Branch k), t)" using run m by (simp add: andThen_def)
  have "gas_used (vm_gas u) \<le> gas_used (vm_gas t)"
    using step_gas [OF related_stepD [OF assms(4) f]] step_gas [OF related_stepD [OF assms(3) m] ok] by blast
  then show "gas_used (vm_gas s) + gc_branch (gas_costs (vm_gas s)) \<le> gas_used (vm_gas t)"
    using assms(1) [OF ok] m \<open>r = Ok ()\<close> by force
qed

lemma leave_block_branch:
  assumes "leave_block r s = (Err (IE_Branch k), t)"
  shows "r = Err (IE_Branch (Suc k)) \<and> vm_gas t = vm_gas s"
proof (cases r)
  case (Inl e)
  have skip: "rd skip_to_end s = (Err (IE_Branch k), t) \<Longrightarrow> False" for k t using errsD [OF errs_rd [OF errs_skips(1)], of s] by fastforce
  have gas: "vm_gas (snd (rd m s)) = vm_gas s" for m :: "(Reader, unit) act" by (simp add: rd_def split: prod.splits)
  show ?thesis
  proof (cases e)
    case (IE_Branch j)
    then show ?thesis using assms Inl skip gas [of skip_to_end]
      by (cases j) (auto simp: leave_block_def andThen_def split: prod.splits sum.splits)
  qed (use assms Inl in \<open>simp_all add: leave_block_def\<close>)
qed (use assms in \<open>simp add: leave_block_def\<close>)

lemma branch_paid_enter_block: "branch_paid body \<Longrightarrow> branch_paid (enter_block body)"
  unfolding branch_paid_def enter_block_def by (auto split: prod.splits dest!: leave_block_branch)

lemma branch_paid_run_loop:
  assumes "branch_paid body" "related vm_step body"
  shows "gas_ok (vm_gas s) \<Longrightarrow> run_loop n p body s = (Err (IE_Branch k), t) \<Longrightarrow>
    gas_used (vm_gas s) + gc_branch (gas_costs (vm_gas s)) \<le> gas_used (vm_gas t)"
proof (induction n arbitrary: s)
  case 0
  then show ?case by simp
next
  case (Suc n)
  let ?s = "s\<lparr>vm_reader := (vm_reader s)\<lparr>rd_pos := p\<rparr>\<rparr>"
  obtain r u where body: "body ?s = (r, u)" by fastforce
  note run = run_loop_Suc [where body = body and s = s and p = p and r = r and t = u and n = n, OF body]
  have u: "gas_ok (vm_gas u)" "gas_used (vm_gas s) \<le> gas_used (vm_gas u)" "gas_costs (vm_gas u) = gas_costs (vm_gas s)"
    using step_gas [OF related_stepD [OF assms(2) body]] Suc.prems(1) by auto
  show ?case
  proof (cases "r = Err (IE_Branch 0)")
    case True
    then show ?thesis using Suc.IH [OF u(1)] Suc.prems(2) run u by simp
  next
    case False
    then have "leave_block r u = (Err (IE_Branch k), t)" using Suc.prems(2) run by simp
    then have "r = Err (IE_Branch (Suc k))" "vm_gas t = vm_gas u" using leave_block_branch by blast+
    then show ?thesis using branch_paidD [OF assms(1), of ?s "Suc k" u] body Suc.prems(1) by simp
  qed
qed

definition callee_frame :: "FuncType \<Rightarrow> WasmFunction \<Rightarrow> Value list \<Rightarrow> Vm \<Rightarrow> Vm" where
  "callee_frame ft func args s = s\<lparr>vm_reader := Reader_new (wf_code func), vm_stack := [], vm_locals := initial_locals ft func args\<rparr>"

definition caller_frame :: "Vm \<Rightarrow> Vm \<Rightarrow> Vm" where
  "caller_frame s t = t\<lparr>vm_reader := vm_reader s, vm_stack := vm_stack s, vm_locals := vm_locals s\<rparr>"

definition returns :: "InterpError \<Rightarrow> bool" where
  "returns e \<longleftrightarrow> e = IE_FunctionReturn \<or> (\<exists>k. e = IE_Branch k)"

lemma execute_function_internal:
  assumes "\<not> depth > MAX_CALL_DEPTH" "\<not> i < wm_import_func_count wmod"
    "nth_get (wm_functions wmod) (i - wm_import_func_count wmod) = Some func" "nth_get (wm_types wmod) (wf_type_idx func) = Some ft"
    "body depth (callee_frame ft func args s) = (r, t)"
  shows "execute_function wmod perms body depth i args s =
    (case r of Err e \<Rightarrow> if returns e then Ok (default_result ft (vm_stack t)) else Err e | Ok _ \<Rightarrow> Ok (default_result ft (vm_stack t)),
     caller_frame s t)"
proof (cases r)
  case (Inl e)
  show ?thesis
    unfolding execute_function_def if_not_P [OF assms(1)] if_not_P [OF assms(2)] assms(3,4) option.case
      assms(5) [unfolded callee_frame_def] prod.case Let_def caller_frame_def Inl sum.case
    by (cases e) (simp_all add: returns_def)
next
  case (Inr u)
  show ?thesis
    unfolding execute_function_def if_not_P [OF assms(1)] if_not_P [OF assms(2)] assms(3,4) option.case
      assms(5) [unfolded callee_frame_def] prod.case Let_def caller_frame_def Inr sum.case ..
qed

text \<open>A call either fails at once, runs a host function, or runs the body of a function.\<close>
lemma execute_function_cases:
  obtains (fails) e where "execute_function wmod perms body depth i args s = (Err e, s)" "plain e"
  | (host) "i < wm_import_func_count wmod" "execute_function wmod perms body depth i args s = dispatch_host_call wmod perms i args s"
  | (internal) func ft where "\<not> depth > MAX_CALL_DEPTH" "\<not> i < wm_import_func_count wmod"
      "nth_get (wm_functions wmod) (i - wm_import_func_count wmod) = Some func" "nth_get (wm_types wmod) (wf_type_idx func) = Some ft"
proof (cases "depth > MAX_CALL_DEPTH")
  case True
  then show ?thesis by (intro fails [of "IE_HostError ''call depth exceeded''"]) (simp_all add: execute_function_def)
next
  case depth: False
  show ?thesis
  proof (cases "i < wm_import_func_count wmod")
    case True
    then show ?thesis using depth by (intro host) (simp_all add: execute_function_def)
  next
    case False
    show ?thesis
    proof (cases "\<exists>func ft. nth_get (wm_functions wmod) (i - wm_import_func_count wmod) = Some func \<and> nth_get (wm_types wmod) (wf_type_idx func) = Some ft")
      case True
      then show ?thesis using depth False internal by blast
    next
      case none: False
      then have "execute_function wmod perms body depth i args s = (Err (IE_UndefinedFunction i), s)"
        using depth False by (auto simp: execute_function_def split: option.splits)
      then show ?thesis by (rule fails) simp
    qed
  qed
qed

lemma errs_execute_function:
  assumes "\<And>d. errs P (body d)" "\<And>e. call_error e \<Longrightarrow> P e"
  shows "errs (\<lambda>e. P e \<and> \<not> returns e) (execute_function wmod perms body depth i args)"
proof (rule errsI)
  have calls: "call_error e \<Longrightarrow> P e \<and> \<not> returns e" for e
    using assms(2) by (auto simp: call_error_def returns_def)
  fix s e assume err: "fst (execute_function wmod perms body depth i args s) = Err e"
  show "P e \<and> \<not> returns e"
  proof (cases rule: execute_function_cases [of wmod perms body depth i args s])
    case (fails e')
    then show ?thesis using err calls [of e] by (simp add: call_error_def)
  next
    case host
    then show ?thesis using err errsD [OF errs_dispatch, of wmod perms i args s e] calls by (metis prod.collapse)
  next
    case (internal func ft)
    obtain r t where "body depth (callee_frame ft func args s) = (r, t)" by fastforce
    from execute_function_internal [where body = body, OF internal this] this show ?thesis
      using err errsD [OF assms(1), of depth "callee_frame ft func args s"] by (auto split: sum.splits if_splits)
  qed
qed

lemma errs_any: "errs (\<lambda>_. True) m" by (simp add: errs_def split: sum.splits)

lemma branch_paid_call_instr: "branch_paid (call_instr wmod (execute_function wmod perms body depth))"
proof -
  let ?Q = "\<lambda>e. \<forall>k. e \<noteq> IE_Branch k"
  have call: "errs ?Q (execute_function wmod perms body depth i args)" for i args
    using errs_execute_function [OF errs_any] by (rule errs_mono) (auto simp: returns_def)
  have "errs ?Q (andThen (execute_function wmod perms body depth i args) (\<lambda>result. case result of Some val \<Rightarrow> push val | None \<Rightarrow> ret ()))" for i args
    using call by (auto intro!: errs_intro split: option.splits)
  then have "errs ?Q (call_instr wmod (execute_function wmod perms body depth))"
    unfolding call_instr_def Let_def
    by (intro errs_intro errs_mono [OF errs_rd [OF errs_leb(1)]])
      (auto simp: errs_def call_error_def dest!: call_type_errs)
  then show ?thesis by (rule branch_paid_errs) simp
qed

lemma pay_branch_paid: "gas_ok (vm_gas s) \<Longrightarrow> pay charge_branch s = (Ok (), u) \<Longrightarrow>
    gas_used (vm_gas s) + gc_branch (gas_costs (vm_gas s)) \<le> gas_used (vm_gas u)"
  by (auto simp: pay_def charge_branch_def charge_outcome split: if_splits)

named_theorems paid_intro \<open>actions whose branches are paid\<close>
lemmas [paid_intro] = branch_paid_andThen branch_paid_enter_block

lemma branch_paid_basic [paid_intro]:
  "branch_paid (ret x)" "branch_paid (rd read_byte)" "branch_paid (rd read_u32_leb128)" "branch_paid (rd skip_to_end)"
  "branch_paid (rd skip_to_else_or_end)" "branch_paid pop_i32" "branch_paid (fail (IE_HostError e))" "branch_paid (charge_instr opcode)"
  by (rule branch_paid_plain, (intro errs_intro plain_simps))+

lemma branch_paid_return [paid_intro]: "branch_paid (fail IE_FunctionReturn)"
  by (simp add: branch_paid_def)

lemma branch_paid_if [paid_intro]: "branch_paid m \<Longrightarrow> branch_paid m' \<Longrightarrow> branch_paid (if b then m else m')" by simp

lemma branch_paid_else [paid_intro]: "branch_paid m \<Longrightarrow> branch_paid (\<lambda>s. if b s then m s else (Ok (), s))"
  by (auto simp: branch_paid_def)

lemma branch_paid_if_instr [paid_intro]: "branch_paid body \<Longrightarrow> related vm_step body \<Longrightarrow> branch_paid (if_instr body)"
  unfolding if_instr_def by (intro paid_intro step_intro forward_intro)

lemma branch_paid_loop [paid_intro]:
  assumes "branch_paid body" "related vm_step body"
  shows "branch_paid (\<lambda>s. andThen (run_loop n (rd_pos (vm_reader s)) body) (\<lambda>_. ret x) s)"
  using branch_paid_run_loop [OF assms] unfolding branch_paid_def by (auto simp: andThen_def split: prod.splits sum.splits)

lemma branch_paid_table [paid_intro]:
  "branch_paid (case map_of (simple_ops fp) opcode of Some m \<Rightarrow> andThen m (\<lambda>_. ret x) | None \<Rightarrow> fail (IE_InvalidBytecode e))"
proof (cases "map_of (simple_ops fp) opcode")
  case None
  then show ?thesis by (simp only: option.case) (intro branch_paid_plain errs_intro plain_simps)
next
  case (Some m)
  then show ?thesis by (simp only: option.case) (intro branch_paid_plain errs_intro errs_simple [OF Some])
qed

lemma branch_paid_execute_instr:
  assumes "branch_paid body" "related vm_step body" "\<And>d. related vm_step (blk d)" "opcode \<noteq> 0x0C" "opcode \<noteq> 0x0D"
  shows "branch_paid (execute_instr fp wmod n body (execute_function wmod perms blk depth) opcode)"
  unfolding execute_instr_def if_not_P [OF assms(4)] if_not_P [OF assms(5)]
  by (intro paid_intro step_intro forward_intro branch_paid_call_instr assms)

lemma execute_block_branch_paid: "branch_paid (execute_block n fp wmod perms depth)"
proof (induction n)
  case 0
  show ?case by (simp add: branch_paid_def)
next
  case (Suc n)
  let ?instr = "\<lambda>opcode. execute_instr fp wmod n (execute_block n fp wmod perms depth)
    (execute_function wmod perms (execute_block n fp wmod perms) (depth + 1)) opcode"
  let ?rest = "\<lambda>go_on. if go_on then execute_block n fp wmod perms depth else ret ()"
  have rel: "related vm_step (?instr opcode)" "related vm_step (?rest b)" for opcode b
    by (intro step_intro execute_block_step)+
  have "branch_paid (andThen (charge_instr opcode) (\<lambda>_. andThen (?instr opcode) ?rest))" for opcode
  proof (cases "opcode = 0x0C \<or> opcode = 0x0D")
    case True
    then have "charge_instr opcode = pay charge_branch" by (auto simp: charge_instr_def)
    then show ?thesis using rel
      by (intro branch_paid_after) (auto simp: charge_defs intro: pay_branch_paid intro!: errs_intro step_intro charge_step execute_block_step)
  next
    case False
    then show ?thesis
      by (intro paid_intro branch_paid_execute_instr step_intro execute_block_step Suc rel) auto
  qed
  from branch_paid_andThen [OF related_rd [OF forward_read_byte] branch_paid_basic(2) this] show ?case by (simp add: branch_paid_def execute_block.simps(2))
qed

section \<open>Fuel in proportion to gas is enough\<close>

definition gas_left :: "Vm \<Rightarrow> nat" where
  "gas_left s = gas_limit (vm_gas s) - gas_used (vm_gas s)"

definition rest :: "Vm \<Rightarrow> nat" where
  "rest s = length (rd_data (vm_reader s)) - rd_pos (vm_reader s)"

definition budget :: "nat \<Rightarrow> Vm \<Rightarrow> nat" where
  "budget L s = gas_left s * (L + 1) + rest s"

definition positive_costs :: "GasCosts \<Rightarrow> bool" where
  "positive_costs c \<longleftrightarrow> gc_arithmetic c > 0 \<and> gc_branch c > 0 \<and> gc_division c > 0"

definition metered :: "nat \<Rightarrow> Vm \<Rightarrow> bool" where
  "metered L s \<longleftrightarrow> gas_ok (vm_gas s) \<and> positive_costs (gas_costs (vm_gas s)) \<and> length (rd_data (vm_reader s)) \<le> L"

definition code_bound :: "nat \<Rightarrow> WasmModule \<Rightarrow> bool" where
  "code_bound L wmod \<longleftrightarrow> (\<forall>f \<in> set (wm_functions wmod). length (wf_code f) \<le> L)"

definition ends :: "('s, 'a) act \<Rightarrow> 's \<Rightarrow> bool" where
  "ends m s \<longleftrightarrow> fst (m s) \<noteq> Err IE_OutOfFuel"

lemma metered_step: "metered L s \<Longrightarrow> vm_step s t \<Longrightarrow>
    metered L t \<and> gas_left t \<le> gas_left s \<and> rest t \<le> rest s"
  using step_gas [of s t] by (auto simp: metered_def gas_left_def rest_def vm_step_def reader_step_def)

lemma ends_plain: "errs plain m \<Longrightarrow> ends m s"
  using errsD [of plain m s "IE_OutOfFuel"] unfolding ends_def by (metis plain_simps(13) prod.collapse)

lemma ends_andThen: "ends m s \<Longrightarrow> (\<And>x t. m s = (Ok x, t) \<Longrightarrow> ends (f x) t) \<Longrightarrow> ends (andThen m f) s"
  by (auto simp: ends_def andThen_def split: prod.splits sum.splits)

lemma ends_if: "ends m s \<Longrightarrow> ends m' s \<Longrightarrow> ends (if b then m else m') s" by simp

lemma ends_ret [simp]: "ends (ret x) s" by (simp add: ends_def)

lemma ends_leave_block: "r \<noteq> Err IE_OutOfFuel \<Longrightarrow> ends (leave_block r) s"
proof (cases r)
  case (Inl e)
  have skip: "ends (rd skip_to_end) s" by (rule ends_plain) (intro errs_intro)
  assume "r \<noteq> Err IE_OutOfFuel"
  then show ?thesis using Inl skip
    by (cases e) (auto simp: leave_block_def ends_def andThen_def split: nat.splits prod.splits sum.splits)
qed (simp add: leave_block_def)

lemma ends_enter_block: "ends body s \<Longrightarrow> ends (enter_block body) s"
  using ends_leave_block by (auto simp: ends_def enter_block_def split: prod.splits)

lemma ends_run_loop:
  assumes "related vm_step body" "branch_paid body"
    and "\<And>t. metered L t \<Longrightarrow> gas_left t \<le> G \<Longrightarrow> ends body (t\<lparr>vm_reader := (vm_reader t)\<lparr>rd_pos := p\<rparr>\<rparr>)"
  shows "metered L s \<Longrightarrow> gas_left s \<le> G \<Longrightarrow> gas_left s < n \<Longrightarrow> ends (run_loop n p body) s"
proof (induction n arbitrary: s)
  case (Suc n)
  let ?s = "s\<lparr>vm_reader := (vm_reader s)\<lparr>rd_pos := p\<rparr>\<rparr>"
  obtain r t where body: "body ?s = (r, t)" by fastforce
  note run = run_loop_Suc [where body = body and s = s and p = p and r = r and t = t and n = n, OF body]
  have r: "r \<noteq> Err IE_OutOfFuel" using assms(3) [OF Suc.prems(1,2)] body by (simp add: ends_def)
  have ms: "metered L ?s" "gas_left ?s = gas_left s" using Suc.prems(1) by (simp_all add: metered_def gas_left_def)
  have t: "metered L t" "gas_left t \<le> gas_left s" using metered_step [OF ms(1) related_stepD [OF assms(1) body]] ms(2) by auto
  show ?case
  proof (cases "r = Err (IE_Branch 0)")
    case True
    have "gas_used (vm_gas ?s) + gc_branch (gas_costs (vm_gas ?s)) \<le> gas_used (vm_gas t)" "gas_limit (vm_gas t) = gas_limit (vm_gas ?s)"
      "gas_ok (vm_gas t)"
      using branch_paidD [OF assms(2) body [unfolded True]] step_gas [OF related_stepD [OF assms(1) body]] ms(1) by (auto simp: metered_def)
    moreover have "gc_branch (gas_costs (vm_gas ?s)) > 0" using ms(1) by (simp add: metered_def positive_costs_def)
    ultimately have "gas_left t < gas_left s" unfolding gas_left_def gas_ok_def by (simp, linarith)
    then show ?thesis using Suc.IH [OF t(1)] Suc.prems(2,3) run True by (simp add: ends_def)
  next
    case False
    then show ?thesis using ends_leave_block [OF r] run by (simp add: ends_def)
  qed
qed simp

lemma ends_execute_function:
  assumes "\<And>func ft. func \<in> set (wm_functions wmod) \<Longrightarrow> ends (body depth) (callee_frame ft func args s)"
  shows "ends (execute_function wmod perms body depth i args) s"
proof (cases rule: execute_function_cases [of wmod perms body depth i args s])
  case (fails e)
  then show ?thesis by (auto simp: ends_def)
next
  case host
  then show ?thesis using errsD [OF errs_dispatch, of wmod perms i args s IE_OutOfFuel]
    by (cases "dispatch_host_call wmod perms i args s") (auto simp: ends_def call_error_def)
next
  case (internal func ft)
  obtain r t where body: "body depth (callee_frame ft func args s) = (r, t)" by fastforce
  have "func \<in> set (wm_functions wmod)" using internal(3) by (auto simp: nth_get_def split: if_splits)
  then have "r \<noteq> Err IE_OutOfFuel" using assms [of func ft] body by (simp add: ends_def)
  then show ?thesis
    using execute_function_internal [where body = body, OF internal body] by (auto simp: ends_def split: sum.splits)
qed

lemma ends_call_instr:
  assumes "\<And>i args t. metered L t \<Longrightarrow> gas_left t \<le> gas_left s \<Longrightarrow> ends (call i args) t" "metered L s"
  shows "ends (call_instr wmod call) s"
  unfolding call_instr_def
proof (intro ends_andThen)
  show "ends (rd read_u32_leb128) s" by (rule ends_plain) (intro errs_intro)
next
  fix x t assume rd: "rd read_u32_leb128 s = (Ok x, t)"
  show "ends (lift_result (call_type wmod (unat x))) t"
    using call_type_errs [of wmod "unat x" IE_OutOfFuel] by (auto simp: ends_def call_error_def)
  fix ft u assume "lift_result (call_type wmod (unat x)) t = (Ok ft, u)"
  then have u: "u = t" by simp
  have "metered L t" "gas_left t \<le> gas_left s"
    using metered_step [OF assms(2) related_stepD [OF related_rd [OF forward_read_u32] rd]] by auto
  then have "ends (call (unat x) args) (t\<lparr>vm_stack := vs\<rparr>)" for args vs
    by (intro assms(1)) (simp_all add: metered_def gas_left_def)
  then have "ends (andThen (call (unat x) args) (\<lambda>result. case result of Some val \<Rightarrow> push val | None \<Rightarrow> ret ())) (t\<lparr>vm_stack := vs\<rparr>)" for args vs
    by (intro ends_andThen) (auto simp: ends_def push_def split: option.splits)
  then show "ends (\<lambda>s. let param_count = length (ft_params ft)
      in if length (vm_stack s) < param_count then (Err IE_StackUnderflow, s)
         else andThen (call (unat x) (rev (take param_count (vm_stack s)))) (\<lambda>result. case result of Some val \<Rightarrow> push val | None \<Rightarrow> ret ())
           (s\<lparr>vm_stack := drop param_count (vm_stack s)\<rparr>)) u"
    by (simp add: u ends_def Let_def)
qed

lemma ends_if_instr:
  assumes "\<And>t. metered L t \<Longrightarrow> gas_left t \<le> gas_left s \<Longrightarrow> rest t \<le> rest s \<Longrightarrow> ends body t" "metered L s"
  shows "ends (if_instr body) s"
proof -
  have enter: "ends (enter_block body) t" if "vm_step s t" for t
    using metered_step [OF assms(2) that] assms(1) by (intro ends_enter_block) blast
  have rdp: "ends (rd m) t" if "errs plain m" for t and m :: "(Reader, 'a) act" using that by (intro ends_plain errs_intro)
  show ?thesis
    unfolding if_instr_def
  proof (intro ends_andThen)
    show "ends (rd read_byte) s" by (rule ends_plain) (intro errs_intro)
    fix x t assume 1: "rd read_byte s = (Ok x, t)"
    have st: "vm_step s t" by (rule related_stepD [OF related_rd [OF forward_read_byte] 1])
    show "ends pop_i32 t" by (rule ends_plain) (intro errs_intro)
    fix c u assume 2: "pop_i32 t = (Ok c, u)"
    have su: "vm_step s u" using vm.step_trans [OF st related_stepD [OF related_pops(1) 2]] .
    have "ends (andThen (rd skip_to_else_or_end) (\<lambda>_ s.
        if rd_pos (vm_reader s) > 0 \<and> rd_data (vm_reader s) ! (rd_pos (vm_reader s) - 1) = 0x05 then enter_block body s else (Ok (), s))) u"
    proof (rule ends_andThen)
      show "ends (rd skip_to_else_or_end) u" by (rule ends_plain) (intro errs_intro)
      fix y v assume 3: "rd skip_to_else_or_end u = (Ok y, v)"
      have "vm_step s v" using vm.step_trans [OF su related_stepD [OF related_rd [OF forward_skips(2)] 3]] .
      from enter [OF this] show "ends (\<lambda>s. if rd_pos (vm_reader s) > 0 \<and> rd_data (vm_reader s) ! (rd_pos (vm_reader s) - 1) = 0x05
          then enter_block body s else (Ok (), s)) v" by (simp add: ends_def)
    qed
    then show "ends (if c \<noteq> 0 then enter_block body else andThen (rd skip_to_else_or_end) (\<lambda>_ s.
        if rd_pos (vm_reader s) > 0 \<and> rd_data (vm_reader s) ! (rd_pos (vm_reader s) - 1) = 0x05 then enter_block body s else (Ok (), s))) u"
      using enter [OF su] by simp
  qed
qed

lemma ends_loop_instr:
  assumes "related vm_step body" "branch_paid body" "metered L s" "gas_left s < n"
    and "\<And>t. metered L t \<Longrightarrow> gas_left t \<le> gas_left s \<Longrightarrow> ends body t"
  shows "ends (andThen (rd read_byte) (\<lambda>_ s. andThen (run_loop n (rd_pos (vm_reader s)) body) (\<lambda>_. ret True) s)) s"
proof (rule ends_andThen)
  show "ends (rd read_byte) s" by (rule ends_plain) (intro errs_intro)
  fix x t assume 1: "rd read_byte s = (Ok x, t)"
  have t: "metered L t" "gas_left t \<le> gas_left s"
    using metered_step [OF assms(3) related_stepD [OF related_rd [OF forward_read_byte] 1]] by auto
  have "ends (run_loop n (rd_pos (vm_reader t)) body) t"
  proof (rule ends_run_loop [OF assms(1,2), where G = "gas_left s" and L = L])
    show "ends body (u\<lparr>vm_reader := (vm_reader u)\<lparr>rd_pos := rd_pos (vm_reader t)\<rparr>\<rparr>)" if "metered L u" "gas_left u \<le> gas_left s" for u
      using that by (intro assms(5)) (simp_all add: metered_def gas_left_def)
  qed (use t assms(4) in auto)
  then have "ends (andThen (run_loop n (rd_pos (vm_reader t)) body) (\<lambda>_. ret True)) t" by (rule ends_andThen) simp
  then show "ends (\<lambda>s. andThen (run_loop n (rd_pos (vm_reader s)) body) (\<lambda>_. ret True) s) t" by (simp add: ends_def)
qed

lemma charge_instr_pays:
  assumes "metered L s" "opcode \<notin> {0x0B, 0x01, 0x1A}" "charge_instr opcode s = (Ok u, t)"
  shows "gas_left t < gas_left s"
proof -
  have paid: "gas_left t < gas_left s" if "pay m s = (Ok u, t)" "\<And>g. m g = charge g (c (gas_costs g))" "c (gas_costs (vm_gas s)) > 0" for m c
    using that assms(1) by (auto simp: pay_def charge_outcome metered_def gas_left_def gas_ok_def split: if_splits)
  have "positive_costs (gas_costs (vm_gas s))" using assms(1) by (simp add: metered_def)
  then have "pay charge_division s = (Ok u, t) \<or> pay charge_branch s = (Ok u, t) \<or> pay charge_arithmetic s = (Ok u, t)"
    "gc_division (gas_costs (vm_gas s)) > 0" "gc_branch (gas_costs (vm_gas s)) > 0" "gc_arithmetic (gas_costs (vm_gas s)) > 0"
    using assms(2,3) by (auto simp: charge_instr_def positive_costs_def split: if_splits)
  then show ?thesis
    using paid [of charge_division gc_division] paid [of charge_branch gc_branch] paid [of charge_arithmetic gc_arithmetic]
    by (auto simp: charge_defs)
qed

lemma ends_execute_instr:
  assumes "related vm_step body" "branch_paid body" "metered L s" "gas_left s < n"
    and "\<And>t. metered L t \<Longrightarrow> gas_left t \<le> gas_left s \<Longrightarrow> ends body t"
    and "\<And>i args t. metered L t \<Longrightarrow> gas_left t \<le> gas_left s \<Longrightarrow> ends (call i args) t"
  shows "ends (execute_instr fp wmod n body call opcode) s"
proof -
  have seq: "ends m s \<Longrightarrow> ends (andThen m (\<lambda>_. ret b)) s" for m :: "(Vm, unit) act" and b :: bool by (rule ends_andThen) simp_all
  have block: "ends (andThen (rd read_byte) (\<lambda>_. andThen (enter_block body) (\<lambda>_. ret True))) s"
  proof (intro ends_andThen)
    show "ends (rd read_byte) s" by (rule ends_plain) (intro errs_intro)
    fix x t assume 1: "rd read_byte s = (Ok x, t)"
    have "ends body t" using metered_step [OF assms(3) related_stepD [OF related_rd [OF forward_read_byte] 1]] assms(5) by blast
    then show "ends (enter_block body) t" by (rule ends_enter_block)
  qed simp
  have leb: "ends (rd read_u32_leb128) s" by (rule ends_plain) (intro errs_intro)
  have pops: "ends pop_i32 t" for t by (rule ends_plain) (intro errs_intro)
  have br: "ends (andThen (rd read_u32_leb128) (\<lambda>depth. fail (IE_Branch (unat depth)))) s"
    "ends (andThen (rd read_u32_leb128) (\<lambda>depth. andThen pop_i32 (\<lambda>c. if c \<noteq> 0 then fail (IE_Branch (unat depth)) else ret True))) s"
    using leb by (auto intro!: ends_andThen pops) (auto simp: ends_def)
  have table: "ends (case map_of (simple_ops fp) opcode of Some m \<Rightarrow> andThen m (\<lambda>_. ret True) | None \<Rightarrow> fail (IE_InvalidBytecode e)) s" for e
    using ends_plain [OF errs_simple] seq by (auto simp: ends_def split: option.splits)
  have skip: "ends (andThen (rd skip_to_end) (\<lambda>_. ret False)) s" by (intro seq ends_plain errs_intro)
  have ifi: "ends (if_instr body) s" using assms(5) by (rule ends_if_instr [OF _ assms(3)])
  have calls: "ends (call_instr wmod call) s" using assms(6) by (rule ends_call_instr [OF _ assms(3)])
  have fails: "ends (fail IE_FunctionReturn) s" "ends (fail (IE_HostError e)) s" for e by (simp_all add: ends_def)
  show ?thesis
    unfolding execute_instr_def
    by (intro ends_if fails ends_ret block ends_loop_instr [OF assms(1-5)] seq [OF ifi] skip br seq [OF calls] table)
qed

lemma read_byte_consumes: "rd_remaining (vm_reader s) \<noteq> 0 \<Longrightarrow> \<exists>op t. rd read_byte s = (Ok op, t) \<and> rest t < rest s"
  by (auto simp: rd_def read_byte_def rd_remaining_def saturating_sub_def rest_def split: if_splits)

lemma execute_block_ends:
  assumes "code_bound L wmod"
  shows "metered L s \<Longrightarrow> budget L s < n \<Longrightarrow> ends (execute_block n fp wmod perms depth) s"
proof (induction n arbitrary: s depth)
  case 0
  then show ?case by simp
next
  case (Suc n)
  let ?instr = "\<lambda>opcode. execute_instr fp wmod n (execute_block n fp wmod perms depth)
    (execute_function wmod perms (execute_block n fp wmod perms) (depth + 1)) opcode"
  show ?case
  proof (cases "rd_remaining (vm_reader s) = 0")
    case True
    then show ?thesis by (simp add: ends_def execute_block.simps(2))
  next
    case False
    then obtain opcode s1 where rb: "rd read_byte s = (Ok opcode, s1)" "rest s1 < rest s" using read_byte_consumes by blast
    have m1: "metered L s1" "gas_left s1 \<le> gas_left s"
      using metered_step [OF Suc.prems(1) related_stepD [OF related_rd [OF forward_read_byte] rb(1)]] by auto
    have "ends (andThen (charge_instr opcode) (\<lambda>_. andThen (?instr opcode) (\<lambda>go_on.
        if go_on then execute_block n fp wmod perms depth else ret ()))) s1"
    proof (intro ends_andThen)
      show "ends (charge_instr opcode) s1" by (rule ends_plain) (intro errs_intro)
      fix u s2 assume ch: "charge_instr opcode s1 = (Ok u, s2)"
      have m2: "metered L s2" "gas_left s2 \<le> gas_left s1" "rest s2 \<le> rest s1"
        using metered_step [OF m1(1) related_stepD [OF related_charge_instr ch]] by auto
      show "ends (?instr opcode) s2"
      proof (cases "opcode \<in> {0x0B, 0x01, 0x1A}")
        case True
        have "ends (case map_of (simple_ops fp) opcode of Some m \<Rightarrow> andThen m (\<lambda>_. ret True) | None \<Rightarrow> fail (IE_InvalidBytecode e)) s2" for e
        proof (cases "map_of (simple_ops fp) opcode")
          case (Some m)
          then show ?thesis by (simp) (intro ends_andThen ends_plain [OF errs_simple [OF Some]], simp add: ends_def)
        qed (simp add: ends_def)
        then show ?thesis using True by (auto simp: execute_instr_def)
      next
        case False
        have paid: "gas_left s2 < gas_left s" using charge_instr_pays [OF m1(1) False ch] m1(2) by simp
        have less: "budget L t < n" if "metered L t" "gas_left t \<le> gas_left s2" for t
        proof -
          have "rest t \<le> L" using that(1) by (auto simp: metered_def rest_def intro: le_trans [OF diff_le_self])
          moreover have "(gas_left t + 1) * (L + 1) \<le> gas_left s * (L + 1)" using that(2) paid by (intro mult_le_mono1) simp
          ultimately show ?thesis using Suc.prems(2) by (simp add: budget_def algebra_simps)
        qed
        have body: "ends (execute_block n fp wmod perms d) t" if "metered L t" "gas_left t \<le> gas_left s2" for t d
          using Suc.IH [OF that(1) less [OF that]] .
        have call: "ends (execute_function wmod perms (execute_block n fp wmod perms) (depth + 1) i args) t"
          if "metered L t" "gas_left t \<le> gas_left s2" for i args t
          using that assms
          by (intro ends_execute_function body) (auto simp: metered_def gas_left_def callee_frame_def Reader_new_def code_bound_def)
        have "gas_left s2 < n" using less [OF m2(1)] by (simp add: budget_def)
        then show ?thesis
          by (intro ends_execute_instr [OF execute_block_step execute_block_branch_paid m2(1)] body call)
      qed
      fix go_on s3 assume "?instr opcode s2 = (Ok go_on, s3)"
      then have "vm_step s2 s3" by (rule related_stepD [rotated]) (intro related_execute_instr execute_block_step execute_function_step)
      from metered_step [OF m2(1) this] have "metered L s3" "gas_left s3 \<le> gas_left s2" "rest s3 \<le> rest s2" by auto
      moreover have "gas_left s3 * (L + 1) \<le> gas_left s * (L + 1)" using calculation(2) m2(2) m1(2) by (intro mult_le_mono1) simp
      ultimately have "budget L s3 < n" using Suc.prems(2) rb(2) m2(3) by (simp add: budget_def)
      then show "ends (if go_on then execute_block n fp wmod perms depth else ret ()) s3"
        using Suc.IH [OF \<open>metered L s3\<close>] by simp
    qed
    then show ?thesis using False rb(1) by (simp add: ends_def execute_block.simps(2))
  qed
qed

end
