(* ===== verification/Wasm_Runs.thy ===== *)
theory Wasm_Runs
  imports Wasm_Gas
begin

text \<open>
  Executions of the interpreter as a whole: more fuel never changes a result, a parsed module never panics
  while it runs, and what a contract may not read cannot influence it.
\<close>

section \<open>More fuel gives the same result\<close>

definition extends :: "('s, 'a) act \<Rightarrow> ('s, 'a) act \<Rightarrow> bool" where
  "extends m m' \<longleftrightarrow> (\<forall>s. fst (m s) \<noteq> Err IE_OutOfFuel \<longrightarrow> m' s = m s)"

named_theorems extends_intro \<open>actions that agree unless fuel runs out\<close>

lemma extends_refl: "extends m m" by (simp add: extends_def)

lemma extendsD: "extends m m' \<Longrightarrow> m s = (r, t) \<Longrightarrow> r \<noteq> Err IE_OutOfFuel \<Longrightarrow> m' s = (r, t)"
  by (simp add: extends_def)

lemma extends_andThen [extends_intro]:
  assumes "extends m m'" "\<And>x. extends (f x) (f' x)"
  shows "extends (andThen m f) (andThen m' f')"
  unfolding extends_def
proof (intro allI impI)
  fix s assume ends: "fst (andThen m f s) \<noteq> Err IE_OutOfFuel"
  obtain r t where m: "m s = (r, t)" by fastforce
  show "andThen m' f' s = andThen m f s"
  proof (cases r)
    case (Inl e)
    then show ?thesis using m ends extendsD [OF assms(1) m] by (simp add: andThen_def)
  next
    case (Inr x)
    then show ?thesis using m ends extendsD [OF assms(1) m] assms(2) [of x] by (simp add: andThen_def extends_def)
  qed
qed

lemma extends_if [extends_intro]: "extends m m' \<Longrightarrow> extends k k' \<Longrightarrow> extends (if b then m else k) (if b then m' else k')" by simp

lemma leave_out_of_fuel [simp]: "leave_block (Err IE_OutOfFuel) = fail IE_OutOfFuel"
  by (simp add: leave_block_def)

lemma extends_enter_block [extends_intro]:
  assumes "extends body body'" shows "extends (enter_block body) (enter_block body')"
  unfolding extends_def
proof (intro allI impI)
  fix s assume ends: "fst (enter_block body s) \<noteq> Err IE_OutOfFuel"
  obtain r t where m: "body s = (r, t)" by fastforce
  then have "r \<noteq> Err IE_OutOfFuel" using ends by (auto simp: enter_block_def)
  then show "enter_block body' s = enter_block body s" using m extendsD [OF assms m] by (simp add: enter_block_def)
qed

lemma extends_run_loop:
  assumes "extends body body'"
  shows "n \<le> k \<Longrightarrow> extends (run_loop n p body) (run_loop k p body')"
proof (induction n arbitrary: k)
  case 0
  then show ?case by (simp add: extends_def)
next
  case (Suc n)
  then obtain j where k: "k = Suc j" "n \<le> j" by (cases k) auto
  show ?case unfolding extends_def
  proof (intro allI impI)
    fix s assume ends: "fst (run_loop (Suc n) p body s) \<noteq> Err IE_OutOfFuel"
    let ?s = "s\<lparr>vm_reader := (vm_reader s)\<lparr>rd_pos := p\<rparr>\<rparr>"
    obtain r t where b: "body ?s = (r, t)" by fastforce
    note run = run_loop_Suc [where body = body and s = s and p = p and r = r and t = t, OF b]
    have "r \<noteq> Err IE_OutOfFuel" using ends run [of n] by auto
    from extendsD [OF assms b this] have b': "body' ?s = (r, t)" .
    note run' = run_loop_Suc [where body = body' and s = s and p = p and r = r and t = t, OF b']
    show "run_loop k p body' s = run_loop (Suc n) p body s"
      using Suc.IH [OF k(2)] ends unfolding k run run' by (auto simp: extends_def)
  qed
qed

lemma extends_loop_instr [extends_intro]:
  assumes "extends body body'" "n \<le> k"
  shows "extends (\<lambda>s. andThen (run_loop n (rd_pos (vm_reader s)) body) (\<lambda>_. ret x) s)
    (\<lambda>s. andThen (run_loop k (rd_pos (vm_reader s)) body') (\<lambda>_. ret x) s)"
  using extends_andThen [OF extends_run_loop [OF assms] extends_refl, where f = "\<lambda>_. ret x"] by (simp add: extends_def)

lemma extends_else: "extends m m' \<Longrightarrow> extends (\<lambda>s. if b s then m s else (r, s)) (\<lambda>s. if b s then m' s else (r, s))"
  by (simp add: extends_def)

lemma extends_if_instr [extends_intro]: "extends body body' \<Longrightarrow> extends (if_instr body) (if_instr body')"
  unfolding if_instr_def
  by (intro extends_andThen extends_if extends_else extends_enter_block extends_refl)

lemma extends_call_instr [extends_intro]:
  assumes "\<And>i args. extends (call i args) (call' i args)"
  shows "extends (call_instr wmod call) (call_instr wmod call')"
proof -
  have run: "extends (andThen (call i args) (\<lambda>result. case result of Some val \<Rightarrow> push val | None \<Rightarrow> ret ()))
      (andThen (call' i args) (\<lambda>result. case result of Some val \<Rightarrow> push val | None \<Rightarrow> ret ()))" for i args
    by (intro extends_intro extends_refl assms)
  show ?thesis unfolding call_instr_def Let_def
    by (intro extends_intro extends_refl) (use run in \<open>simp add: extends_def\<close>)
qed

lemma extends_execute_function [extends_intro]:
  assumes "\<And>d. extends (body d) (body' d)"
  shows "extends (execute_function wmod perms body depth i args) (execute_function wmod perms body' depth i args)"
  unfolding extends_def
proof (intro allI impI)
  fix s assume ends: "fst (execute_function wmod perms body depth i args s) \<noteq> Err IE_OutOfFuel"
  show "execute_function wmod perms body' depth i args s = execute_function wmod perms body depth i args s"
  proof (cases "\<exists>func ft. \<not> depth > MAX_CALL_DEPTH \<and> \<not> i < wm_import_func_count wmod
      \<and> nth_get (wm_functions wmod) (i - wm_import_func_count wmod) = Some func \<and> nth_get (wm_types wmod) (wf_type_idx func) = Some ft")
    case True
    then obtain func ft where internal: "\<not> depth > MAX_CALL_DEPTH" "\<not> i < wm_import_func_count wmod"
      "nth_get (wm_functions wmod) (i - wm_import_func_count wmod) = Some func" "nth_get (wm_types wmod) (wf_type_idx func) = Some ft" by blast
    obtain r t where b: "body depth (callee_frame ft func args s) = (r, t)" by fastforce
    note run = execute_function_internal [where body = body, OF internal b]
    have "r \<noteq> Err IE_OutOfFuel" using ends run by (auto simp: returns_def)
    from execute_function_internal [where body = body', OF internal extendsD [OF assms b this]] show ?thesis
      by (simp only: run)
  next
    case False
    then consider "depth > MAX_CALL_DEPTH" | "i < wm_import_func_count wmod"
      | "nth_get (wm_functions wmod) (i - wm_import_func_count wmod) = None"
      | func where "nth_get (wm_functions wmod) (i - wm_import_func_count wmod) = Some func" "nth_get (wm_types wmod) (wf_type_idx func) = None"
      by (meson not_None_eq)
    then show ?thesis by cases (simp_all add: execute_function_def)
  qed
qed

lemma extends_execute_instr [extends_intro]:
  assumes "extends body body'" "\<And>i args. extends (call i args) (call' i args)" "n \<le> k"
  shows "extends (execute_instr fp wmod n body call opcode) (execute_instr fp wmod k body' call' opcode)"
  unfolding execute_instr_def by (intro extends_if extends_andThen extends_enter_block extends_loop_instr extends_if_instr
    extends_call_instr extends_refl assms)

lemma execute_block_extends: "n \<le> k \<Longrightarrow> extends (execute_block n fp wmod perms depth) (execute_block k fp wmod perms depth)"
proof (induction n arbitrary: k depth)
  case 0
  then show ?case by (simp add: extends_def)
next
  case (Suc n)
  then obtain j where k: "k = Suc j" "n \<le> j" by (cases k) auto
  let ?step = "\<lambda>n. andThen (rd read_byte) (\<lambda>opcode. andThen (charge_instr opcode) (\<lambda>_.
    andThen (execute_instr fp wmod n (execute_block n fp wmod perms depth)
      (execute_function wmod perms (execute_block n fp wmod perms) (depth + 1)) opcode) (\<lambda>go_on.
    if go_on then execute_block n fp wmod perms depth else ret ())))"
  have "extends (?step n) (?step j)"
    by (intro extends_intro extends_refl Suc.IH k)
  then show ?case unfolding k by (simp add: extends_def execute_block.simps(2))
qed

lemma execute_function_extends:
  "n \<le> k \<Longrightarrow> extends (execute_function wmod perms (execute_block n fp wmod perms) depth i args)
     (execute_function wmod perms (execute_block k fp wmod perms) depth i args)"
  by (intro extends_intro execute_block_extends)

section \<open>A parsed module does not panic\<close>

definition safe :: "InterpError \<Rightarrow> bool" where
  "safe e \<longleftrightarrow> e \<noteq> IE_Panic"

named_theorems safe_intro \<open>actions that do not panic\<close>

lemma safe_plain: "errs plain m \<Longrightarrow> errs safe m"
  by (erule errs_mono) (auto simp: safe_def)

lemma safe_simps [simp]: "safe (IE_HostError x)" "safe (IE_Branch k)" "safe IE_FunctionReturn" "safe (IE_InvalidBytecode x)" "safe IE_OutOfFuel"
  "safe IE_StackUnderflow" "safe (IE_UndefinedFunction i)"
  by (simp_all add: safe_def)

lemma safe_leave_block: "(\<And>e. r = Err e \<Longrightarrow> safe e) \<Longrightarrow> errs safe (leave_block r)"
proof (cases r)
  case (Inl e)
  moreover assume "\<And>e. r = Err e \<Longrightarrow> safe e"
  moreover have "errs safe (rd skip_to_end)" by (intro safe_plain errs_intro)
  ultimately show ?thesis
    by (cases e) (auto simp: leave_block_def safe_def split: nat.splits intro!: errs_intro)
qed (simp add: leave_block_def errs_ret)

lemma safe_enter_block [safe_intro]: "errs safe body \<Longrightarrow> errs safe (enter_block body)"
proof (rule errsI)
  fix s e assume body: "errs safe body" and err: "fst (enter_block body s) = Err e"
  obtain r t where b: "body s = (r, t)" by fastforce
  have "errs safe (leave_block r)" using errsD [OF body] b by (intro safe_leave_block) auto
  then show "safe e" using err b errsD [of safe "leave_block r" t e] by (metis enter_block_def prod.case prod.collapse)
qed

lemma safe_run_loop: "errs safe body \<Longrightarrow> errs safe (run_loop n p body)"
proof (induction n)
  case 0
  then show ?case by (simp add: errs_def)
next
  case (Suc n)
  show ?case
  proof (rule errsI)
    fix s e assume err: "fst (run_loop (Suc n) p body s) = Err e"
    obtain r t where b: "body (s\<lparr>vm_reader := (vm_reader s)\<lparr>rd_pos := p\<rparr>\<rparr>) = (r, t)" by fastforce
    have "errs safe (leave_block r)" using errsD [OF Suc.prems] b by (intro safe_leave_block) auto
    then have "case fst (run_loop (Suc n) p body s) of Ok _ \<Rightarrow> True | Err e \<Rightarrow> safe e"
      using Suc run_loop_Suc [where body = body and s = s and p = p and r = r and t = t and n = n, OF b] by (simp add: errs_def)
    then show "safe e" using err by simp
  qed
qed

lemma safe_pointwise: "(\<And>s. errs safe (f s)) \<Longrightarrow> errs safe (\<lambda>s. f s s)"
  by (auto simp: errs_def)

lemma safe_if_instr [safe_intro]: "errs safe body \<Longrightarrow> errs safe (if_instr body)"
proof -
  assume "errs safe body"
  then have "errs safe (\<lambda>s. if b s then enter_block body s else (Ok (), s))" for b
    using safe_enter_block unfolding errs_def by simp
  moreover have "errs safe (rd read_byte)" "errs safe pop_i32" "errs safe (rd skip_to_else_or_end)" by (intro safe_plain errs_intro)+
  ultimately show ?thesis unfolding if_instr_def using \<open>errs safe body\<close> by (intro errs_andThen errs_if safe_enter_block)
qed

definition imports_ok :: "WasmModule \<Rightarrow> bool" where
  "imports_ok wmod \<longleftrightarrow> wm_import_func_count wmod \<le> length (wm_imports wmod)"

lemma parse_module_imports: "parse_module bytecode = Ok wmod \<Longrightarrow> imports_ok wmod"
  by (auto simp: parse_module_def andThen_def imports_ok_def as_u32_def simp del: parse_sections.simps split: prod.splits sum.splits if_splits)

lemma safe_dispatch: "imports_ok wmod \<Longrightarrow> i < wm_import_func_count wmod \<Longrightarrow> errs safe (dispatch_host_call wmod perms i args)"
  unfolding dispatch_host_call_def
  by (auto simp: imports_ok_def nth_get_def map_err_def split: sum.splits intro!: safe_plain errs_intro)

lemma safe_execute_function:
  assumes "imports_ok wmod" "\<And>d. errs safe (body d)"
  shows "errs safe (execute_function wmod perms body depth i args)"
proof (rule errsI)
  fix s e assume err: "fst (execute_function wmod perms body depth i args s) = Err e"
  show "safe e"
  proof (cases rule: execute_function_cases [of wmod perms body depth i args s])
    case (fails e')
    then show ?thesis using err by (auto simp: safe_def)
  next
    case host
    then show ?thesis using err errsD [OF safe_dispatch [OF assms(1)], of i perms args s e] by (metis prod.collapse)
  next
    case (internal func ft)
    obtain r t where "body depth (callee_frame ft func args s) = (r, t)" by fastforce
    from execute_function_internal [where body = body, OF internal this] this show ?thesis
      using err errsD [OF assms(2), of depth "callee_frame ft func args s"] by (auto split: sum.splits if_splits)
  qed
qed

lemma safe_call_instr:
  assumes "imports_ok wmod" "\<And>i args. errs safe (call i args)"
  shows "errs safe (call_instr wmod call)"
proof -
  have "errs safe (lift_result (call_type wmod i))" for i
    using assms(1) by (intro errs_lift) (auto simp: call_type_def imports_ok_def nth_get_def split: if_splits)
  moreover have "errs safe (rd read_u32_leb128)" by (intro safe_plain errs_intro)
  moreover have run: "errs safe (andThen (call i args) (\<lambda>result. case result of Some val \<Rightarrow> push val | None \<Rightarrow> ret ()))" for i args
    by (intro errs_andThen assms) (auto intro!: errs_intro split: option.splits)
  have "errs safe (\<lambda>s. if length (vm_stack s) < k then (Err IE_StackUnderflow, s)
      else andThen (call i (g s)) (\<lambda>result. case result of Some val \<Rightarrow> push val | None \<Rightarrow> ret ()) (h s))" for k i g h
    using run unfolding errs_def by simp
  ultimately show ?thesis unfolding call_instr_def Let_def by (intro errs_andThen)
qed

lemma safe_execute_instr:
  assumes "imports_ok wmod" "errs safe body" "\<And>i args. errs safe (call i args)"
  shows "errs safe (execute_instr fp wmod n body call opcode)"
proof -
  have loop: "errs safe (\<lambda>s. andThen (run_loop n (rd_pos (vm_reader s)) body) (\<lambda>_. ret True) s)"
    by (rule safe_pointwise) (intro errs_andThen errs_ret safe_run_loop assms)
  have table: "errs safe (case map_of (simple_ops fp) opcode of Some m \<Rightarrow> andThen m (\<lambda>_. ret True) | None \<Rightarrow> fail (IE_InvalidBytecode e))" for e
    using errs_simple by (auto split: option.splits intro!: errs_andThen errs_ret safe_plain errs_intro)
  have rds: "errs safe (rd read_byte)" "errs safe (rd skip_to_end)" "errs safe (rd read_u32_leb128)" "errs safe pop_i32"
    by (intro safe_plain errs_intro)+
  show ?thesis unfolding execute_instr_def
    by (intro errs_if errs_andThen errs_ret errs_fail safe_simps safe_enter_block safe_if_instr safe_call_instr loop table rds assms)
qed

lemma execute_block_safe:
  assumes "imports_ok wmod"
  shows "errs safe (execute_block n fp wmod perms depth)"
proof (induction n arbitrary: depth)
  case 0
  show ?case by (simp add: errs_def)
next
  case (Suc n)
  let ?step = "andThen (rd read_byte) (\<lambda>opcode. andThen (charge_instr opcode) (\<lambda>_.
    andThen (execute_instr fp wmod n (execute_block n fp wmod perms depth)
      (execute_function wmod perms (execute_block n fp wmod perms) (depth + 1)) opcode) (\<lambda>go_on.
    if go_on then execute_block n fp wmod perms depth else ret ())))"
  have "errs safe (rd read_byte)" "errs safe (charge_instr opcode)" for opcode by (intro safe_plain errs_intro)+
  then have "errs safe ?step"
    by (intro errs_andThen errs_if errs_ret safe_execute_instr safe_execute_function assms Suc)
  then show ?case by (simp add: errs_def execute_block.simps(2))
qed

end
