(* ===== verification/Wasm_Privacy.thy ===== *)
theory Wasm_Privacy
  imports Wasm_Runs
begin

text \<open>
  What a contract may not read cannot influence it. Every action of the interpreter commutes with a change
  of the host environment it does not look at; a host call passes the permission check only for the fields
  the contract may see.
\<close>

section \<open>Actions that do not look at part of the host environment\<close>

definition host_map :: "(HostEnvironment \<Rightarrow> HostEnvironment) \<Rightarrow> Vm \<Rightarrow> Vm" where
  "host_map h s = s\<lparr>vm_host := h (vm_host s)\<rparr>"

definition blind :: "(HostEnvironment \<Rightarrow> HostEnvironment) \<Rightarrow> (Vm, 'a) act \<Rightarrow> bool" where
  "blind h m \<longleftrightarrow> (\<forall>s. m (host_map h s) = apsnd (host_map h) (m s))"

named_theorems blind_intro \<open>actions that do not look at the host environment\<close>

lemma host_map_sel [simp]:
  "vm_reader (host_map h s) = vm_reader s" "vm_stack (host_map h s) = vm_stack s" "vm_locals (host_map h s) = vm_locals s"
  "vm_globals (host_map h s) = vm_globals s" "vm_memory (host_map h s) = vm_memory s" "vm_gas (host_map h s) = vm_gas s"
  "vm_host (host_map h s) = h (vm_host s)"
  by (simp_all add: host_map_def)

lemma host_map_upd [simp]:
  "(host_map h s)\<lparr>vm_reader := r\<rparr> = host_map h (s\<lparr>vm_reader := r\<rparr>)" "(host_map h s)\<lparr>vm_stack := st\<rparr> = host_map h (s\<lparr>vm_stack := st\<rparr>)"
  "(host_map h s)\<lparr>vm_locals := ls\<rparr> = host_map h (s\<lparr>vm_locals := ls\<rparr>)" "(host_map h s)\<lparr>vm_globals := gs\<rparr> = host_map h (s\<lparr>vm_globals := gs\<rparr>)"
  "(host_map h s)\<lparr>vm_memory := m\<rparr> = host_map h (s\<lparr>vm_memory := m\<rparr>)" "(host_map h s)\<lparr>vm_gas := g\<rparr> = host_map h (s\<lparr>vm_gas := g\<rparr>)"
  by (simp_all add: host_map_def)

lemma blindD: "blind h m \<Longrightarrow> m s = (r, t) \<Longrightarrow> m (host_map h s) = (r, host_map h t)"
  by (simp add: blind_def)

lemma blind_ret [blind_intro]: "blind h (ret x)" by (simp add: blind_def)
lemma blind_fail [blind_intro]: "blind h (fail e)" by (simp add: blind_def)
lemma blind_lift [blind_intro]: "blind h (lift_result r)" by (simp add: blind_def)

lemma blind_andThen [blind_intro]: "blind h m \<Longrightarrow> (\<And>x. blind h (f x)) \<Longrightarrow> blind h (andThen m f)"
  by (auto simp: blind_def andThen_def split: prod.splits sum.splits)

lemma blind_if [blind_intro]: "blind h m \<Longrightarrow> blind h m' \<Longrightarrow> blind h (if b then m else m')" by simp

lemma blind_rd [blind_intro]: "blind h (rd m)" by (simp add: blind_def rd_def split: prod.splits)
lemma blind_pay [blind_intro]: "blind h (pay m)" by (simp add: blind_def pay_def split: prod.splits sum.splits)
lemma blind_push [blind_intro]: "blind h (push v)" by (simp add: blind_def push_def)
lemma blind_pop [blind_intro]: "blind h pop" by (simp add: blind_def pop_def split: list.splits)

lemma blind_pops [blind_intro]: "blind h pop_i32" "blind h pop_i64" "blind h pop_f32" "blind h pop_f64"
  unfolding pop_i32_def pop_i64_def pop_f32_def pop_f64_def by (intro blind_intro)+

lemma blind_ops [blind_intro]: "blind h m \<Longrightarrow> blind h (unary m f)" "blind h m \<Longrightarrow> blind h (binary m g)"
  unfolding unary_def binary_def by (intro blind_intro; simp)+

lemma blind_division [blind_intro]: "blind h m \<Longrightarrow> blind h (signed_division m v f)"
  unfolding signed_division_def by (intro blind_intro; simp)

lemma blind_address [blind_intro]: "blind h (address b off)"
  by (auto simp: address_def intro!: blind_intro split: option.splits)

lemma blind_load [blind_intro]: "blind h (load n v)"
  unfolding load_def by (intro blind_intro) (simp add: blind_def push_def)

lemma blind_store [blind_intro]: "blind h m \<Longrightarrow> blind h (store m f)"
  unfolding store_def by (intro blind_intro; simp add: blind_def)

lemma blind_memory_grow [blind_intro]: "blind h (memory_grow d)"
  by (simp add: blind_def memory_grow_def push_def Let_def)

lemma blind_variables:
  "blind h (\<lambda>s. case nth_get (vm_locals s) i of None \<Rightarrow> (Err e, s) | Some val \<Rightarrow> push val s)"
  "blind h (\<lambda>s. case nth_get (vm_globals s) i of None \<Rightarrow> (Err e, s) | Some val \<Rightarrow> push val s)"
  "blind h (\<lambda>s. if i \<ge> length (vm_locals s) then (Err e, s) else (Ok (), s\<lparr>vm_locals := (vm_locals s)[i := val]\<rparr>))"
  "blind h (\<lambda>s. if i \<ge> length (vm_globals s) then (Err e, s) else (Ok (), s\<lparr>vm_globals := (vm_globals s)[i := val]\<rparr>))"
  "blind h (\<lambda>s. case vm_stack s of [] \<Rightarrow> (Err e, s) | v # _ \<Rightarrow>
     if i \<ge> length (vm_locals s) then (Err e', s) else (Ok (), s\<lparr>vm_locals := (vm_locals s)[i := v]\<rparr>))"
  "blind h (\<lambda>s. push (V_I32 (word_of_nat (length (vm_memory s) div 65536))) s)"
  by (simp_all add: blind_def push_def split: option.splits list.splits)

lemma blind_tables:
  "list_all (\<lambda>(_, m). blind h m) variable_ops" "list_all (\<lambda>(_, m). blind h m) const_ops"
  "list_all (\<lambda>(_, m). blind h m) int_compare_ops" "list_all (\<lambda>(_, m). blind h m) (float_compare_ops fp)"
  "list_all (\<lambda>(_, m). blind h m) int_arith_ops" "list_all (\<lambda>(_, m). blind h m) (float_arith_ops fp)"
  "list_all (\<lambda>(_, m). blind h m) load_ops" "list_all (\<lambda>(_, m). blind h m) store_ops"
  "list_all (\<lambda>(_, m). blind h m) memory_ops" "list_all (\<lambda>(_, m). blind h m) (convert_ops fp)"
  unfolding table_defs list.pred_inject prod.case
  by (intro conjI list_all_Nil blind_intro blind_variables)+

lemma blind_simple: "map_of (simple_ops fp) opcode = Some m \<Longrightarrow> blind h m"
  by (rule simple_ops_all) (simp_all add: simple_ops_def blind_tables)

lemma blind_leave_block [blind_intro]: "blind h (leave_block r)"
  by (auto simp: leave_block_def intro!: blind_intro split: sum.splits InterpError.splits nat.splits)

lemma blind_enter_block [blind_intro]: "blind h body \<Longrightarrow> blind h (enter_block body)"
  using blind_leave_block [of h] by (simp add: blind_def enter_block_def split: prod.splits)

lemma blind_run_loop: "blind h body \<Longrightarrow> blind h (run_loop n p body)"
proof (induction n)
  case 0
  then show ?case by (simp add: blind_def)
next
  case (Suc n)
  have "run_loop (Suc n) p body (host_map h s) = apsnd (host_map h) (run_loop (Suc n) p body s)" for s
  proof -
    obtain r t where b: "body (s\<lparr>vm_reader := (vm_reader s)\<lparr>rd_pos := p\<rparr>\<rparr>) = (r, t)" by fastforce
    from blindD [OF Suc.prems b]
    have b': "body ((host_map h s)\<lparr>vm_reader := (vm_reader (host_map h s))\<lparr>rd_pos := p\<rparr>\<rparr>) = (r, host_map h t)" by simp
    show ?thesis
      using Suc blind_leave_block [of h r] run_loop_Suc [where body = body, OF b] run_loop_Suc [where body = body, OF b'] by (simp add: blind_def)
  qed
  then show ?case by (simp add: blind_def)
qed

lemma blind_loop_instr [blind_intro]:
  assumes "blind h body" shows "blind h (\<lambda>s. andThen (run_loop n (rd_pos (vm_reader s)) body) (\<lambda>_. ret x) s)"
proof -
  have "blind h (andThen (run_loop n p body) (\<lambda>_. ret x))" for p by (intro blind_andThen blind_run_loop blind_ret assms)
  then show ?thesis by (simp add: blind_def)
qed

lemma blind_if_instr [blind_intro]: "blind h body \<Longrightarrow> blind h (if_instr body)"
proof -
  assume "blind h body"
  then have "blind h (enter_block body)" by (rule blind_enter_block)
  moreover from this have "blind h (\<lambda>s. if rd_pos (vm_reader s) > 0 \<and> rd_data (vm_reader s) ! (rd_pos (vm_reader s) - 1) = 0x05
      then enter_block body s else (Ok (), s))" by (simp add: blind_def)
  ultimately show ?thesis unfolding if_instr_def by (intro blind_andThen blind_rd blind_pops blind_if)
qed

lemma blind_charge_instr [blind_intro]: "blind h (charge_instr opcode)"
  unfolding charge_instr_def by (intro blind_intro)

lemma blind_call_instr [blind_intro]:
  assumes "\<And>i args. blind h (call i args)"
  shows "blind h (call_instr wmod call)"
proof -
  have run: "blind h (andThen (call i args) (\<lambda>result. case result of Some val \<Rightarrow> push val | None \<Rightarrow> ret ()))" for i args
    by (intro blind_andThen assms) (auto intro!: blind_intro split: option.splits)
  have "blind h (\<lambda>s. if length (vm_stack s) < k then (Err IE_StackUnderflow, s)
      else andThen (call i (rev (take k (vm_stack s)))) (\<lambda>result. case result of Some val \<Rightarrow> push val | None \<Rightarrow> ret ())
        (s\<lparr>vm_stack := drop k (vm_stack s)\<rparr>))" for k i
    using run by (simp add: blind_def)
  then show ?thesis unfolding call_instr_def Let_def by (intro blind_andThen blind_rd blind_lift)
qed

lemma blind_execute_function:
  assumes "\<And>d. blind h (body d)" "\<And>i args. blind h (dispatch_host_call wmod perms i args)"
  shows "blind h (execute_function wmod perms body depth i args)"
  unfolding blind_def
proof
  fix s
  show "execute_function wmod perms body depth i args (host_map h s) = apsnd (host_map h) (execute_function wmod perms body depth i args s)"
  proof (cases "\<exists>func ft. \<not> depth > MAX_CALL_DEPTH \<and> \<not> i < wm_import_func_count wmod
      \<and> nth_get (wm_functions wmod) (i - wm_import_func_count wmod) = Some func \<and> nth_get (wm_types wmod) (wf_type_idx func) = Some ft")
    case True
    then obtain func ft where internal: "\<not> depth > MAX_CALL_DEPTH" "\<not> i < wm_import_func_count wmod"
      "nth_get (wm_functions wmod) (i - wm_import_func_count wmod) = Some func" "nth_get (wm_types wmod) (wf_type_idx func) = Some ft" by blast
    obtain r t where b: "body depth (callee_frame ft func args s) = (r, t)" by fastforce
    from blindD [OF assms(1) b] have b': "body depth (callee_frame ft func args (host_map h s)) = (r, host_map h t)"
      by (simp add: callee_frame_def)
    show ?thesis
      unfolding execute_function_internal [where body = body, OF internal b] execute_function_internal [where body = body, OF internal b']
      by (cases r) (simp_all add: caller_frame_def)
  next
    case False
    then consider "depth > MAX_CALL_DEPTH" | "\<not> depth > MAX_CALL_DEPTH" "i < wm_import_func_count wmod"
      | "nth_get (wm_functions wmod) (i - wm_import_func_count wmod) = None" "\<not> depth > MAX_CALL_DEPTH" "\<not> i < wm_import_func_count wmod"
      | func where "nth_get (wm_functions wmod) (i - wm_import_func_count wmod) = Some func" "nth_get (wm_types wmod) (wf_type_idx func) = None"
          "\<not> depth > MAX_CALL_DEPTH" "\<not> i < wm_import_func_count wmod"
      by (meson not_None_eq)
    then show ?thesis using assms(2) by cases (simp_all add: execute_function_def blind_def)
  qed
qed

section \<open>What a contract may see\<close>

definition hide :: "ContractPermissions \<Rightarrow> HostEnvironment \<Rightarrow> HostEnvironment" where
  "hide perms h = h\<lparr>
     he_location := if perm_location perms then he_location h else None,
     he_nearby_peer_count := if perm_proximity perms then he_nearby_peer_count h else 0,
     he_presence_score := if perm_presence perms then he_presence_score h else 0,
     he_sensor_readings := if perm_sensor perms then he_sensor_readings h else []\<rparr>"

lemma hide_sel [simp]:
  "he_block_height (hide perms h) = he_block_height h" "he_block_timestamp (hide perms h) = he_block_timestamp h"
  "he_caller_address (hide perms h) = he_caller_address h" "he_caller_balance (hide perms h) = he_caller_balance h"
  "he_storage (hide perms h) = he_storage h" "he_events (hide perms h) = he_events h"
  "perm_location perms \<Longrightarrow> he_location (hide perms h) = he_location h"
  "perm_proximity perms \<Longrightarrow> he_nearby_peer_count (hide perms h) = he_nearby_peer_count h"
  "perm_presence perms \<Longrightarrow> he_presence_score (hide perms h) = he_presence_score h"
  "perm_sensor perms \<Longrightarrow> he_sensor_readings (hide perms h) = he_sensor_readings h"
  by (simp_all add: hide_def)

lemma hide_ops [simp]:
  "storage_read (hide perms h) k = storage_read h k" "storage_write (hide perms h) k v = hide perms (storage_write h k v)"
  "emit_event (hide perms h) a t d = hide perms (emit_event h a t d)"
  by (simp_all add: storage_read_def storage_write_def emit_event_def hide_def)

lemma host_map_host [simp]: "(host_map h s)\<lparr>vm_host := h k\<rparr> = host_map h (s\<lparr>vm_host := k\<rparr>)"
  by (simp add: host_map_def)

lemma blind_host_function:
  assumes "permitted perms name"
  shows "blind (hide perms) (host_function name args)"
proof -
  have calls: "blind (hide perms) (host_storage_read args)" "blind (hide perms) (host_storage_write args)" "blind (hide perms) (host_emit_event args)"
    by (simp_all add: blind_def host_storage_read_def host_storage_write_def host_emit_event_def Let_def split: option.splits sum.splits)
  have sensor: "blind (hide perms) (host_sensor_data args)" if "perm_sensor perms"
    using that by (simp add: blind_def host_sensor_data_def get_sensor_data_def Let_def)
  show ?thesis
    unfolding blind_def
    using assms calls sensor by (simp add: host_function_def permitted_def Let_def blind_def split: if_splits)
qed

lemma blind_dispatch: "blind (hide perms) (dispatch_host_call wmod perms i args)"
proof (cases "nth_get (wm_imports wmod) i")
  case None
  then show ?thesis by (simp add: dispatch_host_call_def blind_def)
next
  case (Some imp)
  have "blind (hide perms) (andThen (lift_result (map_err (\<lambda>e. IE_HostError (SandboxError_to_string e)) (check_permission perms (im_name imp)))) (\<lambda>_.
      host_function (im_name imp) args))"
    using blind_host_function [of perms "im_name imp" args] by (simp add: check_permission_def map_err_def andThen_def blind_def)
  with Some show ?thesis by (simp only: dispatch_host_call_def option.case) (rule blind_andThen [OF blind_pay])
qed

lemma execute_block_blind: "blind (hide perms) (execute_block n fp wmod perms depth)"
proof (induction n arbitrary: depth)
  case 0
  show ?case by (simp add: blind_def)
next
  case (Suc n)
  let ?call = "execute_function wmod perms (execute_block n fp wmod perms) (depth + 1)"
  have call: "blind (hide perms) (?call i args)" for i args by (intro blind_execute_function blind_dispatch Suc)
  have table: "blind (hide perms) (case map_of (simple_ops fp) opcode of Some m \<Rightarrow> andThen m (\<lambda>_. ret True) | None \<Rightarrow> fail (IE_InvalidBytecode e))" for opcode e
    using blind_simple by (auto split: option.splits intro!: blind_intro)
  have "blind (hide perms) (execute_instr fp wmod n (execute_block n fp wmod perms depth) ?call opcode)" for opcode
    unfolding execute_instr_def
    by (intro blind_if blind_andThen blind_ret blind_fail blind_rd blind_pops blind_enter_block blind_loop_instr blind_if_instr
        blind_call_instr call table Suc)
  then have "blind (hide perms) (andThen (rd read_byte) (\<lambda>opcode. andThen (charge_instr opcode) (\<lambda>_.
      andThen (execute_instr fp wmod n (execute_block n fp wmod perms depth) ?call opcode) (\<lambda>go_on.
      if go_on then execute_block n fp wmod perms depth else ret ()))))"
    by (intro blind_andThen blind_if blind_ret blind_rd blind_charge_instr Suc)
  then show ?case by (simp add: blind_def execute_block.simps(2))
qed

lemma execute_function_blind: "blind (hide perms) (execute_function wmod perms (execute_block n fp wmod perms) depth i args)"
  by (intro blind_execute_function blind_dispatch execute_block_blind)

end
