(* ===== verification/Vm_Runtime.thy ===== *)
theory Vm_Runtime
  imports Wasm_Privacy
begin

text \<open>
  The contract runtimes and the front end of the virtual machine (gratia-vm/src/runtime.rs, the runtime part
  of interpreter.rs, and lib.rs). A runtime is a record of its operations, as the trait is; the mock
  runtime of the tests and the interpreter are two of them. None is a panic. SHA-256, the hexadecimal
  encoding and the floating-point unit are arguments.
\<close>

section \<open>Values, errors, outcomes\<close>

datatype RuntimeError =
    RE_CompilationFailed string
  | RE_InstantiationFailed string
  | RE_ExecutionFailed string
  | RE_FunctionNotFound string
  | RE_ContractNotFound string
  | RE_Gas GasError
  | RE_Sandbox SandboxError
  | RE_RuntimeNotAvailable string

definition RuntimeError_to_string :: "RuntimeError \<Rightarrow> string" where
  "RuntimeError_to_string e = (case e of
     RE_CompilationFailed reason \<Rightarrow> ''compilation failed: '' @ reason
   | RE_InstantiationFailed reason \<Rightarrow> ''instantiation failed: '' @ reason
   | RE_ExecutionFailed reason \<Rightarrow> ''execution failed: '' @ reason
   | RE_FunctionNotFound name \<Rightarrow> ''function not found: '' @ name
   | RE_ContractNotFound addr \<Rightarrow> ''contract not found: '' @ addr
   | RE_Gas g \<Rightarrow> ''gas error: '' @ GasError_to_string g
   | RE_Sandbox s \<Rightarrow> ''sandbox violation: '' @ SandboxError_to_string s
   | RE_RuntimeNotAvailable reason \<Rightarrow> ''runtime not available: '' @ reason)"

datatype ContractValue =
    CV_I32 "32 word" | CV_I64 "64 word" | CV_F32 "32 word" | CV_F64 "64 word"
  | CV_Bytes bytes | CV_String string | CV_Bool bool | CV_Void

record ExecutionOutcome =
  eo_return_value :: ContractValue
  eo_gas_used :: u64
  eo_success :: bool
  eo_error :: "string option"

definition Address_to_string :: "(bytes \<Rightarrow> string) \<Rightarrow> Address \<Rightarrow> string" where
  "Address_to_string hex a = ''grat:'' @ hex (address_bytes a)"

section \<open>The runtime interface\<close>

record 'r ContractRuntime =
  rt_load_contract :: "'r \<Rightarrow> Address \<Rightarrow> bytes \<Rightarrow> SandboxConfig \<Rightarrow> ((RuntimeError, unit) result \<times> 'r) option"
  rt_execute_contract :: "'r \<Rightarrow> Address \<Rightarrow> string \<Rightarrow> ContractValue list \<Rightarrow> GasMeter \<Rightarrow> HostEnvironment \<Rightarrow> ContractPermissions \<Rightarrow>
    ((RuntimeError, ExecutionOutcome) result \<times> 'r \<times> GasMeter \<times> HostEnvironment) option"
  rt_is_loaded :: "'r \<Rightarrow> Address \<Rightarrow> bool"
  rt_unload_contract :: "'r \<Rightarrow> Address \<Rightarrow> 'r"

section \<open>The mock runtime\<close>

record MockRuntime =
  mr_loaded_contracts :: "(Address, bytes) hashmap"
  mr_handlers :: "(Address \<times> string, ContractValue list \<Rightarrow> ContractValue) hashmap"

definition MockRuntime_new :: MockRuntime where
  "MockRuntime_new = \<lparr> mr_loaded_contracts = [], mr_handlers = [] \<rparr>"

definition register_handler :: "MockRuntime \<Rightarrow> Address \<Rightarrow> string \<Rightarrow> (ContractValue list \<Rightarrow> ContractValue) \<Rightarrow> MockRuntime" where
  "register_handler self contract_address function_name handler =
     self\<lparr>mr_handlers := AList.update (contract_address, function_name) handler (mr_handlers self)\<rparr>"

definition mock_load_contract ::
  "(bytes \<Rightarrow> bytes) \<Rightarrow> MockRuntime \<Rightarrow> Address \<Rightarrow> bytes \<Rightarrow> SandboxConfig \<Rightarrow> ((RuntimeError, unit) result \<times> MockRuntime) option" where
  "mock_load_contract sha256 self contract_address bytecode config =
     Some (case validate_bytecode bytecode config of
             Err e \<Rightarrow> (Err (RE_Sandbox e), self)
           | Ok _ \<Rightarrow> (Ok (), self\<lparr>mr_loaded_contracts := AList.update contract_address (sha256 bytecode) (mr_loaded_contracts self)\<rparr>))"

definition mock_execute_contract ::
  "(bytes \<Rightarrow> string) \<Rightarrow> MockRuntime \<Rightarrow> Address \<Rightarrow> string \<Rightarrow> ContractValue list \<Rightarrow> GasMeter \<Rightarrow> HostEnvironment \<Rightarrow> ContractPermissions \<Rightarrow>
     ((RuntimeError, ExecutionOutcome) result \<times> MockRuntime \<times> GasMeter \<times> HostEnvironment) option" where
  "mock_execute_contract hex self contract_address function_name args gas_meter host_env permissions =
     Some (if \<not> contains_key (mr_loaded_contracts self) contract_address
           then (Err (RE_ContractNotFound (Address_to_string hex contract_address)), self, gas_meter, host_env)
           else case charge_host_call gas_meter ''base_call'' of
             (Err e, gas_meter) \<Rightarrow> (Err (RE_Gas e), self, gas_meter, host_env)
           | (Ok _, gas_meter) \<Rightarrow>
               (Ok \<lparr> eo_return_value = (case map_of (mr_handlers self) (contract_address, function_name) of
                         Some handler \<Rightarrow> handler args | None \<Rightarrow> CV_Void),
                     eo_gas_used = gas_used gas_meter, eo_success = True, eo_error = None \<rparr>, self, gas_meter, host_env))"

definition mock_is_loaded :: "MockRuntime \<Rightarrow> Address \<Rightarrow> bool" where
  "mock_is_loaded self contract_address = contains_key (mr_loaded_contracts self) contract_address"

definition mock_unload_contract :: "MockRuntime \<Rightarrow> Address \<Rightarrow> MockRuntime" where
  "mock_unload_contract self contract_address =
     self\<lparr>mr_loaded_contracts := AList.delete contract_address (mr_loaded_contracts self),
          mr_handlers := filter (\<lambda>((addr, _), _). addr \<noteq> contract_address) (mr_handlers self)\<rparr>"

definition mock_runtime :: "(bytes \<Rightarrow> bytes) \<Rightarrow> (bytes \<Rightarrow> string) \<Rightarrow> MockRuntime ContractRuntime" where
  "mock_runtime sha256 hex = \<lparr> rt_load_contract = mock_load_contract sha256, rt_execute_contract = mock_execute_contract hex,
     rt_is_loaded = mock_is_loaded, rt_unload_contract = mock_unload_contract \<rparr>"

section \<open>The interpreter runtime\<close>

definition to_contract_value :: "Value \<Rightarrow> ContractValue" where
  "to_contract_value v = (case v of V_I32 x \<Rightarrow> CV_I32 x | V_I64 x \<Rightarrow> CV_I64 x | V_F32 x \<Rightarrow> CV_F32 x | V_F64 x \<Rightarrow> CV_F64 x)"

definition contract_value_to_value :: "ContractValue \<Rightarrow> Value" where
  "contract_value_to_value cv = (case cv of
     CV_I32 v \<Rightarrow> V_I32 v | CV_I64 v \<Rightarrow> V_I64 v | CV_F32 v \<Rightarrow> V_F32 v | CV_F64 v \<Rightarrow> V_F64 v
   | CV_Bool b \<Rightarrow> V_I32 (if b then 1 else 0) | _ \<Rightarrow> V_I32 0)"

record LoadedContract =
  lc_module :: WasmModule
  lc_globals :: "Value list"
  lc_memory :: bytes
  lc_bytecode_hash :: bytes

record InterpreterRuntime =
  ir_contracts :: "(Address, LoadedContract) hashmap"

definition InterpreterRuntime_new :: InterpreterRuntime where
  "InterpreterRuntime_new = \<lparr> ir_contracts = [] \<rparr>"

definition copy_segment :: "bytes \<Rightarrow> DataSegment \<Rightarrow> bytes" where
  "copy_segment memory seg =
     (if ds_offset seg + length (ds_data seg) \<le> length memory then write_memory (ds_offset seg) (ds_data seg) memory else memory)"

definition initial_memory :: "WasmModule \<Rightarrow> bytes" where
  "initial_memory wmod = foldl copy_segment (replicate (max (wm_memory_min_pages wmod) 1 * 65536) 0) (wm_data_segments wmod)"

text \<open>A parser panic aborts the load.\<close>
definition interp_load_contract ::
  "(bytes \<Rightarrow> bytes) \<Rightarrow> InterpreterRuntime \<Rightarrow> Address \<Rightarrow> bytes \<Rightarrow> SandboxConfig \<Rightarrow> ((RuntimeError, unit) result \<times> InterpreterRuntime) option" where
  "interp_load_contract sha256 self contract_address bytecode config =
     (case validate_bytecode bytecode config of
        Err e \<Rightarrow> Some (Err (RE_Sandbox e), self)
      | Ok _ \<Rightarrow>
          (case parse_module bytecode of
             Err e \<Rightarrow> if e = IE_Panic then None else Some (Err (RE_CompilationFailed (InterpError_to_string e)), self)
           | Ok wmod \<Rightarrow> Some (Ok (), self\<lparr>ir_contracts := AList.update contract_address
               \<lparr> lc_module = wmod, lc_globals = map wg_init_value (wm_globals wmod), lc_memory = initial_memory wmod,
                 lc_bytecode_hash = sha256 bytecode \<rparr> (ir_contracts self)\<rparr>)))"

definition find_export :: "WasmModule \<Rightarrow> string \<Rightarrow> WasmExport option" where
  "find_export wmod function_name = find (\<lambda>e. ex_name e = function_name \<and> ex_kind e = EK_Function) (wm_exports wmod)"

text \<open>Fuel for a call: more than the gas that is left can pay for.\<close>
definition longest_code :: "WasmModule \<Rightarrow> nat" where
  "longest_code wmod = fold max (map (\<lambda>f. length (wf_code f)) (wm_functions wmod)) 0"

definition call_fuel :: "WasmModule \<Rightarrow> GasMeter \<Rightarrow> nat" where
  "call_fuel wmod g = Suc ((gas_limit g - gas_used g + 1) * (longest_code wmod + 1))"

definition start_state :: "LoadedContract \<Rightarrow> GasMeter \<Rightarrow> HostEnvironment \<Rightarrow> Vm" where
  "start_state contract gas_meter host_env = \<lparr> vm_reader = Reader_new [], vm_stack = [], vm_locals = [], vm_globals = lc_globals contract,
     vm_memory = lc_memory contract, vm_gas = gas_meter, vm_host = host_env \<rparr>"

definition outcome_of :: "(InterpError, Value option) result \<Rightarrow> u64 \<Rightarrow> (RuntimeError, ExecutionOutcome) result option" where
  "outcome_of r used = (case r of
     Ok (Some val) \<Rightarrow> Some (Ok \<lparr> eo_return_value = to_contract_value val, eo_gas_used = used, eo_success = True, eo_error = None \<rparr>)
   | Ok None \<Rightarrow> Some (Ok \<lparr> eo_return_value = CV_Void, eo_gas_used = used, eo_success = True, eo_error = None \<rparr>)
   | Err e \<Rightarrow>
       (case e of
          IE_Gas gas_err \<Rightarrow> Some (Err (RE_Gas gas_err))
        | IE_Panic \<Rightarrow> None
        | IE_OutOfFuel \<Rightarrow> None
        | _ \<Rightarrow> Some (Ok \<lparr> eo_return_value = CV_Void, eo_gas_used = used, eo_success = False, eo_error = Some (InterpError_to_string e) \<rparr>)))"

definition interp_execute_contract ::
  "Fpu \<Rightarrow> (bytes \<Rightarrow> string) \<Rightarrow> InterpreterRuntime \<Rightarrow> Address \<Rightarrow> string \<Rightarrow> ContractValue list \<Rightarrow> GasMeter \<Rightarrow> HostEnvironment \<Rightarrow> ContractPermissions \<Rightarrow>
     ((RuntimeError, ExecutionOutcome) result \<times> InterpreterRuntime \<times> GasMeter \<times> HostEnvironment) option" where
  "interp_execute_contract fp hex self contract_address function_name args gas_meter host_env permissions =
     (case map_of (ir_contracts self) contract_address of
        None \<Rightarrow> Some (Err (RE_ContractNotFound (Address_to_string hex contract_address)), self, gas_meter, host_env)
      | Some contract \<Rightarrow>
          (let wmod = lc_module contract
           in case find_export wmod function_name of
                None \<Rightarrow> Some (Err (RE_FunctionNotFound function_name), self, gas_meter, host_env)
              | Some export \<Rightarrow>
                  (case charge_host_call gas_meter ''base_call'' of
                     (Err e, gas_meter) \<Rightarrow> Some (Err (RE_Gas e), self, gas_meter, host_env)
                   | (Ok _, gas_meter) \<Rightarrow>
                       (case execute_function wmod permissions (execute_block (call_fuel wmod gas_meter) fp wmod permissions) 0
                               (ex_index export) (map contract_value_to_value args) (start_state contract gas_meter host_env) of
                          (r, t) \<Rightarrow> map_option (\<lambda>outcome. (outcome,
                              self\<lparr>ir_contracts := AList.update contract_address
                                (contract\<lparr>lc_globals := vm_globals t, lc_memory := vm_memory t\<rparr>) (ir_contracts self)\<rparr>,
                              vm_gas t, vm_host t)) (outcome_of r (gas_used (vm_gas t)))))))"

definition interp_is_loaded :: "InterpreterRuntime \<Rightarrow> Address \<Rightarrow> bool" where
  "interp_is_loaded self contract_address = contains_key (ir_contracts self) contract_address"

definition interp_unload_contract :: "InterpreterRuntime \<Rightarrow> Address \<Rightarrow> InterpreterRuntime" where
  "interp_unload_contract self contract_address = self\<lparr>ir_contracts := AList.delete contract_address (ir_contracts self)\<rparr>"

definition interp_runtime :: "(bytes \<Rightarrow> bytes) \<Rightarrow> Fpu \<Rightarrow> (bytes \<Rightarrow> string) \<Rightarrow> InterpreterRuntime ContractRuntime" where
  "interp_runtime sha256 fp hex = \<lparr> rt_load_contract = interp_load_contract sha256, rt_execute_contract = interp_execute_contract fp hex,
     rt_is_loaded = interp_is_loaded, rt_unload_contract = interp_unload_contract \<rparr>"

section \<open>The virtual machine\<close>

record ContractCall =
  cc_caller :: Address
  cc_contract_address :: Address
  cc_function_name :: string
  cc_args :: "ContractValue list"
  cc_gas_limit :: Lux

record ExecutionResult =
  er_success :: bool
  er_return_value :: ContractValue
  er_gas_used :: Lux
  er_gas_remaining :: Lux
  er_events :: "ContractEvent list"
  er_error :: "string option"

record DeployedContract =
  dc_address :: Address
  dc_bytecode_hash :: bytes
  dc_bytecode :: bytes
  dc_permissions :: ContractPermissions

record 'r GratiaVm =
  gv_runtime :: 'r
  gv_sandbox_config :: SandboxConfig
  gv_contracts :: "(Address, DeployedContract) hashmap"

definition GratiaVm_new :: "'r \<Rightarrow> 'r GratiaVm" where
  "GratiaVm_new runtime = \<lparr> gv_runtime = runtime, gv_sandbox_config = SandboxConfig_default, gv_contracts = [] \<rparr>"

definition GratiaVm_with_config :: "'r \<Rightarrow> SandboxConfig \<Rightarrow> 'r GratiaVm" where
  "GratiaVm_with_config runtime config = \<lparr> gv_runtime = runtime, gv_sandbox_config = config, gv_contracts = [] \<rparr>"

definition contract_address_of :: "(bytes \<Rightarrow> bytes) \<Rightarrow> Address \<Rightarrow> bytes \<Rightarrow> Address" where
  "contract_address_of sha256 deployer bytecode =
     Address (sha256 (byte_string ''gratia-contract-v1:'' @ address_bytes deployer @ bytecode))"

definition deploy_contract ::
  "(bytes \<Rightarrow> bytes) \<Rightarrow> 'r ContractRuntime \<Rightarrow> 'r GratiaVm \<Rightarrow> Address \<Rightarrow> bytes \<Rightarrow> ContractPermissions \<Rightarrow>
     ((GratiaError, Address) result \<times> 'r GratiaVm) option" where
  "deploy_contract sha256 rt self deployer bytecode permissions =
     (case validate_bytecode bytecode (gv_sandbox_config self) of
        Err e \<Rightarrow> Some (Err (GE_Other (''contract bytecode validation failed: '' @ SandboxError_to_string e)), self)
      | Ok _ \<Rightarrow>
          (let contract_address = contract_address_of sha256 deployer bytecode;
               bytecode_hash = sha256 bytecode
           in case rt_load_contract rt (gv_runtime self) contract_address bytecode (gv_sandbox_config self) of
                None \<Rightarrow> None
              | Some (Err e, runtime) \<Rightarrow>
                  Some (Err (GE_Other (''contract compilation failed: '' @ RuntimeError_to_string e)), self\<lparr>gv_runtime := runtime\<rparr>)
              | Some (Ok _, runtime) \<Rightarrow>
                  Some (Ok contract_address, self\<lparr>gv_runtime := runtime, gv_contracts := AList.update contract_address
                    \<lparr> dc_address = contract_address, dc_bytecode_hash = bytecode_hash, dc_bytecode = bytecode, dc_permissions = permissions \<rparr>
                    (gv_contracts self)\<rparr>)))"

text \<open>The result a call reports for the outcome of the runtime.\<close>
definition call_result :: "(RuntimeError, ExecutionOutcome) result \<Rightarrow> GasMeter \<Rightarrow> ContractEvent list \<Rightarrow> ExecutionResult" where
  "call_result outcome gas_meter events = (case outcome of
     Ok o1 \<Rightarrow> \<lparr> er_success = eo_success o1, er_return_value = eo_return_value o1, er_gas_used = gas_used gas_meter,
       er_gas_remaining = gas_remaining gas_meter, er_events = events, er_error = eo_error o1 \<rparr>
   | Err (RE_Gas gas_err) \<Rightarrow> \<lparr> er_success = False, er_return_value = CV_Void, er_gas_used = gas_used gas_meter,
       er_gas_remaining = 0, er_events = [], er_error = Some (''out of gas: '' @ GasError_to_string gas_err) \<rparr>
   | Err e \<Rightarrow> \<lparr> er_success = False, er_return_value = CV_Void, er_gas_used = gas_used gas_meter,
       er_gas_remaining = gas_remaining gas_meter, er_events = [], er_error = Some (RuntimeError_to_string e) \<rparr>)"

definition ensure_loaded :: "'r ContractRuntime \<Rightarrow> 'r GratiaVm \<Rightarrow> Address \<Rightarrow> bytes \<Rightarrow> ((GratiaError, unit) result \<times> 'r GratiaVm) option" where
  "ensure_loaded rt self contract_address bytecode =
     (if rt_is_loaded rt (gv_runtime self) contract_address then Some (Ok (), self)
      else case rt_load_contract rt (gv_runtime self) contract_address bytecode (gv_sandbox_config self) of
        None \<Rightarrow> None
      | Some (Err e, runtime) \<Rightarrow> Some (Err (GE_Other (''failed to reload contract: '' @ RuntimeError_to_string e)), self\<lparr>gv_runtime := runtime\<rparr>)
      | Some (Ok _, runtime) \<Rightarrow> Some (Ok (), self\<lparr>gv_runtime := runtime\<rparr>))"

definition call_contract ::
  "(bytes \<Rightarrow> string) \<Rightarrow> 'r ContractRuntime \<Rightarrow> 'r GratiaVm \<Rightarrow> ContractCall \<Rightarrow> HostEnvironment \<Rightarrow>
     ((GratiaError, ExecutionResult) result \<times> 'r GratiaVm \<times> HostEnvironment) option" where
  "call_contract hex rt self call host_env =
     (case map_of (gv_contracts self) (cc_contract_address call) of
        None \<Rightarrow> Some (Err (GE_Other (''contract not found: '' @ Address_to_string hex (cc_contract_address call))), self, host_env)
      | Some contract \<Rightarrow>
          (case ensure_loaded rt self (cc_contract_address call) (dc_bytecode contract) of
             None \<Rightarrow> None
           | Some (Err e, self) \<Rightarrow> Some (Err e, self, host_env)
           | Some (Ok _, self) \<Rightarrow>
               (case rt_execute_contract rt (gv_runtime self) (cc_contract_address call) (cc_function_name call) (cc_args call)
                       (GasMeter_new (cc_gas_limit call)) host_env (dc_permissions contract) of
                  None \<Rightarrow> None
                | Some (outcome, runtime, gas_meter, host_env) \<Rightarrow>
                    (case take_events host_env of
                       (events, host_env) \<Rightarrow> Some (Ok (call_result outcome gas_meter events), self\<lparr>gv_runtime := runtime\<rparr>, host_env)))))"

definition is_deployed :: "'r GratiaVm \<Rightarrow> Address \<Rightarrow> bool" where
  "is_deployed self addr = contains_key (gv_contracts self) addr"

definition contract_bytecode_hash :: "'r GratiaVm \<Rightarrow> Address \<Rightarrow> bytes option" where
  "contract_bytecode_hash self addr = map_option dc_bytecode_hash (map_of (gv_contracts self) addr)"

definition contract_permissions :: "'r GratiaVm \<Rightarrow> Address \<Rightarrow> ContractPermissions option" where
  "contract_permissions self addr = map_option dc_permissions (map_of (gv_contracts self) addr)"

end
