(* ===== verification/Vm_Calls.thy ===== *)
theory Vm_Calls
  imports Vm_Runtime
begin

text \<open>
  Contract calls from end to end. The interface of a contract runtime and what the virtual machine
  promises over any runtime that keeps it; the mock runtime and the interpreter both do. Then the
  interpreter in detail: privacy of what a contract may not read, and where limits and prices of the
  sandbox are not applied.
\<close>

section \<open>What a runtime promises\<close>

definition loads :: "'r ContractRuntime \<Rightarrow> 'r \<Rightarrow> Address \<Rightarrow> bytes \<Rightarrow> SandboxConfig \<Rightarrow> bool" where
  "loads rt r a bc config = (case rt_load_contract rt r a bc config of Some (Ok _, _) \<Rightarrow> True | _ \<Rightarrow> False)"

text \<open>The runtime is in order and every deployed contract can be loaded again.\<close>
definition deployed_ok :: "'r ContractRuntime \<Rightarrow> ('r \<Rightarrow> bool) \<Rightarrow> 'r GratiaVm \<Rightarrow> bool" where
  "deployed_ok rt ok v \<longleftrightarrow> ok (gv_runtime v) \<and> (\<forall>(a, c) \<in> set (gv_contracts v). loads rt (gv_runtime v) a (dc_bytecode c) (gv_sandbox_config v))"

lemma loads_iff: "loads rt r a bc config \<longleftrightarrow> (\<exists>r'. rt_load_contract rt r a bc config = Some (Ok (), r'))"
  by (auto simp: loads_def split: option.splits prod.splits sum.splits)

text \<open>The states a virtual machine reaches by deployments, calls and evictions of its runtime.\<close>
inductive vm_reach :: "(bytes \<Rightarrow> bytes) \<Rightarrow> (bytes \<Rightarrow> string) \<Rightarrow> 'r ContractRuntime \<Rightarrow> 'r GratiaVm \<Rightarrow> 'r GratiaVm \<Rightarrow> bool"
  for sha256 hex rt v0 where
    reach_start: "vm_reach sha256 hex rt v0 v0"
  | reach_deploy: "vm_reach sha256 hex rt v0 v \<Longrightarrow> deploy_contract sha256 rt v deployer bytecode perms = Some (res, v') \<Longrightarrow> vm_reach sha256 hex rt v0 v'"
  | reach_call: "vm_reach sha256 hex rt v0 v \<Longrightarrow> call_contract hex rt v call h = Some (out, v', h') \<Longrightarrow> vm_reach sha256 hex rt v0 v'"
  | reach_unload: "vm_reach sha256 hex rt v0 v \<Longrightarrow> vm_reach sha256 hex rt v0 (v\<lparr>gv_runtime := rt_unload_contract rt (gv_runtime v) a\<rparr>)"

locale contract_runtime =
  fixes rt :: "'r ContractRuntime" and ok :: "'r \<Rightarrow> bool"
  assumes load_ok: "ok r \<Longrightarrow> rt_load_contract rt r a bc config = Some (res, r') \<Longrightarrow> ok r'"
    and load_again: "loads rt r a bc config \<Longrightarrow> loads rt q b bc config"
    and unload_ok: "ok r \<Longrightarrow> ok (rt_unload_contract rt r a)"
    and runs: "ok r \<Longrightarrow> gas_ok g \<Longrightarrow> positive_costs (gas_costs g) \<Longrightarrow>
      \<exists>res r' g' h'. rt_execute_contract rt r a f args g h perms = Some (res, r', g', h') \<and> ok r' \<and> gas_step g g' \<and> host_step h h'"
begin

lemma deployed_runtime: "deployed_ok rt ok v \<Longrightarrow> ok r \<Longrightarrow> deployed_ok rt ok (v\<lparr>gv_runtime := r\<rparr>)"
  using load_again by (auto simp: deployed_ok_def)

lemma deploy_keeps:
  assumes "deployed_ok rt ok v" "deploy_contract sha256 rt v deployer bc perms = Some (res, v')"
  shows "deployed_ok rt ok v'"
proof (cases "validate_bytecode bc (gv_sandbox_config v)")
  case (Inl e)
  then show ?thesis using assms by (simp add: deploy_contract_def)
next
  case (Inr u)
  let ?a = "contract_address_of sha256 deployer bc"
  obtain r r' where load: "rt_load_contract rt (gv_runtime v) ?a bc (gv_sandbox_config v) = Some (r, r')"
    using assms(2) Inr by (auto simp: deploy_contract_def Let_def split: option.splits)
  have ok: "ok r'" using load_ok [OF _ load] assms(1) by (simp add: deployed_ok_def)
  have kept: "deployed_ok rt ok (v\<lparr>gv_runtime := r'\<rparr>)" by (rule deployed_runtime [OF assms(1) ok])
  show ?thesis
  proof (cases r)
    case (Inl e)
    then show ?thesis using assms(2) \<open>validate_bytecode _ _ = Inr u\<close> load kept by (simp add: deploy_contract_def)
  next
    case (Inr w)
    with load have again: "loads rt r' ?a bc (gv_sandbox_config v)" using load_again [of "gv_runtime v" ?a] by (auto simp: loads_iff)
    have "set (AList.update ?a c cs) \<subseteq> insert (?a, c) (set cs)" for c :: DeployedContract and cs
      by (induction cs) auto
    then show ?thesis
      using assms(2) \<open>validate_bytecode _ _ = Inr u\<close> load kept again Inr by (fastforce simp: deploy_contract_def deployed_ok_def Let_def)
  qed
qed

lemma ensure_loaded_ok:
  assumes "deployed_ok rt ok v" "map_of (gv_contracts v) a = Some c"
  shows "\<exists>r. ensure_loaded rt v a (dc_bytecode c) = Some (Ok (), v\<lparr>gv_runtime := r\<rparr>) \<and> ok r"
proof (cases "rt_is_loaded rt (gv_runtime v) a")
  case True
  then show ?thesis using assms(1) by (intro exI [of _ "gv_runtime v"]) (simp add: ensure_loaded_def deployed_ok_def)
next
  case False
  have "(a, c) \<in> set (gv_contracts v)" using assms(2) by (rule map_of_SomeD)
  then obtain q where load: "rt_load_contract rt (gv_runtime v) a (dc_bytecode c) (gv_sandbox_config v) = Some (Ok (), q)"
    using assms(1) by (auto simp: deployed_ok_def loads_iff)
  then show ?thesis using False load_ok [OF _ load] assms(1) by (auto simp: ensure_loaded_def deployed_ok_def)
qed

lemma call_returns:
  assumes "deployed_ok rt ok v" "is_deployed v (cc_contract_address call)"
  shows "\<exists>res v' h'. call_contract hex rt v call h = Some (Ok res, v', h') \<and> deployed_ok rt ok v' \<and> gv_contracts v' = gv_contracts v
     \<and> er_gas_used res + er_gas_remaining res \<le> min (cc_gas_limit call) MAX_GAS_LIMIT
     \<and> h' = h\<lparr>he_storage := he_storage h', he_events := []\<rparr>"
proof -
  let ?g = "GasMeter_new (cc_gas_limit call)"
  obtain c where c: "map_of (gv_contracts v) (cc_contract_address call) = Some c"
    using assms(2) by (auto simp: is_deployed_def contains_key_def)
  obtain r where r: "ensure_loaded rt v (cc_contract_address call) (dc_bytecode c) = Some (Ok (), v\<lparr>gv_runtime := r\<rparr>)" "ok r"
    using ensure_loaded_ok [OF assms(1) c] by blast
  have "positive_costs (gas_costs ?g)" by (simp add: GasMeter_new_def positive_costs_def GasCosts_default_def)
  from runs [OF r(2) gas_new_ok(1) this] obtain res r' g' h' where run: "ok r'" "gas_step ?g g'" "host_step h h'"
    "rt_execute_contract rt r (cc_contract_address call) (cc_function_name call) (cc_args call) ?g h (dc_permissions c) = Some (res, r', g', h')"
    by blast
  have g: "gas_used g' \<le> gas_limit g'" "gas_limit g' = min (cc_gas_limit call) MAX_GAS_LIMIT"
    using run(2) gas_new_ok(1) by (auto simp: gas_step_def gas_ok_def GasMeter_new_def)
  have "er_gas_used (call_result res g' evs) = gas_used g' \<and> er_gas_remaining (call_result res g' evs) \<le> gas_limit g' - gas_used g'" for evs
    by (auto simp: call_result_def gas_remaining_def saturating_sub_def split: sum.splits RuntimeError.splits)
  then have "er_gas_used (call_result res g' evs) + er_gas_remaining (call_result res g' evs) \<le> min (cc_gas_limit call) MAX_GAS_LIMIT" for evs
    using g by (metis add_le_cancel_left le_add_diff_inverse)
  moreover have "deployed_ok rt ok (v\<lparr>gv_runtime := r'\<rparr>)" by (rule deployed_runtime [OF assms(1) run(1)])
  moreover have "h'\<lparr>he_events := []\<rparr> = h\<lparr>he_storage := he_storage h', he_events := []\<rparr>" using run(3) by (auto simp: host_step_def)
  ultimately show ?thesis using c r(1) run(4) by (simp add: call_contract_def take_events_def)
qed

lemma call_keeps:
  assumes "deployed_ok rt ok v" "call_contract hex rt v call h = Some (out, v', h')"
  shows "deployed_ok rt ok v'"
proof (cases "is_deployed v (cc_contract_address call)")
  case True
  from call_returns [OF assms(1) this, of hex h] assms(2) show ?thesis by auto
next
  case False
  then show ?thesis using assms by (simp add: call_contract_def is_deployed_def contains_key_def)
qed

lemma reach_ok: "vm_reach sha256 hex rt v0 v \<Longrightarrow> deployed_ok rt ok v0 \<Longrightarrow> deployed_ok rt ok v"
proof (induction rule: vm_reach.induct)
  case (reach_deploy v deployer bytecode perms res v')
  then show ?case using deploy_keeps by blast
next
  case (reach_call v call h out v' h')
  then show ?case using call_keeps by blast
next
  case (reach_unload v a)
  then have "ok (gv_runtime v)" by (simp add: deployed_ok_def)
  then show ?case using reach_unload deployed_runtime unload_ok by blast
qed

end

section \<open>The mock runtime\<close>

lemma charge_result: "charge g n = (r, g') \<Longrightarrow> gas_step g g'"
  using charge_step [of g n] by simp

interpretation mock: contract_runtime "mock_runtime sha256 hex" "\<lambda>_. True"
proof
  show "loads (mock_runtime sha256 hex) q b bc config" if "loads (mock_runtime sha256 hex) r a bc config" for r a bc config q b
    using that by (simp add: loads_def mock_runtime_def mock_load_contract_def split: sum.splits)
  show "\<exists>res r' g' h'. rt_execute_contract (mock_runtime sha256 hex) r a f args g h perms = Some (res, r', g', h') \<and> True
      \<and> gas_step g g' \<and> host_step h h'" for r a f args g h perms
    using charge_result by (auto simp: mock_runtime_def mock_execute_contract_def charge_host_call_def split: prod.splits sum.splits)
qed simp_all

section \<open>The interpreter\<close>

definition interp_ok :: "InterpreterRuntime \<Rightarrow> bool" where
  "interp_ok r \<longleftrightarrow> (\<forall>(a, c) \<in> set (ir_contracts r). imports_ok (lc_module c))"

lemma update_subset: "set (AList.update k v m) \<subseteq> insert (k, v) (set m)"
  by (induction m) auto

lemma delete_subset: "set (AList.delete k m) \<subseteq> set m"
  by (simp add: AList.delete_eq)

lemma interp_ok_update: "interp_ok r \<Longrightarrow> imports_ok (lc_module c) \<Longrightarrow> interp_ok (r\<lparr>ir_contracts := AList.update a c (ir_contracts r)\<rparr>)"
  using update_subset [of a c "ir_contracts r"] by (fastforce simp: interp_ok_def)

lemma longest_code_bound: "code_bound (longest_code wmod) wmod"
proof -
  have "k \<le> fold max ns k \<and> (\<forall>n \<in> set ns. n \<le> fold max ns k)" for ns and k :: nat
  proof (induction ns arbitrary: k)
    case (Cons n ns)
    from Cons [of "max n k"] show ?case by auto
  qed simp
  then show ?thesis by (simp add: code_bound_def longest_code_def)
qed

text \<open>The fuel of a call is enough, and any larger amount gives the same result.\<close>
lemma call_fuel_enough:
  assumes "gas_ok (vm_gas s)" "positive_costs (gas_costs (vm_gas s))" "n \<ge> call_fuel wmod (vm_gas s)"
  shows "ends (execute_function wmod perms (execute_block n fp wmod perms) depth i args) s"
proof (rule ends_execute_function)
  let ?L = "longest_code wmod"
  fix func ft assume func: "func \<in> set (wm_functions wmod)"
  then have code: "length (wf_code func) \<le> ?L" using longest_code_bound by (auto simp: code_bound_def)
  let ?t = "callee_frame ft func args s"
  have "metered ?L ?t" using assms code by (simp add: metered_def callee_frame_def Reader_new_def)
  moreover have "budget ?L ?t < n"
    using code assms(3) by (simp add: budget_def gas_left_def rest_def callee_frame_def Reader_new_def call_fuel_def algebra_simps)
  ultimately show "ends (execute_block n fp wmod perms depth) ?t" by (rule execute_block_ends [OF longest_code_bound])
qed

lemma outcome_of_some: "r \<noteq> Err IE_Panic \<Longrightarrow> r \<noteq> Err IE_OutOfFuel \<Longrightarrow> \<exists>res. outcome_of r used = Some res"
  by (auto simp: outcome_of_def split: sum.splits option.splits InterpError.splits)

lemma interp_runs:
  assumes "interp_ok r" "gas_ok g" "positive_costs (gas_costs g)"
  shows "\<exists>res r' g' h'. interp_execute_contract fp hex r a f args g h perms = Some (res, r', g', h') \<and> interp_ok r' \<and> gas_step g g' \<and> host_step h h'"
proof (cases "map_of (ir_contracts r) a")
  case None
  then show ?thesis using assms by (simp add: interp_execute_contract_def)
next
  case (Some c)
  let ?m = "lc_module c"
  have imp: "imports_ok ?m" using assms(1) map_of_SomeD [OF Some] by (auto simp: interp_ok_def)
  show ?thesis
  proof (cases "find_export ?m f")
    case None
    then show ?thesis using Some assms by (simp add: interp_execute_contract_def)
  next
    case (Some ex)
    obtain u g1 where ch: "charge_host_call g ''base_call'' = (u, g1)" by fastforce
    have g1: "gas_step g g1" using charge_result ch by (simp add: charge_host_call_def)
    show ?thesis
    proof (cases u)
      case (Inl e)
      then show ?thesis using ch g1 Some \<open>map_of _ a = _\<close> assms by (simp add: interp_execute_contract_def)
    next
      case (Inr w)
      let ?s = "start_state c g1 h"
      let ?run = "execute_function ?m perms (execute_block (call_fuel ?m g1) fp ?m perms) 0 (ex_index ex) (map contract_value_to_value args)"
      obtain x t where run: "?run ?s = (x, t)" by fastforce
      have "gas_ok g1" "positive_costs (gas_costs g1)" using g1 assms by (auto simp: gas_step_def)
      then have "ends ?run ?s" by (intro call_fuel_enough) (simp_all add: start_state_def)
      then have "x \<noteq> Err IE_OutOfFuel" using run by (simp add: ends_def)
      moreover have "errs safe ?run" by (intro safe_execute_function execute_block_safe imp)
      then have "x \<noteq> Err IE_Panic" using errsD [of safe ?run ?s IE_Panic t] run by (auto simp: safe_def)
      ultimately obtain res where res: "outcome_of x (gas_used (vm_gas t)) = Some res" using outcome_of_some by blast
      have "vm_step ?s t" using related_stepD [OF execute_function_step run] .
      then have "gas_step g1 (vm_gas t)" "host_step h (vm_host t)" by (simp_all add: vm_step_def start_state_def)
      moreover have "interp_ok (r\<lparr>ir_contracts := AList.update a (c\<lparr>lc_globals := vm_globals t, lc_memory := vm_memory t\<rparr>) (ir_contracts r)\<rparr>)"
        using assms(1) imp by (intro interp_ok_update) simp_all
      ultimately show ?thesis
        using ch Inr run res Some \<open>map_of _ a = _\<close> gas_step_trans [OF g1] by (simp add: interp_execute_contract_def Let_def)
    qed
  qed
qed

interpretation interp: contract_runtime "interp_runtime sha256 fp hex" interp_ok
proof
  show "interp_ok r'" if "interp_ok r" "rt_load_contract (interp_runtime sha256 fp hex) r a bc config = Some (res, r')" for r a bc config res r'
    using that interp_ok_update parse_module_imports
    by (auto simp: interp_runtime_def interp_load_contract_def split: sum.splits if_splits)
  show "loads (interp_runtime sha256 fp hex) q b bc config" if "loads (interp_runtime sha256 fp hex) r a bc config" for r a bc config q b
    using that by (auto simp: loads_def interp_runtime_def interp_load_contract_def split: sum.splits if_splits)
  show "interp_ok (rt_unload_contract (interp_runtime sha256 fp hex) r a)" if "interp_ok r" for r a
    using that delete_subset [of a "ir_contracts r"] by (auto simp: interp_ok_def interp_runtime_def interp_unload_contract_def)
  show "\<exists>res r' g' h'. rt_execute_contract (interp_runtime sha256 fp hex) r a f args g h perms = Some (res, r', g', h') \<and> interp_ok r'
      \<and> gas_step g g' \<and> host_step h h'" if "interp_ok r" "gas_ok g" "positive_costs (gas_costs g)" for r a f args g h perms
    using interp_runs [OF that] by (simp add: interp_runtime_def)
qed

section \<open>Privacy of a call\<close>

definition view :: "ContractPermissions \<Rightarrow> 'a \<times> 'b \<times> 'c \<times> HostEnvironment \<Rightarrow> 'a \<times> 'b \<times> 'c \<times> HostEnvironment" where
  "view perms = (\<lambda>(a, b, c, h). (a, b, c, hide perms h))"

lemma start_state_hide: "start_state c g (hide perms h) = host_map (hide perms) (start_state c g h)"
  by (simp add: start_state_def host_map_def)

lemma interp_execute_hides:
  "interp_execute_contract fp hex r a f args g (hide perms h) perms = map_option (view perms) (interp_execute_contract fp hex r a f args g h perms)"
proof -
  have run: "execute_function m perms (execute_block n fp m perms) 0 i vs (start_state c g' (hide perms h)) =
      apsnd (host_map (hide perms)) (execute_function m perms (execute_block n fp m perms) 0 i vs (start_state c g' h))" for m n i vs c g'
    using execute_function_blind [of perms m n fp 0 i vs] by (simp add: blind_def start_state_hide)
  show ?thesis
    by (simp add: interp_execute_contract_def run view_def Let_def option.map_comp comp_def split: option.split prod.split sum.split)
qed

section \<open>Properties\<close>

lemma fresh_deployed: "deployed_ok rt ok (GratiaVm_with_config r config) \<longleftrightarrow> ok r"
  by (simp add: deployed_ok_def GratiaVm_with_config_def)

lemma interp_reach_ok:
  "vm_reach sha256 hex (interp_runtime sha256 fp hex) (GratiaVm_with_config InterpreterRuntime_new config) v \<Longrightarrow>
     deployed_ok (interp_runtime sha256 fp hex) interp_ok v"
  by (rule interp.reach_ok) (auto simp: fresh_deployed interp_ok_def InterpreterRuntime_new_def)

text \<open>C30: Every call of a deployed contract comes back. After any sequence of deployments, calls and
  evictions of a virtual machine over the interpreter, with one sandbox configuration, a call of a
  deployed contract neither runs for ever nor panics, whatever its bytecode: it returns a result, the
  gas used and the gas left together stay within the limit of the call and the maximum of an
  execution, the set of contracts stays, and of the host environment only the storage changes, the
  events being handed out. Allocations are taken to succeed and the native stack to be deep enough
  for the nesting of blocks and calls.\<close>

theorem deployed_calls_return:
  assumes "vm_reach sha256 hex (interp_runtime sha256 fp hex) (GratiaVm_with_config InterpreterRuntime_new config) v"
    and "is_deployed v (cc_contract_address call)"
  shows "\<exists>res v' h'. call_contract hex (interp_runtime sha256 fp hex) v call h = Some (Ok res, v', h')
     \<and> gv_contracts v' = gv_contracts v
     \<and> er_gas_used res + er_gas_remaining res \<le> min (cc_gas_limit call) MAX_GAS_LIMIT
     \<and> h' = h\<lparr>he_storage := he_storage h', he_events := []\<rparr>"
  using interp.call_returns [OF interp_reach_ok [OF assms(1)] assms(2), of hex h] by blast

text \<open>A module with a header and no sections.\<close>
definition empty_bytecode :: bytes where
  "empty_bytecode = [0x00, 0x61, 0x73, 0x6D, 1, 0, 0, 0]"

lemma empty_parses: "\<exists>wmod. parse_module empty_bytecode = Ok wmod"
  by (simp add: parse_module_def empty_bytecode_def andThen_def read_bytes_def Reader_new_def rd_remaining_def saturating_sub_def)

lemma empty_valid: "validate_bytecode empty_bytecode SandboxConfig_default = Ok ()"
  by (simp add: validate_bytecode_def empty_bytecode_def SandboxConfig_default_def of_le_bytes_def)

theorem deployed_calls_return_witness:
  "\<forall>fp hex. \<exists>v a res v' h'. deploy_contract (\<lambda>_. replicate 32 0) (interp_runtime (\<lambda>_. replicate 32 0) fp hex)
       (GratiaVm_with_config InterpreterRuntime_new SandboxConfig_default) (Address []) empty_bytecode ContractPermissions_default = Some (Ok a, v)
     \<and> call_contract hex (interp_runtime (\<lambda>_. replicate 32 0) fp hex) v
         \<lparr> cc_caller = Address [], cc_contract_address = a, cc_function_name = ''f'', cc_args = [], cc_gas_limit = 1000 \<rparr>
         (HostEnvironment_new 1 1 (Address []) 0) = Some (Ok res, v', h')
     \<and> er_gas_used res + er_gas_remaining res \<le> 1000"
proof (intro allI)
  fix fp hex
  let ?sha = "\<lambda>_ :: bytes. replicate 32 0 :: bytes" and ?v0 = "GratiaVm_with_config InterpreterRuntime_new SandboxConfig_default"
  let ?rt = "interp_runtime ?sha fp hex"
  obtain wmod where wmod: "parse_module empty_bytecode = Ok wmod" using empty_parses by blast
  obtain a v where dep: "deploy_contract ?sha ?rt ?v0 (Address []) empty_bytecode ContractPermissions_default = Some (Ok a, v)"
    and is_dep: "is_deployed v a"
    by (simp add: deploy_contract_def GratiaVm_with_config_def empty_valid interp_runtime_def interp_load_contract_def wmod
        is_deployed_def contains_key_def Let_def)
  let ?call = "\<lparr> cc_caller = Address [], cc_contract_address = a, cc_function_name = ''f'', cc_args = [], cc_gas_limit = 1000 \<rparr>"
  have "vm_reach ?sha hex ?rt ?v0 v" by (rule reach_deploy [OF reach_start dep])
  from deployed_calls_return [OF this, of ?call "HostEnvironment_new 1 1 (Address []) 0"] is_dep dep
  show "\<exists>v a res v' h'. deploy_contract ?sha ?rt ?v0 (Address []) empty_bytecode ContractPermissions_default = Some (Ok a, v)
     \<and> call_contract hex ?rt v \<lparr> cc_caller = Address [], cc_contract_address = a, cc_function_name = ''f'', cc_args = [], cc_gas_limit = 1000 \<rparr>
         (HostEnvironment_new 1 1 (Address []) 0) = Some (Ok res, v', h')
     \<and> er_gas_used res + er_gas_remaining res \<le> 1000"
    by auto
qed

lemma hide_no_events: "hide perms (h\<lparr>he_events := es\<rparr>) = (hide perms h)\<lparr>he_events := es\<rparr>"
  by (simp add: hide_def)

lemma call_contract_hides:
  assumes "map_of (gv_contracts v) (cc_contract_address call) = Some c"
  shows "call_contract hex (interp_runtime sha256 fp hex) v call (hide (dc_permissions c) h) =
    map_option (\<lambda>(res, v', h'). (res, v', hide (dc_permissions c) h')) (call_contract hex (interp_runtime sha256 fp hex) v call h)"
  using assms
  by (simp add: call_contract_def interp_runtime_def interp_execute_hides view_def take_events_def hide_no_events option.map_comp comp_def
      split: option.split prod.split sum.split)

text \<open>C31: A contract learns nothing it has no permission for. Two host environments that agree on what the
  permissions of the deployed contract allow it to see, whatever the location, the peers, the presence
  score and the sensor readings behind a missing permission, give the same result of a call: return
  value, gas, events and error, the same state of the virtual machine and of all contracts, and
  environments that again agree, the storage included.\<close>

theorem hidden_data_cannot_leak:
  assumes "map_of (gv_contracts v) (cc_contract_address call) = Some c"
    and "hide (dc_permissions c) h1 = hide (dc_permissions c) h2"
  shows "case (call_contract hex (interp_runtime sha256 fp hex) v call h1, call_contract hex (interp_runtime sha256 fp hex) v call h2) of
      (Some (res1, v1, k1), Some (res2, v2, k2)) \<Rightarrow> res1 = res2 \<and> v1 = v2 \<and> hide (dc_permissions c) k1 = hide (dc_permissions c) k2
        \<and> he_storage k1 = he_storage k2
    | (None, None) \<Rightarrow> True | _ \<Rightarrow> False"
proof -
  have "map_option (\<lambda>(res, v', h'). (res, v', hide (dc_permissions c) h')) (call_contract hex (interp_runtime sha256 fp hex) v call h1)
      = map_option (\<lambda>(res, v', h'). (res, v', hide (dc_permissions c) h')) (call_contract hex (interp_runtime sha256 fp hex) v call h2)"
    unfolding call_contract_hides [OF assms(1), symmetric] assms(2) ..
  then show ?thesis by (auto split: option.splits prod.splits) (metis hide_sel(5))
qed

text \<open>A virtual machine that holds the given module at an address, with no permissions.\<close>
definition sample_vm :: "WasmModule \<Rightarrow> InterpreterRuntime GratiaVm" where
  "sample_vm wmod = \<lparr> gv_runtime = \<lparr> ir_contracts = [(Address [1], \<lparr> lc_module = wmod, lc_globals = [], lc_memory = [], lc_bytecode_hash = [] \<rparr>)] \<rparr>,
     gv_sandbox_config = SandboxConfig_default,
     gv_contracts = [(Address [1], \<lparr> dc_address = Address [1], dc_bytecode_hash = [], dc_bytecode = [], dc_permissions = ContractPermissions_default \<rparr>)] \<rparr>"

definition sample_call :: ContractCall where
  "sample_call = \<lparr> cc_caller = Address [], cc_contract_address = Address [1], cc_function_name = ''f'', cc_args = [], cc_gas_limit = 1000 \<rparr>"

theorem hidden_data_cannot_leak_witness:
  "\<forall>fp hex sha256 wmod. fst (the (call_contract hex (interp_runtime sha256 fp hex) (sample_vm wmod) sample_call
       (with_location (HostEnvironment_new 1 1 (Address []) 0) (5, 6)))) =
     fst (the (call_contract hex (interp_runtime sha256 fp hex) (sample_vm wmod) sample_call (HostEnvironment_new 1 1 (Address []) 0)))"
proof (intro allI)
  fix fp hex sha256 wmod
  have c: "map_of (gv_contracts (sample_vm wmod)) (cc_contract_address sample_call) =
      Some \<lparr> dc_address = Address [1], dc_bytecode_hash = [], dc_bytecode = [], dc_permissions = ContractPermissions_default \<rparr>"
    by (simp add: sample_vm_def sample_call_def)
  have "hide ContractPermissions_default (with_location (HostEnvironment_new 1 1 (Address []) 0) (5, 6)) =
      hide ContractPermissions_default (HostEnvironment_new 1 1 (Address []) 0)"
    by (simp add: hide_def with_location_def ContractPermissions_default_def)
  then have "hide (dc_permissions \<lparr> dc_address = Address [1], dc_bytecode_hash = [], dc_bytecode = [], dc_permissions = ContractPermissions_default \<rparr>)
        (with_location (HostEnvironment_new 1 1 (Address []) 0) (5, 6)) =
      hide (dc_permissions \<lparr> dc_address = Address [1], dc_bytecode_hash = [], dc_bytecode = [], dc_permissions = ContractPermissions_default \<rparr>)
        (HostEnvironment_new 1 1 (Address []) 0)" by simp
  from hidden_data_cannot_leak [OF c this, of hex sha256 fp]
  show "fst (the (call_contract hex (interp_runtime sha256 fp hex) (sample_vm wmod) sample_call
       (with_location (HostEnvironment_new 1 1 (Address []) 0) (5, 6)))) =
     fst (the (call_contract hex (interp_runtime sha256 fp hex) (sample_vm wmod) sample_call (HostEnvironment_new 1 1 (Address []) 0)))"
    by (auto split: option.splits prod.splits)
qed

text \<open>C40: A failed call is not undone. When the code of a contract traps, with whatever fuel the trap is
  reached and for whatever contract, the call reports a failure and yet hands out the events emitted
  before the trap, leaves the storage in the host environment as the interrupted execution left it,
  and keeps its global variables and memory for the next call.\<close>

theorem failed_call_keeps_effects:
  assumes "map_of (gv_contracts v) a = Some c" "map_of (ir_contracts (gv_runtime v)) a = Some lc"
    and "find_export (lc_module lc) f = Some ex" "charge_host_call (GasMeter_new limit) ''base_call'' = (Ok (), g)"
    and "execute_function (lc_module lc) (dc_permissions c) (execute_block n fp (lc_module lc) (dc_permissions c)) 0
           (ex_index ex) (map contract_value_to_value args) (start_state lc g h) = (Err e, t)"
    and "\<forall>x. e \<noteq> IE_Gas x" "e \<noteq> IE_Panic" "e \<noteq> IE_OutOfFuel"
  shows "\<exists>res v'. call_contract hex (interp_runtime sha256 fp hex) v
        \<lparr> cc_caller = caller, cc_contract_address = a, cc_function_name = f, cc_args = args, cc_gas_limit = limit \<rparr> h
        = Some (Ok res, v', (vm_host t)\<lparr>he_events := []\<rparr>)
     \<and> \<not> er_success res \<and> er_events res = he_events (vm_host t)
     \<and> map_of (ir_contracts (gv_runtime v')) a = Some (lc\<lparr>lc_globals := vm_globals t, lc_memory := vm_memory t\<rparr>)"
proof -
  let ?m = "lc_module lc" and ?p = "dc_permissions c" and ?args = "map contract_value_to_value args"
  let ?run = "\<lambda>k. execute_function ?m ?p (execute_block k fp ?m ?p) 0 (ex_index ex) ?args (start_state lc g h)"
  have "gas_ok g" "positive_costs (gas_costs g)"
    using charge_result [of "GasMeter_new limit"] assms(4) gas_new_ok(1) [of limit]
    by (auto simp: charge_host_call_def gas_step_def GasMeter_new_def positive_costs_def GasCosts_default_def)
  then have "fst (?run (call_fuel ?m g)) \<noteq> Err IE_OutOfFuel"
    using call_fuel_enough [of "start_state lc g h" ?m "call_fuel ?m g" ?p fp 0 "ex_index ex" ?args]
    by (simp add: ends_def start_state_def)
  then have "?run (max n (call_fuel ?m g)) = ?run (call_fuel ?m g)"
    using execute_function_extends [of "call_fuel ?m g" "max n (call_fuel ?m g)"] unfolding extends_def by (metis max.cobounded2)
  moreover have "?run (max n (call_fuel ?m g)) = (Err e, t)"
    using execute_function_extends [of n "max n (call_fuel ?m g)"] assms(5,8) unfolding extends_def
    by (metis (no_types, lifting) max.cobounded1 fst_conv sum.inject(1))
  ultimately have run: "?run (call_fuel ?m g) = (Err e, t)" by simp
  have out: "outcome_of (Err e) used = Some (Ok \<lparr> eo_return_value = CV_Void, eo_gas_used = used, eo_success = False,
      eo_error = Some (InterpError_to_string e) \<rparr>)" for used
    using assms(6-8) by (cases e) (simp_all add: outcome_of_def)
  show ?thesis
    using assms(1-4) run out
    by (simp add: call_contract_def interp_runtime_def ensure_loaded_def interp_is_loaded_def contains_key_def interp_execute_contract_def
        take_events_def call_result_def Let_def)
qed

text \<open>A contract with one exported function that writes to storage, emits an event and then executes an
  unreachable instruction.\<close>
definition trap_module :: WasmModule where
  "trap_module = \<lparr> wm_types = [\<lparr> ft_params = [T_I32, T_I32, T_I32, T_I32], ft_results = [] \<rparr>, \<lparr> ft_params = [], ft_results = [] \<rparr>],
     wm_imports = [\<lparr> im_module = ''env'', im_name = ''storage_write'', im_type_idx = 0 \<rparr>,
       \<lparr> im_module = ''env'', im_name = ''emit_event'', im_type_idx = 0 \<rparr>],
     wm_functions = [\<lparr> wf_type_idx = 1, wf_locals = [],
       wf_code = [0x41, 0, 0x41, 0, 0x41, 0, 0x41, 0, 0x10, 0, 0x41, 0, 0x41, 0, 0x41, 0, 0x41, 0, 0x10, 1, 0x00, 0x0B] \<rparr>],
     wm_globals = [], wm_exports = [\<lparr> ex_name = ''f'', ex_kind = EK_Function, ex_index = 2 \<rparr>], wm_import_func_count = 2,
     wm_memory_min_pages = 0, wm_data_segments = [] \<rparr>"

lemma leb128_zero_signed: "rd_pos r < length (rd_data r) \<Longrightarrow> rd_data r ! rd_pos r = 0 \<Longrightarrow> read_i32_leb128 r = (Ok 0, r\<lparr>rd_pos := rd_pos r + 1\<rparr>)"
  by (simp add: read_i32_leb128_def read_signed_loop.simps read_byte_def)

lemma leb128_small: "rd_pos r < length (rd_data r) \<Longrightarrow> rd_data r ! rd_pos r = 0 \<Longrightarrow> read_u32_leb128 r = (Ok 0, r\<lparr>rd_pos := rd_pos r + 1\<rparr>)"
 "rd_pos r < length (rd_data r) \<Longrightarrow> rd_data r ! rd_pos r = 1 \<Longrightarrow> read_u32_leb128 r = (Ok 1, r\<lparr>rd_pos := rd_pos r + 1\<rparr>)"
  by (simp_all add: read_u32_leb128_def read_u32_loop.simps read_byte_def)


lemma step_const:
  assumes "rd_pos (vm_reader s) + 1 < length (rd_data (vm_reader s))" "rd_data (vm_reader s) ! rd_pos (vm_reader s) = 0x41"
    "rd_data (vm_reader s) ! Suc (rd_pos (vm_reader s)) = 0" "charge_arithmetic (vm_gas s) = (Ok (), g)"
  shows "execute_block (Suc n) fp w p d s = execute_block n fp w p d
    (s\<lparr>vm_gas := g, vm_reader := (vm_reader s)\<lparr>rd_pos := rd_pos (vm_reader s) + 2\<rparr>, vm_stack := V_I32 0 # vm_stack s\<rparr>)"
proof -
  have t: "map_of (simple_ops fp) 0x41 = Some (andThen (rd read_i32_leb128) (\<lambda>v. push (V_I32 v)))"
    by (simp add: simple_ops_def table_defs)
  show ?thesis using assms
    by (simp add: execute_block.simps(2) rd_remaining_def saturating_sub_def andThen_def rd_def read_byte_def charge_instr_def pay_def
       execute_instr_def t leb128_zero_signed push_def)
qed


definition trap_state :: "usize \<Rightarrow> Value list \<Rightarrow> u64 \<Rightarrow> HostEnvironment \<Rightarrow> Vm" where
  "trap_state pos st used h = \<lparr> vm_reader = \<lparr> rd_data = wf_code (hd (wm_functions trap_module)), rd_pos = pos \<rparr>, vm_stack = st, vm_locals = [],
     vm_globals = [], vm_memory = [], vm_gas = \<lparr> gas_limit = 1000, gas_used = used, gas_costs = GasCosts_default \<rparr>, vm_host = h \<rparr>"

lemma trap_const:
  assumes "pos \<in> {0, 2, 4, 6, 10, 12, 14, 16}" "used < 1000"
  shows "execute_block (Suc n) fp trap_module p 0 (trap_state pos st used h) =
    execute_block n fp trap_module p 0 (trap_state (pos + 2) (V_I32 0 # st) (used + 1) h)"
proof -
  have "charge_arithmetic (vm_gas (trap_state pos st used h)) = (Ok (), (vm_gas (trap_state pos st used h))\<lparr>gas_used := used + 1\<rparr>)"
    using assms(2) by (simp add: charge_arithmetic_def charge_outcome gas_ok_def MAX_GAS_LIMIT_def trap_state_def GasCosts_default_def)
  from step_const [OF _ _ _ this, of n fp trap_module p 0] show ?thesis using assms(1)
    by (auto simp: trap_state_def trap_module_def)
qed

lemma trap_call0:
  "used \<le> 800 \<Longrightarrow> execute_block (Suc n) fp trap_module p 0 (trap_state 8 [V_I32 0, V_I32 0, V_I32 0, V_I32 0] used h) =
    execute_block n fp trap_module p 0 (trap_state 10 [] (101 + used) (storage_write h (replicate 32 0) []))"
    by (simp add: execute_block.simps(2) rd_remaining_def saturating_sub_def andThen_def rd_def read_byte_def charge_instr_def pay_def
       execute_instr_def leb128_small trap_state_def trap_module_def charge_arithmetic_def charge_outcome gas_ok_def MAX_GAS_LIMIT_def
       call_instr_def call_type_def nth_get_def execute_function_def dispatch_host_call_def MAX_CALL_DEPTH_def GasCosts_default_def
       charge_host_call_def host_call_cost_def check_permission_def permitted_def map_err_def host_function_def host_storage_write_def
       arg_i32_def storage_key_def Let_def)

lemma trap_call1:
  "used \<le> 800 \<Longrightarrow> execute_block (Suc n) fp trap_module p 0 (trap_state 18 [V_I32 0, V_I32 0, V_I32 0, V_I32 0] used h) =
    execute_block n fp trap_module p 0 (trap_state 20 [] (101 + used) (emit_event h (Address (replicate 32 0)) [] []))"
    by (simp add: execute_block.simps(2) rd_remaining_def saturating_sub_def andThen_def rd_def read_byte_def charge_instr_def pay_def
       execute_instr_def leb128_small trap_state_def trap_module_def charge_arithmetic_def charge_outcome gas_ok_def MAX_GAS_LIMIT_def
       call_instr_def call_type_def nth_get_def execute_function_def dispatch_host_call_def MAX_CALL_DEPTH_def GasCosts_default_def
       charge_host_call_def host_call_cost_def check_permission_def permitted_def map_err_def host_function_def host_emit_event_def
       read_string_from_memory_def from_utf8_def arg_i32_def Let_def)


lemma trap_end: "used < 1000 \<Longrightarrow> execute_block (Suc n) fp trap_module p 0 (trap_state 20 st used h) =
    (Err (IE_HostError ''unreachable executed''), trap_state 21 st (Suc used) h)"
  by (simp add: execute_block.simps(2) rd_remaining_def saturating_sub_def andThen_def rd_def read_byte_def charge_instr_def pay_def
       execute_instr_def trap_state_def trap_module_def charge_arithmetic_def charge_outcome gas_ok_def MAX_GAS_LIMIT_def GasCosts_default_def)

lemma trap_consts:
  assumes "pos = 0 \<or> pos = 10" "used \<le> 900"
  shows "execute_block (Suc (Suc (Suc (Suc n)))) fp trap_module p 0 (trap_state pos [] used h) =
    execute_block n fp trap_module p 0 (trap_state (pos + 8) [V_I32 0, V_I32 0, V_I32 0, V_I32 0] (used + 4) h)"
  using assms by (elim disjE) (simp_all add: trap_const eval_nat_numeral)

lemma trap_run:
  "\<exists>n. execute_block n fp trap_module p 0 (trap_state 0 [] 100 h) = (Err (IE_HostError ''unreachable executed''),
     trap_state 21 [] 311 (emit_event (storage_write h (replicate 32 0) []) (Address (replicate 32 0)) [] []))"
proof -
  have "execute_block (Suc (Suc (Suc (Suc (Suc (Suc (Suc (Suc (Suc (Suc (Suc 0))))))))))) fp trap_module p 0 (trap_state 0 [] 100 h) =
    (Err (IE_HostError ''unreachable executed''),
     trap_state 21 [] 311 (emit_event (storage_write h (replicate 32 0) []) (Address (replicate 32 0)) [] []))"
    by (simp add: trap_consts trap_call0 trap_call1 trap_end)
  then show ?thesis by blast
qed

theorem failed_call_keeps_effects_witness:
  "\<forall>fp hex sha256. \<exists>res v' h'. call_contract hex (interp_runtime sha256 fp hex) (sample_vm trap_module) sample_call
       (HostEnvironment_new 1 1 (Address []) 0) = Some (Ok res, v', h')
     \<and> \<not> er_success res \<and> length (er_events res) = 1 \<and> storage_read h' (replicate 32 0) = Some []"
proof (intro allI)
  fix fp hex sha256
  let ?c = "\<lparr> dc_address = Address [1], dc_bytecode_hash = [], dc_bytecode = [], dc_permissions = ContractPermissions_default \<rparr>"
  let ?lc = "\<lparr> lc_module = trap_module, lc_globals = [], lc_memory = [], lc_bytecode_hash = [] \<rparr>"
  let ?g = "\<lparr> gas_limit = 1000, gas_used = 100, gas_costs = GasCosts_default \<rparr>" and ?h = "HostEnvironment_new 1 1 (Address []) 0"
  let ?ex = "\<lparr> ex_name = ''f'', ex_kind = EK_Function, ex_index = 2 \<rparr>" and ?p = "dc_permissions ?c"
  let ?t = "trap_state 21 [] 311 (emit_event (storage_write ?h (replicate 32 0) []) (Address (replicate 32 0)) [] [])"
  obtain n where n: "execute_block n fp trap_module ?p 0 (trap_state 0 [] 100 ?h) = (Err (IE_HostError ''unreachable executed''), ?t)"
    using trap_run by blast
  have frame: "callee_frame \<lparr> ft_params = [], ft_results = [] \<rparr> (hd (wm_functions trap_module)) [] (start_state ?lc ?g ?h) = trap_state 0 [] 100 ?h"
    by (simp add: callee_frame_def start_state_def trap_state_def initial_locals_def trap_module_def Reader_new_def)
  have run: "execute_function (lc_module ?lc) ?p (execute_block n fp (lc_module ?lc) ?p) 0 (ex_index ?ex)
      (map contract_value_to_value []) (start_state ?lc ?g ?h)
      = (Err (IE_HostError ''unreachable executed''), caller_frame (start_state ?lc ?g ?h) ?t)"
    using execute_function_internal [where body = "execute_block n fp trap_module ?p" and depth = 0 and i = 2 and wmod = trap_module
        and func = "hd (wm_functions trap_module)" and ft = "\<lparr> ft_params = [], ft_results = [] \<rparr>" and args = "[]"
        and s = "start_state ?lc ?g ?h" and perms = ?p and r = "Err (IE_HostError ''unreachable executed'')" and t = ?t] n frame
    by (simp add: MAX_CALL_DEPTH_def trap_module_def nth_get_def returns_def)
  have "map_of (gv_contracts (sample_vm trap_module)) (Address [1]) = Some ?c" "map_of (ir_contracts (gv_runtime (sample_vm trap_module))) (Address [1]) = Some ?lc"
    "find_export (lc_module ?lc) ''f'' = Some ?ex" "charge_host_call (GasMeter_new 1000) ''base_call'' = (Ok (), ?g)"
    by (simp_all add: sample_vm_def find_export_def trap_module_def charge_host_call_def charge_outcome GasMeter_new_def host_call_cost_def
        GasCosts_default_def gas_ok_def MAX_GAS_LIMIT_def)
  from failed_call_keeps_effects [OF this run, of hex sha256 "Address []"]
  obtain res v' where "call_contract hex (interp_runtime sha256 fp hex) (sample_vm trap_module) sample_call ?h
      = Some (Ok res, v', (vm_host (caller_frame (start_state ?lc ?g ?h) ?t))\<lparr>he_events := []\<rparr>)"
    "\<not> er_success res" "er_events res = he_events (vm_host (caller_frame (start_state ?lc ?g ?h) ?t))"
    unfolding sample_call_def by auto
  then show "\<exists>res v' h'. call_contract hex (interp_runtime sha256 fp hex) (sample_vm trap_module) sample_call ?h = Some (Ok res, v', h')
     \<and> \<not> er_success res \<and> length (er_events res) = 1 \<and> storage_read h' (replicate 32 0) = Some []"
    by (auto simp: caller_frame_def trap_state_def emit_event_def storage_write_def storage_read_def HostEnvironment_new_def)
qed

end
