(* ===== verification/Spec2Isabelle.thy ===== *)
theory Spec2Isabelle
  imports Emission Rewards Staking_Runs Governance_Runs Streamlet_Safety State_Properties
    Wallet_Runs Nfc Sharding Committee Zk_Proofs Validation Consensus_Runs Consensus_Sync
    Vm_Calls
begin

text \<open>
  A verification library for the Gratia protocol, a proof-of-life blockchain that runs on phones.

  \<^bold>\<open>The program.\<close> The crates under \<^verbatim>\<open>src/crates\<close> are layered. \<^verbatim>\<open>gratia-core\<close> holds the data types, the
  configuration and the emission schedule. \<^verbatim>\<open>gratia-staking\<close> keeps the stakes of the nodes, caps their
  weight, moves the surplus into the Network Security Pool, slashes offenders and distributes block
  rewards. \<^verbatim>\<open>gratia-governance\<close> runs proposals, votes, polls and emergency proposals. \<^verbatim>\<open>gratia-consensus\<close>
  selects the committee by a verifiable random function, produces and validates blocks, synchronizes
  nodes and finalizes blocks by the Streamlet rule. \<^verbatim>\<open>gratia-state\<close> stores blocks, transactions and
  accounts, applies and reverts blocks, prunes old data and assigns shards. \<^verbatim>\<open>gratia-wallet\<close> builds and
  signs transactions and handles recovery and tap-to-pay. \<^verbatim>\<open>gratia-zk\<close> makes and checks commitments, range
  proofs and shielded transfers. \<^verbatim>\<open>gratia-vm\<close> meters, sandboxes and interprets smart contracts.

  \<^bold>\<open>Conventions.\<close> Unsigned integers are natural numbers; every operation of the source that can wrap
  or saturate is written with its width (\<open>add_u64\<close>, \<open>saturating_add_u64\<close>, \<open>checked_add_u64\<close> of
  \<^verbatim>\<open>Gratia_Prelude\<close>). A \<^verbatim>\<open>HashMap\<close> is an association list with distinct keys, a \<^verbatim>\<open>BTreeMap\<close> a sorted one
  (\<^verbatim>\<open>Sorted_Maps\<close>), a \<^verbatim>\<open>HashSet\<close> a list without duplicates, a byte string a list of numbers. A method
  that can fail returns \<open>Ok\<close> or \<open>Err\<close> beside the new state; a panic is \<open>None\<close>. SHA-256, \<^verbatim>\<open>bincode\<close>,
  the clock, the curve check of public keys and the distance test of locations are arguments of the
  definitions that use them, and what is assumed of them is a hypothesis of the property: outputs of
  32 bytes, a decoder that inverts its encoder, no collision among the inputs concerned.

  \<^bold>\<open>Theories and sources.\<close>
  \<^item> \<^verbatim>\<open>Gratia_Prelude\<close>: integers, results, maps, and the interfaces shared by the components: operations
    that keep an invariant, that never decrease a measure, that refine a specification, and ballot
    boxes that accept one vote per voter.
  \<^item> \<^verbatim>\<open>Core_Types\<close>, \<^verbatim>\<open>Emission\<close>: \<^verbatim>\<open>gratia-core/src/types.rs\<close>, \<^verbatim>\<open>config.rs\<close>, \<^verbatim>\<open>emission.rs\<close>.
  \<^item> \<^verbatim>\<open>Security_Pool\<close>, \<^verbatim>\<open>Slashing\<close>, \<^verbatim>\<open>Rewards\<close>, \<^verbatim>\<open>Staking\<close>, \<^verbatim>\<open>Staking_Runs\<close>: \<^verbatim>\<open>gratia-staking/src\<close>; the
    last one follows the manager through arbitrary sequences of calls.
  \<^item> \<^verbatim>\<open>Proposals\<close>, \<^verbatim>\<open>Voting\<close>, \<^verbatim>\<open>Polling\<close>, \<^verbatim>\<open>Governance\<close>, \<^verbatim>\<open>Governance_Runs\<close>: \<^verbatim>\<open>gratia-governance/src\<close>.
  \<^item> \<^verbatim>\<open>Streamlet\<close>, \<^verbatim>\<open>Streamlet_Safety\<close>: \<^verbatim>\<open>gratia-consensus/src/streamlet.rs\<close>.
  \<^item> \<^verbatim>\<open>Vrf\<close>, \<^verbatim>\<open>Committee\<close>, \<^verbatim>\<open>Block_Production\<close>, \<^verbatim>\<open>Validation\<close>, \<^verbatim>\<open>Consensus_Engine\<close>, \<^verbatim>\<open>Consensus_Runs\<close>,
    \<^verbatim>\<open>Consensus_Sync\<close>: \<^verbatim>\<open>gratia-consensus/src/vrf.rs\<close>, \<^verbatim>\<open>committee.rs\<close>, \<^verbatim>\<open>block_production.rs\<close>, \<^verbatim>\<open>validation.rs\<close>,
    \<^verbatim>\<open>lib.rs\<close>, \<^verbatim>\<open>sync.rs\<close>.
  \<^item> \<^verbatim>\<open>Core_Crypto\<close>, \<^verbatim>\<open>Mempool\<close>: \<^verbatim>\<open>gratia-core/src/crypto.rs\<close>, \<^verbatim>\<open>mempool.rs\<close>.
  \<^item> \<^verbatim>\<open>Merkle\<close>, \<^verbatim>\<open>Storage\<close>, \<^verbatim>\<open>Pruning\<close>, \<^verbatim>\<open>State_Manager\<close>, \<^verbatim>\<open>Ledger\<close>, \<^verbatim>\<open>State_Properties\<close>, \<^verbatim>\<open>Sharding\<close>:
    \<^verbatim>\<open>gratia-state/src/merkle.rs\<close>, \<^verbatim>\<open>db.rs\<close>, \<^verbatim>\<open>pruning.rs\<close>, \<^verbatim>\<open>lib.rs\<close>, \<^verbatim>\<open>sharding.rs\<close>.
  \<^item> \<^verbatim>\<open>Recovery\<close>, \<^verbatim>\<open>Wallet\<close>, \<^verbatim>\<open>Wallet_Runs\<close>, \<^verbatim>\<open>Nfc\<close>: \<^verbatim>\<open>gratia-wallet/src\<close>.
  \<^item> \<^verbatim>\<open>Zk_Proofs\<close>: \<^verbatim>\<open>gratia-zk/src/bulletproofs.rs\<close>, \<^verbatim>\<open>pedersen.rs\<close>, \<^verbatim>\<open>shielded_tx.rs\<close>.
  \<^item> \<^verbatim>\<open>Vm_Host\<close>: \<^verbatim>\<open>gratia-vm/src/gas.rs\<close>, \<^verbatim>\<open>sandbox.rs\<close>, \<^verbatim>\<open>host_functions.rs\<close>; \<^verbatim>\<open>Wasm_Module\<close>, \<^verbatim>\<open>Wasm_Interp\<close>: the
    parser and the execution engine of \<^verbatim>\<open>interpreter.rs\<close>; \<^verbatim>\<open>Wasm_Safety\<close>: what every instruction keeps of
    the machine; \<^verbatim>\<open>Wasm_Gas\<close>: gas bounds the execution; \<^verbatim>\<open>Wasm_Runs\<close>: more fuel changes nothing, and no
    execution panics; \<^verbatim>\<open>Wasm_Privacy\<close>: data behind a missing permission has no influence; \<^verbatim>\<open>Vm_Runtime\<close>:
    the runtimes of \<^verbatim>\<open>runtime.rs\<close> and \<^verbatim>\<open>interpreter.rs\<close> and the virtual machine of \<^verbatim>\<open>lib.rs\<close>; \<^verbatim>\<open>Vm_Calls\<close>: the
    interface between them, provided by the mock runtime and the interpreter, and what calls guarantee.

  \<^bold>\<open>What is shown.\<close> The emission never reaches the mining supply. Every run of the staking manager
  implements a ledger of commitments; a part of a commitment that is withdrawn is paid out after the
  cooldown, the whole never is; slashes, yields and rewards are split without loss. A proposal is
  executed only when carried by recorded votes of distinct nodes, along its life cycle. After any
  calls, restores included, a Streamlet vote finalizes exactly by the rule of three notarized heights
  below the tip, whatever the parents of the blocks are, and one epoch notarizes one block. A committee
  with more than one signing key finalizes only by a verified quorum; the bootstrap mode is outside that
  statement. A node that synchronizes reaches the tip. A block is applied exactly when all its
  transactions are acceptable in turn, costs exactly its fees, and is undone by a revert. Pruning
  deletes exactly the indexed blocks below its window. Merkle proofs are complete, and sound up to
  collisions. A daily attestation is proved exactly by phones that meet the encoded minimums; a
  shielded transfer is accepted exactly against the commitment under the sum of its own blinding
  factors. Every call of a deployed contract returns within its gas, and learns nothing it has no
  permission for. The theorems of kind error pin down where the code departs from its documentation.

  \<^bold>\<open>Bounds and fuel.\<close> Loops over ranges and collections are structural recursions; the loops of the
  Merkle builder, the LEB128 readers, the section parser and the block skipper have termination
  proofs. Only the WASM engine takes fuel, since a contract may loop: \<^verbatim>\<open>Wasm_Gas\<close> shows that fuel beyond
  (gas left) * (longest code + 1) + (bytes to read) never runs out, because every instruction that
  jumps or calls costs gas; the runtime of \<^verbatim>\<open>Vm_Runtime\<close> hands the engine that much. Memory allocation
  and the native stack, which the nesting of blocks uses, are taken to suffice.

  \<^bold>\<open>Not modelled.\<close> The RocksDB and wasmer back ends, file persistence, networking, the foreign
  function interface and the curves themselves call external libraries or the operating system;
  floating-point heuristics (behavioural anomaly detection, clustering) have no exact counterpart
  here, and the contract compiler, the Lux feed and the Groth16 circuits are outside the library.
  Log output is left out.
\<close>

end
